(* ===== verification/Prelude.thy ===== *)
theory Prelude
  imports Complex_Main "HOL-Library.AList"
begin

text \<open>
  Shared vocabulary of the development: the Python values the modelled modules read from
  untyped records, Python's \<open>round\<close> and \<open>max\<close>/\<open>min\<close> with an absent operand, and the
  collections of facts the component theories feed to the simplifier.

  Numbers.  Python's integers are unbounded and are modelled as \<open>int\<close>.  Python's \<open>float\<close>
  and \<open>Decimal\<close> amounts (seconds, dollars) are modelled as exact rationals (\<open>rat\<close>); the
  non-finite floats are values of their own (\<open>PosInf\<close>, \<open>NegInf\<close>, \<open>NaN\<close>), because the
  code tests for them.  Binary rounding of float arithmetic is not modelled.

  Effects.  An operation that may raise after it has changed its object is a function
  from a state to a pair of a result (\<open>Inl\<close> the exception, \<open>Inr\<close> the value) and the state the
  object is left in, because in Python the changes made before a \<open>raise\<close> persist.
\<close>

named_theorems mono_facts \<open>operations only ever increase what they record\<close>
named_theorems inv_facts \<open>operations preserve a component's invariant\<close>

section \<open>Untyped Python values\<close>

datatype pyfloat = Finite rat | PosInf | NegInf | NaN

datatype pyval =
    PNone
  | PBool bool
  | PInt int
  | PFloat pyfloat
  | PStr string
  | PObject

section \<open>Python's round to a number of decimals\<close>

text \<open>\<open>round(x, n)\<close> rounds half to even.\<close>

definition round_half_even :: "rat \<Rightarrow> int" where
  "round_half_even x =
     (let f = \<lfloor>x\<rfloor>; d = x - of_int f
      in if d < 1/2 then f else if 1/2 < d then f + 1 else if even f then f else f + 1)"

definition py_round :: "nat \<Rightarrow> rat \<Rightarrow> rat" where
  "py_round n x = of_int (round_half_even (x * 10 ^ n)) / 10 ^ n"

lemma round_half_even_bounds: "\<lfloor>x\<rfloor> \<le> round_half_even x \<and> round_half_even x \<le> \<lfloor>x\<rfloor> + 1"
  by (simp add: round_half_even_def Let_def)

lemma round_half_even_mono:
  assumes "x \<le> y" shows "round_half_even x \<le> round_half_even y"
proof (cases "\<lfloor>x\<rfloor> = \<lfloor>y\<rfloor>")
  case True
  with assms show ?thesis by (auto simp: round_half_even_def Let_def)
next
  case False
  with floor_mono [OF assms] have "\<lfloor>x\<rfloor> + 1 \<le> \<lfloor>y\<rfloor>" by linarith
  then show ?thesis using round_half_even_bounds [of x] round_half_even_bounds [of y] by linarith
qed

lemma py_round_mono [mono_facts]: "x \<le> y \<Longrightarrow> py_round n x \<le> py_round n y"
  unfolding py_round_def
  by (intro divide_right_mono) (auto intro!: round_half_even_mono mult_right_mono)

lemma round_half_even_of_int [simp]: "round_half_even (of_int k) = k"
  by (simp add: round_half_even_def)

lemma py_round_0 [simp]: "py_round n 0 = 0"
  using round_half_even_of_int [of 0] by (simp add: py_round_def)

lemma py_round_nonneg: "0 \<le> x \<Longrightarrow> 0 \<le> py_round n x"
  using py_round_mono [of 0 x n] by simp

text \<open>\<open>int(x)\<close> of a finite float truncates towards zero.\<close>

definition trunc_rat :: "rat \<Rightarrow> int" where
  "trunc_rat r = (if 0 \<le> r then \<lfloor>r\<rfloor> else \<lceil>r\<rceil>)"

section \<open>Optional limits\<close>

text \<open>\<open>limit is not None and used > limit\<close> and its relatives.\<close>

definition over :: "'a::linorder option \<Rightarrow> 'a \<Rightarrow> bool" where
  "over limit used = (case limit of None \<Rightarrow> False | Some l \<Rightarrow> l < used)"

definition at_least :: "'a::linorder option \<Rightarrow> 'a \<Rightarrow> bool" where
  "at_least limit used = (case limit of None \<Rightarrow> False | Some l \<Rightarrow> l \<le> used)"

lemma over_simps [simp]: "over None x = False" "over (Some l) x = (l < x)"
  by (simp_all add: over_def)

lemma at_least_simps [simp]: "at_least None x = False" "at_least (Some l) x = (l \<le> x)"
  by (simp_all add: at_least_def)

definition fits :: "'a::linorder option \<Rightarrow> 'a \<Rightarrow> bool" where
  "fits limit used = (\<forall>l. limit = Some l \<longrightarrow> used \<le> l)"

lemma fits_simps [simp]: "fits None x" "fits (Some l) x = (x \<le> l)"
  by (simp_all add: fits_def)

lemma not_over: "(\<not> over limit x) = fits limit x"
  by (cases limit) auto

lemma fits_mono: "fits limit y \<Longrightarrow> x \<le> y \<Longrightarrow> fits limit x"
  by (cases limit) auto

text \<open>\<open>a if b is None else min(a, b)\<close>.\<close>

definition min_opt :: "'a::linorder option \<Rightarrow> 'a \<Rightarrow> 'a" where
  "min_opt b a = (case b of None \<Rightarrow> a | Some b' \<Rightarrow> min b' a)"

lemma min_opt_simps [simp]: "min_opt None a = a" "min_opt (Some b) a = min b a"
  by (simp_all add: min_opt_def)

section \<open>Association lists as Python dictionaries\<close>

text \<open>\<open>d.pop(k, None)\<close> leaves \<open>AList.delete k d\<close>; \<open>d[k] = v\<close> on a fresh key appends.\<close>

abbreviation keys :: "('k \<times> 'v) list \<Rightarrow> 'k set" where
  "keys d \<equiv> fst ` set d"

definition dict_wf :: "('k \<times> 'v) list \<Rightarrow> bool" where
  "dict_wf d = distinct (map fst d)"

definition dsum :: "('v \<Rightarrow> 'n::comm_monoid_add) \<Rightarrow> ('k \<times> 'v) list \<Rightarrow> 'n" where
  "dsum f d = (\<Sum>p\<leftarrow>d. f (snd p))"

lemma dsum_Nil [simp]: "dsum f [] = 0"
  by (simp add: dsum_def)

lemma dsum_append [simp]: "dsum f (d @ e) = dsum f d + dsum f e"
  by (simp add: dsum_def)

lemma dsum_Cons [simp]: "dsum f (p # d) = f (snd p) + dsum f d"
  by (simp add: dsum_def)

lemma dsum_id [simp]: "dsum (\<lambda>a. a) d = dsum id d"
  by (simp add: dsum_def)

lemma dict_wf_delete [simp]: "dict_wf d \<Longrightarrow> dict_wf (AList.delete k d)"
  by (simp add: dict_wf_def distinct_delete)

lemma dict_wf_snoc [simp]: "dict_wf (d @ [(k, v)]) = (dict_wf d \<and> k \<notin> keys d)"
  by (auto simp: dict_wf_def)

lemma keys_delete [simp]: "keys (AList.delete k d) = keys d - {k}"
  by (induction d) auto

lemma delete_notin: "k \<notin> keys d \<Longrightarrow> AList.delete k d = d"
  by (induction d) auto

lemma dsum_delete:
  fixes f :: "'v \<Rightarrow> 'n::ab_group_add"
  assumes "dict_wf d" and "map_of d k = Some v"
  shows "dsum f (AList.delete k d) = dsum f d - f v"
  using assms
proof (induction d)
  case Nil
  then show ?case by simp
next
  case (Cons p d)
  show ?case
  proof (cases "fst p = k")
    case True
    with Cons.prems have "k \<notin> keys d" and "snd p = v" by (auto simp: dict_wf_def)
    with True show ?thesis by (simp add: delete_notin case_prod_unfold)
  next
    case False
    with Cons show ?thesis by (auto simp: dict_wf_def)
  qed
qed

lemma dsum_nonneg:
  fixes f :: "'v \<Rightarrow> 'n::ordered_comm_monoid_add"
  shows "(\<And>v. 0 \<le> f v) \<Longrightarrow> 0 \<le> dsum f d"
  by (induction d) auto

lemma dsum_nonneg_on:
  fixes f :: "'v \<Rightarrow> 'n::ordered_comm_monoid_add"
  shows "(\<And>p. p \<in> set d \<Longrightarrow> 0 \<le> f (snd p)) \<Longrightarrow> 0 \<le> dsum f d"
  by (induction d) auto

section \<open>Strings\<close>

text \<open>
  A Python string is modelled by a \<open>string\<close> whose characters are code points below 256.
  \<open>str.strip\<close>, \<open>str.lower\<close> and \<open>str.split\<close> are written out for them.
\<close>

definition is_space :: "char \<Rightarrow> bool" where
  "is_space c = (let n = (of_char c :: nat) in
     (9 \<le> n \<and> n \<le> 13) \<or> (28 \<le> n \<and> n \<le> 32) \<or> n = 133 \<or> n = 160)"

definition py_strip :: "string \<Rightarrow> string" where
  "py_strip s = rev (dropWhile is_space (rev (dropWhile is_space s)))"

definition lower_char :: "char \<Rightarrow> char" where
  "lower_char c = (let n = (of_char c :: nat) in
     if (65 \<le> n \<and> n \<le> 90) \<or> (192 \<le> n \<and> n \<le> 222 \<and> n \<noteq> 215) then char_of (n + 32) else c)"

definition py_lower :: "string \<Rightarrow> string" where
  "py_lower s = map lower_char s"

fun py_split :: "char \<Rightarrow> string \<Rightarrow> string list" where
  "py_split c [] = [[]]"
| "py_split c (x # xs) =
     (if x = c then [] # py_split c xs
      else (case py_split c xs of [] \<Rightarrow> [[x]] | w # ws \<Rightarrow> (x # w) # ws))"

text \<open>\<open>needle in haystack\<close> for strings.\<close>

fun contains_text :: "string \<Rightarrow> string \<Rightarrow> bool" where
  "contains_text needle [] = (needle = [])"
| "contains_text needle (c # cs) = (take (length needle) (c # cs) = needle \<or> contains_text needle cs)"

text \<open>\<open>" ".join(s.split())\<close>: runs of white space become one space, and the ends are stripped.\<close>

fun squeeze_spaces :: "bool \<Rightarrow> string \<Rightarrow> string" where
  "squeeze_spaces pending [] = []"
| "squeeze_spaces pending (c # cs) =
     (if is_space c then squeeze_spaces True cs
      else (if pending then [CHR '' '', c] else [c]) @ squeeze_spaces False cs)"

definition normalize_spaces :: "string \<Rightarrow> string" where
  "normalize_spaces s = squeeze_spaces False (dropWhile is_space s)"

text \<open>\<open>str.isprintable\<close> of one character.\<close>

definition is_printable :: "char \<Rightarrow> bool" where
  "is_printable c = (let n = (of_char c :: nat) in
     (32 \<le> n \<and> n \<le> 126) \<or> (161 \<le> n \<and> n \<noteq> 173))"

text \<open>\<open>int(s)\<close> on text: surrounding space, an optional sign, digits with single underscores
  between them; anything else is a \<open>ValueError\<close> (\<open>None\<close>).\<close>

definition digit_value :: "char \<Rightarrow> int option" where
  "digit_value c = (let n = (of_char c :: nat) in
     if 48 \<le> n \<and> n \<le> 57 then Some (int n - 48) else None)"

fun int_digits :: "bool \<Rightarrow> int \<Rightarrow> string \<Rightarrow> int option" where
  "int_digits after_digit acc [] = (if after_digit then Some acc else None)"
| "int_digits after_digit acc (c # cs) =
     (if c = CHR ''_'' then (if after_digit \<and> cs \<noteq> [] then int_digits False acc cs else None)
      else (case digit_value c of None \<Rightarrow> None | Some d \<Rightarrow> int_digits True (10 * acc + d) cs))"

definition py_int :: "string \<Rightarrow> int option" where
  "py_int s =
     (case py_strip s of
        [] \<Rightarrow> None
      | c # cs \<Rightarrow>
          if c = CHR ''-'' then map_option uminus (int_digits False 0 cs)
          else if c = CHR ''+'' then int_digits False 0 cs
          else int_digits False 0 (c # cs))"

section \<open>Results\<close>

text \<open>Evaluation that stops at the first exception.\<close>

definition res_bind :: "'e + 'a \<Rightarrow> ('a \<Rightarrow> 'e + 'b) \<Rightarrow> 'e + 'b" where
  "res_bind r f = (case r of Inl e \<Rightarrow> Inl e | Inr x \<Rightarrow> f x)"

lemma res_bind_simps [simp]: "res_bind (Inl e) f = Inl e" "res_bind (Inr x) f = f x"
  by (simp_all add: res_bind_def)

lemma res_bind_Inr: "res_bind r f = Inr y \<longleftrightarrow> (\<exists>x. r = Inr x \<and> f x = Inr y)"
  by (cases r) auto

lemma py_int_example: "py_int '' 1_000 '' = Some 1000"
  by (simp add: py_int_def py_strip_def is_space_def digit_value_def)

end
