(* ===== verification/Usage_Ledger.thy ===== *)
theory Usage_Ledger
  imports Prelude "HOL-Library.Option_ord"
begin

text \<open>
  \<open>backend/execution_usage.py\<close>: the one cumulative usage record of a run, its fail-closed
  parser, the component-wise maximum a resuming worker restores from, the public projection,
  the monotonicity test and the remaining-capacity view.

  A raw record is a Python dictionary from strings to untyped values; its keys are modelled by
  \<open>usage_field\<close>, one constructor per key the module names and \<open>Unknown_field\<close> for any other
  string.  A parsed record keeps integers and amounts apart (\<open>counts\<close>, \<open>amounts\<close>), as the
  parser does.
\<close>

section \<open>Dimensions\<close>

datatype usage_field =
    Model_calls | Provider_attempts | Provider_failures | Input_tokens | Output_tokens
  | Retries | Provider_backpressure_events | Agent_steps | Tool_calls | Tasks_completed
  | Tasks_failed | Search_invocations | Replans | Correction_rounds | Cached_input_tokens
  | Cache_write_tokens | Reasoning_tokens | Reasoning_tokens_estimated
  | Reasoning_estimated_calls | Answer_tokens
  | Estimated_cost | Actual_cost | Search_cost | Elapsed_seconds
  | Total_tokens | Ledger_version | Schema_version
  | Unknown_field string

definition LEDGER_SCHEMA_VERSION :: int where
  "LEDGER_SCHEMA_VERSION = 2"

definition LEDGER_COUNTERS :: "usage_field list" where
  "LEDGER_COUNTERS =
     [Model_calls, Provider_attempts, Provider_failures, Input_tokens, Output_tokens,
      Retries, Provider_backpressure_events, Agent_steps, Tool_calls, Tasks_completed,
      Tasks_failed, Search_invocations, Replans, Correction_rounds, Cached_input_tokens,
      Cache_write_tokens, Reasoning_tokens, Reasoning_tokens_estimated,
      Reasoning_estimated_calls, Answer_tokens]"

definition LEDGER_AMOUNTS :: "usage_field list" where
  "LEDGER_AMOUNTS = [Estimated_cost, Actual_cost, Search_cost, Elapsed_seconds]"

definition LEDGER_DERIVED :: "usage_field list" where
  "LEDGER_DERIVED = [Total_tokens]"

definition LEDGER_METADATA :: "usage_field list" where
  "LEDGER_METADATA = [Ledger_version, Schema_version]"

definition LEDGER_SNAPSHOT_FIELDS :: "usage_field list" where
  "LEDGER_SNAPSHOT_FIELDS = LEDGER_COUNTERS @ LEDGER_AMOUNTS @ LEDGER_DERIVED @ LEDGER_METADATA"

definition PUBLIC_USAGE_FIELDS :: "usage_field list" where
  "PUBLIC_USAGE_FIELDS =
     [Model_calls, Input_tokens, Output_tokens, Total_tokens, Estimated_cost, Actual_cost,
      Retries, Provider_backpressure_events, Agent_steps, Elapsed_seconds,
      Cached_input_tokens, Cache_write_tokens, Reasoning_tokens,
      Reasoning_tokens_estimated, Reasoning_estimated_calls, Answer_tokens]"

lemmas field_list_defs =
  LEDGER_COUNTERS_def LEDGER_AMOUNTS_def LEDGER_DERIVED_def LEDGER_METADATA_def
  LEDGER_SNAPSHOT_FIELDS_def PUBLIC_USAGE_FIELDS_def

section \<open>Parsing one record, fail closed\<close>

datatype ledger_error =
    Not_an_object | Unknown_fields | Invalid_counter | Invalid_amount | Inconsistent_total
  | Tracker_not_fresh

text \<open>What a caller hands in: a mapping or anything else.\<close>

datatype snapshot = Not_mapping | Mapping "(usage_field \<times> pyval) list"

record usage =
  counts :: "usage_field \<rightharpoonup> int"
  amounts :: "usage_field \<rightharpoonup> rat"

definition empty_usage :: usage where
  "empty_usage = \<lparr>counts = Map.empty, amounts = Map.empty\<rparr>"

definition counter_value :: "pyval \<Rightarrow> ledger_error + int" where
  "counter_value v =
     (case v of PInt n \<Rightarrow> (if n < 0 then Inl Invalid_counter else Inr n)
              | _ \<Rightarrow> Inl Invalid_counter)"

definition amount_value :: "pyval \<Rightarrow> ledger_error + rat" where
  "amount_value v =
     (case v of
        PInt n \<Rightarrow> (if n < 0 then Inl Invalid_amount else Inr (of_int n))
      | PFloat (Finite r) \<Rightarrow> (if r < 0 then Inl Invalid_amount else Inr r)
      | _ \<Rightarrow> Inl Invalid_amount)"

fun parse_counters ::
  "usage_field list \<Rightarrow> (usage_field \<times> pyval) list \<Rightarrow> usage \<Rightarrow> ledger_error + usage" where
  "parse_counters [] snap p = Inr p"
| "parse_counters (f # fs) snap p =
     (case map_of snap f of
        None \<Rightarrow> parse_counters fs snap p
      | Some v \<Rightarrow>
          (case counter_value v of
             Inl e \<Rightarrow> Inl e
           | Inr n \<Rightarrow> parse_counters fs snap (p\<lparr>counts := (counts p)(f \<mapsto> n)\<rparr>)))"

fun parse_amounts ::
  "usage_field list \<Rightarrow> (usage_field \<times> pyval) list \<Rightarrow> usage \<Rightarrow> ledger_error + usage" where
  "parse_amounts [] snap p = Inr p"
| "parse_amounts (f # fs) snap p =
     (case map_of snap f of
        None \<Rightarrow> parse_amounts fs snap p
      | Some v \<Rightarrow>
          (case amount_value v of
             Inl e \<Rightarrow> Inl e
           | Inr r \<Rightarrow> parse_amounts fs snap (p\<lparr>amounts := (amounts p)(f \<mapsto> r)\<rparr>)))"

definition get_counter :: "(usage_field \<times> pyval) list \<Rightarrow> usage_field \<Rightarrow> ledger_error + int" where
  "get_counter snap f =
     (case map_of snap f of None \<Rightarrow> Inr 0 | Some v \<Rightarrow> counter_value v)"

text \<open>The declared total: absent or \<open>None\<close> is skipped, otherwise it must equal the components.\<close>

definition parse_total :: "(usage_field \<times> pyval) list \<Rightarrow> usage \<Rightarrow> ledger_error + usage" where
  "parse_total snap p =
     (case map_of snap Total_tokens of
        None \<Rightarrow> Inr p
      | Some PNone \<Rightarrow> Inr p
      | Some v \<Rightarrow>
          (case counter_value v of
             Inl e \<Rightarrow> Inl e
           | Inr t \<Rightarrow>
               (case get_counter snap Input_tokens of
                  Inl e \<Rightarrow> Inl e
                | Inr i \<Rightarrow>
                    (case get_counter snap Output_tokens of
                       Inl e \<Rightarrow> Inl e
                     | Inr oo \<Rightarrow>
                         if t \<noteq> i + oo then Inl Inconsistent_total
                         else Inr (p\<lparr>counts := (counts p)(Total_tokens \<mapsto> t)\<rparr>)))))"

definition validate_usage_snapshot :: "snapshot \<Rightarrow> ledger_error + usage" where
  "validate_usage_snapshot s =
     (case s of
        Not_mapping \<Rightarrow> Inl Not_an_object
      | Mapping snap \<Rightarrow>
          (case parse_counters LEDGER_COUNTERS snap empty_usage of
             Inl e \<Rightarrow> Inl e
           | Inr p1 \<Rightarrow>
               (case parse_amounts LEDGER_AMOUNTS snap p1 of
                  Inl e \<Rightarrow> Inl e
                | Inr p2 \<Rightarrow>
                    (case parse_counters LEDGER_METADATA snap p2 of
                       Inl e \<Rightarrow> Inl e
                     | Inr p3 \<Rightarrow> parse_total snap p3))))"

section \<open>The component-wise maximum of durable records\<close>

text \<open>\<open>merged[name] = max(merged.get(name, 0), parsed[name])\<close> for every name the parsed
  record carries.  The derived total is never maximised.\<close>

definition merge_counts ::
  "(usage_field \<rightharpoonup> int) \<Rightarrow> (usage_field \<rightharpoonup> int) \<Rightarrow> (usage_field \<rightharpoonup> int)" where
  "merge_counts m p = (\<lambda>f.
     if f \<in> set (LEDGER_COUNTERS @ LEDGER_METADATA)
     then (case p f of
             None \<Rightarrow> m f
           | Some n \<Rightarrow> Some (max (case m f of None \<Rightarrow> 0 | Some k \<Rightarrow> k) n))
     else m f)"

definition merge_amounts ::
  "(usage_field \<rightharpoonup> rat) \<Rightarrow> (usage_field \<rightharpoonup> rat) \<Rightarrow> (usage_field \<rightharpoonup> rat)" where
  "merge_amounts m p = (\<lambda>f.
     if f \<in> set LEDGER_AMOUNTS
     then (case p f of
             None \<Rightarrow> m f
           | Some r \<Rightarrow> Some (max (case m f of None \<Rightarrow> 0 | Some k \<Rightarrow> k) r))
     else m f)"

definition merge_step :: "usage \<Rightarrow> usage \<Rightarrow> usage" where
  "merge_step m p =
     \<lparr>counts = merge_counts (counts m) (counts p), amounts = merge_amounts (amounts m) (amounts p)\<rparr>"

text \<open>Records that are not mappings, and empty mappings, contribute nothing.\<close>

fun merge_loop :: "snapshot list \<Rightarrow> usage \<Rightarrow> ledger_error + usage" where
  "merge_loop [] m = Inr m"
| "merge_loop (Not_mapping # ss) m = merge_loop ss m"
| "merge_loop (Mapping [] # ss) m = merge_loop ss m"
| "merge_loop (Mapping (kv # snap) # ss) m =
     (case validate_usage_snapshot (Mapping (kv # snap)) of
        Inl e \<Rightarrow> Inl e
      | Inr p \<Rightarrow> merge_loop ss (merge_step m p))"

definition count_of :: "usage \<Rightarrow> usage_field \<Rightarrow> int" where
  "count_of u f = (case counts u f of None \<Rightarrow> 0 | Some n \<Rightarrow> n)"

definition amount_of :: "usage \<Rightarrow> usage_field \<Rightarrow> rat" where
  "amount_of u f = (case amounts u f of None \<Rightarrow> 0 | Some r \<Rightarrow> r)"

definition with_total :: "usage \<Rightarrow> usage" where
  "with_total m =
     (if counts m Input_tokens \<noteq> None \<or> counts m Output_tokens \<noteq> None
      then m\<lparr>counts := (counts m)
             (Total_tokens \<mapsto> count_of m Input_tokens + count_of m Output_tokens)\<rparr>
      else m)"

definition merge_usage_snapshots :: "snapshot list \<Rightarrow> ledger_error + usage" where
  "merge_usage_snapshots ss =
     (case merge_loop ss empty_usage of Inl e \<Rightarrow> Inl e | Inr m \<Rightarrow> Inr (with_total m))"

section \<open>Views of a record\<close>

definition public_usage_projection :: "usage \<Rightarrow> usage" where
  "public_usage_projection u =
     \<lparr>counts = counts u |` set PUBLIC_USAGE_FIELDS, amounts = amounts u |` set PUBLIC_USAGE_FIELDS\<rparr>"

definition usage_is_not_below :: "usage \<Rightarrow> usage \<Rightarrow> bool" where
  "usage_is_not_below after before =
     (list_all (\<lambda>f. case counts before f of None \<Rightarrow> True
                    | Some n \<Rightarrow> n \<le> count_of after f) LEDGER_COUNTERS \<and>
      list_all (\<lambda>f. case amounts before f of None \<Rightarrow> True
                    | Some r \<Rightarrow> r \<le> amount_of after f) LEDGER_AMOUNTS)"

datatype limit_name =
    Max_model_calls_per_run | Max_input_tokens_per_run | Max_output_tokens_per_run
  | Max_total_tokens_per_run | Max_estimated_cost_per_run | Max_cost_per_run
  | Max_run_duration_seconds | Max_agent_steps | Max_retries

definition LIMIT_DIMENSIONS :: "(limit_name \<times> usage_field) list" where
  "LIMIT_DIMENSIONS =
     [(Max_model_calls_per_run, Model_calls), (Max_input_tokens_per_run, Input_tokens),
      (Max_output_tokens_per_run, Output_tokens), (Max_total_tokens_per_run, Total_tokens),
      (Max_estimated_cost_per_run, Estimated_cost), (Max_cost_per_run, Actual_cost),
      (Max_run_duration_seconds, Elapsed_seconds), (Max_agent_steps, Agent_steps),
      (Max_retries, Retries)]"

text \<open>\<open>float(ledger.get(dimension, 0))\<close>, with the total always recomputed.\<close>

definition used_of :: "usage \<Rightarrow> usage_field \<Rightarrow> rat" where
  "used_of u f =
     (if f = Total_tokens then of_int (count_of u Input_tokens + count_of u Output_tokens)
      else if f \<in> set LEDGER_AMOUNTS then amount_of u f
      else of_int (count_of u f))"

definition remaining_capacity ::
  "usage \<Rightarrow> (limit_name \<Rightarrow> rat option) \<Rightarrow> (usage_field \<times> rat option) list" where
  "remaining_capacity u cfg =
     map (\<lambda>(l, f). (f, case cfg l of None \<Rightarrow> None | Some m \<Rightarrow> Some (max 0 (m - used_of u f))))
         LIMIT_DIMENSIONS"

definition ledger_dimensions :: "usage_field list" where
  "ledger_dimensions = LEDGER_COUNTERS @ LEDGER_AMOUNTS"

section \<open>What a parsed record holds\<close>

lemma counter_value_Inr: "counter_value v = Inr n \<longleftrightarrow> v = PInt n \<and> 0 \<le> n"
  by (auto simp: counter_value_def split: pyval.splits)

lemma amount_value_Inr: "amount_value v = Inr r \<Longrightarrow> 0 \<le> r"
  by (auto simp: amount_value_def split: pyval.splits pyfloat.splits if_splits)

lemma parse_counters_amounts: "parse_counters fs snap p = Inr q \<Longrightarrow> amounts q = amounts p"
  by (induction fs arbitrary: p) (auto split: option.splits sum.splits)

lemma parse_amounts_counts: "parse_amounts fs snap p = Inr q \<Longrightarrow> counts q = counts p"
  by (induction fs arbitrary: p) (auto split: option.splits sum.splits)

lemma parse_counters_Inr:
  "parse_counters fs snap p = Inr q \<Longrightarrow>
   counts q f = (if f \<in> set fs \<and> map_of snap f \<noteq> None
                 then (case map_of snap f of Some (PInt n) \<Rightarrow> Some n | _ \<Rightarrow> None)
                 else counts p f)"
proof (induction fs arbitrary: p)
  case Nil
  then show ?case by simp
next
  case (Cons g fs)
  then show ?case
    by (cases "map_of snap g")
       (auto simp: counter_value_Inr split: sum.splits dest!: Cons.IH)
qed

lemma parse_amounts_Inr:
  "parse_amounts fs snap p = Inr q \<Longrightarrow>
   amounts q f = (if f \<in> set fs \<and> map_of snap f \<noteq> None
                  then (case amount_value (the (map_of snap f)) of Inr r \<Rightarrow> Some r | Inl _ \<Rightarrow> None)
                  else amounts p f)"
proof (induction fs arbitrary: p)
  case Nil
  then show ?case by simp
next
  case (Cons g fs)
  then show ?case
    by (cases "map_of snap g") (auto split: sum.splits dest!: Cons.IH)
qed

definition nonneg_usage :: "usage \<Rightarrow> bool" where
  "nonneg_usage u =
     ((\<forall>f n. counts u f = Some n \<longrightarrow> 0 \<le> n) \<and> (\<forall>f r. amounts u f = Some r \<longrightarrow> 0 \<le> r))"

lemma nonneg_empty [simp]: "nonneg_usage empty_usage"
  by (simp add: nonneg_usage_def empty_usage_def)

lemma parse_counters_nonneg:
  "parse_counters fs snap p = Inr q \<Longrightarrow> nonneg_usage p \<Longrightarrow> nonneg_usage q"
proof (induction fs arbitrary: p)
  case Nil
  then show ?case by simp
next
  case (Cons g fs)
  show ?case
  proof (cases "map_of snap g")
    case None
    with Cons show ?thesis by simp
  next
    case (Some v)
    with Cons.prems(1) obtain n where v: "counter_value v = Inr n"
      by (auto split: sum.splits)
    with Cons.prems(2) have "nonneg_usage (p\<lparr>counts := (counts p)(g \<mapsto> n)\<rparr>)"
      by (auto simp: nonneg_usage_def counter_value_Inr)
    with Cons.IH Cons.prems(1) Some v show ?thesis by simp
  qed
qed

lemma parse_amounts_nonneg:
  "parse_amounts fs snap p = Inr q \<Longrightarrow> nonneg_usage p \<Longrightarrow> nonneg_usage q"
proof (induction fs arbitrary: p)
  case Nil
  then show ?case by simp
next
  case (Cons g fs)
  show ?case
  proof (cases "map_of snap g")
    case None
    with Cons show ?thesis by simp
  next
    case (Some v)
    with Cons.prems(1) obtain r where v: "amount_value v = Inr r"
      by (auto split: sum.splits)
    with Cons.prems(2) have "nonneg_usage (p\<lparr>amounts := (amounts p)(g \<mapsto> r)\<rparr>)"
      by (auto simp: nonneg_usage_def dest: amount_value_Inr)
    with Cons.IH Cons.prems(1) Some v show ?thesis by simp
  qed
qed

lemma parse_total_Inr:
  "parse_total snap p = Inr q \<Longrightarrow>
   amounts q = amounts p \<and> (\<forall>f. f \<noteq> Total_tokens \<longrightarrow> counts q f = counts p f) \<and>
   (nonneg_usage p \<longrightarrow> nonneg_usage q)"
  by (auto simp: parse_total_def nonneg_usage_def counter_value_Inr
           split: option.splits pyval.splits sum.splits if_splits)

lemma validate_Inr_stages:
  assumes "validate_usage_snapshot (Mapping snap) = Inr p"
  obtains p1 p2 p3 where "parse_counters LEDGER_COUNTERS snap empty_usage = Inr p1"
    and "parse_amounts LEDGER_AMOUNTS snap p1 = Inr p2"
    and "parse_counters LEDGER_METADATA snap p2 = Inr p3"
    and "parse_total snap p3 = Inr p"
  using assms by (auto simp: validate_usage_snapshot_def split: sum.splits)

lemma validate_nonneg: "validate_usage_snapshot s = Inr p \<Longrightarrow> nonneg_usage p"
proof (cases s)
  case Not_mapping
  then show "validate_usage_snapshot s = Inr p \<Longrightarrow> nonneg_usage p"
    by (simp add: validate_usage_snapshot_def)
next
  case (Mapping snap)
  assume "validate_usage_snapshot s = Inr p"
  with Mapping show ?thesis
    by (metis validate_Inr_stages parse_counters_nonneg parse_amounts_nonneg parse_total_Inr
        nonneg_empty)
qed

text \<open>Every known field a record states is carried, unchanged, by its parse.\<close>

lemma validate_counts:
  assumes v: "validate_usage_snapshot (Mapping snap) = Inr p"
    and f: "f \<in> set (LEDGER_COUNTERS @ LEDGER_METADATA)"
  shows "counts p f = (case map_of snap f of Some (PInt n) \<Rightarrow> Some n | _ \<Rightarrow> None)"
proof -
  obtain p1 p2 p3 where s: "parse_counters LEDGER_COUNTERS snap empty_usage = Inr p1"
      "parse_amounts LEDGER_AMOUNTS snap p1 = Inr p2"
      "parse_counters LEDGER_METADATA snap p2 = Inr p3" "parse_total snap p3 = Inr p"
    by (rule validate_Inr_stages [OF v])
  have "f \<noteq> Total_tokens" using f by (auto simp: field_list_defs)
  then have "counts p f = counts p3 f" using parse_total_Inr [OF s(4)] by simp
  then show ?thesis
    using parse_counters_Inr [OF s(3), of f] parse_counters_Inr [OF s(1), of f]
      parse_amounts_counts [OF s(2)] f
    by (auto simp: empty_usage_def split: option.splits)
qed

section \<open>The merge is a finite maximum\<close>

text \<open>
  On non-negative records one merge step is the maximum of the two optional values, with an
  absent value below every present one (the order of \<open>HOL-Library.Option_ord\<close>), so the loop
  computes the maximum over the set of contributing records.
\<close>

lemma merge_counts_max:
  "nonneg_usage u \<Longrightarrow> f \<in> set (LEDGER_COUNTERS @ LEDGER_METADATA) \<Longrightarrow>
   merge_counts m (counts u) f = max (m f) (counts u f)"
  by (cases "m f"; cases "counts u f")
     (auto simp: merge_counts_def nonneg_usage_def max_def)

lemma merge_amounts_max:
  "nonneg_usage u \<Longrightarrow> f \<in> set LEDGER_AMOUNTS \<Longrightarrow>
   merge_amounts m (amounts u) f = max (m f) (amounts u f)"
  by (cases "m f"; cases "amounts u f")
     (auto simp: merge_amounts_def nonneg_usage_def max_def)

fun contributes :: "snapshot \<Rightarrow> bool" where
  "contributes Not_mapping = False"
| "contributes (Mapping snap) = (snap \<noteq> [])"

definition parses :: "snapshot list \<Rightarrow> usage set" where
  "parses ss = {p. \<exists>s \<in> set ss. contributes s \<and> validate_usage_snapshot s = Inr p}"

lemma parses_simps [simp]:
  "parses [] = {}"
  "parses (Not_mapping # ss) = parses ss"
  "parses (Mapping [] # ss) = parses ss"
  "validate_usage_snapshot (Mapping (kv # snap)) = Inr p \<Longrightarrow>
   parses (Mapping (kv # snap) # ss) = insert p (parses ss)"
  by (auto simp: parses_def)

lemma finite_parses [simp]: "finite (parses ss)"
proof -
  have "parses ss \<subseteq> (\<lambda>s. projr (validate_usage_snapshot s)) ` set ss"
    by (force simp: parses_def image_iff)
  then show ?thesis by (rule finite_subset) simp
qed

lemma parses_nonneg: "p \<in> parses ss \<Longrightarrow> nonneg_usage p"
  by (auto simp: parses_def dest: validate_nonneg)

lemma merge_loop_counts:
  assumes "merge_loop ss m = Inr q" and "f \<in> set (LEDGER_COUNTERS @ LEDGER_METADATA)"
  shows "counts q f = Max (insert (counts m f) ((\<lambda>p. counts p f) ` parses ss))"
  using assms(1)
proof (induction ss m rule: merge_loop.induct)
  case (4 kv snap ss m)
  then obtain p where p: "validate_usage_snapshot (Mapping (kv # snap)) = Inr p"
    and rest: "merge_loop ss (merge_step m p) = Inr q"
    by (auto split: sum.splits)
  have "counts (merge_step m p) f = max (counts m f) (counts p f)"
    using merge_counts_max [OF validate_nonneg [OF p] assms(2)] by (simp add: merge_step_def)
  with "4.IH" [OF p rest] p show ?case
    by (cases "parses ss = {}") (simp_all add: insert_commute max.assoc)
qed simp_all

lemma merge_loop_amounts:
  assumes "merge_loop ss m = Inr q" and "f \<in> set LEDGER_AMOUNTS"
  shows "amounts q f = Max (insert (amounts m f) ((\<lambda>p. amounts p f) ` parses ss))"
  using assms(1)
proof (induction ss m rule: merge_loop.induct)
  case (4 kv snap ss m)
  then obtain p where p: "validate_usage_snapshot (Mapping (kv # snap)) = Inr p"
    and rest: "merge_loop ss (merge_step m p) = Inr q"
    by (auto split: sum.splits)
  have "amounts (merge_step m p) f = max (amounts m f) (amounts p f)"
    using merge_amounts_max [OF validate_nonneg [OF p] assms(2)] by (simp add: merge_step_def)
  with "4.IH" [OF p rest] p show ?case
    by (cases "parses ss = {}") (simp_all add: insert_commute max.assoc)
qed simp_all

lemma merge_loop_other:
  assumes "merge_loop ss m = Inr q"
  shows "f \<notin> set (LEDGER_COUNTERS @ LEDGER_METADATA) \<Longrightarrow> counts q f = counts m f"
    and "f \<notin> set LEDGER_AMOUNTS \<Longrightarrow> amounts q f = amounts m f"
  using assms
  by (induction ss m rule: merge_loop.induct)
     (auto simp: merge_step_def merge_counts_def merge_amounts_def split: sum.splits)

lemma merge_loop_ok_iff:
  "(\<exists>q. merge_loop ss m = Inr q) \<longleftrightarrow>
   (\<forall>s \<in> set ss. contributes s \<longrightarrow> (\<exists>p. validate_usage_snapshot s = Inr p))"
  by (induction ss m rule: merge_loop.induct) (auto split: sum.splits)

lemma count_of_with_total [simp]:
  "f \<noteq> Total_tokens \<Longrightarrow> count_of (with_total m) f = count_of m f"
  "f \<noteq> Total_tokens \<Longrightarrow> counts (with_total m) f = counts m f"
  "amounts (with_total m) = amounts m" "amount_of (with_total m) f = amount_of m f"
  by (auto simp: with_total_def count_of_def amount_of_def)

lemma Total_not_counter [simp]:
  "Total_tokens \<notin> set LEDGER_COUNTERS" "Total_tokens \<notin> set LEDGER_METADATA"
  "Total_tokens \<notin> set LEDGER_AMOUNTS"
  by (simp_all add: field_list_defs)

lemma merge_Inr:
  assumes "merge_usage_snapshots ss = Inr m"
  obtains q where "merge_loop ss empty_usage = Inr q" and "m = with_total q"
  using assms by (auto simp: merge_usage_snapshots_def split: sum.splits)

lemma merge_counts_eq:
  assumes "merge_usage_snapshots ss = Inr m" and "f \<in> set (LEDGER_COUNTERS @ LEDGER_METADATA)"
  shows "counts m f = Max (insert None ((\<lambda>p. counts p f) ` parses ss))"
proof -
  obtain q where q: "merge_loop ss empty_usage = Inr q" "m = with_total q"
    by (rule merge_Inr [OF assms(1)])
  moreover have "f \<noteq> Total_tokens" using assms(2) by auto
  ultimately have "counts m f = counts q f" by simp
  then show ?thesis using merge_loop_counts [OF q(1) assms(2)] by (simp add: empty_usage_def)
qed

lemma merge_amounts_eq:
  assumes "merge_usage_snapshots ss = Inr m" and "f \<in> set LEDGER_AMOUNTS"
  shows "amounts m f = Max (insert None ((\<lambda>p. amounts p f) ` parses ss))"
proof -
  obtain q where q: "merge_loop ss empty_usage = Inr q" "m = with_total q"
    by (rule merge_Inr [OF assms(1)])
  with merge_loop_amounts [OF q(1) assms(2)] show ?thesis by (simp add: empty_usage_def)
qed

lemma count_of_mono_option: "Some n \<le> counts u f \<Longrightarrow> n \<le> count_of u f"
  by (cases "counts u f") (auto simp: count_of_def)

lemma amount_of_mono_option: "Some r \<le> amounts u f \<Longrightarrow> r \<le> amount_of u f"
  by (cases "amounts u f") (auto simp: amount_of_def)

lemma merge_bounds_parse:
  assumes "merge_usage_snapshots ss = Inr m" and "p \<in> parses ss"
  shows "f \<in> set (LEDGER_COUNTERS @ LEDGER_METADATA) \<Longrightarrow> counts p f \<le> counts m f"
    and "f \<in> set LEDGER_AMOUNTS \<Longrightarrow> amounts p f \<le> amounts m f"
  using assms merge_counts_eq [OF assms(1)] merge_amounts_eq [OF assms(1)] by simp_all

lemma validate_empty_mapping [simp]: "validate_usage_snapshot (Mapping []) = Inr empty_usage"
  by (simp add: validate_usage_snapshot_def field_list_defs parse_total_def)

text \<open>A record with nothing in it bounds nothing from below.\<close>

lemma usage_not_below_empty [simp]: "usage_is_not_below u empty_usage"
  by (simp add: usage_is_not_below_def empty_usage_def list_all_iff)

lemma parse_in_parses:
  assumes "s \<in> set ss" and "validate_usage_snapshot s = Inr p"
  shows "p = empty_usage \<or> p \<in> parses ss"
proof (cases "contributes s")
  case True
  with assms show ?thesis by (auto simp: parses_def)
next
  case False
  with assms(2) show ?thesis by (cases s) (simp_all add: validate_usage_snapshot_def parse_total_def field_list_defs)
qed

lemma merge_not_below:
  assumes "merge_usage_snapshots ss = Inr m"
    and "s \<in> set ss" and "validate_usage_snapshot s = Inr p"
  shows "usage_is_not_below m p"
proof (cases "p = empty_usage")
  case True
  then show ?thesis by simp
next
  case False
  with assms have p: "p \<in> parses ss" using parse_in_parses by blast
  have "n \<le> count_of m f" if "f \<in> set LEDGER_COUNTERS" "counts p f = Some n" for f n
    using merge_bounds_parse(1) [OF assms(1) p, of f] that by (auto intro: count_of_mono_option)
  moreover have "r \<le> amount_of m f" if "f \<in> set LEDGER_AMOUNTS" "amounts p f = Some r" for f r
    using merge_bounds_parse(2) [OF assms(1) p, of f] that by (auto intro: amount_of_mono_option)
  ultimately show ?thesis by (auto simp: usage_is_not_below_def list_all_iff split: option.splits)
qed

lemma merge_step_nonneg: "nonneg_usage m \<Longrightarrow> nonneg_usage p \<Longrightarrow> nonneg_usage (merge_step m p)"
  by (auto simp: nonneg_usage_def merge_step_def merge_counts_def merge_amounts_def
      split: if_splits option.splits) (auto simp: le_max_iff_disj)

lemma merge_loop_nonneg: "merge_loop ss m = Inr q \<Longrightarrow> nonneg_usage m \<Longrightarrow> nonneg_usage q"
  by (induction ss m rule: merge_loop.induct)
     (auto split: sum.splits dest: merge_step_nonneg validate_nonneg)

lemma count_of_nonneg: "nonneg_usage u \<Longrightarrow> 0 \<le> count_of u f"
  by (auto simp: nonneg_usage_def count_of_def split: option.splits)

lemma amount_of_nonneg: "nonneg_usage u \<Longrightarrow> 0 \<le> amount_of u f"
  by (auto simp: nonneg_usage_def amount_of_def split: option.splits)

lemma with_total_nonneg: "nonneg_usage u \<Longrightarrow> nonneg_usage (with_total u)"
  using count_of_nonneg [of u] by (auto simp: nonneg_usage_def with_total_def)

lemma merge_nonneg: "merge_usage_snapshots ss = Inr m \<Longrightarrow> nonneg_usage m"
  by (metis merge_Inr with_total_nonneg merge_loop_nonneg nonneg_empty)

section \<open>Properties\<close>

text \<open>
  A resuming worker never restores less than any durable source shows: the merge of a run's
  records is at least every record that went into it, on every cumulative dimension.
\<close>

theorem merge_not_below_any_source:
  assumes "merge_usage_snapshots ss = Inr m"
    and "s \<in> set ss" and "validate_usage_snapshot s = Inr p"
  shows "usage_is_not_below m p"
  by (rule merge_not_below [OF assms])

theorem merge_not_below_any_source_witness:
  "usage_is_not_below
     (projr (merge_usage_snapshots [Mapping [(Model_calls, PInt 3)], Mapping [(Model_calls, PInt 7)]]))
     (empty_usage\<lparr>counts := [Model_calls \<mapsto> 3]\<rparr>)"
proof -
  let ?ss = "[Mapping [(Model_calls, PInt 3)], Mapping [(Model_calls, PInt 7)]]"
  have m: "merge_usage_snapshots ?ss = Inr (projr (merge_usage_snapshots ?ss))"
    by (simp add: merge_usage_snapshots_def validate_usage_snapshot_def field_list_defs
        counter_value_def parse_total_def)
  show ?thesis
    by (rule merge_not_below_any_source [OF m, of "Mapping [(Model_calls, PInt 3)]"])
       (simp_all add: validate_usage_snapshot_def field_list_defs counter_value_def
         parse_total_def empty_usage_def)
qed

text \<open>
  The merge invents no consumption: any record that is at least every contributing record
  is at least the merge, so the merge is the least such bound.
\<close>

theorem merge_is_least_bound:
  assumes "merge_usage_snapshots ss = Inr m" and "nonneg_usage u"
    and "\<And>s p. s \<in> set ss \<Longrightarrow> validate_usage_snapshot s = Inr p \<Longrightarrow> usage_is_not_below u p"
  shows "usage_is_not_below u m"
proof -
  have below: "usage_is_not_below u p" if "p \<in> parses ss" for p
    using that assms(3) by (auto simp: parses_def)
  have "n \<le> count_of u f" if f: "f \<in> set LEDGER_COUNTERS" and n: "counts m f = Some n" for f n
  proof -
    let ?S = "insert None ((\<lambda>p. counts p f) ` parses ss)"
    have "counts m f = Max ?S" using merge_counts_eq [OF assms(1)] f by simp
    then have "counts m f \<in> ?S" using Max_in [of ?S] by simp
    with n obtain p where "p \<in> parses ss" "counts p f = Some n" by auto
    with below f show ?thesis by (fastforce simp: usage_is_not_below_def list_all_iff)
  qed
  moreover have "r \<le> amount_of u f" if f: "f \<in> set LEDGER_AMOUNTS" and r: "amounts m f = Some r" for f r
  proof -
    let ?S = "insert None ((\<lambda>p. amounts p f) ` parses ss)"
    have "amounts m f = Max ?S" using merge_amounts_eq [OF assms(1)] f by simp
    then have "amounts m f \<in> ?S" using Max_in [of ?S] by simp
    with r obtain p where "p \<in> parses ss" "amounts p f = Some r" by auto
    with below f show ?thesis by (fastforce simp: usage_is_not_below_def list_all_iff)
  qed
  ultimately show ?thesis
    by (auto simp: usage_is_not_below_def list_all_iff split: option.splits)
qed

lemma two_records_merge:
  "merge_usage_snapshots [Mapping [(Retries, PInt 2)], Mapping [(Tool_calls, PInt 1)]] =
   Inr (empty_usage\<lparr>counts := [Retries \<mapsto> 2, Tool_calls \<mapsto> 1]\<rparr>)"
  by (auto simp: merge_usage_snapshots_def validate_usage_snapshot_def field_list_defs
      counter_value_def parse_total_def merge_step_def merge_counts_def merge_amounts_def
      empty_usage_def with_total_def fun_eq_iff)

theorem merge_is_least_bound_witness:
  "usage_is_not_below (empty_usage\<lparr>counts := [Retries \<mapsto> 5, Tool_calls \<mapsto> 1]\<rparr>)
     (empty_usage\<lparr>counts := [Retries \<mapsto> 2, Tool_calls \<mapsto> 1]\<rparr>)"
proof (rule merge_is_least_bound [OF two_records_merge])
  fix s p
  assume "s \<in> set [Mapping [(Retries, PInt 2)], Mapping [(Tool_calls, PInt 1)]]"
    and "validate_usage_snapshot s = Inr p"
  then show "usage_is_not_below (empty_usage\<lparr>counts := [Retries \<mapsto> 5, Tool_calls \<mapsto> 1]\<rparr>) p"
    by (auto simp: validate_usage_snapshot_def field_list_defs counter_value_def parse_total_def
        empty_usage_def usage_is_not_below_def count_of_def)
qed (auto simp: nonneg_usage_def empty_usage_def split: if_splits)

text \<open>
  The order and the multiplicity in which a run's durable records are folded do not matter:
  two lists with the same records merge to the same record.
\<close>

theorem merge_order_independent:
  assumes "set ss = set ts" and "merge_usage_snapshots ss = Inr m"
  shows "merge_usage_snapshots ts = Inr m"
proof -
  from assms(2) obtain q where q: "merge_loop ss empty_usage = Inr q" "m = with_total q"
    by (rule merge_Inr)
  then obtain r where r: "merge_loop ts empty_usage = Inr r"
    using merge_loop_ok_iff [of ss empty_usage] merge_loop_ok_iff [of ts empty_usage] assms(1)
    by auto
  have P: "parses ss = parses ts" using assms(1) by (simp add: parses_def)
  have "counts q f = counts r f" for f
    using merge_loop_counts [OF q(1), of f] merge_loop_counts [OF r, of f]
      merge_loop_other(1) [OF q(1), of f] merge_loop_other(1) [OF r, of f] P
    by (cases "f \<in> set (LEDGER_COUNTERS @ LEDGER_METADATA)") simp_all
  moreover have "amounts q f = amounts r f" for f
    using merge_loop_amounts [OF q(1), of f] merge_loop_amounts [OF r, of f]
      merge_loop_other(2) [OF q(1), of f] merge_loop_other(2) [OF r, of f] P
    by (cases "f \<in> set LEDGER_AMOUNTS") simp_all
  ultimately have "q = r" by (simp add: fun_eq_iff)
  with q(2) r show ?thesis by (simp add: merge_usage_snapshots_def)
qed

theorem merge_order_independent_witness:
  "merge_usage_snapshots [Mapping [(Tool_calls, PInt 1)], Mapping [(Retries, PInt 2)],
     Mapping [(Tool_calls, PInt 1)]] =
   Inr (empty_usage\<lparr>counts := [Retries \<mapsto> 2, Tool_calls \<mapsto> 1]\<rparr>)"
  by (rule merge_order_independent [OF _ two_records_merge]) auto

text \<open>
  A corrupt value is never dropped: when any contributing record carries a known counter that
  is not a non-negative integer, the merge refuses instead of refunding what the value hid.
\<close>

theorem merge_refuses_corrupt_counter:
  assumes "Mapping snap \<in> set ss" and "f \<in> set (LEDGER_COUNTERS @ LEDGER_METADATA)"
    and "map_of snap f = Some v" and "\<forall>n\<ge>0. v \<noteq> PInt n"
  shows "\<exists>e. merge_usage_snapshots ss = Inl e"
proof (rule ccontr)
  assume "\<nexists>e. merge_usage_snapshots ss = Inl e"
  then obtain q where "merge_loop ss empty_usage = Inr q"
    by (cases "merge_loop ss empty_usage") (auto simp: merge_usage_snapshots_def)
  moreover have "contributes (Mapping snap)" using assms(3) by auto
  ultimately obtain p where p: "validate_usage_snapshot (Mapping snap) = Inr p"
    using merge_loop_ok_iff [of ss empty_usage] assms(1) by auto
  obtain p1 p2 p3 where s: "parse_counters LEDGER_COUNTERS snap empty_usage = Inr p1"
      "parse_counters LEDGER_METADATA snap p2 = Inr p3"
    by (rule validate_Inr_stages [OF p])
  have bad: "parse_counters fs snap a \<noteq> Inr b" if "f \<in> set fs" for fs a b
    using that
  proof (induction fs arbitrary: a)
    case (Cons g fs)
    then show ?case
      using assms(3,4) by (cases "map_of snap g") (auto simp: counter_value_Inr split: sum.splits)
  qed simp
  from assms(2) s bad show False by auto
qed

theorem merge_refuses_corrupt_counter_witness:
  "\<exists>e. merge_usage_snapshots [Mapping [(Retries, PInt 2)], Mapping [(Retries, PBool True)]] = Inl e"
  by (rule merge_refuses_corrupt_counter [of "[(Retries, PBool True)]" _ Retries "PBool True"])
     (simp_all add: field_list_defs)

lemma used_of_mono:
  assumes "merge_usage_snapshots ss = Inr m" and "s \<in> set ss"
    and "validate_usage_snapshot s = Inr p"
  shows "f \<in> snd ` set LIMIT_DIMENSIONS \<Longrightarrow> used_of p f \<le> used_of m f"
proof -
  have C: "count_of p g \<le> count_of m g" if "g \<in> set LEDGER_COUNTERS" for g
    using merge_not_below [OF assms] that count_of_nonneg [OF merge_nonneg [OF assms(1)], of g]
    by (auto simp: usage_is_not_below_def list_all_iff count_of_def [of p] split: option.splits)
  have A: "amount_of p g \<le> amount_of m g" if "g \<in> set LEDGER_AMOUNTS" for g
    using merge_not_below [OF assms] that amount_of_nonneg [OF merge_nonneg [OF assms(1)], of g]
    by (auto simp: usage_is_not_below_def list_all_iff amount_of_def [of p] split: option.splits)
  assume "f \<in> snd ` set LIMIT_DIMENSIONS"
  then consider "f = Total_tokens" | "f \<in> set LEDGER_AMOUNTS" | "f \<in> set LEDGER_COUNTERS"
    by (auto simp: LIMIT_DIMENSIONS_def field_list_defs)
  then show "used_of p f \<le> used_of m f"
  proof cases
    case 1
    have "count_of p Input_tokens \<le> count_of m Input_tokens"
      and "count_of p Output_tokens \<le> count_of m Output_tokens"
      by (rule C, simp add: LEDGER_COUNTERS_def)+
    with 1 show ?thesis by (simp add: used_of_def add_mono)
  next
    case 2
    with A show ?thesis by (auto simp: used_of_def)
  next
    case 3
    then have "f \<notin> set LEDGER_AMOUNTS" "f \<noteq> Total_tokens" by (auto simp: field_list_defs)
    with C [OF 3] show ?thesis by (simp add: used_of_def)
  qed
qed

definition at_most_remaining :: "rat option \<Rightarrow> rat option \<Rightarrow> bool" where
  "at_most_remaining a b = (case (a, b) of
       (None, None) \<Rightarrow> True | (Some x, Some y) \<Rightarrow> x \<le> y | _ \<Rightarrow> False)"

text \<open>
  C22. The resume invariant: what a run still has against every configured limit after a resume
  (from the merged record) is at most what it had according to any one durable record.
\<close>

theorem resume_never_regains_capacity:
  assumes "merge_usage_snapshots ss = Inr m"
    and "s \<in> set ss" and "validate_usage_snapshot s = Inr p"
  shows "list_all2 (\<lambda>(d, a) (e, b). d = e \<and> at_most_remaining a b)
           (remaining_capacity m cfg) (remaining_capacity p cfg)"
  using used_of_mono [OF assms]
  by (auto simp: remaining_capacity_def list_all2_conv_all_nth at_most_remaining_def
      split: option.splits prod.splits)
     (force simp: set_conv_nth intro: nth_mem)

theorem resume_never_regains_capacity_witness:
  "list_all2 (\<lambda>(d, a) (e, b). d = e \<and> at_most_remaining a b)
     (remaining_capacity (empty_usage\<lparr>counts := [Retries \<mapsto> 2, Tool_calls \<mapsto> 1]\<rparr>) (\<lambda>_. Some 10))
     (remaining_capacity (empty_usage\<lparr>counts := [Tool_calls \<mapsto> 1]\<rparr>) (\<lambda>_. Some 10))"
  by (rule resume_never_regains_capacity [OF two_records_merge, of "Mapping [(Tool_calls, PInt 1)]"])
     (simp_all add: validate_usage_snapshot_def field_list_defs counter_value_def
       parse_total_def empty_usage_def)

end
