(* ===== verification/Model_Pricing.thy ===== *)
theory Model_Pricing
  imports Prelude
begin

text \<open>
  \<open>backend/model_profiles.py\<close> (the fail-closed registry of priced models) and
  \<open>backend/model_usage.py\<close> (reading one response's usage block).  Money is \<open>Decimal\<close> in the
  code and exact rationals here; \<open>money\<close> is the quantisation to eight places with
  \<open>ROUND_CEILING\<close>.
\<close>

section \<open>The registry\<close>

datatype reasoning_mode = Reasoning_none | Reasoning_optional | Reasoning_always

datatype reasoning_control = Control_none | Thinking_toggle | Reasoning_effort

datatype output_cap_field = Cap_max_tokens | Cap_max_completion_tokens

record model_profile =
  model :: string
  provider :: string
  price_input_miss :: rat
  price_input_hit :: rat
  price_cache_write_5m :: "rat option"
  price_cache_write_1h :: "rat option"
  price_output :: rat
  context_window :: int
  reasoning :: reasoning_mode
  reasoning_control :: reasoning_control
  reasoning_effort_values :: "string list"
  cap_field :: output_cap_field
  forbidden_params :: "string list"
  response_formats :: "string list"
  strict_json_schema_verified :: bool

datatype cache_ttl = TTL_5m | TTL_1h

definition money :: "rat \<Rightarrow> rat" where
  "money x = of_int \<lceil>x * 10 ^ 8\<rceil> / 10 ^ 8"

definition cache_write_price :: "model_profile \<Rightarrow> cache_ttl \<Rightarrow> rat" where
  "cache_write_price p ttl =
     (let price = (if ttl = TTL_5m then price_cache_write_5m p else price_cache_write_1h p)
      in case price of None \<Rightarrow> price_input_miss p | Some w \<Rightarrow> w)"

definition reserve_input_price :: "model_profile \<Rightarrow> rat" where
  "reserve_input_price p =
     (case price_cache_write_5m p of
        None \<Rightarrow> price_input_miss p
      | Some w \<Rightarrow> max (price_input_miss p) w)"

text \<open>\<open>int(x or 0)\<close> for an optional count.\<close>

definition or_zero :: "int option \<Rightarrow> int" where
  "or_zero x = (case x of None \<Rightarrow> 0 | Some n \<Rightarrow> n)"

definition usage_cost ::
  "model_profile \<Rightarrow> int \<Rightarrow> int \<Rightarrow> int option \<Rightarrow> int option \<Rightarrow> cache_ttl \<Rightarrow> rat" where
  "usage_cost p input_tokens output_tokens cached_input_tokens cache_write_tokens ttl =
     (let prompt = max 0 input_tokens;
          output = max 0 output_tokens;
          cached = min prompt (max 0 (or_zero cached_input_tokens));
          written = min (prompt - cached) (max 0 (or_zero cache_write_tokens));
          missed = prompt - cached - written
      in money ((of_int missed * price_input_miss p
                 + of_int cached * price_input_hit p
                 + of_int written * cache_write_price p ttl
                 + of_int output * price_output p) / 1000000))"

definition worst_case_cost :: "model_profile \<Rightarrow> int \<Rightarrow> int \<Rightarrow> rat" where
  "worst_case_cost p input_upper_bound max_output =
     money ((of_int (max 0 input_upper_bound) * reserve_input_price p
             + of_int (max 0 max_output) * price_output p) / 1000000)"

definition K3_FORBIDDEN :: "string list" where
  "K3_FORBIDDEN = [''temperature'', ''top_p'', ''n'', ''presence_penalty'',
                   ''frequency_penalty'', ''thinking'']"

definition K26_FORBIDDEN :: "string list" where
  "K26_FORBIDDEN = [''reasoning_effort'']"

definition kimi_k3 :: model_profile where
  "kimi_k3 = \<lparr>
     model = ''kimi-k3'', provider = ''moonshot'',
     price_input_miss = 3, price_input_hit = 3/10,
     price_cache_write_5m = Some 3, price_cache_write_1h = Some 6,
     price_output = 15, context_window = 1048576,
     reasoning = Reasoning_always, reasoning_control = Reasoning_effort,
     reasoning_effort_values = [''low'', ''high'', ''max''],
     cap_field = Cap_max_completion_tokens,
     forbidden_params = K3_FORBIDDEN,
     response_formats = [''json_object''], strict_json_schema_verified = False\<rparr>"

definition kimi_k26 :: model_profile where
  "kimi_k26 = \<lparr>
     model = ''kimi-k2.6'', provider = ''moonshot'',
     price_input_miss = 95/100, price_input_hit = 16/100,
     price_cache_write_5m = None, price_cache_write_1h = None,
     price_output = 4, context_window = 262144,
     reasoning = Reasoning_optional, reasoning_control = Thinking_toggle,
     reasoning_effort_values = [],
     cap_field = Cap_max_tokens,
     forbidden_params = K26_FORBIDDEN,
     response_formats = [''json_object''], strict_json_schema_verified = False\<rparr>"

definition PROFILES :: "(string \<times> model_profile) list" where
  "PROFILES = [(''kimi-k3'', kimi_k3), (''kimi-k2.6'', kimi_k26)]"

text \<open>\<open>None\<close> is the raised \<open>UnknownModelProfile\<close>.\<close>

definition get_profile :: "string \<Rightarrow> model_profile option" where
  "get_profile m = map_of PROFILES (py_strip m)"

definition has_profile :: "string \<Rightarrow> bool" where
  "has_profile m = (map_of PROFILES (py_strip m) \<noteq> None)"

datatype model_config_error = MODEL_PROFILE_UNKNOWN | MODEL_NOT_ALLOWLISTED | SWARM_MODEL_CONFIG_INVALID

record swarm_env =
  commander_model_allowlist :: "string option"
  commander_model :: "string option"
  swarm_worker_model :: "string option"

definition env_text :: "string option \<Rightarrow> string" where
  "env_text v = (case v of None \<Rightarrow> [] | Some s \<Rightarrow> s)"

definition parse_allowlist :: "string \<Rightarrow> string list" where
  "parse_allowlist s = filter (\<lambda>w. w \<noteq> []) (map py_strip (py_split (CHR '','') s))"

fun unprofiled :: "string list \<Rightarrow> bool" where
  "unprofiled [] = False"
| "unprofiled (m # ms) = ((m \<noteq> [] \<and> \<not> has_profile m) \<or> unprofiled ms)"

fun role_not_allowed :: "bool \<Rightarrow> string list \<Rightarrow> string list \<Rightarrow> bool" where
  "role_not_allowed req allow [] = False"
| "role_not_allowed req allow (m # ms) =
     ((m \<noteq> [] \<and> allow \<noteq> [] \<and> m \<notin> set allow) \<or> (m \<noteq> [] \<and> allow = [] \<and> req)
      \<or> role_not_allowed req allow ms)"

definition validate_swarm_model_contract ::
  "swarm_env \<Rightarrow> bool \<Rightarrow> model_config_error + string \<times> string \<times> string list" where
  "validate_swarm_model_contract env require_present =
     (let allowlist = parse_allowlist (env_text (commander_model_allowlist env));
          commander = py_strip (env_text (commander_model env));
          worker = py_strip (env_text (swarm_worker_model env))
      in if require_present \<and> (allowlist = [] \<or> commander = [] \<or> worker = [])
         then Inl SWARM_MODEL_CONFIG_INVALID
         else if unprofiled (allowlist @ [commander, worker]) then Inl MODEL_PROFILE_UNKNOWN
         else if role_not_allowed require_present allowlist [commander, worker]
         then Inl MODEL_NOT_ALLOWLISTED
         else Inr (commander, worker, allowlist))"

section \<open>Reading one response's usage\<close>

datatype count_error = OverflowError

text \<open>
  \<open>_count\<close>: a non-negative integer, or a non-negative float equal to its integer part; booleans,
  absent and other values are no count.  \<open>int(inf)\<close> raises.
\<close>

definition count_value :: "pyval \<Rightarrow> count_error + int option" where
  "count_value v =
     (case v of
        PInt n \<Rightarrow> Inr (if 0 \<le> n then Some n else None)
      | PFloat (Finite r) \<Rightarrow> Inr (if 0 \<le> r \<and> r = of_int \<lfloor>r\<rfloor> then Some \<lfloor>r\<rfloor> else None)
      | PFloat PosInf \<Rightarrow> Inl OverflowError
      | _ \<Rightarrow> Inr None)"

text \<open>The blocks of a response that are read; an absent container reads every field as \<open>None\<close>.\<close>

record usage_block =
  prompt_tokens :: pyval
  completion_tokens :: pyval
  cached_tokens_top :: pyval
  details_cached_tokens :: pyval
  details_cache_write_tokens :: pyval
  details_cache_write_ttl :: pyval
  details_cache_ttl :: pyval
  usage_cache_write_ttl :: pyval
  usage_cache_ttl :: pyval
  completion_reasoning_tokens :: pyval

record usage_breakdown =
  input_tokens_of :: int
  output_tokens_of :: int
  cached_input_tokens_of :: "int option"
  cache_write_tokens_of :: "int option"
  cache_write_ttl_of :: cache_ttl
  reasoning_tokens_of :: "int option"
  answer_tokens_of :: "int option"
  reasoning_tokens_estimated_of :: "int option"
  reasoning_estimated_of :: bool

text \<open>\<open>str(value).strip().lower() in {"5m", "5min", "300", "300s"}\<close>.\<close>

definition names_five_minutes :: "pyval \<Rightarrow> bool" where
  "names_five_minutes v =
     (case v of
        PStr s \<Rightarrow> py_lower (py_strip s) \<in> {''5m'', ''5min'', ''300'', ''300s''}
      | PInt n \<Rightarrow> n = 300
      | _ \<Rightarrow> False)"

fun cache_write_ttl_in :: "pyval list \<Rightarrow> cache_ttl" where
  "cache_write_ttl_in [] = TTL_5m"
| "cache_write_ttl_in (v # vs) =
     (if v = PNone then cache_write_ttl_in vs
      else if names_five_minutes v then TTL_5m else TTL_1h)"

definition cache_write_ttl :: "usage_block \<Rightarrow> cache_ttl" where
  "cache_write_ttl u =
     cache_write_ttl_in [details_cache_write_ttl u, details_cache_ttl u,
                         usage_cache_write_ttl u, usage_cache_ttl u]"

text \<open>
  \<open>count_content_tokens\<close> for a text answer with no registered counter: one piece per run of up
  to four ASCII letters or digits, per non-ASCII character and per other non-space character.
\<close>

definition is_alnum :: "char \<Rightarrow> bool" where
  "is_alnum c = (let n = (of_char c :: nat) in
     (48 \<le> n \<and> n \<le> 57) \<or> (65 \<le> n \<and> n \<le> 90) \<or> (97 \<le> n \<and> n \<le> 122))"

fun count_pieces :: "nat \<Rightarrow> string \<Rightarrow> nat" where
  "count_pieces room [] = 0"
| "count_pieces room (c # cs) =
     (if is_alnum c then (if room = 0 then Suc (count_pieces 3 cs) else count_pieces (room - 1) cs)
      else if 128 \<le> (of_char c :: nat) then Suc (count_pieces 0 cs)
      else if is_space c then count_pieces 0 cs
      else Suc (count_pieces 0 cs))"

text \<open>
  With a registered counter its non-negative answer wins (\<open>counter\<close> is what it returned, \<open>None\<close>
  when it raised or returned no integer, and \<open>None\<close> when none is registered).
\<close>

definition count_content_tokens :: "int option \<Rightarrow> string option \<Rightarrow> int option" where
  "count_content_tokens counter text =
     (case text of
        None \<Rightarrow> Some 0
      | Some s \<Rightarrow>
          if s = [] then Some 0
          else (case counter of
                  Some n \<Rightarrow> if 0 \<le> n then Some n else Some (int (count_pieces 0 s))
                | None \<Rightarrow> Some (int (count_pieces 0 s))))"

definition read_usage :: "int option \<Rightarrow> usage_block \<Rightarrow> string option \<Rightarrow> count_error + usage_breakdown" where
  "read_usage counter u content =
     (case (count_value (prompt_tokens u), count_value (completion_tokens u),
            count_value (details_cached_tokens u), count_value (cached_tokens_top u),
            count_value (details_cache_write_tokens u),
            count_value (completion_reasoning_tokens u)) of
        (Inr i, Inr oo, Inr cd, ct, Inr cw, Inr r) \<Rightarrow>
          (let answer = count_content_tokens counter content;
               build = (\<lambda>cached. \<lparr>
                 input_tokens_of = or_zero i, output_tokens_of = or_zero oo,
                 cached_input_tokens_of = cached, cache_write_tokens_of = cw,
                 cache_write_ttl_of = cache_write_ttl u,
                 reasoning_tokens_of = r, answer_tokens_of = answer,
                 reasoning_tokens_estimated_of =
                   (case (r, answer) of (None, Some a) \<Rightarrow> Some (max 0 (or_zero oo - a)) | _ \<Rightarrow> None),
                 reasoning_estimated_of = (r = None)\<rparr>)
           in if cd \<noteq> None then Inr (build cd)
              else (case ct of Inl e \<Rightarrow> Inl e | Inr c \<Rightarrow> Inr (build c)))
      | _ \<Rightarrow> Inl OverflowError)"

section \<open>Prices\<close>

lemma money_mono [mono_facts]: "x \<le> y \<Longrightarrow> money x \<le> money y"
  unfolding money_def
  by (intro divide_right_mono) (auto intro!: ceiling_mono mult_right_mono)

lemma money_nonneg: "0 \<le> x \<Longrightarrow> 0 \<le> money x"
  using money_mono [of 0 x] by (simp add: money_def)

lemma money_ge: "x \<le> money x"
  by (simp add: money_def le_divide_eq)

definition wf_profile :: "model_profile \<Rightarrow> bool" where
  "wf_profile p =
     (0 \<le> price_input_hit p \<and> price_input_hit p \<le> price_input_miss p \<and> 0 \<le> price_output p \<and>
      (\<forall>w. price_cache_write_5m p = Some w \<longrightarrow> 0 \<le> w) \<and>
      (\<forall>w. price_cache_write_1h p = Some w \<longrightarrow> 0 \<le> w))"

lemma get_profile_cases: "get_profile m = Some p \<Longrightarrow> p = kimi_k3 \<or> p = kimi_k26"
  by (auto simp: get_profile_def PROFILES_def split: if_splits)

lemma registered_wf: "get_profile m = Some p \<Longrightarrow> wf_profile p"
  by (auto dest!: get_profile_cases simp: wf_profile_def kimi_k3_def kimi_k26_def)

lemma wf_reserve:
  assumes "wf_profile p"
  shows "price_input_miss p \<le> reserve_input_price p"
    and "price_input_hit p \<le> reserve_input_price p"
    and "cache_write_price p TTL_5m \<le> reserve_input_price p"
    and "0 \<le> reserve_input_price p"
  using assms
  by (auto simp: wf_profile_def reserve_input_price_def cache_write_price_def le_max_iff_disj
      split: option.splits)

lemma prompt_price_bound:
  fixes r :: rat
  assumes "0 \<le> m" "0 \<le> c" "0 \<le> w" and "pm \<le> r" "ph \<le> r" "pw \<le> r" and "0 \<le> r"
    and "m + c + w \<le> b"
  shows "of_int m * pm + of_int c * ph + of_int w * pw \<le> of_int b * r"
proof -
  have "of_int m * pm \<le> of_int m * r" "of_int c * ph \<le> of_int c * r" "of_int w * pw \<le> of_int w * r"
    using assms by (auto intro!: mult_left_mono)
  then have "of_int m * pm + of_int c * ph + of_int w * pw \<le> of_int (m + c + w) * r"
    by (simp add: algebra_simps)
  also have "\<dots> \<le> of_int b * r"
    using assms by (intro mult_right_mono) (simp_all only: of_int_le_iff)
  finally show ?thesis .
qed

text \<open>A priced usage is the price of a partition of the prompt into missed, cached and written tokens.\<close>

definition raw_cost :: "model_profile \<Rightarrow> cache_ttl \<Rightarrow> int \<Rightarrow> int \<Rightarrow> int \<Rightarrow> int \<Rightarrow> rat" where
  "raw_cost p ttl m c w oo =
     (of_int m * price_input_miss p + of_int c * price_input_hit p
      + of_int w * cache_write_price p ttl + of_int oo * price_output p) / 1000000"

lemma clamp_facts:
  fixes n x :: int
  assumes "0 \<le> n"
  shows "0 \<le> min n (max 0 x)" and "min n (max 0 x) \<le> n"
  using assms by (rule min.boundedI) (rule max.cobounded1, rule min.cobounded1)

lemma usage_cost_raw:
  obtains m c w where "0 \<le> m" "0 \<le> c" "0 \<le> w" "m + c + w = max 0 i"
    "usage_cost p i oo x y ttl = money (raw_cost p ttl m c w (max 0 oo))"
proof -
  define c where "c = min (max 0 i) (max 0 (or_zero x))"
  define w where "w = min (max 0 i - c) (max 0 (or_zero y))"
  have c: "0 \<le> c" "c \<le> max 0 i"
    unfolding c_def by (rule clamp_facts, rule max.cobounded1)+
  then have "0 \<le> max 0 i - c" by linarith
  then have w: "0 \<le> w" "w \<le> max 0 i - c"
    unfolding w_def by (rule clamp_facts)+
  show thesis
  proof (rule that [of "max 0 i - c - w" c w])
    show "usage_cost p i oo x y ttl = money (raw_cost p ttl (max 0 i - c - w) c w (max 0 oo))"
      unfolding usage_cost_def Let_def raw_cost_def c_def w_def by (rule refl)
  qed (use c w in linarith)+
qed

lemma raw_cost_bound:
  assumes "0 \<le> m" "0 \<le> c" "0 \<le> w" and "m + c + w \<le> b" and "oo \<le> cap"
    and "price_input_miss p \<le> r" "price_input_hit p \<le> r" "cache_write_price p ttl \<le> r"
    and "0 \<le> r" "0 \<le> price_output p"
  shows "raw_cost p ttl m c w oo \<le> (of_int b * r + of_int cap * price_output p) / 1000000"
proof -
  have "of_int m * price_input_miss p + of_int c * price_input_hit p
          + of_int w * cache_write_price p ttl \<le> of_int b * r"
    using assms by (intro prompt_price_bound) simp_all
  moreover have "of_int oo * price_output p \<le> of_int cap * price_output p"
    using assms by (intro mult_right_mono) simp_all
  ultimately show ?thesis
    unfolding raw_cost_def by (intro divide_right_mono add_mono) simp_all
qed

lemma usage_cost_le_worst_case:
  assumes wf: "wf_profile p" and "i \<le> bound" and "oo \<le> cap"
  shows "usage_cost p i oo x y TTL_5m \<le> worst_case_cost p bound cap"
proof -
  obtain m c w where *: "0 \<le> m" "0 \<le> c" "0 \<le> w" "m + c + w = max 0 i"
    "usage_cost p i oo x y TTL_5m = money (raw_cost p TTL_5m m c w (max 0 oo))"
    by (rule usage_cost_raw)
  have "raw_cost p TTL_5m m c w (max 0 oo)
      \<le> (of_int (max 0 bound) * reserve_input_price p + of_int (max 0 cap) * price_output p) / 1000000"
    using * assms wf_reserve [OF wf] wf by (intro raw_cost_bound) (auto simp: wf_profile_def)
  then show ?thesis using *(5) by (simp only: worst_case_cost_def money_mono)
qed

lemma usage_cost_nonneg:
  assumes wf: "wf_profile p"
  shows "0 \<le> usage_cost p i oo x y ttl"
proof -
  obtain m c w where *: "0 \<le> m" "0 \<le> c" "0 \<le> w"
    "usage_cost p i oo x y ttl = money (raw_cost p ttl m c w (max 0 oo))"
    by (rule usage_cost_raw)
  have "0 \<le> cache_write_price p ttl" "0 \<le> price_input_miss p"
    using wf by (auto simp: wf_profile_def cache_write_price_def split: option.splits)
  with * wf show ?thesis unfolding *(4) raw_cost_def wf_profile_def
    by (intro money_nonneg divide_nonneg_nonneg add_nonneg_nonneg mult_nonneg_nonneg) auto
qed

lemma worst_case_nonneg: "wf_profile p \<Longrightarrow> 0 \<le> worst_case_cost p b c"
  unfolding worst_case_cost_def
  by (intro money_nonneg divide_nonneg_nonneg add_nonneg_nonneg mult_nonneg_nonneg)
     (auto simp: wf_reserve wf_profile_def)

section \<open>Properties\<close>



text \<open>
  The bound stops at the 1-hour cache tier: a kimi-k3 response that reports its whole prompt as
  written at that tier settles for more than the worst case its call reserved.
\<close>

theorem one_hour_tier_exceeds_reservation:
  "worst_case_cost kimi_k3 1000 0 < usage_cost kimi_k3 1000 0 None (Some 1000) TTL_1h"
  by (simp add: worst_case_cost_def usage_cost_def kimi_k3_def reserve_input_price_def
      cache_write_price_def money_def or_zero_def)

lemma unprofiled_iff: "unprofiled ms \<longleftrightarrow> (\<exists>m \<in> set ms. m \<noteq> [] \<and> \<not> has_profile m)"
  by (induction ms) auto

lemma role_not_allowed_iff:
  "role_not_allowed req allow ms \<longleftrightarrow>
   (\<exists>m \<in> set ms. m \<noteq> [] \<and> (if allow = [] then req else m \<notin> set allow))"
  by (induction ms) auto

text \<open>
  The configuration check fails closed: a configuration accepted for a paid Swarm run names a
  Commander and a worker model that both have a registered profile and are both allowlisted, and
  every allowlisted model has a profile.
\<close>

theorem accepted_swarm_config_is_priced:
  assumes "validate_swarm_model_contract env True = Inr (commander, worker, allowlist)"
  shows "commander \<in> set allowlist \<and> worker \<in> set allowlist \<and>
    (\<forall>m \<in> set (commander # worker # allowlist). has_profile m)"
proof -
  have ne: "m \<noteq> []" if "m \<in> set (parse_allowlist s)" for m s
    using that by (simp add: parse_allowlist_def)
  show ?thesis
    using assms ne
    by (auto simp: validate_swarm_model_contract_def Let_def unprofiled_iff role_not_allowed_iff
        split: if_splits)
qed

definition example_swarm_env :: swarm_env where
  "example_swarm_env = \<lparr>commander_model_allowlist = Some ''kimi-k3, kimi-k2.6'',
     commander_model = Some ''kimi-k3'', swarm_worker_model = Some ''kimi-k2.6''\<rparr>"

lemma example_swarm_config:
  "validate_swarm_model_contract example_swarm_env True =
     Inr (''kimi-k3'', ''kimi-k2.6'', [''kimi-k3'', ''kimi-k2.6''])"
  by (simp add: validate_swarm_model_contract_def example_swarm_env_def Let_def env_text_def
      parse_allowlist_def py_strip_def is_space_def has_profile_def PROFILES_def)

theorem accepted_swarm_config_is_priced_witness:
  "has_profile ''kimi-k3'' \<and> has_profile ''kimi-k2.6''"
  using accepted_swarm_config_is_priced [OF example_swarm_config] by simp

text \<open>
  A usage block that omits its cache breakdown is never priced below one that reports it: every
  unreported prompt token is charged at the miss price.
\<close>

theorem absent_breakdown_never_cheaper:
  assumes "get_profile m = Some p"
  shows "usage_cost p i oo cached written TTL_5m \<le> usage_cost p i oo None None TTL_5m"
proof -
  obtain m c w where *: "0 \<le> m" "0 \<le> c" "0 \<le> w" "m + c + w = max 0 i"
    "usage_cost p i oo cached written TTL_5m = money (raw_cost p TTL_5m m c w (max 0 oo))"
    by (rule usage_cost_raw)
  have p: "price_input_hit p \<le> price_input_miss p" "cache_write_price p TTL_5m \<le> price_input_miss p"
    "0 \<le> price_input_miss p" "0 \<le> price_output p"
    using get_profile_cases [OF assms] by (auto simp: kimi_k3_def kimi_k26_def cache_write_price_def)
  have "raw_cost p TTL_5m m c w (max 0 oo)
      \<le> (of_int (max 0 i) * price_input_miss p + of_int (max 0 oo) * price_output p) / 1000000"
    using * p by (intro raw_cost_bound) simp_all
  moreover have "usage_cost p i oo None None TTL_5m
      = money ((of_int (max 0 i) * price_input_miss p + of_int (max 0 oo) * price_output p) / 1000000)"
    by (simp add: usage_cost_def or_zero_def)
  ultimately show ?thesis using *(5) by (simp only: money_mono)
qed

theorem absent_breakdown_never_cheaper_witness:
  "usage_cost kimi_k26 900 10 (Some 400) (Some 20) TTL_5m \<le> usage_cost kimi_k26 900 10 None None TTL_5m"
  by (rule absent_breakdown_never_cheaper [of "''kimi-k2.6''"])
     (simp add: get_profile_def PROFILES_def py_strip_def is_space_def)

text \<open>The parser accepts every finite report; only an infinite float escapes it as an exception.\<close>

lemma count_value_finite: "v \<noteq> PFloat PosInf \<Longrightarrow> \<exists>c. count_value v = Inr c"
  by (auto simp: count_value_def split: pyval.splits pyfloat.splits)

text \<open>
  An infinite reported count is not read as "absent": it escapes the reader as an
  \<open>OverflowError\<close>, although the reader promises a count or nothing.
\<close>

theorem infinite_count_raises:
  "read_usage counter (u\<lparr>prompt_tokens := PFloat PosInf\<rparr>) content = Inl OverflowError"
  by (simp add: read_usage_def count_value_def)

end
