(* ===== verification/Provider_Outcome.thy ===== *)
theory Provider_Outcome
  imports Prelude
begin

text \<open>
  \<open>backend/provider_authority.py\<close>, the taxonomy and the token-admission rule.

  An exception is an object of a finite heap (\<open>exn_heap\<close>, an association list from object ids to
  \<open>exn\<close>): the code walks its \<open>__cause__\<close>/\<open>__context__\<close> links and remembers the ids it has seen,
  so chains may be cyclic.  The attributes the code probes with \<open>getattr\<close> are fields, with
  \<open>PNone\<close>/\<open>None\<close> where the attribute is absent.  A header value is what \<open>float(str(raw).strip())\<close>
  makes of it, \<open>None\<close> where that raises.
\<close>

section \<open>The taxonomy\<close>

datatype provider_code =
    RATE_LIMIT_REACHED | ENGINE_OVERLOADED | EXCEEDED_CURRENT_QUOTA
  | SEARCH_RATE_LIMITED | SEARCH_RATE_LIMIT_UNAVAILABLE

definition code_text :: "provider_code \<Rightarrow> string" where
  "code_text c =
     (case c of
        RATE_LIMIT_REACHED \<Rightarrow> ''rate_limit_reached_error''
      | ENGINE_OVERLOADED \<Rightarrow> ''engine_overloaded_error''
      | EXCEEDED_CURRENT_QUOTA \<Rightarrow> ''exceeded_current_quota_error''
      | SEARCH_RATE_LIMITED \<Rightarrow> ''rate_limited''
      | SEARCH_RATE_LIMIT_UNAVAILABLE \<Rightarrow> ''rate_limit_unavailable'')"

datatype provider_outcome =
    SUCCESS | RATE_LIMIT | RETRYABLE_FAILURE | NON_RETRYABLE_FAILURE
  | TIMEOUT | CANCELLATION | UNKNOWN

definition BACKPRESSURE_OUTCOMES :: "provider_outcome list" where
  "BACKPRESSURE_OUTCOMES = [RATE_LIMIT]"

definition SEMANTIC_RETRY_OUTCOMES :: "provider_outcome list" where
  "SEMANTIC_RETRY_OUTCOMES = [RETRYABLE_FAILURE, NON_RETRYABLE_FAILURE, TIMEOUT, UNKNOWN]"

datatype unproven_reason =
    No_reason | OUTCOME_DECLARED_UNKNOWN | DEADLINE_EXCEEDED | OUTCOME_UNKNOWN

record rate_headers =
  header_limit :: "int option"
  header_remaining :: "int option"
  header_reset :: "int option"

record verdict =
  outcome :: provider_outcome
  provider_code :: "provider_code option"
  completion_proven :: bool
  unproven_reason :: unproven_reason
  retry_after :: "pyfloat option"
  rate_headers :: rate_headers

definition is_backpressure :: "verdict \<Rightarrow> bool" where
  "is_backpressure v = (outcome v \<in> set BACKPRESSURE_OUTCOMES)"

definition is_quota_exhaustion :: "verdict \<Rightarrow> bool" where
  "is_quota_exhaustion v = (provider_code v = Some EXCEEDED_CURRENT_QUOTA)"

definition consumes_semantic_retry :: "verdict \<Rightarrow> bool" where
  "consumes_semantic_retry v =
     (if provider_code v = Some EXCEEDED_CURRENT_QUOTA then False
      else outcome v \<in> set SEMANTIC_RETRY_OUTCOMES)"

definition no_headers :: rate_headers where
  "no_headers = \<lparr>header_limit = None, header_remaining = None, header_reset = None\<rparr>"

definition SUCCESS_VERDICT :: verdict where
  "SUCCESS_VERDICT = \<lparr>outcome = SUCCESS, provider_code = None, completion_proven = True,
     unproven_reason = No_reason, retry_after = None, rate_headers = no_headers\<rparr>"

section \<open>Exceptions\<close>

record response =
  response_status :: pyval
  response_headers :: "(string \<times> pyfloat option) list option"

record exn =
  class_name :: string
  text_of :: string
  cause :: "nat option"
  exn_context :: "nat option"
  status_code :: pyval
  response_of :: "response option"
  provider_request_completed :: "bool option"
  is_cancellation :: bool

type_synonym exn_heap = "(nat \<times> exn) list"

text \<open>\<open>_cause_chain\<close>: each object once, following \<open>__cause__ or __context__\<close>.\<close>

definition next_link :: "exn \<Rightarrow> nat option" where
  "next_link e = (case cause e of Some c \<Rightarrow> Some c | None \<Rightarrow> exn_context e)"

lemma unseen_decreases:
  assumes "map_of heap i = Some e" and "i \<notin> set seen"
  shows "length (filter (\<lambda>p. fst p \<notin> set (i # seen)) heap)
       < length (filter (\<lambda>p. fst p \<notin> set seen) heap)"
proof -
  have mem: "(i, e) \<in> set (filter (\<lambda>p. fst p \<notin> set seen) heap)"
    using assms by (auto dest: map_of_SomeD)
  have "filter (\<lambda>p. fst p \<notin> set (i # seen)) heap
      = filter (\<lambda>p. fst p \<noteq> i) (filter (\<lambda>p. fst p \<notin> set seen) heap)"
    by (auto simp: filter_filter intro: filter_cong)
  also have "length \<dots> < length (filter (\<lambda>p. fst p \<notin> set seen) heap)"
    by (rule length_filter_less [OF mem]) simp
  finally show ?thesis .
qed

function cause_chain :: "exn_heap \<Rightarrow> nat list \<Rightarrow> nat option \<Rightarrow> exn list" where
  "cause_chain heap seen cur =
     (case cur of
        None \<Rightarrow> []
      | Some i \<Rightarrow>
          if i \<in> set seen then []
          else (case map_of heap i of
                  None \<Rightarrow> []
                | Some e \<Rightarrow> e # cause_chain heap (i # seen) (next_link e)))"
  by pat_completeness auto
termination
  by (relation "measure (\<lambda>(heap, seen, cur). length (filter (\<lambda>p. fst p \<notin> set seen) heap))")
     (auto dest: unseen_decreases)

declare cause_chain.simps [simp del]

definition NEVER_SENT :: "string list" where
  "NEVER_SENT = [''ConnectError'', ''ConnectTimeout'', ''PoolTimeout'',
                 ''UnsupportedProtocol'', ''InvalidURL'', ''ProxyError'']"

definition failed_before_the_request_was_sent :: "exn_heap \<Rightarrow> nat \<Rightarrow> bool" where
  "failed_before_the_request_was_sent heap i =
     list_ex (\<lambda>e. class_name e \<in> set NEVER_SENT) (cause_chain heap [] (Some i))"

definition fired_a_total_deadline :: "exn_heap \<Rightarrow> nat \<Rightarrow> bool" where
  "fired_a_total_deadline heap i =
     list_ex (\<lambda>e. class_name e = ''ProviderRequestDeadlineExceeded'') (cause_chain heap [] (Some i))"

definition carries_a_complete_provider_response :: "exn \<Rightarrow> bool" where
  "carries_a_complete_provider_response e =
     (case response_of e of
        None \<Rightarrow> False
      | Some r \<Rightarrow> (case response_status r of PInt s \<Rightarrow> 100 \<le> s \<and> s \<le> 599 | _ \<Rightarrow> False))"

definition claimed_status :: "exn \<Rightarrow> int option" where
  "claimed_status e =
     (case status_code e of
        PInt s \<Rightarrow> Some s
      | _ \<Rightarrow> (case response_of e of
                Some r \<Rightarrow> (case response_status r of PInt s \<Rightarrow> Some s | _ \<Rightarrow> None)
              | None \<Rightarrow> None))"

fun first_marker :: "provider_code list \<Rightarrow> string \<Rightarrow> provider_code option" where
  "first_marker [] text = None"
| "first_marker (c # cs) text =
     (if contains_text (code_text c) text then Some c else first_marker cs text)"

definition provider_failure_code :: "exn \<Rightarrow> provider_code option" where
  "provider_failure_code e =
     (let text = py_lower (text_of e); status = claimed_status e in
      case first_marker [EXCEEDED_CURRENT_QUOTA, ENGINE_OVERLOADED, RATE_LIMIT_REACHED,
                         SEARCH_RATE_LIMIT_UNAVAILABLE] text of
        Some c \<Rightarrow> Some c
      | None \<Rightarrow>
          if contains_text ''project qps limit exceeded'' text then Some SEARCH_RATE_LIMITED
          else if status = Some 429 \<or> contains_text ''http 429'' text
                  \<or> contains_text ''error code: 429'' text then Some RATE_LIMIT_REACHED
          else if status = Some 503 \<or> contains_text ''overloaded'' text then Some ENGINE_OVERLOADED
          else if contains_text ''max organization concurrency'' text
                  \<or> contains_text ''organization max rpm'' text then Some RATE_LIMIT_REACHED
          else None)"

text \<open>\<open>headers.get(name)\<close>, then the lower-cased name; an unparsable or non-finite value is skipped.\<close>

definition header_value :: "(string \<times> pyfloat option) list \<Rightarrow> string \<Rightarrow> pyfloat option option" where
  "header_value hs name =
     (case map_of hs name of Some v \<Rightarrow> Some v | None \<Rightarrow> map_of hs (py_lower name))"

definition header_int :: "(string \<times> pyfloat option) list \<Rightarrow> string \<Rightarrow> int option" where
  "header_int hs name =
     (case header_value hs name of Some (Some (Finite r)) \<Rightarrow> Some (trunc_rat r) | _ \<Rightarrow> None)"

definition headers_of :: "exn \<Rightarrow> (string \<times> pyfloat option) list option" where
  "headers_of e = (case response_of e of None \<Rightarrow> None | Some r \<Rightarrow> response_headers r)"

definition rate_limit_headers :: "exn \<Rightarrow> rate_headers" where
  "rate_limit_headers e =
     (case headers_of e of
        None \<Rightarrow> no_headers
      | Some hs \<Rightarrow>
          \<lparr>header_limit = header_int hs ''X-RateLimit-Limit'',
           header_remaining = header_int hs ''X-RateLimit-Remaining'',
           header_reset = header_int hs ''X-RateLimit-Reset''\<rparr>)"

text \<open>\<open>value < 0\<close> refuses; the comparison is false for NaN and for an infinite value.\<close>

definition retry_after_seconds :: "exn \<Rightarrow> pyfloat option" where
  "retry_after_seconds e =
     (case headers_of e of
        None \<Rightarrow> None
      | Some hs \<Rightarrow>
          (case header_value hs ''Retry-After'' of
             None \<Rightarrow> None
           | Some None \<Rightarrow> None
           | Some (Some (Finite r)) \<Rightarrow> if r < 0 then None else Some (Finite r)
           | Some (Some NegInf) \<Rightarrow> None
           | Some (Some v) \<Rightarrow> Some v))"

definition completion_is_proven :: "exn_heap \<Rightarrow> nat \<Rightarrow> exn \<Rightarrow> bool \<times> unproven_reason" where
  "completion_is_proven heap i e =
     (case provider_request_completed e of
        Some declared \<Rightarrow> (declared, if declared then No_reason else OUTCOME_DECLARED_UNKNOWN)
      | None \<Rightarrow>
          if fired_a_total_deadline heap i then (False, DEADLINE_EXCEEDED)
          else if carries_a_complete_provider_response e then (True, No_reason)
          else if failed_before_the_request_was_sent heap i then (True, No_reason)
          else (False, OUTCOME_UNKNOWN))"

definition make_verdict ::
  "exn_heap \<Rightarrow> nat \<Rightarrow> exn \<Rightarrow> provider_outcome \<Rightarrow> provider_code option \<Rightarrow> verdict" where
  "make_verdict heap i e oc code =
     (let (proven, why) = completion_is_proven heap i e in
      \<lparr>outcome = oc, provider_code = code, completion_proven = proven,
       unproven_reason = (if proven then No_reason else why),
       retry_after = retry_after_seconds e, rate_headers = rate_limit_headers e\<rparr>)"

text \<open>
  \<open>None\<close> is the call that returned; \<open>Some i\<close> the exception object \<open>i\<close> of the heap.  An id with no
  object does not occur in Python; it is given the conservative verdict.
\<close>

definition unknown_verdict :: verdict where
  "unknown_verdict = \<lparr>outcome = UNKNOWN, provider_code = None, completion_proven = False,
     unproven_reason = OUTCOME_UNKNOWN, retry_after = None, rate_headers = no_headers\<rparr>"

definition classify_exn :: "exn_heap \<Rightarrow> nat \<Rightarrow> exn \<Rightarrow> verdict" where
  "classify_exn heap i e =
     (let verdict = make_verdict heap i e in
      if is_cancellation e then verdict CANCELLATION None
      else if fired_a_total_deadline heap i then verdict TIMEOUT None
      else
        (case provider_failure_code e of
           Some code \<Rightarrow>
             if code = EXCEEDED_CURRENT_QUOTA then verdict NON_RETRYABLE_FAILURE (Some code)
             else verdict RATE_LIMIT (Some code)
         | None \<Rightarrow>
             (case (if carries_a_complete_provider_response e then claimed_status e else None) of
                Some status \<Rightarrow>
                  if 500 \<le> status \<and> status \<le> 599 then verdict RETRYABLE_FAILURE None
                  else if 400 \<le> status \<and> status \<le> 499 then verdict NON_RETRYABLE_FAILURE None
                  else verdict UNKNOWN None
              | None \<Rightarrow>
                  if failed_before_the_request_was_sent heap i then verdict RETRYABLE_FAILURE None
                  else verdict UNKNOWN None)))"

definition classify_outcome :: "exn_heap \<Rightarrow> nat option \<Rightarrow> verdict" where
  "classify_outcome heap exc =
     (case exc of
        None \<Rightarrow> SUCCESS_VERDICT
      | Some i \<Rightarrow> (case map_of heap i of None \<Rightarrow> unknown_verdict | Some e \<Rightarrow> classify_exn heap i e))"

section \<open>The token-admission rule\<close>

text \<open>
  A request payload as \<open>json.dumps\<close> sees it.  Text is a list of code points.  \<open>JOther\<close> is an object
  the serialiser hands to \<open>default\<close>, which raises \<open>UnknownTokenDemand\<close>; a float carries its \<open>repr\<close>.
\<close>

datatype json =
    JNull
  | JBool bool
  | JInt int
  | JFloat string
  | JStr "nat list"
  | JArr "json list"
  | JObj "(nat list \<times> json) list"
  | JOther

datatype admission_error =
    Unknown_token_demand | Missing_output_cap | Unicode_encode_error | Overflow_error
  | Token_ceiling_exceeded

definition utf8_bytes :: "nat \<Rightarrow> nat option" where
  "utf8_bytes c =
     (if c < 128 then Some 1 else if c < 2048 then Some 2
      else if 55296 \<le> c \<and> c \<le> 57343 then None
      else if c < 65536 then Some 3 else Some 4)"

text \<open>Bytes of one character inside a JSON string with \<open>ensure_ascii=False\<close>.\<close>

definition escaped_bytes :: "nat \<Rightarrow> nat option" where
  "escaped_bytes c =
     (if c \<in> {8, 9, 10, 12, 13, 34, 92} then Some 2
      else if c < 32 then Some 6
      else utf8_bytes c)"

fun sum_opt :: "nat option list \<Rightarrow> nat option" where
  "sum_opt [] = Some 0"
| "sum_opt (x # xs) =
     (case x of None \<Rightarrow> None
              | Some n \<Rightarrow> (case sum_opt xs of None \<Rightarrow> None | Some m \<Rightarrow> Some (n + m)))"

definition string_bytes :: "nat list \<Rightarrow> nat option" where
  "string_bytes s = map_option (\<lambda>n. n + 2) (sum_opt (map escaped_bytes s))"

fun nat_digits :: "nat \<Rightarrow> nat" where
  "nat_digits n = (if n < 10 then 1 else Suc (nat_digits (n div 10)))"

declare nat_digits.simps [simp del]

definition int_bytes :: "int \<Rightarrow> nat" where
  "int_bytes k = (if k < 0 then Suc (nat_digits (nat (- k))) else nat_digits (nat k))"

text \<open>The serialised size: brackets and braces, one separator between elements, one colon per pair.\<close>

fun serializable :: "json \<Rightarrow> bool" where
  "serializable (JArr xs) = list_all serializable xs"
| "serializable (JObj kvs) = list_all (\<lambda>(k, v). serializable v) kvs"
| "serializable JOther = False"
| "serializable j = True"

fun json_bytes :: "json \<Rightarrow> nat option" where
  "json_bytes JNull = Some 4"
| "json_bytes (JBool b) = Some (if b then 4 else 5)"
| "json_bytes (JInt k) = Some (int_bytes k)"
| "json_bytes (JFloat r) = Some (length r)"
| "json_bytes (JStr s) = string_bytes s"
| "json_bytes (JArr xs) =
     map_option (\<lambda>n. n + 2 + (length xs - 1)) (sum_opt (map json_bytes xs))"
| "json_bytes (JObj kvs) =
     map_option (\<lambda>n. n + 2 + (length kvs - 1))
       (sum_opt (map (\<lambda>(k, v). sum_opt [string_bytes k, Some 1, json_bytes v]) kvs))"
| "json_bytes JOther = None"

definition measured_bytes :: "json \<Rightarrow> admission_error + nat" where
  "measured_bytes j =
     (if \<not> serializable j then Inl Unknown_token_demand
      else (case json_bytes j of None \<Rightarrow> Inl Unicode_encode_error | Some n \<Rightarrow> Inr n))"

definition STRUCTURAL_TOKENS_PER_MESSAGE :: nat where
  "STRUCTURAL_TOKENS_PER_MESSAGE = 8"

definition STRUCTURAL_TOKENS_PER_TOOL :: nat where
  "STRUCTURAL_TOKENS_PER_TOOL = 32"

text \<open>\<open>len(messages)\<close>: a list, an object or a text has one; other values raise \<open>TypeError\<close>.\<close>

definition json_len :: "json \<Rightarrow> nat option" where
  "json_len j = (case j of JArr xs \<Rightarrow> Some (length xs) | JObj kvs \<Rightarrow> Some (length kvs)
                         | JStr s \<Rightarrow> Some (length s) | _ \<Rightarrow> None)"

definition json_truthy :: "json \<Rightarrow> bool" where
  "json_truthy j =
     (case j of JNull \<Rightarrow> False | JBool b \<Rightarrow> b | JInt k \<Rightarrow> k \<noteq> 0 | JStr s \<Rightarrow> s \<noteq> []
              | JArr xs \<Rightarrow> xs \<noteq> [] | JObj kvs \<Rightarrow> kvs \<noteq> []
              | JFloat r \<Rightarrow> r \<noteq> ''0.0'' \<and> r \<noteq> ''-0.0'' | JOther \<Rightarrow> True)"

definition conservative_input_tokens :: "json \<Rightarrow> json \<Rightarrow> admission_error + nat" where
  "conservative_input_tokens messages tools =
     (if messages = JNull then Inl Unknown_token_demand
      else (case json_len messages of
         None \<Rightarrow> Inl Unknown_token_demand
       | Some message_count \<Rightarrow>
          (case measured_bytes messages of
             Inl e \<Rightarrow> Inl e
           | Inr mb \<Rightarrow>
              (let sub = mb + STRUCTURAL_TOKENS_PER_MESSAGE * message_count in
               if json_truthy tools
               then (case json_len tools of
                       None \<Rightarrow> Inl Unknown_token_demand
                     | Some tool_count \<Rightarrow>
                        (case measured_bytes tools of
                           Inl e \<Rightarrow> Inl e
                         | Inr tb \<Rightarrow> Inr (max 1 (sub + tb + STRUCTURAL_TOKENS_PER_TOOL * tool_count))))
               else Inr (max 1 sub)))))"

datatype demand_basis = CONSERVATIVE_BASIS | AUTHORITATIVE_BASIS

record token_demand =
  tokens :: int
  basis :: demand_basis
  input_tokens :: int
  output_cap :: int

text \<open>\<open>int(output_cap)\<close> on an untyped value; \<open>TypeError\<close> and \<open>ValueError\<close> become the missing cap.\<close>

definition int_of_pyval :: "pyval \<Rightarrow> admission_error + int" where
  "int_of_pyval v =
     (case v of
        PInt n \<Rightarrow> Inr n
      | PBool b \<Rightarrow> Inr (if b then 1 else 0)
      | PFloat (Finite r) \<Rightarrow> Inr (trunc_rat r)
      | PFloat NaN \<Rightarrow> Inl Missing_output_cap
      | PFloat _ \<Rightarrow> Inl Overflow_error
      | PStr s \<Rightarrow> (case py_int s of None \<Rightarrow> Inl Missing_output_cap | Some n \<Rightarrow> Inr n)
      | _ \<Rightarrow> Inl Missing_output_cap)"

text \<open>
  \<open>counter\<close> is the registered authoritative counter: \<open>None\<close> when there is none, otherwise what it
  answers, with \<open>PNone\<close> for a raise.
\<close>

definition authoritative_count :: "(json \<Rightarrow> json \<Rightarrow> pyval) option \<Rightarrow> json \<Rightarrow> json \<Rightarrow> int option" where
  "authoritative_count counter messages tools =
     (case counter of
        None \<Rightarrow> None
      | Some f \<Rightarrow> (case f messages tools of PInt n \<Rightarrow> (if 0 < n then Some n else None) | _ \<Rightarrow> None))"

definition admission_demand ::
  "(json \<Rightarrow> json \<Rightarrow> pyval) option \<Rightarrow> json \<Rightarrow> pyval \<Rightarrow> json \<Rightarrow> admission_error + token_demand" where
  "admission_demand counter messages cap_arg tools =
     (case int_of_pyval cap_arg of
        Inl e \<Rightarrow> Inl e
      | Inr cap \<Rightarrow>
          if cap \<le> 0 then Inl Missing_output_cap
          else (case authoritative_count counter messages tools of
             Some n \<Rightarrow>
               (let count = (if json_truthy messages
                             then (case json_len messages of Some k \<Rightarrow> k | None \<Rightarrow> 1) else 0);
                    inputs = n + int (STRUCTURAL_TOKENS_PER_MESSAGE * count)
                in Inr \<lparr>tokens = inputs + cap, basis = AUTHORITATIVE_BASIS,
                        input_tokens = inputs, output_cap = cap\<rparr>)
           | None \<Rightarrow>
               (case conservative_input_tokens messages tools of
                  Inl e \<Rightarrow> Inl e
                | Inr n \<Rightarrow> Inr \<lparr>tokens = int n + cap, basis = CONSERVATIVE_BASIS,
                                input_tokens = int n, output_cap = cap\<rparr>)))"

definition assert_within_token_ceiling :: "int \<Rightarrow> int option \<Rightarrow> admission_error + unit" where
  "assert_within_token_ceiling demand limit =
     (if over limit demand then Inl Token_ceiling_exceeded else Inr ())"

definition token_demand_of ::
  "(json \<Rightarrow> json \<Rightarrow> pyval) option \<Rightarrow> int option \<Rightarrow> int option \<Rightarrow> json \<Rightarrow> pyval \<Rightarrow> json
   \<Rightarrow> admission_error + token_demand" where
  "token_demand_of counter process_tpm organization_tpm messages cap tools =
     (case admission_demand counter messages cap tools of
        Inl e \<Rightarrow> Inl e
      | Inr d \<Rightarrow>
          (case assert_within_token_ceiling (tokens d) process_tpm of
             Inl e \<Rightarrow> Inl e
           | Inr _ \<Rightarrow>
               (case assert_within_token_ceiling (tokens d) organization_tpm of
                  Inl e \<Rightarrow> Inl e
                | Inr _ \<Rightarrow> Inr d)))"

section \<open>What the classifier promises\<close>

text \<open>The chain walk visits each object at most once and stops on a cycle.\<close>

lemma cause_chain_distinct_bound:
  "length (cause_chain heap seen cur) \<le> length (filter (\<lambda>p. fst p \<notin> set seen) heap)"
proof (induction heap seen cur rule: cause_chain.induct)
  case (1 heap seen cur)
  show ?case
  proof (cases cur)
    case None
    then show ?thesis by (simp add: cause_chain.simps)
  next
    case (Some i)
    show ?thesis
    proof (cases "i \<in> set seen \<or> map_of heap i = None")
      case True
      with Some show ?thesis by (auto simp: cause_chain.simps [of heap seen "Some i"])
    next
      case False
      then obtain e where e: "i \<notin> set seen" "map_of heap i = Some e" by auto
      with 1 Some have "length (cause_chain heap (i # seen) (next_link e))
          \<le> length (filter (\<lambda>p. fst p \<notin> set (i # seen)) heap)" by blast
      with unseen_decreases [OF e(2,1)] e Some show ?thesis
        by (simp add: cause_chain.simps [of heap seen "Some i"])
    qed
  qed
qed

lemma classify_fields:
  assumes "map_of heap i = Some e"
  shows "completion_proven (classify_outcome heap (Some i)) = fst (completion_is_proven heap i e)"
    and "retry_after (classify_outcome heap (Some i)) = retry_after_seconds e"
  using assms
  by (auto simp: classify_outcome_def classify_exn_def make_verdict_def Let_def
      split: option.splits prod.splits)

lemma first_marker_in: "first_marker cs t = Some c \<Longrightarrow> c \<in> set cs"
  by (induction cs) (auto split: if_splits)

text \<open>Message text is rewritten throughout the heap; nothing else changes.\<close>

definition retext :: "(nat \<Rightarrow> exn \<Rightarrow> string) \<Rightarrow> exn_heap \<Rightarrow> exn_heap" where
  "retext f heap = map (\<lambda>(k, e). (k, e\<lparr>text_of := f k e\<rparr>)) heap"

lemma map_of_retext [simp]:
  "map_of (retext f heap) i = map_option (\<lambda>e. e\<lparr>text_of := f i e\<rparr>) (map_of heap i)"
  by (induction heap) (auto simp: retext_def)

lemma next_link_text [simp]: "next_link (e\<lparr>text_of := t\<rparr>) = next_link e"
  by (simp add: next_link_def split: option.split)

lemma cause_chain_retext:
  "map class_name (cause_chain (retext f heap) seen cur) = map class_name (cause_chain heap seen cur)"
proof (induction heap seen cur rule: cause_chain.induct)
  case (1 heap seen cur)
  then show ?case
    by (subst (1 2) cause_chain.simps) (auto split: option.splits)
qed

lemma list_ex_class: "list_ex (\<lambda>e. P (class_name e)) es = list_ex P (map class_name es)"
  by (induction es) auto

lemma chain_tests_retext [simp]:
  "failed_before_the_request_was_sent (retext f heap) i = failed_before_the_request_was_sent heap i"
  "fired_a_total_deadline (retext f heap) i = fired_a_total_deadline heap i"
  unfolding failed_before_the_request_was_sent_def fired_a_total_deadline_def
  by (simp_all only: list_ex_class [where P = "\<lambda>c. c \<in> set NEVER_SENT"]
      list_ex_class [where P = "\<lambda>c. c = ''ProviderRequestDeadlineExceeded''"] cause_chain_retext)

section \<open>Properties of the taxonomy\<close>

text \<open>
  An organization permit is only ever declared returnable on structural evidence: the request
  was declared complete by code that knew, or the exception carries a provider response with an HTTP
  status, or nothing was ever sent.
\<close>

theorem proven_needs_structure:
  assumes "map_of heap i = Some e" and "completion_proven (classify_outcome heap (Some i))"
  shows "provider_request_completed e = Some True
       \<or> (\<not> fired_a_total_deadline heap i \<and>
          (carries_a_complete_provider_response e \<or> failed_before_the_request_was_sent heap i))"
  using assms
  by (auto simp: classify_fields completion_is_proven_def split: option.splits if_splits)

definition plain_exn :: exn where
  "plain_exn = \<lparr>class_name = ''APIStatusError'', text_of = ''Error code: 429'', cause = None,
     exn_context = None, status_code = PNone, response_of = None,
     provider_request_completed = None, is_cancellation = False\<rparr>"

definition answered_exn :: exn where
  "answered_exn = plain_exn\<lparr>response_of := Some \<lparr>response_status = PInt 429, response_headers = None\<rparr>\<rparr>"

lemma plain_chain: "cause_chain [(0, e)] [] (Some 0) = [e]" if "next_link e = None"
  using that by (simp add: cause_chain.simps)

theorem proven_needs_structure_witness:
  "provider_request_completed answered_exn = Some True
     \<or> (\<not> fired_a_total_deadline [(0, answered_exn)] 0 \<and>
        (carries_a_complete_provider_response answered_exn
         \<or> failed_before_the_request_was_sent [(0, answered_exn)] 0))"
proof (rule proven_needs_structure)
  show "completion_proven (classify_outcome [(0, answered_exn)] (Some 0))"
    by (simp add: classify_fields [of _ _ answered_exn] completion_is_proven_def answered_exn_def
        plain_exn_def fired_a_total_deadline_def carries_a_complete_provider_response_def
        plain_chain next_link_def)
qed simp

text \<open>
  The text of a message never decides whether a permit goes back: rewriting every message of an
  exception chain leaves the completion verdict unchanged.
\<close>

theorem message_text_never_frees_a_permit:
  assumes "map_of heap i = Some e"
  shows "completion_proven (classify_outcome (retext f heap) (Some i)) =
         completion_proven (classify_outcome heap (Some i))"
  using assms
  by (simp add: classify_fields [OF assms] classify_fields [of "retext f heap" i "e\<lparr>text_of := f i e\<rparr>"]
      completion_is_proven_def carries_a_complete_provider_response_def)

theorem message_text_never_frees_a_permit_witness:
  "completion_proven (classify_outcome (retext (\<lambda>_ _. ''http 200 ok'') [(0, plain_exn)]) (Some 0)) =
   completion_proven (classify_outcome [(0, plain_exn)] (Some 0))"
  by (rule message_text_never_frees_a_permit [of _ _ plain_exn]) simp

definition charges :: "verdict \<Rightarrow> bool list" where
  "charges v = [is_backpressure v, consumes_semantic_retry v, is_quota_exhaustion v,
                outcome v = CANCELLATION]"

lemmas charge_defs = charges_def is_backpressure_def consumes_semantic_retry_def
  is_quota_exhaustion_def BACKPRESSURE_OUTCOMES_def SEMANTIC_RETRY_OUTCOMES_def

text \<open>
  One provider event is charged once: every classified exception is exactly one of
  backpressure (paced by the scheduler), a semantic retry (charged to the run's allowance), a
  quota exhaustion (terminal) and a cancellation.
\<close>

theorem every_failure_is_charged_once:
  "length (filter id (charges (classify_outcome heap (Some i)))) = 1"
proof (cases "map_of heap i")
  case None
  then show ?thesis by (simp add: charge_defs classify_outcome_def unknown_verdict_def)
next
  case (Some e)
  then show ?thesis
    by (auto simp: charge_defs classify_outcome_def classify_exn_def make_verdict_def Let_def
        split: option.splits prod.splits)
qed

text \<open>
  A fired total deadline is never an answer: unless code that knew declared the request's fate,
  its permit is held and the outcome is a timeout (or the cancellation that raced it), whatever
  status, headers or text the exception carries.
\<close>

theorem deadline_never_proves_completion:
  assumes "map_of heap i = Some e" and "fired_a_total_deadline heap i"
    and "provider_request_completed e = None"
  shows "\<not> completion_proven (classify_outcome heap (Some i))
       \<and> outcome (classify_outcome heap (Some i)) \<in> {TIMEOUT, CANCELLATION}"
  using assms
  by (simp add: classify_outcome_def classify_exn_def make_verdict_def completion_is_proven_def Let_def)

definition deadline_exn :: exn where
  "deadline_exn = answered_exn\<lparr>class_name := ''ProviderRequestDeadlineExceeded''\<rparr>"

theorem deadline_never_proves_completion_witness:
  "\<not> completion_proven (classify_outcome [(0, deadline_exn)] (Some 0))
   \<and> outcome (classify_outcome [(0, deadline_exn)] (Some 0)) \<in> {TIMEOUT, CANCELLATION}"
  by (rule deadline_never_proves_completion [of _ _ deadline_exn])
     (simp_all add: fired_a_total_deadline_def plain_chain next_link_def deadline_exn_def
       answered_exn_def plain_exn_def)

text \<open>
  A \<open>Retry-After\<close> header that parses to NaN is handed on as a valid delay: the only check is
  \<open>value < 0\<close>, which is false for NaN, so every later bound that adds it compares false.
\<close>

theorem nan_retry_after_is_accepted:
  assumes "map_of heap i = Some e" and "headers_of e = Some [(''Retry-After'', Some NaN)]"
  shows "retry_after (classify_outcome heap (Some i)) = Some NaN"
  using assms by (simp add: classify_fields retry_after_seconds_def header_value_def)

definition nan_exn :: exn where
  "nan_exn = plain_exn\<lparr>response_of := Some \<lparr>response_status = PInt 429,
     response_headers = Some [(''Retry-After'', Some NaN)]\<rparr>\<rparr>"

theorem nan_retry_after_is_accepted_witness:
  "retry_after (classify_outcome [(0, nan_exn)] (Some 0)) = Some NaN"
  by (rule nan_retry_after_is_accepted [of _ _ nan_exn]) (simp_all add: headers_of_def nan_exn_def)

section \<open>The admission bound\<close>

text \<open>The raw UTF-8 bytes of every text value of a payload.\<close>

fun raw_bytes :: "nat list \<Rightarrow> nat" where
  "raw_bytes [] = 0"
| "raw_bytes (c # cs) = (case utf8_bytes c of None \<Rightarrow> 0 | Some n \<Rightarrow> n) + raw_bytes cs"

fun text_bytes :: "json \<Rightarrow> nat" where
  "text_bytes (JStr s) = raw_bytes s"
| "text_bytes (JArr xs) = sum_list (map text_bytes xs)"
| "text_bytes (JObj kvs) = sum_list (map (\<lambda>(k, v). text_bytes v) kvs)"
| "text_bytes j = 0"

lemma sum_opt_bound:
  assumes "sum_opt (map f xs) = Some n" and "\<And>x m. x \<in> set xs \<Longrightarrow> f x = Some m \<Longrightarrow> g x \<le> m"
  shows "sum_list (map g xs) \<le> n"
  using assms
proof (induction xs arbitrary: n)
  case (Cons x xs)
  then obtain a b where "f x = Some a" "sum_opt (map f xs) = Some b" "n = a + b"
    by (auto split: option.splits)
  moreover from this Cons have "g x \<le> a" "sum_list (map g xs) \<le> b" by auto
  ultimately show ?case by simp
qed simp

lemma escaped_ge: "escaped_bytes c = Some n \<Longrightarrow> (case utf8_bytes c of None \<Rightarrow> 0 | Some m \<Rightarrow> m) \<le> n"
  by (auto simp: escaped_bytes_def utf8_bytes_def split: if_splits)

lemma raw_bytes_sum: "raw_bytes s = sum_list (map (\<lambda>c. case utf8_bytes c of None \<Rightarrow> 0 | Some m \<Rightarrow> m) s)"
  by (induction s) auto

lemma string_bytes_ge: "string_bytes s = Some n \<Longrightarrow> raw_bytes s + 2 \<le> n"
  by (auto simp: string_bytes_def raw_bytes_sum dest!: sum_opt_bound [OF _ escaped_ge])

lemma json_bytes_ge: "json_bytes j = Some n \<Longrightarrow> text_bytes j \<le> n"
proof (induction j arbitrary: n rule: json_bytes.induct)
  case (5 s)
  then show ?case by (auto dest: string_bytes_ge)
next
  case (6 xs)
  then obtain m where "sum_opt (map json_bytes xs) = Some m" "m \<le> n" by auto
  moreover from this "6.IH" have "sum_list (map text_bytes xs) \<le> m" by (auto intro: sum_opt_bound)
  ultimately show ?case by simp
next
  case (7 kvs)
  then obtain m where m: "sum_opt (map (\<lambda>(k, v). sum_opt [string_bytes k, Some 1, json_bytes v]) kvs) = Some m"
    "m \<le> n" by (auto simp del: sum_opt.simps)
  have "sum_list (map (\<lambda>(k, v). text_bytes v) kvs) \<le> m"
    using m(1)
  proof (rule sum_opt_bound, clarify)
    fix k v b
    assume "(k, v) \<in> set kvs" and "sum_opt [string_bytes k, Some 1, json_bytes v] = Some b"
    then show "text_bytes v \<le> b"
      using "7.IH" by (fastforce split: option.splits)
  qed
  with m show ?case by simp
qed auto

lemma measured_ge: "measured_bytes j = Inr n \<Longrightarrow> text_bytes j \<le> n"
  by (auto simp: measured_bytes_def json_bytes_ge split: if_splits option.splits)

lemma falsy_no_text: "\<not> json_truthy j \<Longrightarrow> text_bytes j = 0"
  by (auto simp: json_truthy_def split: json.splits)

lemma conservative_ge:
  "conservative_input_tokens messages tools = Inr n \<Longrightarrow>
   text_bytes messages + text_bytes tools \<le> n \<and> 1 \<le> n"
  by (auto simp: conservative_input_tokens_def Let_def dest!: measured_ge falsy_no_text
      split: if_splits option.splits sum.splits)

text \<open>
  Without an authoritative counter the admission value is an upper bound, not an average: it is
  at least the UTF-8 bytes of every text in the messages and tools plus the whole output cap.
\<close>

theorem admission_is_a_byte_bound:
  assumes "admission_demand counter messages cap_arg tools = Inr d"
    and "basis d = CONSERVATIVE_BASIS"
  shows "int (text_bytes messages + text_bytes tools) + output_cap d \<le> tokens d
       \<and> 0 < output_cap d \<and> tokens d = input_tokens d + output_cap d"
  using assms conservative_ge
  by (fastforce simp: admission_demand_def Let_def split: sum.splits if_splits option.splits)

definition example_messages :: json where
  "example_messages = JArr [JObj [([114], JStr [1488, 1489, 34])]]"

lemma example_demand:
  "admission_demand None example_messages (PInt 100) JNull =
     Inr \<lparr>tokens = 124, basis = CONSERVATIVE_BASIS, input_tokens = 24, output_cap = 100\<rparr>"
  by (simp add: admission_demand_def int_of_pyval_def authoritative_count_def example_messages_def
      conservative_input_tokens_def measured_bytes_def json_len_def json_truthy_def string_bytes_def
      escaped_bytes_def utf8_bytes_def STRUCTURAL_TOKENS_PER_MESSAGE_def)

theorem admission_is_a_byte_bound_witness:
  "int (text_bytes example_messages + text_bytes JNull) + 100 \<le> 124"
  using admission_is_a_byte_bound [OF example_demand] by simp

lemma admission_positive:
  "admission_demand counter messages cap_arg tools = Inr d \<Longrightarrow>
   0 < input_tokens d \<and> 0 < output_cap d \<and> tokens d = input_tokens d + output_cap d"
  by (auto simp: admission_demand_def Let_def authoritative_count_def
      STRUCTURAL_TOKENS_PER_MESSAGE_def dest!: conservative_ge
      split: sum.splits if_splits option.splits pyval.splits)

text \<open>
  An admitted demand never exceeds a configured process or organization ceiling, and a call
  without a positive cap is never admitted.
\<close>

theorem admitted_demand_fits_ceilings:
  assumes "token_demand_of counter process_tpm organization_tpm messages cap tools = Inr d"
  shows "fits process_tpm (tokens d) \<and> fits organization_tpm (tokens d)
       \<and> 0 < output_cap d \<and> output_cap d < tokens d"
  using assms
  by (auto simp: token_demand_of_def assert_within_token_ceiling_def not_over [symmetric]
      split: sum.splits if_splits dest!: admission_positive)

theorem admitted_demand_fits_ceilings_witness:
  "fits (Some 200) (124::int) \<and> fits None (124::int) \<and> (0::int) < 100 \<and> (100::int) < 124"
proof -
  have "token_demand_of None (Some 200) None example_messages (PInt 100) JNull =
     Inr \<lparr>tokens = 124, basis = CONSERVATIVE_BASIS, input_tokens = 24, output_cap = 100\<rparr>"
    by (simp add: token_demand_of_def example_demand assert_within_token_ceiling_def)
  from admitted_demand_fits_ceilings [OF this] show ?thesis by simp
qed

end
