(* ===== verification/Quota_Contract.thy ===== *)
theory Quota_Contract
  imports Prelude
begin

text \<open>
  The storage interface of \<open>backend/provider_quota.py\<close>: the \<open>QuotaBackend\<close> protocol (the record
  \<open>quota_ops\<close>) and the contract its providers promise, as two locales.  \<open>lease_store\<close> is the
  concurrency half (leases), \<open>quota_backend\<close> adds rolling windows, intervals and pauses.

  Time is in milliseconds.  Every operation takes the time at which the store runs it; the
  protocol's \<open>release\<close> and \<open>recover\<close> carry no clock argument in Python, and the memory backend
  ignores the one it is given here.  The model lets the store and its callers read one clock.
  The key spaces of leases, windows, intervals and pauses are disjoint by their names, and are
  separate maps in both backends.
\<close>

type_synonym key = string
type_synonym lease = string

text \<open>A score: a moment, or \<open>math.inf\<close> / \<open>+inf\<close>.\<close>

datatype expiry = At int | Forever

definition past :: "expiry \<Rightarrow> int \<Rightarrow> bool" where
  "past e now = (case e of At t \<Rightarrow> t \<le> now | Forever \<Rightarrow> False)"

lemma past_simps [simp]: "past (At t) now = (t \<le> now)" "\<not> past Forever now"
  by (simp_all add: past_def)

lemma past_mono: "past e t \<Longrightarrow> t \<le> u \<Longrightarrow> past e u"
  by (cases e) auto

definition stamp :: "int option \<Rightarrow> int \<Rightarrow> expiry" where
  "stamp ttl now = (case ttl of None \<Rightarrow> Forever | Some d \<Rightarrow> At (now + d))"

datatype recovery = RECOVERY_REMOVED | RECOVERY_NOT_HELD | RECOVERY_TOO_YOUNG

section \<open>The protocol\<close>

record 's quota_ops =
  acquire_concurrency :: "'s \<Rightarrow> key \<Rightarrow> lease \<Rightarrow> int \<Rightarrow> int option \<Rightarrow> int \<Rightarrow> (bool \<times> int) \<times> 's"
  verify_concurrency :: "'s \<Rightarrow> key \<Rightarrow> lease \<Rightarrow> int \<Rightarrow> bool"
  held_concurrency :: "'s \<Rightarrow> key \<Rightarrow> int \<Rightarrow> (lease \<times> expiry \<times> int) list"
  release_concurrency :: "'s \<Rightarrow> key \<Rightarrow> lease \<Rightarrow> int \<Rightarrow> bool \<times> 's"
  recover_concurrency :: "'s \<Rightarrow> key \<Rightarrow> lease \<Rightarrow> int \<Rightarrow> int \<Rightarrow> recovery \<times> 's"
  admit_window :: "'s \<Rightarrow> key \<Rightarrow> string \<Rightarrow> int \<Rightarrow> int \<Rightarrow> int \<Rightarrow> int \<Rightarrow> (bool \<times> int \<times> rat) \<times> 's"
  admit_interval :: "'s \<Rightarrow> key \<Rightarrow> int \<Rightarrow> int \<Rightarrow> (bool \<times> rat) \<times> 's"
  set_pause :: "'s \<Rightarrow> key \<Rightarrow> int \<Rightarrow> int \<Rightarrow> 's"
  pause_remaining :: "'s \<Rightarrow> key \<Rightarrow> int \<Rightarrow> rat"

definition seconds :: "int \<Rightarrow> rat" where
  "seconds ms = max 0 (of_int ms / 1000)"

section \<open>Dictionaries of lease scores\<close>

definition drop_keys :: "lease list \<Rightarrow> (lease \<times> 'v) list \<Rightarrow> (lease \<times> 'v) list" where
  "drop_keys ks d = filter (\<lambda>p. fst p \<notin> set ks) d"

definition acquired_or_zero :: "(lease \<times> int) list \<Rightarrow> lease \<Rightarrow> int" where
  "acquired_or_zero acq l = (case map_of acq l of None \<Rightarrow> 0 | Some a \<Rightarrow> a)"


text \<open>The leases of a score dictionary that are still held at a moment.\<close>

definition holders_at :: "(lease \<times> expiry) list \<Rightarrow> int \<Rightarrow> lease set" where
  "holders_at d u = {l. \<exists>e. map_of d l = Some e \<and> \<not> past e u}"

abbreviation lasting :: "(lease \<times> expiry) list \<Rightarrow> int \<Rightarrow> (lease \<times> expiry) list" where
  "lasting d now \<equiv> filter (\<lambda>(l, e). \<not> past e now) d"

lemma map_of_drop_keys: "map_of (drop_keys ks d) l = Some a \<Longrightarrow> map_of d l = Some a"
  by (induction d) (auto simp: drop_keys_def split: if_splits dest: map_of_SomeD)

lemma drop_expired:
  assumes "dict_wf d"
  shows "drop_keys (map fst (filter (\<lambda>(l, e). past e now) d)) d = lasting d now"
  using assms
  by (force simp: drop_keys_def dict_wf_def distinct_map inj_on_def intro!: filter_cong)

lemma map_of_lasting:
  "dict_wf d \<Longrightarrow> map_of (lasting d now) l = Some e \<longleftrightarrow> map_of d l = Some e \<and> \<not> past e now"
  by (induction d) (force simp: dict_wf_def dest: map_of_SomeD)+

lemma dict_wf_filter: "dict_wf d \<Longrightarrow> dict_wf (filter P d)"
  by (simp add: dict_wf_def distinct_map_filter)

lemma dict_wf_update: "dict_wf d \<Longrightarrow> dict_wf (AList.update k v d)"
  by (simp add: dict_wf_def distinct_update)

lemma dict_wf_alist_delete: "dict_wf d \<Longrightarrow> dict_wf (AList.delete k d)"
  by (simp add: dict_wf_def distinct_delete)

lemma holders_at_lasting: "dict_wf d \<Longrightarrow> now \<le> u \<Longrightarrow> holders_at (lasting d now) u = holders_at d u"
  by (auto simp: holders_at_def map_of_lasting dest: past_mono)

lemma holders_at_update:
  "holders_at (AList.update l e d) u = (holders_at d u - {l}) \<union> (if past e u then {} else {l})"
  by (auto simp: holders_at_def update_conv)

lemma holders_at_delete: "holders_at (AList.delete l d) u = holders_at d u - {l}"
  by (auto simp: holders_at_def delete_conv)

lemma holders_at_keys: "dict_wf d \<Longrightarrow> holders_at d now = fst ` set (lasting d now)"
  by (force simp: holders_at_def dict_wf_def)

lemma finite_holders: "finite (holders_at d u)"
proof -
  have "holders_at d u \<subseteq> fst ` set d" by (force simp: holders_at_def dest: map_of_SomeD)
  then show ?thesis by (rule finite_subset) simp
qed

lemma card_holders:
  assumes "dict_wf d"
  shows "card (holders_at d now) = length (lasting d now)"
proof -
  have "distinct (map fst (lasting d now))"
    using dict_wf_filter [OF assms] by (simp add: dict_wf_def)
  from distinct_card [OF this] show ?thesis
    by (simp only: holders_at_keys [OF assms] set_map length_map)
qed

lemma holders_at_antimono: "t \<le> u \<Longrightarrow> holders_at d u \<subseteq> holders_at d t"
  by (auto simp: holders_at_def dest: past_mono)

text \<open>The weight of a rolling window at a moment.\<close>

definition window_weight :: "(int \<times> int) list \<Rightarrow> int \<Rightarrow> int \<Rightarrow> int" where
  "window_weight es W u = (\<Sum>(t, w)\<leftarrow>filter (\<lambda>(t, w). u - W < t) es. w)"

lemma window_weight_simps [simp]:
  "window_weight [] W u = 0"
  "window_weight ((t, w) # es) W u = (if u - W < t then w else 0) + window_weight es W u"
  "window_weight (es @ fs) W u = window_weight es W u + window_weight fs W u"
  by (simp_all add: window_weight_def)

lemma window_weight_prune:
  "now \<le> u \<Longrightarrow> window_weight (filter (\<lambda>(t, w). now - W < t) es) W u = window_weight es W u"
  by (induction es) auto

section \<open>The contract\<close>

text \<open>
  \<open>inv s t\<close>: the store is well formed and \<open>t\<close> is not before any write it has seen.
  \<open>live s k u\<close>: the leases the store counts against \<open>k\<close> at \<open>u\<close>.  \<open>age s k l\<close>: the recorded
  acquisition time.  \<open>reclaim\<close>: the one \<open>ttl_ms\<close> every caller passes.
\<close>

locale lease_store =
  fixes B :: "'s quota_ops"
    and inv :: "'s \<Rightarrow> int \<Rightarrow> bool"
    and live :: "'s \<Rightarrow> key \<Rightarrow> int \<Rightarrow> lease set"
    and age :: "'s \<Rightarrow> key \<Rightarrow> lease \<Rightarrow> int option"
    and reclaim :: "int option"
  assumes inv_nonneg: "inv s t \<Longrightarrow> 0 \<le> t"
    and inv_later: "inv s t \<Longrightarrow> t \<le> u \<Longrightarrow> inv s u"
    and live_finite: "finite (live s k u)"
    and live_shrinks: "t \<le> u \<Longrightarrow> live s k u \<subseteq> live s k t"
    and acquire_law: "inv s now \<Longrightarrow> acquire_concurrency B s k l limit reclaim now = ((g, n), s') \<Longrightarrow>
      inv s' now \<and> g = (int (card (live s k now)) < limit) \<and>
      (\<forall>k' u. now \<le> u \<longrightarrow> live s' k' u =
         (if g \<and> k' = k then (live s k u - {l}) \<union> (if past (stamp reclaim now) u then {} else {l})
          else live s k' u)) \<and>
      (\<forall>k' l' a. age s' k' l' = Some a \<longrightarrow>
         age s k' l' = Some a \<or> (g \<and> k' = k \<and> l' = l \<and> a = now))"
    and verify_law: "inv s now \<Longrightarrow> verify_concurrency B s k l now = (l \<in> live s k now)"
    and held_law: "inv s now \<Longrightarrow> fst ` set (held_concurrency B s k now) = live s k now"
    and release_law: "inv s now \<Longrightarrow> release_concurrency B s k l now = (b, s') \<Longrightarrow>
      inv s' now \<and>
      (\<forall>k' u. now \<le> u \<longrightarrow> live s' k' u = (if k' = k then live s k u - {l} else live s k' u)) \<and>
      (\<forall>k' l' a. age s' k' l' = Some a \<longrightarrow> age s k' l' = Some a)"
    and recover_law: "inv s now \<Longrightarrow> recover_concurrency B s k l cutoff now = (c, s') \<Longrightarrow>
      inv s' now \<and>
      (c = RECOVERY_REMOVED \<longrightarrow> (\<exists>a. age s k l = Some a \<and> a \<le> cutoff)) \<and>
      (\<forall>k' u. now \<le> u \<longrightarrow> live s' k' u =
         (if k' = k \<and> c = RECOVERY_REMOVED then live s k u - {l} else live s k' u)) \<and>
      (\<forall>k' l' a. age s' k' l' = Some a \<longrightarrow> age s k' l' = Some a)"
begin

lemma acquire_adds_one:
  assumes "inv s now" "acquire_concurrency B s k l limit reclaim now = ((True, n), s')"
  shows "int (card (live s' k now)) \<le> limit"
proof -
  have "live s' k now \<subseteq> insert l (live s k now)" "int (card (live s k now)) < limit"
    using acquire_law [OF assms] by auto
  moreover have "card (insert l (live s k now)) \<le> Suc (card (live s k now))"
    by (simp add: card_insert_if live_finite)
  ultimately show ?thesis
    using card_mono [of "insert l (live s k now)" "live s' k now"] live_finite [of s k now] by simp
qed

lemma acquire_others:
  assumes "inv s now" "acquire_concurrency B s k l limit reclaim now = ((g, n), s')" "k' \<noteq> k \<or> \<not> g"
    "now \<le> u"
  shows "live s' k' u = live s k' u"
  using acquire_law [OF assms(1,2)] assms(3,4) by auto

end

text \<open>
  \<open>used s k u\<close>: the weight in the window of \<open>k\<close> at \<open>u\<close>.  \<open>ids s k\<close>: the entry ids it has seen.
  \<open>slot s k\<close>: the last admission on an interval key.  \<open>W\<close> and \<open>I\<close> are the one window length and
  the one interval every caller passes.
\<close>

locale quota_backend = lease_store B inv live age reclaim
  for B :: "'s quota_ops" and inv live age reclaim +
  fixes used :: "'s \<Rightarrow> key \<Rightarrow> int \<Rightarrow> int"
    and ids :: "'s \<Rightarrow> key \<Rightarrow> string set"
    and slot :: "'s \<Rightarrow> key \<Rightarrow> int option"
    and W :: int and I :: int
  assumes lease_frame:
    "acquire_concurrency B s k l limit reclaim now = (r1, s') \<Longrightarrow>
       used s' = used s \<and> ids s' = ids s \<and> slot s' = slot s"
    "release_concurrency B s k l now = (r2, s') \<Longrightarrow>
       used s' = used s \<and> ids s' = ids s \<and> slot s' = slot s"
    "recover_concurrency B s k l cutoff now = (r3, s') \<Longrightarrow>
       used s' = used s \<and> ids s' = ids s \<and> slot s' = slot s"
    and window_law: "inv s now \<Longrightarrow> e \<notin> ids s k \<Longrightarrow>
      admit_window B s k e limit W now w = ((g, n, d), s') \<Longrightarrow>
      inv s' now \<and> g = (used s k now + w \<le> limit) \<and>
      (\<forall>k' u. now \<le> u \<longrightarrow> used s' k' u =
         used s k' u + (if g \<and> k' = k \<and> u - W < now then w else 0)) \<and>
      (\<forall>k'. ids s' k' \<subseteq> ids s k' \<union> (if k' = k then {e} else {}))"
    and window_frame: "admit_window B s k e limit W now w = (r4, s') \<Longrightarrow>
      live s' = live s \<and> age s' = age s \<and> slot s' = slot s"
    and interval_law: "inv s now \<Longrightarrow> admit_interval B s k I now = ((g, d), s') \<Longrightarrow>
      inv s' now \<and> (\<forall>t0. slot s k = Some t0 \<longrightarrow> g = (t0 + I \<le> now)) \<and>
      slot s' = (if g then (slot s)(k := Some now) else slot s)"
    and interval_frame: "admit_interval B s k I now = (r5, s') \<Longrightarrow>
      live s' = live s \<and> age s' = age s \<and> used s' = used s \<and> ids s' = ids s"
    and pause_law: "inv s now \<Longrightarrow> inv (set_pause B s k until now) now"
      "now \<le> u \<Longrightarrow> u < until \<Longrightarrow> 0 < pause_remaining B (set_pause B s k until now) k u"
    and pause_frame: "live (set_pause B s k until now) = live s \<and>
      age (set_pause B s k until now) = age s \<and> used (set_pause B s k until now) = used s \<and>
      ids (set_pause B s k until now) = ids s \<and> slot (set_pause B s k until now) = slot s"
begin

lemma window_never_over:
  assumes "inv s now" "e \<notin> ids s k" "admit_window B s k e limit W now w = ((g, n, d), s')"
    "used s k now \<le> limit"
  shows "used s' k now \<le> limit"
  using window_law [OF assms(1-3)] assms(4) by auto

end

end
