(* ===== verification/Quota_Memory.thy ===== *)
theory Quota_Memory
  imports Quota_Contract "HOL-Library.Char_ord" "HOL-Library.List_Lexorder"
begin

text \<open>
  \<open>MemoryQuotaBackend\<close> of \<open>backend/provider_quota.py\<close>, one definition per method, and the proof
  that it keeps the contract \<open>quota_backend\<close>.
\<close>

section \<open>The in-process backend\<close>

type_synonym window_entry = "int \<times> string \<times> int"

record memory =
  leases :: "key \<Rightarrow> (lease \<times> expiry) list"
  acquired :: "key \<Rightarrow> (lease \<times> int) list"
  windows :: "key \<Rightarrow> window_entry list"
  intervals :: "key \<Rightarrow> int option"
  pauses :: "key \<Rightarrow> int option"

definition empty_memory :: memory where
  "empty_memory = \<lparr>leases = (\<lambda>_. []), acquired = (\<lambda>_. []), windows = (\<lambda>_. []),
     intervals = (\<lambda>_. None), pauses = (\<lambda>_. None)\<rparr>"

definition memory_acquire ::
  "memory \<Rightarrow> key \<Rightarrow> lease \<Rightarrow> int \<Rightarrow> int option \<Rightarrow> int \<Rightarrow> (bool \<times> int) \<times> memory" where
  "memory_acquire s key lease_id limit ttl_ms now_ms =
     (let expired = map fst (filter (\<lambda>(l, e). past e now_ms) (leases s key));
          holders = drop_keys expired (leases s key);
          acq = drop_keys expired (acquired s key)
      in if limit \<le> int (length holders)
         then ((False, int (length holders)),
               s\<lparr>leases := (leases s)(key := holders), acquired := (acquired s)(key := acq)\<rparr>)
         else (let holders' = AList.update lease_id (stamp ttl_ms now_ms) holders
               in ((True, int (length holders')),
                   s\<lparr>leases := (leases s)(key := holders'),
                     acquired := (acquired s)(key := AList.update lease_id now_ms acq)\<rparr>)))"

definition memory_held :: "memory \<Rightarrow> key \<Rightarrow> int \<Rightarrow> (lease \<times> expiry \<times> int) list" where
  "memory_held s key now_ms =
     sort_key fst (map (\<lambda>(l, e). (l, e, acquired_or_zero (acquired s key) l))
                       (filter (\<lambda>(l, e). \<not> past e now_ms) (leases s key)))"

definition memory_recover :: "memory \<Rightarrow> key \<Rightarrow> lease \<Rightarrow> int \<Rightarrow> int \<Rightarrow> recovery \<times> memory" where
  "memory_recover s key lease_id acquired_before_ms now_ms =
     (if map_of (leases s key) lease_id = None
      then (RECOVERY_NOT_HELD,
            s\<lparr>acquired := (acquired s)(key := AList.delete lease_id (acquired s key))\<rparr>)
      else (case map_of (acquired s key) lease_id of
              None \<Rightarrow> (RECOVERY_TOO_YOUNG, s)
            | Some a \<Rightarrow>
                if acquired_before_ms < a then (RECOVERY_TOO_YOUNG, s)
                else (RECOVERY_REMOVED,
                      s\<lparr>leases := (leases s)(key := AList.delete lease_id (leases s key)),
                        acquired := (acquired s)(key := AList.delete lease_id (acquired s key))\<rparr>)))"

text \<open>\<open>holders.get(lease_id, 0) > now_ms\<close>.\<close>

definition memory_verify :: "memory \<Rightarrow> key \<Rightarrow> lease \<Rightarrow> int \<Rightarrow> bool" where
  "memory_verify s key lease_id now_ms =
     (case map_of (leases s key) lease_id of None \<Rightarrow> now_ms < 0 | Some e \<Rightarrow> \<not> past e now_ms)"

definition memory_release :: "memory \<Rightarrow> key \<Rightarrow> lease \<Rightarrow> int \<Rightarrow> bool \<times> memory" where
  "memory_release s key lease_id now_ms =
     (map_of (leases s key) lease_id \<noteq> None,
      s\<lparr>leases := (leases s)(key := AList.delete lease_id (leases s key)),
        acquired := (acquired s)(key := AList.delete lease_id (acquired s key))\<rparr>)"

definition weight_of :: "window_entry list \<Rightarrow> int" where
  "weight_of es = (\<Sum>(t, i, w)\<leftarrow>es. w)"

definition oldest :: "window_entry list \<Rightarrow> int option" where
  "oldest es = (case map fst es of [] \<Rightarrow> None | t # ts \<Rightarrow> Some (fold min ts t))"

definition memory_admit_window ::
  "memory \<Rightarrow> key \<Rightarrow> string \<Rightarrow> int \<Rightarrow> int \<Rightarrow> int \<Rightarrow> int \<Rightarrow> (bool \<times> int \<times> rat) \<times> memory" where
  "memory_admit_window s key entry_id limit window_ms now_ms weight =
     (let entries = filter (\<lambda>(t, i, w). now_ms - window_ms < t) (windows s key);
          used = weight_of entries
      in if limit < used + weight
         then (let first = (case oldest entries of None \<Rightarrow> now_ms | Some t \<Rightarrow> t)
               in ((False, used, seconds (first + window_ms - now_ms)),
                   s\<lparr>windows := (windows s)(key := entries)\<rparr>))
         else ((True, used + weight, 0),
               s\<lparr>windows := (windows s)(key := entries @ [(now_ms, entry_id, weight)])\<rparr>))"

definition memory_admit_interval :: "memory \<Rightarrow> key \<Rightarrow> int \<Rightarrow> int \<Rightarrow> (bool \<times> rat) \<times> memory" where
  "memory_admit_interval s key interval_ms now_ms =
     (let last = (case intervals s key of None \<Rightarrow> 0 | Some t \<Rightarrow> t)
      in if now_ms - last < interval_ms
         then ((False, seconds (last + interval_ms - now_ms)), s)
         else ((True, 0), s\<lparr>intervals := (intervals s)(key \<mapsto> now_ms)\<rparr>))"

definition memory_set_pause :: "memory \<Rightarrow> key \<Rightarrow> int \<Rightarrow> int \<Rightarrow> memory" where
  "memory_set_pause s key until_ms now_ms =
     s\<lparr>pauses := (pauses s)(key \<mapsto> max (case pauses s key of None \<Rightarrow> 0 | Some u \<Rightarrow> u) until_ms)\<rparr>"

definition memory_pause_remaining :: "memory \<Rightarrow> key \<Rightarrow> int \<Rightarrow> rat" where
  "memory_pause_remaining s key now_ms =
     seconds ((case pauses s key of None \<Rightarrow> 0 | Some u \<Rightarrow> u) - now_ms)"

definition memory_backend :: "memory quota_ops" where
  "memory_backend = \<lparr>
     acquire_concurrency = memory_acquire, verify_concurrency = memory_verify,
     held_concurrency = memory_held, release_concurrency = memory_release,
     recover_concurrency = memory_recover, admit_window = memory_admit_window,
     admit_interval = memory_admit_interval, set_pause = memory_set_pause,
     pause_remaining = memory_pause_remaining\<rparr>"


section \<open>The memory backend keeps the contract\<close>

definition memory_inv :: "memory \<Rightarrow> int \<Rightarrow> bool" where
  "memory_inv s t = (0 \<le> t \<and> (\<forall>k. dict_wf (leases s k)))"

definition memory_live :: "memory \<Rightarrow> key \<Rightarrow> int \<Rightarrow> lease set" where
  "memory_live s k u = holders_at (leases s k) u"

definition memory_age :: "memory \<Rightarrow> key \<Rightarrow> lease \<Rightarrow> int option" where
  "memory_age s k l = map_of (acquired s k) l"

definition memory_used :: "int \<Rightarrow> memory \<Rightarrow> key \<Rightarrow> int \<Rightarrow> int" where
  "memory_used W s k u = window_weight (map (\<lambda>(t, i, w). (t, w)) (windows s k)) W u"

definition memory_ids :: "memory \<Rightarrow> key \<Rightarrow> string set" where
  "memory_ids s k = {i. \<exists>t w. (t, i, w) \<in> set (windows s k)}"

lemmas memory_views =
  memory_inv_def memory_live_def memory_age_def memory_used_def memory_ids_def

lemma memory_acquire_law:
  assumes "memory_inv s now" "memory_acquire s k l limit ttl now = ((g, n), s')"
  shows "memory_inv s' now \<and> g = (int (card (memory_live s k now)) < limit) \<and>
    (\<forall>k' u. now \<le> u \<longrightarrow> memory_live s' k' u =
       (if g \<and> k' = k then (memory_live s k u - {l}) \<union> (if past (stamp ttl now) u then {} else {l})
        else memory_live s k' u)) \<and>
    (\<forall>k' l' a. memory_age s' k' l' = Some a \<longrightarrow>
       memory_age s k' l' = Some a \<or> (g \<and> k' = k \<and> l' = l \<and> a = now))"
proof -
  have wf: "dict_wf (leases s k)" using assms(1) by (simp add: memory_inv_def)
  show ?thesis
    using assms wf
    by (auto simp: memory_acquire_def Let_def drop_expired card_holders [OF wf] memory_views holders_at_lasting
          holders_at_update dict_wf_filter dict_wf_update update_conv
          split: if_splits dest!: map_of_drop_keys)
qed

lemma memory_verify_law: "memory_inv s now \<Longrightarrow> memory_verify s k l now = (l \<in> memory_live s k now)"
  by (auto simp: memory_verify_def memory_views holders_at_def split: option.split)

lemma memory_held_law: "memory_inv s now \<Longrightarrow> fst ` set (memory_held s k now) = memory_live s k now"
  by (force simp: memory_held_def memory_views holders_at_keys)

lemma memory_release_law:
  assumes "memory_inv s now" "memory_release s k l now = (b, s')"
  shows "memory_inv s' now \<and>
    (\<forall>k' u. now \<le> u \<longrightarrow> memory_live s' k' u =
       (if k' = k then memory_live s k u - {l} else memory_live s k' u)) \<and>
    (\<forall>k' l' a. memory_age s' k' l' = Some a \<longrightarrow> memory_age s k' l' = Some a)"
  using assms
  by (auto simp: memory_release_def memory_views holders_at_delete dict_wf_alist_delete delete_conv
        split: if_splits)

lemma memory_recover_law:
  assumes "memory_inv s now" "memory_recover s k l cutoff now = (c, s')"
  shows "memory_inv s' now \<and>
    (c = RECOVERY_REMOVED \<longrightarrow> (\<exists>a. memory_age s k l = Some a \<and> a \<le> cutoff)) \<and>
    (\<forall>k' u. now \<le> u \<longrightarrow> memory_live s' k' u =
       (if k' = k \<and> c = RECOVERY_REMOVED then memory_live s k u - {l} else memory_live s k' u)) \<and>
    (\<forall>k' l' a. memory_age s' k' l' = Some a \<longrightarrow> memory_age s k' l' = Some a)"
  using assms
  by (auto simp: memory_recover_def memory_views holders_at_delete dict_wf_alist_delete delete_conv
        split: if_splits option.splits)

lemma memory_window_sum:
  "weight_of (filter (\<lambda>(t, i, w). now - W < t) es) = window_weight (map (\<lambda>(t, i, w). (t, w)) es) W now"
  by (induction es) (auto simp: weight_of_def)

lemma memory_window_pruned:
  "now \<le> u \<Longrightarrow> window_weight (map (\<lambda>(t, i, w). (t, w)) (filter (\<lambda>(t, i, w). now - W < t) es)) W u =
     window_weight (map (\<lambda>(t, i, w). (t, w)) es) W u"
  by (induction es) auto

lemma memory_window_law:
  assumes "memory_inv s now" "memory_admit_window s k e limit W now w = ((g, n, d), s')"
  shows "memory_inv s' now \<and> g = (memory_used W s k now + w \<le> limit) \<and>
    (\<forall>k' u. now \<le> u \<longrightarrow> memory_used W s' k' u =
       memory_used W s k' u + (if g \<and> k' = k \<and> u - W < now then w else 0)) \<and>
    (\<forall>k'. memory_ids s' k' \<subseteq> memory_ids s k' \<union> (if k' = k then {e} else {}))"
  using assms
  by (auto simp: memory_admit_window_def Let_def memory_views memory_window_sum memory_window_pruned
        split: if_splits; blast)

interpretation mem: quota_backend memory_backend memory_inv memory_live memory_age reclaim
    "memory_used W" memory_ids "\<lambda>s. intervals s" W I for reclaim W I
proof (unfold_locales, goal_cases)
  case (5 s now k l limit g n s') then show ?case
    using memory_acquire_law by (simp add: memory_backend_def)
next
  case (8 s now k l b s') then show ?case
    using memory_release_law by (simp add: memory_backend_def)
next
  case (9 s now k l cutoff c s') then show ?case
    using memory_recover_law by (simp add: memory_backend_def)
next
  case (13 s now e k limit w g n d s') then show ?case
    using memory_window_law by (simp add: memory_backend_def)
qed (auto simp: fun_eq_iff memory_backend_def memory_verify_law memory_held_law memory_inv_def
      memory_live_def finite_holders memory_age_def memory_used_def memory_ids_def memory_acquire_def Let_def
      memory_release_def memory_recover_def memory_admit_window_def memory_admit_interval_def
      memory_set_pause_def memory_pause_remaining_def seconds_def
      split: if_splits option.splits dest: holders_at_antimono [THEN subsetD])

end
