(* ===== verification/Quota_Redis.thy ===== *)
theory Quota_Redis
  imports Quota_Contract
begin

text \<open>
  \<open>UpstashQuotaBackend\<close> of \<open>backend/provider_quota.py\<close>: its Lua scripts translated command by
  command over a model of the Redis types they use (sorted sets, hashes, string keys, key
  expiry), and the proof that it keeps the contract \<open>quota_backend\<close>.
\<close>

section \<open>The Redis backend\<close>

text \<open>
  A sorted set of leases with its companion hash and the two keys' expiries; a sorted set of
  window members per window key (the member string \<open>id|weight\<close> is the pair, since ids are hex);
  the interval and pause strings with their \<open>PX\<close> deadlines.  A key whose deadline has passed
  reads as absent.
\<close>

record redis =
  zset :: "key \<Rightarrow> (lease \<times> expiry) list"
  zset_deadline :: "key \<Rightarrow> int option"
  hash :: "key \<Rightarrow> (lease \<times> int) list"
  hash_deadline :: "key \<Rightarrow> int option"
  wset :: "key \<Rightarrow> ((string \<times> int) \<times> int) list"
  wset_deadline :: "key \<Rightarrow> int option"
  interval_key :: "key \<Rightarrow> (int \<times> int) option"
  pause_key :: "key \<Rightarrow> (int \<times> int) option"

definition empty_redis :: redis where
  "empty_redis = \<lparr>zset = (\<lambda>_. []), zset_deadline = (\<lambda>_. None), hash = (\<lambda>_. []),
     hash_deadline = (\<lambda>_. None), wset = (\<lambda>_. []), wset_deadline = (\<lambda>_. None),
     interval_key = (\<lambda>_. None), pause_key = (\<lambda>_. None)\<rparr>"

definition key_gone :: "int option \<Rightarrow> int \<Rightarrow> bool" where
  "key_gone deadline now = (case deadline of None \<Rightarrow> False | Some d \<Rightarrow> d \<le> now)"

definition zmembers :: "redis \<Rightarrow> key \<Rightarrow> int \<Rightarrow> (lease \<times> expiry) list" where
  "zmembers r k now = (if key_gone (zset_deadline r k) now then [] else zset r k)"

definition hfields :: "redis \<Rightarrow> key \<Rightarrow> int \<Rightarrow> (lease \<times> int) list" where
  "hfields r k now = (if key_gone (hash_deadline r k) now then [] else hash r k)"

definition wmembers :: "redis \<Rightarrow> key \<Rightarrow> int \<Rightarrow> ((string \<times> int) \<times> int) list" where
  "wmembers r k now = (if key_gone (wset_deadline r k) now then [] else wset r k)"

text \<open>A key exists, and can carry a deadline, only while it has members.\<close>

definition if_exists :: "'v list \<Rightarrow> int option \<Rightarrow> int option" where
  "if_exists members deadline = (if members = [] then None else deadline)"

text \<open>\<open>PEXPIRE\<close> when the lifetime is positive, \<open>PERSIST\<close> otherwise.\<close>

definition key_deadline :: "int \<Rightarrow> int \<Rightarrow> int option" where
  "key_deadline keyttl now = (if 0 < keyttl then Some (now + keyttl) else None)"

definition store_leases ::
  "redis \<Rightarrow> key \<Rightarrow> (lease \<times> expiry) list \<Rightarrow> int option \<Rightarrow> (lease \<times> int) list \<Rightarrow> int option \<Rightarrow> redis" where
  "store_leases r k zs zd hs hdl =
     r\<lparr>zset := (zset r)(k := zs), zset_deadline := (zset_deadline r)(k := zd),
       hash := (hash r)(k := hs), hash_deadline := (hash_deadline r)(k := hdl)\<rparr>"

definition lua_acquire ::
  "redis \<Rightarrow> key \<Rightarrow> lease \<Rightarrow> int \<Rightarrow> expiry \<Rightarrow> int \<Rightarrow> int \<Rightarrow> (bool \<times> int) \<times> redis" where
  "lua_acquire r k member limit score now keyttl =
     (let zs = zmembers r k now; hs = hfields r k now;
          expired = map fst (filter (\<lambda>(l, e). past e now) zs);
          hs1 = drop_keys expired hs;
          zs1 = filter (\<lambda>(l, e). \<not> past e now) zs;
          active = int (length zs1);
          deadline = key_deadline keyttl now;
          zd = (if 0 < active then deadline else None);
          hdl = if_exists hs1 (if 0 < active then deadline else hash_deadline r k)
      in if limit \<le> active then ((False, active), store_leases r k zs1 zd hs1 hdl)
         else ((True, active + 1),
               store_leases r k (AList.update member score zs1) deadline
                 (AList.update member now hs1) deadline))"

definition redis_acquire ::
  "redis \<Rightarrow> key \<Rightarrow> lease \<Rightarrow> int \<Rightarrow> int option \<Rightarrow> int \<Rightarrow> (bool \<times> int) \<times> redis" where
  "redis_acquire r key lease_id limit ttl_ms now_ms =
     (let key_ttl = (case ttl_ms of None \<Rightarrow> 0 | Some d \<Rightarrow> d * 4)
      in lua_acquire r key lease_id limit (stamp ttl_ms now_ms) now_ms key_ttl)"

definition lua_verify :: "redis \<Rightarrow> key \<Rightarrow> lease \<Rightarrow> int \<Rightarrow> bool" where
  "lua_verify r k member now =
     list_ex (\<lambda>(l, e). l = member) (filter (\<lambda>(l, e). \<not> past e now) (zmembers r k now))"

text \<open>Removing the last member removes the key, and with it its expiry.\<close>

definition lua_release :: "redis \<Rightarrow> key \<Rightarrow> lease \<Rightarrow> int \<Rightarrow> bool \<times> redis" where
  "lua_release r k member now =
     (let zs = zmembers r k now; hs = AList.delete member (hfields r k now);
          zs' = AList.delete member zs
      in (map_of zs member \<noteq> None,
          store_leases r k zs' (if_exists zs' (zset_deadline r k))
            hs (if_exists hs (hash_deadline r k))))"

definition lua_held :: "redis \<Rightarrow> key \<Rightarrow> int \<Rightarrow> (lease \<times> expiry \<times> int) list" where
  "lua_held r k now =
     map (\<lambda>(l, e). (l, e, acquired_or_zero (hfields r k now) l))
         (filter (\<lambda>(l, e). \<not> past e now) (zmembers r k now))"

definition lua_recover :: "redis \<Rightarrow> key \<Rightarrow> lease \<Rightarrow> int \<Rightarrow> int \<Rightarrow> recovery \<times> redis" where
  "lua_recover r k member acquired_before now =
     (let zs = zmembers r k now; hs = hfields r k now; hs' = AList.delete member hs;
          zs' = AList.delete member zs;
          hdl = if_exists hs' (hash_deadline r k)
      in if map_of zs member = None
         then (RECOVERY_NOT_HELD, r\<lparr>hash := (hash r)(k := hs'),
                                    hash_deadline := (hash_deadline r)(k := hdl)\<rparr>)
         else (case map_of hs member of
                 None \<Rightarrow> (RECOVERY_TOO_YOUNG, r)
               | Some a \<Rightarrow>
                   if acquired_before < a then (RECOVERY_TOO_YOUNG, r)
                   else (RECOVERY_REMOVED,
                         store_leases r k zs' (if_exists zs' (zset_deadline r k)) hs' hdl)))"

definition lua_admit_window ::
  "redis \<Rightarrow> key \<Rightarrow> string \<Rightarrow> int \<Rightarrow> int \<Rightarrow> int \<Rightarrow> int \<Rightarrow> (bool \<times> int \<times> rat) \<times> redis" where
  "lua_admit_window r k entry_id limit window_ms now weight =
     (let ms = filter (\<lambda>(m, t). now - window_ms < t) (wmembers r k now);
          used = (\<Sum>((i, w), t)\<leftarrow>ms. w)
      in if limit < used + weight
         then (let retry = (case map snd ms of
                              [] \<Rightarrow> 0 | t # ts \<Rightarrow> max 0 (fold min ts t + window_ms - now))
               in ((False, used, seconds retry),
                   r\<lparr>wset := (wset r)(k := ms),
                     wset_deadline := (wset_deadline r)(k := if_exists ms (wset_deadline r k))\<rparr>))
         else ((True, used + weight, 0),
               r\<lparr>wset := (wset r)(k := AList.update (entry_id, weight) now ms),
                 wset_deadline := (wset_deadline r)(k := Some (now + window_ms * 2))\<rparr>))"

definition read_string :: "(int \<times> int) option \<Rightarrow> int \<Rightarrow> int" where
  "read_string v now = (case v of None \<Rightarrow> 0 | Some (x, d) \<Rightarrow> if d \<le> now then 0 else x)"

definition lua_admit_interval :: "redis \<Rightarrow> key \<Rightarrow> int \<Rightarrow> int \<Rightarrow> (bool \<times> rat) \<times> redis" where
  "lua_admit_interval r k interval now =
     (let last = read_string (interval_key r k) now
      in if now - last < interval then ((False, seconds (last + interval - now)), r)
         else ((True, 0), r\<lparr>interval_key := (interval_key r)(k \<mapsto> (now, now + interval * 4))\<rparr>))"

text \<open>\<open>SET key until PX max(1, until - now)\<close>: the previous value is overwritten.\<close>

definition redis_set_pause :: "redis \<Rightarrow> key \<Rightarrow> int \<Rightarrow> int \<Rightarrow> redis" where
  "redis_set_pause r k until_ms now_ms =
     r\<lparr>pause_key := (pause_key r)(k \<mapsto> (until_ms, now_ms + max 1 (until_ms - now_ms)))\<rparr>"

definition redis_pause_remaining :: "redis \<Rightarrow> key \<Rightarrow> int \<Rightarrow> rat" where
  "redis_pause_remaining r k now_ms = seconds (read_string (pause_key r k) now_ms - now_ms)"

definition redis_backend :: "redis quota_ops" where
  "redis_backend = \<lparr>
     acquire_concurrency = redis_acquire, verify_concurrency = lua_verify,
     held_concurrency = lua_held, release_concurrency = lua_release,
     recover_concurrency = lua_recover, admit_window = lua_admit_window,
     admit_interval = lua_admit_interval, set_pause = redis_set_pause,
     pause_remaining = redis_pause_remaining\<rparr>"


section \<open>The Redis backend keeps the contract\<close>

text \<open>
  The invariant is about key expiry: a key may only lapse once everything in it has expired on
  its own.  With no timer (\<open>reclaim = None\<close>) a lease key carries no deadline at all.
\<close>

definition lease_key_ok :: "int option \<Rightarrow> redis \<Rightarrow> int \<Rightarrow> key \<Rightarrow> bool" where
  "lease_key_ok reclaim r t k =
     (dict_wf (zset r k) \<and>
      (case reclaim of
         None \<Rightarrow> zset_deadline r k = None
       | Some d \<Rightarrow> (\<forall>(l, e) \<in> set (zset r k). past e (t + d)) \<and>
                  (\<forall>z. zset_deadline r k = Some z \<longrightarrow> (\<forall>(l, e) \<in> set (zset r k). past e z))))"

definition window_key_ok :: "int \<Rightarrow> redis \<Rightarrow> int \<Rightarrow> key \<Rightarrow> bool" where
  "window_key_ok W r t k =
     ((\<forall>(m, t0) \<in> set (wset r k). t0 \<le> t) \<and>
      (\<forall>z. wset_deadline r k = Some z \<longrightarrow> (\<forall>(m, t0) \<in> set (wset r k). t0 + W \<le> z)))"

definition redis_inv :: "int option \<Rightarrow> int \<Rightarrow> int \<Rightarrow> redis \<Rightarrow> int \<Rightarrow> bool" where
  "redis_inv reclaim W I r t =
     (0 \<le> t \<and> 0 \<le> W \<and> 0 \<le> I \<and> (\<forall>d. reclaim = Some d \<longrightarrow> 0 \<le> d) \<and>
      (\<forall>k. lease_key_ok reclaim r t k \<and> window_key_ok W r t k) \<and>
      (\<forall>k x d. interval_key r k = Some (x, d) \<longrightarrow> 0 \<le> x \<and> d = x + I * 4))"

definition redis_live :: "redis \<Rightarrow> key \<Rightarrow> int \<Rightarrow> lease set" where
  "redis_live r k u = holders_at (zset r k) u"

definition redis_age :: "redis \<Rightarrow> key \<Rightarrow> lease \<Rightarrow> int option" where
  "redis_age r k l = map_of (hash r k) l"

definition redis_used :: "int \<Rightarrow> redis \<Rightarrow> key \<Rightarrow> int \<Rightarrow> int" where
  "redis_used W r k u = window_weight (map (\<lambda>((i, w), t). (t, w)) (wset r k)) W u"

definition redis_ids :: "redis \<Rightarrow> key \<Rightarrow> string set" where
  "redis_ids r k = {i. \<exists>w t. ((i, w), t) \<in> set (wset r k)}"

definition redis_slot :: "redis \<Rightarrow> key \<Rightarrow> int option" where
  "redis_slot r k = map_option fst (interval_key r k)"

lemmas redis_views = redis_live_def redis_age_def redis_used_def redis_ids_def redis_slot_def

lemma lease_key_later: "lease_key_ok reclaim r t k \<Longrightarrow> t \<le> u \<Longrightarrow> lease_key_ok reclaim r u k"
  by (fastforce simp: lease_key_ok_def split: option.splits intro: past_mono)

lemma window_key_later: "window_key_ok W r t k \<Longrightarrow> t \<le> u \<Longrightarrow> window_key_ok W r u k"
  by (fastforce simp: window_key_ok_def)

lemma redis_inv_later: "redis_inv reclaim W I r t \<Longrightarrow> t \<le> u \<Longrightarrow> redis_inv reclaim W I r u"
  by (auto simp: redis_inv_def intro: lease_key_later window_key_later)

text \<open>A lapsed lease key held only expired leases.\<close>

lemma lapsed_key_empty:
  assumes "lease_key_ok reclaim r t k"
  shows "lasting (zmembers r k now) now = lasting (zset r k) now"
proof (cases "key_gone (zset_deadline r k) now")
  case True
  then obtain z where z: "zset_deadline r k = Some z" "z \<le> now"
    by (auto simp: key_gone_def split: option.splits)
  then have "\<forall>(l, e) \<in> set (zset r k). past e now"
    using assms by (fastforce simp: lease_key_ok_def split: option.splits intro: past_mono)
  then have "lasting (zset r k) now = []" by (auto simp: filter_empty_conv)
  with True show ?thesis by (simp add: zmembers_def)
qed (simp add: zmembers_def)

lemma lapsed_holders:
  assumes "lease_key_ok reclaim r t k" "now \<le> u"
  shows "holders_at (zmembers r k now) u = holders_at (zset r k) u"
proof -
  have wf: "dict_wf (zset r k)" "dict_wf (zmembers r k now)"
    using assms(1) by (auto simp: lease_key_ok_def zmembers_def dict_wf_def)
  show ?thesis
    using lapsed_key_empty [OF assms(1), of now] holders_at_lasting [OF wf(1) assms(2)]
      holders_at_lasting [OF wf(2) assms(2)] by simp
qed

lemma map_of_hfields: "map_of (hfields r k now) l = Some a \<Longrightarrow> map_of (hash r k) l = Some a"
  by (simp add: hfields_def split: if_splits)

lemma past_stamp: "0 \<le> d \<Longrightarrow> d \<le> m \<Longrightarrow> past (stamp (Some d) now) (now + m)"
  by (simp add: stamp_def)

lemma set_update_subset: "set (AList.update k v d) \<subseteq> insert (k, v) (set d)"
  by (induction d) auto

lemma lasting_key_ok:
  assumes "lease_key_ok reclaim r now k" "\<forall>d. reclaim = Some d \<longrightarrow> 0 \<le> d"
    and "zset r' k = lasting (zset r k) now \<or>
         zset r' k = AList.update l (stamp reclaim now) (lasting (zset r k) now)"
    and "zset_deadline r' k = key_deadline (case reclaim of None \<Rightarrow> 0 | Some d \<Rightarrow> d * 4) now \<or>
         zset_deadline r' k = None"
  shows "lease_key_ok reclaim r' now k"
proof (cases reclaim)
  case None
  with assms show ?thesis
    by (auto simp: lease_key_ok_def key_deadline_def dict_wf_filter dict_wf_update)
next
  case (Some d)
  have d: "0 \<le> d" using assms(2) Some by simp
  have wf: "dict_wf (zset r' k)"
    using assms(1,3) by (auto simp: lease_key_ok_def dict_wf_filter dict_wf_update)
  have "set (zset r' k) \<subseteq> insert (l, stamp reclaim now) (set (zset r k))"
    using assms(3) set_update_subset [of l "stamp reclaim now" "lasting (zset r k) now"] by auto
  then have P: "past e (now + d)" if "(l', e) \<in> set (zset r' k)" for l' e
    using that assms(1) past_stamp [OF d order_refl, of now] Some by (auto simp: lease_key_ok_def)
  have Q: "past e z" if "(l', e) \<in> set (zset r' k)" "zset_deadline r' k = Some z" for l' e z
  proof -
    have "now + d \<le> z" using that(2) assms(4) Some d by (auto simp: key_deadline_def split: if_splits)
    with P [OF that(1)] show ?thesis by (rule past_mono)
  qed
  show ?thesis using wf P Q Some by (auto simp: lease_key_ok_def)
qed

lemma lease_key_cong:
  "zset r' k = zset r k \<Longrightarrow> zset_deadline r' k = zset_deadline r k \<Longrightarrow>
     lease_key_ok reclaim r' t k = lease_key_ok reclaim r t k"
  by (simp only: lease_key_ok_def)

lemma window_key_cong:
  "wset r' k = wset r k \<Longrightarrow> wset_deadline r' k = wset_deadline r k \<Longrightarrow>
     window_key_ok W r' t k = window_key_ok W r t k"
  by (simp add: window_key_ok_def)

lemma redis_inv_leases:
  assumes "redis_inv reclaim W I r now" "lease_key_ok reclaim r' now k"
    and "\<forall>k'. k' \<noteq> k \<longrightarrow> zset r' k' = zset r k' \<and> zset_deadline r' k' = zset_deadline r k'"
    and "wset r' = wset r" "wset_deadline r' = wset_deadline r" "interval_key r' = interval_key r"
  shows "redis_inv reclaim W I r' now"
proof -
  have "lease_key_ok reclaim r' now k' \<and> window_key_ok W r' now k'" for k'
    using assms lease_key_cong [of r' k' r] window_key_cong [of r' k' r]
    by (cases "k' = k") (auto simp: redis_inv_def)
  with assms(1,6) show ?thesis unfolding redis_inv_def by metis
qed

lemma redis_acquire_law:
  assumes inv: "redis_inv reclaim W I r now"
    and run: "redis_acquire r k l limit reclaim now = ((g, n), r')"
  shows "redis_inv reclaim W I r' now \<and> g = (int (card (redis_live r k now)) < limit) \<and>
    (\<forall>k' u. now \<le> u \<longrightarrow> redis_live r' k' u =
       (if g \<and> k' = k then (redis_live r k u - {l}) \<union> (if past (stamp reclaim now) u then {} else {l})
        else redis_live r k' u)) \<and>
    (\<forall>k' l' a. redis_age r' k' l' = Some a \<longrightarrow>
       redis_age r k' l' = Some a \<or> (g \<and> k' = k \<and> l' = l \<and> a = now))"
proof -
  have ok: "lease_key_ok reclaim r now k" and wf: "dict_wf (zset r k)"
    and d: "\<forall>d. reclaim = Some d \<longrightarrow> 0 \<le> d"
    using inv by (auto simp: redis_inv_def lease_key_ok_def)
  note run' = run [unfolded redis_acquire_def lua_acquire_def Let_def lapsed_key_empty [OF ok]]
  have g: "g = (int (card (redis_live r k now)) < limit)"
    using run' card_holders [OF wf] by (auto simp: redis_live_def split: if_splits)
  have zk: "zset r' k = (if g then AList.update l (stamp reclaim now) (lasting (zset r k) now)
      else lasting (zset r k) now)"
    using run' by (auto simp: store_leases_def split: if_splits)
  have others: "\<forall>k'. k' \<noteq> k \<longrightarrow> zset r' k' = zset r k' \<and> hash r' k' = hash r k' \<and>
      zset_deadline r' k' = zset_deadline r k'" "wset r' = wset r" "wset_deadline r' = wset_deadline r"
      "interval_key r' = interval_key r"
    using run' by (auto simp: store_leases_def split: if_splits)
  have "zset_deadline r' k = key_deadline (case reclaim of None \<Rightarrow> 0 | Some d \<Rightarrow> d * 4) now \<or>
      zset_deadline r' k = None"
    using run' by (auto simp: store_leases_def split: if_splits)
  then have ok': "lease_key_ok reclaim r' now k"
    using zk by (intro lasting_key_ok [OF ok d]) (auto split: if_splits)
  have age: "redis_age r k' l' = Some a \<or> (g \<and> k' = k \<and> l' = l \<and> a = now)"
    if "redis_age r' k' l' = Some a" for k' l' a
    using that run'
    by (auto simp: redis_age_def store_leases_def update_conv
          split: if_splits dest!: map_of_drop_keys map_of_hfields)
  have "redis_inv reclaim W I r' now"
    using others by (intro redis_inv_leases [OF inv ok']) auto
  moreover have "redis_live r' k' u =
       (if g \<and> k' = k then (redis_live r k u - {l}) \<union> (if past (stamp reclaim now) u then {} else {l})
        else redis_live r k' u)" if "now \<le> u" for k' u
    using zk others(1) that wf
    by (cases "k' = k") (auto simp: redis_live_def holders_at_update holders_at_lasting)
  ultimately show ?thesis using g age by blast
qed

lemma redis_verify_law:
  assumes "redis_inv reclaim W I r now"
  shows "lua_verify r k l now = (l \<in> redis_live r k now)"
proof -
  have ok: "lease_key_ok reclaim r now k" using assms by (simp add: redis_inv_def)
  then have "dict_wf (zset r k)" by (simp add: lease_key_ok_def)
  then show ?thesis
    by (force simp: lua_verify_def lapsed_key_empty [OF ok] redis_live_def holders_at_keys list_ex_iff)
qed

lemma redis_held_law:
  assumes "redis_inv reclaim W I r now"
  shows "fst ` set (lua_held r k now) = redis_live r k now"
proof -
  have ok: "lease_key_ok reclaim r now k" using assms by (simp add: redis_inv_def)
  then have "dict_wf (zset r k)" by (simp add: lease_key_ok_def)
  then show ?thesis
    by (force simp: lua_held_def lapsed_key_empty [OF ok] redis_live_def holders_at_keys)
qed

lemma delete_lease_key_ok:
  assumes ok: "lease_key_ok reclaim r now k"
    and z: "zset r' k = AList.delete l (zmembers r k now)"
    and d: "zset_deadline r' k = if_exists (zset r' k) (zset_deadline r k)"
  shows "lease_key_ok reclaim r' now k"
proof -
  have sub: "set (zset r' k) \<subseteq> set (zset r k)"
    using z by (auto simp: zmembers_def AList.delete_eq split: if_splits)
  have "dict_wf (zset r' k)"
    using ok z dict_wf_alist_delete [of "zset r k" l]
    by (auto simp: lease_key_ok_def zmembers_def dict_wf_alist_delete dict_wf_def)
  moreover have "zset_deadline r' k = Some z \<longrightarrow> zset_deadline r k = Some z" for z
    using d by (simp add: if_exists_def)
  moreover have "zset_deadline r k = None \<longrightarrow> zset_deadline r' k = None"
    using d by (simp add: if_exists_def)
  ultimately show ?thesis
    using ok sub unfolding lease_key_ok_def by (cases reclaim) (simp, simp, meson subset_iff)
qed

lemma redis_release_law:
  assumes inv: "redis_inv reclaim W I r now" and run: "lua_release r k l now = (b, r')"
  shows "redis_inv reclaim W I r' now \<and>
    (\<forall>k' u. now \<le> u \<longrightarrow> redis_live r' k' u =
       (if k' = k then redis_live r k u - {l} else redis_live r k' u)) \<and>
    (\<forall>k' l' a. redis_age r' k' l' = Some a \<longrightarrow> redis_age r k' l' = Some a)"
proof -
  have ok: "lease_key_ok reclaim r now k" using inv by (simp add: redis_inv_def)
  note run' = run [unfolded lua_release_def Let_def]
  have z: "zset r' k = AList.delete l (zmembers r k now)"
    "zset_deadline r' k = if_exists (zset r' k) (zset_deadline r k)"
    using run' by (auto simp: store_leases_def)
  have zr: "zset r' = (zset r)(k := AList.delete l (zmembers r k now))"
    using run' by (auto simp: store_leases_def)
  have "redis_inv reclaim W I r' now"
    using run' by (intro redis_inv_leases [OF inv delete_lease_key_ok [OF ok z]])
      (auto simp: store_leases_def)
  moreover have "redis_live r' k' u = (if k' = k then redis_live r k u - {l} else redis_live r k' u)"
    if "now \<le> u" for k' u
    using lapsed_holders [OF ok that] zr by (simp add: redis_live_def holders_at_delete)
  moreover have "redis_age r k' l' = Some a" if "redis_age r' k' l' = Some a" for k' l' a
    using that run'
    by (auto simp: redis_age_def store_leases_def delete_conv
          split: if_splits dest!: map_of_hfields)
  ultimately show ?thesis by blast
qed

lemma redis_recover_law:
  assumes inv: "redis_inv reclaim W I r now" and run: "lua_recover r k l cutoff now = (c, r')"
  shows "redis_inv reclaim W I r' now \<and>
    (c = RECOVERY_REMOVED \<longrightarrow> (\<exists>a. redis_age r k l = Some a \<and> a \<le> cutoff)) \<and>
    (\<forall>k' u. now \<le> u \<longrightarrow> redis_live r' k' u =
       (if k' = k \<and> c = RECOVERY_REMOVED then redis_live r k u - {l} else redis_live r k' u)) \<and>
    (\<forall>k' l' a. redis_age r' k' l' = Some a \<longrightarrow> redis_age r k' l' = Some a)"
proof -
  have ok: "lease_key_ok reclaim r now k" using inv by (simp add: redis_inv_def)
  note run' = run [unfolded lua_recover_def Let_def]
  have age: "redis_age r k' l' = Some a" if "redis_age r' k' l' = Some a" for k' l' a
    using that run'
    by (auto simp: redis_age_def store_leases_def delete_conv
          split: if_splits option.splits dest!: map_of_hfields)
  show ?thesis
  proof (cases "c = RECOVERY_REMOVED")
    case True
    then have z: "zset r' k = AList.delete l (zmembers r k now)"
      "zset_deadline r' k = if_exists (zset r' k) (zset_deadline r k)"
      using run' by (auto simp: store_leases_def split: if_splits option.splits)
    have zr: "zset r' = (zset r)(k := AList.delete l (zmembers r k now))"
      using run' True by (auto simp: store_leases_def split: if_splits option.splits)
    have "redis_inv reclaim W I r' now"
      using run' True by (intro redis_inv_leases [OF inv delete_lease_key_ok [OF ok z]])
        (auto simp: store_leases_def split: if_splits option.splits)
    moreover have "\<exists>a. redis_age r k l = Some a \<and> a \<le> cutoff"
      using run' True by (auto simp: redis_age_def split: if_splits option.splits dest!: map_of_hfields)
    moreover have "redis_live r' k' u = (if k' = k then redis_live r k u - {l} else redis_live r k' u)"
      if "now \<le> u" for k' u
      using lapsed_holders [OF ok that] zr by (simp add: redis_live_def holders_at_delete)
    ultimately show ?thesis using age True by simp
  next
    case False
    then have same: "zset r' = zset r" "zset_deadline r' = zset_deadline r" "wset r' = wset r"
      "wset_deadline r' = wset_deadline r" "interval_key r' = interval_key r"
      using run' by (auto split: if_splits option.splits)
    have "redis_inv reclaim W I r' now"
      using ok same lease_key_cong [of r' k r] by (intro redis_inv_leases [OF inv, of _ k]) simp_all
    then show ?thesis using age False same by (simp add: redis_live_def)
  qed
qed

text \<open>Windows: a lapsed window key held only entries that had left the window.\<close>

lemma window_sum:
  "(\<Sum>((i, w), t)\<leftarrow>filter (\<lambda>(m, t). now - W < t) es. w) =
     window_weight (map (\<lambda>((i, w), t). (t, w)) es) W now"
  by (induction es) auto

lemma window_pruned:
  "now \<le> u \<Longrightarrow> window_weight (map (\<lambda>((i, w), t). (t, w)) (filter (\<lambda>(m, t). now - W < t) es)) W u =
     window_weight (map (\<lambda>((i, w), t). (t, w)) es) W u"
  by (induction es) auto

lemma lapsed_window:
  assumes "window_key_ok W r t k"
  shows "filter (\<lambda>(m, t). now - W < t) (wmembers r k now) =
    filter (\<lambda>(m, t). now - W < t) (wset r k)"
proof (cases "key_gone (wset_deadline r k) now")
  case True
  then obtain z where z: "wset_deadline r k = Some z" "z \<le> now"
    by (auto simp: key_gone_def split: option.splits)
  then have "\<forall>(m, t0) \<in> set (wset r k). t0 \<le> now - W"
    using assms by (fastforce simp: window_key_ok_def)
  then have "filter (\<lambda>(m, t). now - W < t) (wset r k) = []"
    by (auto simp: filter_empty_conv)
  with True show ?thesis by (simp add: wmembers_def)
qed (simp add: wmembers_def)

lemma window_weight_update:
  "k \<notin> keys es \<Longrightarrow> AList.update k v es = es @ [(k, v)]"
  by (induction es) auto

lemma redis_window_law:
  assumes inv: "redis_inv reclaim W I r now" and fresh: "e \<notin> redis_ids r k"
    and run: "lua_admit_window r k e limit W now w = ((g, n, d), r')"
  shows "redis_inv reclaim W I r' now \<and> g = (redis_used W r k now + w \<le> limit) \<and>
    (\<forall>k' u. now \<le> u \<longrightarrow> redis_used W r' k' u =
       redis_used W r k' u + (if g \<and> k' = k \<and> u - W < now then w else 0)) \<and>
    (\<forall>k'. redis_ids r' k' \<subseteq> redis_ids r k' \<union> (if k' = k then {e} else {}))"
proof -
  have ok: "window_key_ok W r now k" and W: "0 \<le> W" using inv by (simp_all add: redis_inv_def)
  let ?ms = "filter (\<lambda>(m, t). now - W < t) (wset r k)"
  note run' = run [unfolded lua_admit_window_def Let_def lapsed_window [OF ok] window_sum]
  have g: "g = (redis_used W r k now + w \<le> limit)"
    using run' by (auto simp: redis_used_def split: if_splits)
  have "(e, w) \<notin> keys ?ms" using fresh by (auto simp: redis_ids_def)
  note app = window_weight_update [OF this, of now]
  have z: "wset r' = (wset r)(k := ?ms @ (if g then [((e, w), now)] else []))"
    using run' by (auto simp: app split: if_splits)
  have zd: "wset_deadline r' = (wset_deadline r)(k := if g then Some (now + W * 2)
      else if_exists ?ms (wset_deadline r k))"
    using run' by (auto split: if_splits)
  have same: "zset r' = zset r" "zset_deadline r' = zset_deadline r" "interval_key r' = interval_key r"
    using run' by (auto split: if_splits)
  have "window_key_ok W r' now k"
    using ok W z zd by (fastforce simp: window_key_ok_def if_exists_def split: if_splits)
  moreover have "window_key_ok W r' now k'" if "k' \<noteq> k" for k'
    using that inv z zd by (simp add: redis_inv_def window_key_ok_def)
  ultimately have "\<forall>k'. lease_key_ok reclaim r' now k' \<and> window_key_ok W r' now k'"
    using inv same lease_key_cong [of r' _ r] by (metis redis_inv_def)
  then have "redis_inv reclaim W I r' now"
    using inv same(3) unfolding redis_inv_def by metis
  moreover have "redis_used W r' k' u =
       redis_used W r k' u + (if g \<and> k' = k \<and> u - W < now then w else 0)" if "now \<le> u" for k' u
    using z by (auto simp: redis_used_def window_pruned [OF that])
  moreover have "redis_ids r' k' \<subseteq> redis_ids r k' \<union> (if k' = k then {e} else {})" for k'
    using z by (auto simp: redis_ids_def split: if_splits)
  ultimately show ?thesis using g by blast
qed

lemma redis_inv_frame:
  assumes "redis_inv reclaim W I r now"
    and "zset r' = zset r" "zset_deadline r' = zset_deadline r" "wset r' = wset r"
      "wset_deadline r' = wset_deadline r"
    and "\<forall>k x d. interval_key r' k = Some (x, d) \<longrightarrow> 0 \<le> x \<and> d = x + I * 4"
  shows "redis_inv reclaim W I r' now"
proof -
  have "lease_key_ok reclaim r' now k \<and> window_key_ok W r' now k" for k
    using assms(1-5) lease_key_cong [of r' k r] window_key_cong [of r' k r]
    by (simp add: redis_inv_def)
  with assms(1,6) show ?thesis unfolding redis_inv_def by metis
qed

lemma redis_interval_law:
  assumes inv: "redis_inv reclaim W I r now" and run: "lua_admit_interval r k I now = ((g, d), r')"
  shows "redis_inv reclaim W I r' now \<and>
    (\<forall>t0. redis_slot r k = Some t0 \<longrightarrow> g = (t0 + I \<le> now)) \<and>
    redis_slot r' = (if g then (redis_slot r)(k := Some now) else redis_slot r)"
proof -
  have I: "0 \<le> I" "0 \<le> now" and key: "\<forall>x d. interval_key r k = Some (x, d) \<longrightarrow> 0 \<le> x \<and> d = x + I * 4"
    using inv by (auto simp: redis_inv_def)
  have g: "g = (I \<le> now - read_string (interval_key r k) now)"
    and r': "r' = (if g then r\<lparr>interval_key := (interval_key r)(k \<mapsto> (now, now + I * 4))\<rparr> else r)"
    using run by (auto simp: lua_admit_interval_def Let_def split: if_splits)
  have "redis_inv reclaim W I r' now"
    using inv r' by (intro redis_inv_frame [OF inv]) (auto simp: redis_inv_def)
  moreover have "g = (t0 + I \<le> now)" if "redis_slot r k = Some t0" for t0
    using that key g I by (auto simp: redis_slot_def read_string_def split: if_splits)
  moreover have "redis_slot r' = (if g then (redis_slot r)(k := Some now) else redis_slot r)"
    using r' by (auto simp: redis_slot_def fun_eq_iff)
  ultimately show ?thesis by blast
qed

lemma redis_inv_pause:
  "redis_inv reclaim W I r now \<Longrightarrow> redis_inv reclaim W I (redis_set_pause r k until now) now"
  by (rule redis_inv_frame) (auto simp: redis_set_pause_def redis_inv_def)

lemma redis_pause_law:
  assumes "now \<le> u" "u < until"
  shows "0 < redis_pause_remaining (redis_set_pause r k until now) k u"
  using assms by (simp add: redis_pause_remaining_def redis_set_pause_def read_string_def seconds_def)

interpretation red: quota_backend redis_backend "redis_inv reclaim W I" redis_live redis_age reclaim
    "redis_used W" redis_ids redis_slot W I for reclaim W I
proof (unfold_locales, goal_cases)
  case (5 s now k l limit g n s') then show ?case
    using redis_acquire_law by (simp add: redis_backend_def)
next
  case (8 s now k l b s') then show ?case
    using redis_release_law by (simp add: redis_backend_def)
next
  case (9 s now k l cutoff c s') then show ?case
    using redis_recover_law by (simp add: redis_backend_def)
next
  case (13 s now e k limit w g n d s') then show ?case
    using redis_window_law by (simp add: redis_backend_def)
next
  case (15 s now k g d s') then show ?case
    using redis_interval_law by (simp add: redis_backend_def)
next
  case (6 s now k l) then show ?case
    using redis_verify_law by (simp add: redis_backend_def)
next
  case (7 s now k) then show ?case
    using redis_held_law by (simp add: redis_backend_def)
next
  case (17 s now k until) then show ?case
    using redis_inv_pause by (simp add: redis_backend_def)
next
  case (18 now u until s k) then show ?case
    using redis_pause_law by (simp add: redis_backend_def)
qed (auto simp: fun_eq_iff redis_backend_def redis_live_def finite_holders redis_age_def
      redis_used_def redis_ids_def redis_slot_def redis_acquire_def
      lua_acquire_def Let_def lua_release_def lua_recover_def lua_admit_window_def
      lua_admit_interval_def store_leases_def redis_set_pause_def redis_inv_def
      split: if_splits option.splits dest: holders_at_antimono [THEN subsetD]
      intro: lease_key_later window_key_later)

end
