(* ===== verification/Quota_Config.thy ===== *)
theory Quota_Config
  imports Prelude
begin

text \<open>
  The configuration half of \<open>backend/provider_quota.py\<close>: the provider evidence and the ceilings
  derived from it, the lease-window margins, \<open>QuotaConfig\<close> with its \<open>__post_init__\<close> validation,
  \<open>QuotaConfig.from_env\<close> and the production rule of \<open>resolve_coordinator\<close>.
  Seconds are exact rationals.
\<close>

section \<open>Ceilings and margins\<close>

definition milo_ceiling :: "int option \<Rightarrow> int option" where
  "milo_ceiling provider_limit =
     (case provider_limit of None \<Rightarrow> None | Some l \<Rightarrow> Some \<lfloor>of_int l * (80 / 100 :: rat)\<rfloor>)"

definition KIMI_TIER2_PROVIDER_LIMITS :: "string \<Rightarrow> int option" where
  "KIMI_TIER2_PROVIDER_LIMITS d =
     (if d = ''inference_concurrency'' then Some 40
      else if d = ''rpm'' then Some 100
      else if d = ''tpm'' then Some 3000000
      else None)"

definition MAX_INFERENCE_CONCURRENCY :: int where
  "MAX_INFERENCE_CONCURRENCY =
     the (milo_ceiling (KIMI_TIER2_PROVIDER_LIMITS ''inference_concurrency''))"

definition MAX_RPM :: int where
  "MAX_RPM = the (milo_ceiling (KIMI_TIER2_PROVIDER_LIMITS ''rpm''))"

definition MAX_TPM :: int where
  "MAX_TPM = the (milo_ceiling (KIMI_TIER2_PROVIDER_LIMITS ''tpm''))"

lemma org_ceilings: "MAX_INFERENCE_CONCURRENCY = 32" "MAX_RPM = 80" "MAX_TPM = 2400000"
  by (simp_all add: MAX_INFERENCE_CONCURRENCY_def MAX_RPM_def MAX_TPM_def milo_ceiling_def
      KIMI_TIER2_PROVIDER_LIMITS_def)

definition WINDOW_SECONDS :: int where
  "WINDOW_SECONDS = 60"

datatype search_endpoint = SEARCH_BASIC | SEARCH_PRO

definition endpoint_text :: "search_endpoint \<Rightarrow> string" where
  "endpoint_text e = (case e of SEARCH_BASIC \<Rightarrow> ''search'' | SEARCH_PRO \<Rightarrow> ''search_pro'')"

definition SEARCH_QPS_FALLBACK :: "search_endpoint \<Rightarrow> int" where
  "SEARCH_QPS_FALLBACK e = (case e of SEARCH_BASIC \<Rightarrow> 1 | SEARCH_PRO \<Rightarrow> 1)"

definition SEARCH_QPS_VERIFIED :: "search_endpoint \<Rightarrow> bool" where
  "SEARCH_QPS_VERIFIED e = (case e of SEARCH_BASIC \<Rightarrow> False | SEARCH_PRO \<Rightarrow> False)"

definition LEASE_SAFETY_MARGIN_RATIO :: rat where "LEASE_SAFETY_MARGIN_RATIO = 1 / 4"
definition MIN_LEASE_SAFETY_MARGIN_SECONDS :: rat where "MIN_LEASE_SAFETY_MARGIN_SECONDS = 15"
definition MIN_TTL_FOR_MARGIN_FLOOR :: rat where
  "MIN_TTL_FOR_MARGIN_FLOOR = MIN_LEASE_SAFETY_MARGIN_SECONDS / LEASE_SAFETY_MARGIN_RATIO"
definition OWNERSHIP_PROBE_INTERVALS_PER_TTL :: rat where "OWNERSHIP_PROBE_INTERVALS_PER_TTL = 4"
definition WORKER_MAX_LIFETIME_SECONDS :: rat where "WORKER_MAX_LIFETIME_SECONDS = 3600"
definition REVIEWED_LEASE_TTL_SECONDS :: rat where "REVIEWED_LEASE_TTL_SECONDS = 800"
definition NON_STREAMING_REQUEST_DEADLINE_SECONDS :: rat where
  "NON_STREAMING_REQUEST_DEADLINE_SECONDS = 90"

lemmas quota_constants =
  LEASE_SAFETY_MARGIN_RATIO_def MIN_LEASE_SAFETY_MARGIN_SECONDS_def MIN_TTL_FOR_MARGIN_FLOOR_def
  OWNERSHIP_PROBE_INTERVALS_PER_TTL_def WORKER_MAX_LIFETIME_SECONDS_def
  REVIEWED_LEASE_TTL_SECONDS_def NON_STREAMING_REQUEST_DEADLINE_SECONDS_def

definition lease_safety_margin :: "rat \<Rightarrow> rat" where
  "lease_safety_margin window =
     (let proportional = window * LEASE_SAFETY_MARGIN_RATIO
      in if MIN_TTL_FOR_MARGIN_FLOOR \<le> window then max MIN_LEASE_SAFETY_MARGIN_SECONDS proportional
         else proportional)"

definition minimum_abandoned_lease_reclaim :: "rat \<Rightarrow> rat" where
  "minimum_abandoned_lease_reclaim lifetime = lifetime + lease_safety_margin lifetime"

definition default_request_deadline :: "rat \<Rightarrow> rat" where
  "default_request_deadline lease_ttl = lease_ttl - lease_safety_margin lease_ttl"

definition ownership_probe_interval :: "rat \<Rightarrow> rat" where
  "ownership_probe_interval lease_ttl = max 1 (lease_ttl / OWNERSHIP_PROBE_INTERVALS_PER_TTL)"

text \<open>Every \<open>ValueError\<close> of the module, by the check that raises it.\<close>

datatype quota_error =
    Must_be_positive string
  | Must_be_integer string
  | Exceeds_organization_ceiling string
  | Search_qps_not_positive
  | Search_qps_unverified search_endpoint
  | Timeout_not_positive
  | Ttl_not_positive
  | Unsafe_timeout_lease_pair
  | Lifetime_not_positive
  | Unsafe_reclaim
  | Lifetime_below_task_timeout
  | Reclaim_forbidden_in_production
  | Store_mandatory_in_production

definition assert_request_deadline_safe :: "rat \<Rightarrow> rat \<Rightarrow> quota_error option" where
  "assert_request_deadline_safe deadline ttl =
     (if \<not> 0 < deadline then Some Timeout_not_positive
      else if \<not> 0 < ttl then Some Ttl_not_positive
      else if ttl < deadline + lease_safety_margin ttl then Some Unsafe_timeout_lease_pair
      else None)"

definition assert_abandoned_lease_reclaim_safe :: "rat option \<Rightarrow> rat \<Rightarrow> quota_error option" where
  "assert_abandoned_lease_reclaim_safe reclaim lifetime =
     (if \<not> 0 < lifetime then Some Lifetime_not_positive
      else (case reclaim of
              None \<Rightarrow> None
            | Some configured \<Rightarrow>
                if configured < minimum_abandoned_lease_reclaim lifetime then Some Unsafe_reclaim
                else None))"

section \<open>QuotaConfig\<close>

record quota_config =
  max_concurrency :: int
  max_rpm :: int
  max_tpm :: int
  search_qps :: "int \<times> int"
  lease_ttl_seconds :: rat
  provider_request_timeout_seconds :: "rat option"
  worker_max_lifetime_seconds :: rat
  abandoned_lease_reclaim_seconds :: "rat option"
  scope :: string

definition default_config :: quota_config where
  "default_config = \<lparr>
     max_concurrency = MAX_INFERENCE_CONCURRENCY, max_rpm = MAX_RPM, max_tpm = MAX_TPM,
     search_qps = (SEARCH_QPS_FALLBACK SEARCH_BASIC, SEARCH_QPS_FALLBACK SEARCH_PRO),
     lease_ttl_seconds = REVIEWED_LEASE_TTL_SECONDS, provider_request_timeout_seconds = None,
     worker_max_lifetime_seconds = WORKER_MAX_LIFETIME_SECONDS,
     abandoned_lease_reclaim_seconds = None, scope = ''kimi-org''\<rparr>"

definition request_deadline_seconds :: "quota_config \<Rightarrow> rat" where
  "request_deadline_seconds c =
     (case provider_request_timeout_seconds c of
        None \<Rightarrow> default_request_deadline (lease_ttl_seconds c) | Some t \<Rightarrow> t)"

definition non_streaming_request_deadline_seconds :: "quota_config \<Rightarrow> rat" where
  "non_streaming_request_deadline_seconds c =
     min NON_STREAMING_REQUEST_DEADLINE_SECONDS (request_deadline_seconds c)"

definition reclaims_abandoned_leases :: "quota_config \<Rightarrow> bool" where
  "reclaims_abandoned_leases c = (abandoned_lease_reclaim_seconds c \<noteq> None)"

datatype guarantee = GUARANTEE_PROVEN_COMPLETION | GUARANTEE_TIMED_RECLAIM

definition concurrency_guarantee :: "quota_config \<Rightarrow> guarantee" where
  "concurrency_guarantee c =
     (if reclaims_abandoned_leases c then GUARANTEE_TIMED_RECLAIM else GUARANTEE_PROVEN_COMPLETION)"

definition minimum_reclaim_seconds :: "quota_config \<Rightarrow> rat" where
  "minimum_reclaim_seconds c = minimum_abandoned_lease_reclaim (worker_max_lifetime_seconds c)"

text \<open>One step of the loop over the two search rates.\<close>

definition search_rate_error :: "search_endpoint \<Rightarrow> int \<Rightarrow> quota_error option" where
  "search_rate_error endpoint qps =
     (if qps < 1 then Some Search_qps_not_positive
      else if \<not> SEARCH_QPS_VERIFIED endpoint \<and> SEARCH_QPS_FALLBACK endpoint < qps
      then Some (Search_qps_unverified endpoint)
      else None)"

definition first_error :: "quota_error option list \<Rightarrow> quota_error option" where
  "first_error es = (case filter (\<lambda>e. e \<noteq> None) es of [] \<Rightarrow> None | e # _ \<Rightarrow> e)"

definition post_init :: "quota_config \<Rightarrow> quota_error + quota_config" where
  "post_init c =
     (case first_error [
        if max_concurrency c < 1 then Some (Must_be_positive ''max_concurrency'') else None,
        if max_rpm c < 1 then Some (Must_be_positive ''max_rpm'') else None,
        if max_tpm c < 1 then Some (Must_be_positive ''max_tpm'') else None,
        if MAX_INFERENCE_CONCURRENCY < max_concurrency c
          then Some (Exceeds_organization_ceiling ''max_concurrency'') else None,
        if MAX_RPM < max_rpm c then Some (Exceeds_organization_ceiling ''max_rpm'') else None,
        if MAX_TPM < max_tpm c then Some (Exceeds_organization_ceiling ''max_tpm'') else None,
        search_rate_error SEARCH_BASIC (fst (search_qps c)),
        search_rate_error SEARCH_PRO (snd (search_qps c)),
        assert_request_deadline_safe (request_deadline_seconds c) (lease_ttl_seconds c),
        assert_abandoned_lease_reclaim_safe (abandoned_lease_reclaim_seconds c)
          (worker_max_lifetime_seconds c)]
      of Some e \<Rightarrow> Inl e | None \<Rightarrow> Inr c)"

section \<open>from_env\<close>

type_synonym environment = "string \<Rightarrow> string option"

definition env_stripped :: "environment \<Rightarrow> string \<Rightarrow> string" where
  "env_stripped env k = py_strip (case env k of None \<Rightarrow> '''' | Some v \<Rightarrow> v)"

definition env_int :: "environment \<Rightarrow> string \<Rightarrow> int \<Rightarrow> quota_error + int" where
  "env_int env k dflt =
     (if env_stripped env k = [] then Inr dflt
      else (case py_int (env_stripped env k) of
              None \<Rightarrow> Inl (Must_be_integer k)
            | Some v \<Rightarrow> if v \<le> 0 then Inl (Must_be_positive k) else Inr v))"

definition env_abandoned_reclaim :: "environment \<Rightarrow> quota_error + rat option" where
  "env_abandoned_reclaim env =
     (if env_stripped env ''MILO_PROVIDER_ABANDONED_LEASE_RECLAIM_SECONDS'' = [] then Inr None
      else res_bind (env_int env ''MILO_PROVIDER_ABANDONED_LEASE_RECLAIM_SECONDS'' 0)
             (\<lambda>v. Inr (Some (of_int v))))"

definition env_lifetime :: "environment \<Rightarrow> quota_error + rat" where
  "env_lifetime env =
     res_bind (env_int env ''MILO_WORKER_MAX_LIFETIME_SECONDS'' (trunc_rat WORKER_MAX_LIFETIME_SECONDS))
       (\<lambda>v. if of_int v < WORKER_MAX_LIFETIME_SECONDS then Inl Lifetime_below_task_timeout
            else Inr (of_int v))"

definition env_request_timeout :: "environment \<Rightarrow> quota_error + rat option" where
  "env_request_timeout env =
     (if env_stripped env ''MILO_PROVIDER_REQUEST_TIMEOUT_SECONDS'' = [] then Inr None
      else res_bind (env_int env ''MILO_PROVIDER_REQUEST_TIMEOUT_SECONDS'' 0)
             (\<lambda>v. Inr (if v = 0 then None else Some (of_int v))))"

definition env_scope :: "environment \<Rightarrow> string" where
  "env_scope env =
     (let raw = (case env ''MILO_PROVIDER_QUOTA_SCOPE'' of None \<Rightarrow> '''' | Some v \<Rightarrow> v);
          stripped = py_strip (if raw = [] then ''kimi-org'' else raw)
      in if stripped = [] then ''kimi-org'' else stripped)"

definition from_env :: "environment \<Rightarrow> quota_error + quota_config" where
  "from_env env =
     res_bind (env_int env ''MILO_ORG_MAX_CONCURRENCY'' MAX_INFERENCE_CONCURRENCY) (\<lambda>conc.
     res_bind (env_int env ''MILO_ORG_RPM_LIMIT'' MAX_RPM) (\<lambda>rpm.
     res_bind (env_int env ''MILO_ORG_TPM_LIMIT'' MAX_TPM) (\<lambda>tpm.
     res_bind (env_int env ''MILO_SEARCH_BASIC_QPS'' (SEARCH_QPS_FALLBACK SEARCH_BASIC)) (\<lambda>basic.
     res_bind (env_int env ''MILO_SEARCH_PRO_QPS'' (SEARCH_QPS_FALLBACK SEARCH_PRO)) (\<lambda>pro.
     res_bind (env_int env ''MILO_PROVIDER_LEASE_TTL_SECONDS'' (trunc_rat REVIEWED_LEASE_TTL_SECONDS))
       (\<lambda>ttl.
     res_bind (env_lifetime env) (\<lambda>lifetime.
     res_bind (env_abandoned_reclaim env) (\<lambda>reclaim.
     res_bind (env_request_timeout env) (\<lambda>timeout.
       post_init \<lparr>max_concurrency = conc, max_rpm = rpm, max_tpm = tpm, search_qps = (basic, pro),
         lease_ttl_seconds = of_int ttl, provider_request_timeout_seconds = timeout,
         worker_max_lifetime_seconds = lifetime, abandoned_lease_reclaim_seconds = reclaim,
         scope = env_scope env\<rparr>)))))))))"

text \<open>
  \<open>resolve_coordinator\<close>: which store the process uses.  The URL is kept with its trailing
  slashes; the token and the transport are not part of the model.
\<close>

datatype store_choice = Shared_store string | Process_local_store

definition is_production :: "environment \<Rightarrow> bool" where
  "is_production env =
     (py_lower (py_strip (case env ''ENVIRONMENT'' of None \<Rightarrow> ''local'' | Some v \<Rightarrow> v)) = ''production'')"

definition resolve_coordinator ::
  "quota_config option \<Rightarrow> environment \<Rightarrow> quota_error + store_choice \<times> quota_config" where
  "resolve_coordinator config env =
     (let url = env_stripped env ''UPSTASH_REDIS_REST_URL'';
          token = env_stripped env ''UPSTASH_REDIS_REST_TOKEN''
      in res_bind (case config of Some c \<Rightarrow> Inr c | None \<Rightarrow> from_env env) (\<lambda>resolved.
         if is_production env \<and> abandoned_lease_reclaim_seconds resolved \<noteq> None
         then Inl Reclaim_forbidden_in_production
         else (case (if is_production env
                     then assert_abandoned_lease_reclaim_safe
                            (abandoned_lease_reclaim_seconds resolved) WORKER_MAX_LIFETIME_SECONDS
                     else None) of
           Some e \<Rightarrow> Inl e
         | None \<Rightarrow>
         if url \<noteq> [] \<and> token \<noteq> [] then Inr (Shared_store url, resolved)
         else if is_production env then Inl Store_mandatory_in_production
         else Inr (Process_local_store, resolved))))"

section \<open>Accepted configurations\<close>

definition config_ok :: "quota_config \<Rightarrow> bool" where
  "config_ok c =
     (1 \<le> max_concurrency c \<and> max_concurrency c \<le> MAX_INFERENCE_CONCURRENCY \<and>
      1 \<le> max_rpm c \<and> max_rpm c \<le> MAX_RPM \<and> 1 \<le> max_tpm c \<and> max_tpm c \<le> MAX_TPM \<and>
      search_qps c = (1, 1) \<and>
      0 < request_deadline_seconds c \<and>
      request_deadline_seconds c + lease_safety_margin (lease_ttl_seconds c) \<le> lease_ttl_seconds c \<and>
      (\<forall>r. abandoned_lease_reclaim_seconds c = Some r \<longrightarrow> minimum_reclaim_seconds c \<le> r))"

lemma first_error_Cons:
  "first_error (e # es) = (case e of None \<Rightarrow> first_error es | Some x \<Rightarrow> Some x)"
  by (cases e) (simp_all add: first_error_def)

lemma first_error_None: "first_error es = None \<longleftrightarrow> (\<forall>e \<in> set es. e = None)"
  by (induction es) (auto simp: first_error_Cons first_error_def split: option.splits)

lemma post_init_ok:
  assumes "post_init c = Inr c'"
  shows "c' = c \<and> config_ok c"
proof -
  have c: "c' = c" using assms by (simp add: post_init_def split: option.splits)
  have "search_qps c = (1, 1)" if "search_rate_error SEARCH_BASIC (fst (search_qps c)) = None"
    "search_rate_error SEARCH_PRO (snd (search_qps c)) = None"
    using that by (cases "search_qps c")
      (auto simp: search_rate_error_def SEARCH_QPS_VERIFIED_def SEARCH_QPS_FALLBACK_def split: if_splits)
  with assms c show ?thesis
    by (auto simp: post_init_def first_error_None config_ok_def assert_request_deadline_safe_def
          assert_abandoned_lease_reclaim_safe_def minimum_reclaim_seconds_def
          split: option.splits if_splits)
qed

lemma from_env_ok: "from_env env = Inr c \<Longrightarrow> config_ok c"
  by (auto simp: from_env_def res_bind_Inr dest!: post_init_ok)

lemma lease_safety_margin_pos: "0 < w \<Longrightarrow> 0 < lease_safety_margin w"
  by (auto simp: lease_safety_margin_def quota_constants Let_def)

lemma env_lifetime_floor: "env_lifetime env = Inr l \<Longrightarrow> WORKER_MAX_LIFETIME_SECONDS \<le> l"
  by (auto simp: env_lifetime_def res_bind_Inr split: if_splits)

lemma from_env_lifetime: "from_env env = Inr c \<Longrightarrow> WORKER_MAX_LIFETIME_SECONDS \<le> worker_max_lifetime_seconds c"
  by (auto simp: from_env_def res_bind_Inr dest!: env_lifetime_floor post_init_ok)

lemma minimum_reclaim_mono: "0 \<le> a \<Longrightarrow> a \<le> b \<Longrightarrow> minimum_abandoned_lease_reclaim a \<le> minimum_abandoned_lease_reclaim b"
  by (auto simp: minimum_abandoned_lease_reclaim_def lease_safety_margin_def quota_constants Let_def)

lemma empty_env: "from_env (\<lambda>_. None) = Inr default_config"
proof -
  have "env_stripped (\<lambda>_. None) k = []" for k by (simp add: env_stripped_def py_strip_def)
  then show ?thesis
    by (simp add: from_env_def env_int_def env_lifetime_def env_abandoned_reclaim_def env_scope_def
        env_request_timeout_def default_config_def quota_constants trunc_rat_def post_init_def
        first_error_def org_ceilings SEARCH_QPS_FALLBACK_def search_rate_error_def py_strip_def
        assert_request_deadline_safe_def assert_abandoned_lease_reclaim_safe_def
        request_deadline_seconds_def default_request_deadline_def lease_safety_margin_def
        is_space_def)
qed

text \<open>No environment can widen the organization ceilings: whatever the variables say,
  \<open>from_env\<close> either refuses or returns ceilings within 32 concurrent requests, 80 requests and
  2.4 million tokens per minute and one search per second and endpoint, a request deadline that
  leaves the safety margin inside the lease window, and a reclaim timer, if any, of at least 4500
  seconds (the task timeout and its margin).\<close>

theorem environment_only_tightens:
  assumes "from_env env = Inr c"
  shows "max_concurrency c \<le> 32 \<and> max_rpm c \<le> 80 \<and> max_tpm c \<le> 2400000 \<and> search_qps c = (1, 1) \<and>
    request_deadline_seconds c + lease_safety_margin (lease_ttl_seconds c) \<le> lease_ttl_seconds c \<and>
    (\<forall>r. abandoned_lease_reclaim_seconds c = Some r \<longrightarrow> 4500 \<le> r)"
proof -
  have ok: "config_ok c" by (rule from_env_ok [OF assms])
  have "minimum_abandoned_lease_reclaim 3600 \<le> minimum_reclaim_seconds c"
    using from_env_lifetime [OF assms] minimum_reclaim_mono
    by (simp add: minimum_reclaim_seconds_def quota_constants)
  then have "4500 \<le> minimum_reclaim_seconds c"
    by (simp add: minimum_abandoned_lease_reclaim_def lease_safety_margin_def quota_constants)
  then have "(\<forall>r. abandoned_lease_reclaim_seconds c = Some r \<longrightarrow> 4500 \<le> r)"
    using ok by (cases "abandoned_lease_reclaim_seconds c") (auto simp: config_ok_def)
  with ok show ?thesis by (simp add: config_ok_def org_ceilings)
qed

lemma environment_only_tightens_witness: "max_concurrency default_config \<le> 32"
  using environment_only_tightens [OF empty_env] by simp

text \<open>In production no coordinator runs on a timer or without the shared store: whenever
  \<open>resolve_coordinator\<close> returns there, the store is the shared one and the guarantee in force is
  the proven-completion one, however the configuration was built.\<close>

theorem production_runs_fail_closed:
  assumes "is_production env" and "resolve_coordinator config env = Inr (st, c)"
  shows "(\<exists>url. st = Shared_store url \<and> url \<noteq> []) \<and>
    concurrency_guarantee c = GUARANTEE_PROVEN_COMPLETION"
  using assms
  by (auto simp: resolve_coordinator_def Let_def res_bind_Inr concurrency_guarantee_def
      reclaims_abandoned_leases_def split: if_splits option.splits)

definition production_env :: environment where
  "production_env k =
     (if k = ''ENVIRONMENT'' then Some '' production''
      else if k = ''UPSTASH_REDIS_REST_URL'' then Some ''https://u''
      else if k = ''UPSTASH_REDIS_REST_TOKEN'' then Some ''t'' else None)"

lemma production_env_resolves:
  "is_production production_env \<and>
   resolve_coordinator (Some default_config) production_env = Inr (Shared_store ''https://u'', default_config)"
  by (simp add: is_production_def production_env_def resolve_coordinator_def env_stripped_def
      py_strip_def py_lower_def lower_char_def is_space_def default_config_def
      assert_abandoned_lease_reclaim_safe_def quota_constants)

lemma production_runs_fail_closed_witness:
  "concurrency_guarantee default_config = GUARANTEE_PROVEN_COMPLETION"
  using production_runs_fail_closed [OF production_env_resolves [THEN conjunct1]
      production_env_resolves [THEN conjunct2]] by simp

end
