(* ===== verification/Quota_Coordinator.thy ===== *)
theory Quota_Coordinator
  imports Quota_Memory Quota_Redis Quota_Config "HOL-Library.Product_Lexorder"
begin

text \<open>
  \<open>ProviderQuotaCoordinator\<close> and \<open>InferenceLease\<close> of \<open>backend/provider_quota.py\<close>, over an abstract
  store (\<open>quota_ops\<close>), and the transition system of all MILO processes sharing one store:
  admissions, settlements, crashes, lost replies and operator reclaims in any order.  The safety
  theorems are proved once in the locale \<open>quota_backend\<close> and hold for the memory and the Redis
  store by their interpretations.

  \<open>now_ms\<close> is a parameter of each operation (\<open>int(clock() * 1000)\<close>), as are the fresh uuids.
  Diagnostics are returned as values.
\<close>

definition pq_key :: "quota_config \<Rightarrow> string \<Rightarrow> key" where
  "pq_key c dimension = ''milo:pq:'' @ scope c @ '':'' @ dimension"

lemma pq_key_inject [simp]: "(pq_key c d = pq_key c d') = (d = d')"
  by (simp add: pq_key_def)

section \<open>Inference concurrency\<close>

datatype diagnostic =
    Lease_quarantined string lease "rat option" guarantee
  | Lease_operator_reclaimed lease string rat
  | Quota_paused string rat string
  | Limiter_drift string "pyfloat option" "int option" "int option" int
  | Rate_limited string "pyfloat option" "int option" "int option" "int option"

definition abandoned_reclaim_ms :: "quota_config \<Rightarrow> int option" where
  "abandoned_reclaim_ms c = map_option (\<lambda>r. trunc_rat (r * 1000)) (abandoned_lease_reclaim_seconds c)"

definition try_acquire_inference ::
  "'s quota_ops \<Rightarrow> quota_config \<Rightarrow> 's \<Rightarrow> lease \<Rightarrow> int \<Rightarrow> lease option \<times> 's" where
  "try_acquire_inference B c s lease_id now =
     (if 0 < pause_remaining B s (pq_key c ''pause:inference'') now then (None, s)
      else (let ((granted, active), s') =
                  acquire_concurrency B s (pq_key c ''conc'') lease_id (max_concurrency c)
                    (abandoned_reclaim_ms c) now
            in (if granted then Some lease_id else None, s')))"

definition verify_inference_ownership ::
  "'s quota_ops \<Rightarrow> quota_config \<Rightarrow> 's \<Rightarrow> lease \<Rightarrow> int \<Rightarrow> bool" where
  "verify_inference_ownership B c s lease_id now =
     verify_concurrency B s (pq_key c ''conc'') lease_id now"

definition release_inference ::
  "'s quota_ops \<Rightarrow> quota_config \<Rightarrow> 's \<Rightarrow> lease \<Rightarrow> int \<Rightarrow> bool \<times> 's" where
  "release_inference B c s lease_id now = release_concurrency B s (pq_key c ''conc'') lease_id now"

text \<open>Writes nothing to the store.\<close>

definition quarantine_inference :: "quota_config \<Rightarrow> lease \<Rightarrow> string \<Rightarrow> diagnostic" where
  "quarantine_inference c lease_id reason =
     Lease_quarantined (take 64 reason) (take 64 lease_id) (abandoned_lease_reclaim_seconds c)
       (concurrency_guarantee c)"

record held_lease =
  held_id :: lease
  expires_at :: expiry
  acquired_at_ms :: int
  age_seconds :: "rat option"
  recovery_eligible :: bool

definition describe_lease :: "quota_config \<Rightarrow> int \<Rightarrow> lease \<times> expiry \<times> int \<Rightarrow> held_lease" where
  "describe_lease c now row =
     (let (lease_id, expires, acquired_at) = row;
          floor_ms = trunc_rat (minimum_reclaim_seconds c * 1000)
      in \<lparr>held_id = lease_id, expires_at = expires, acquired_at_ms = acquired_at,
          age_seconds = (if acquired_at = 0 then None
                         else Some (py_round 3 (of_int (max 0 (now - acquired_at)) / 1000))),
          recovery_eligible = (acquired_at \<noteq> 0 \<and> floor_ms \<le> now - acquired_at)\<rparr>)"

definition held_inference_leases ::
  "'s quota_ops \<Rightarrow> quota_config \<Rightarrow> 's \<Rightarrow> int \<Rightarrow> held_lease list" where
  "held_inference_leases B c s now =
     sort_key (\<lambda>h. (acquired_at_ms h, held_id h))
       (map (describe_lease c now) (held_concurrency B s (pq_key c ''conc'') now))"

datatype reclaim_refusal = REASON_REQUIRED | LEASE_NOT_HELD | LEASE_TOO_YOUNG

definition recorded_reason :: "string \<Rightarrow> string" where
  "recorded_reason reason = take 200 (filter is_printable (normalize_spaces reason))"

definition operator_reclaim_inference ::
  "'s quota_ops \<Rightarrow> quota_config \<Rightarrow> 's \<Rightarrow> lease \<Rightarrow> string \<Rightarrow> int \<Rightarrow> (reclaim_refusal + diagnostic) \<times> 's" where
  "operator_reclaim_inference B c s lease_id reason now =
     (let recorded = recorded_reason reason in
      if recorded = [] then (Inl REASON_REQUIRED, s)
      else (let cutoff = now - trunc_rat (minimum_reclaim_seconds c * 1000);
                (outcome, s') = recover_concurrency B s (pq_key c ''conc'') lease_id cutoff now
            in (case outcome of
                  RECOVERY_NOT_HELD \<Rightarrow> (Inl LEASE_NOT_HELD, s')
                | RECOVERY_TOO_YOUNG \<Rightarrow> (Inl LEASE_TOO_YOUNG, s')
                | RECOVERY_REMOVED \<Rightarrow>
                    (Inr (Lease_operator_reclaimed (take 64 lease_id) recorded
                            (py_round 3 (minimum_reclaim_seconds c))), s'))))"

section \<open>A lease is settled once\<close>

datatype lease_outcome = LEASE_RELEASED | LEASE_QUARANTINED

record inference_lease =
  lease_id :: lease
  lease_outcome :: "lease_outcome option"

definition settled :: "inference_lease \<Rightarrow> bool" where
  "settled L = (lease_outcome L \<noteq> None)"

definition verify_ownership ::
  "'s quota_ops \<Rightarrow> quota_config \<Rightarrow> 's \<Rightarrow> inference_lease \<Rightarrow> int \<Rightarrow> bool" where
  "verify_ownership B c s L now =
     (if settled L then False else verify_inference_ownership B c s (lease_id L) now)"

definition release ::
  "'s quota_ops \<Rightarrow> quota_config \<Rightarrow> 's \<Rightarrow> inference_lease \<Rightarrow> int \<Rightarrow> bool \<times> inference_lease \<times> 's" where
  "release B c s L now =
     (if settled L then (False, L, s)
      else (let (b, s') = release_inference B c s (lease_id L) now
            in (b, L\<lparr>lease_outcome := Some LEASE_RELEASED\<rparr>, s')))"

definition quarantine ::
  "quota_config \<Rightarrow> inference_lease \<Rightarrow> string \<Rightarrow> bool \<times> inference_lease \<times> diagnostic list" where
  "quarantine c L reason =
     (if settled L then (False, L, [])
      else (True, L\<lparr>lease_outcome := Some LEASE_QUARANTINED\<rparr>,
            [quarantine_inference c (lease_id L) reason]))"

definition settle ::
  "'s quota_ops \<Rightarrow> quota_config \<Rightarrow> 's \<Rightarrow> inference_lease \<Rightarrow> bool \<Rightarrow> string \<Rightarrow> int \<Rightarrow>
     bool \<times> inference_lease \<times> 's \<times> diagnostic list" where
  "settle B c s L proven_finished reason now =
     (if proven_finished
      then (let (b, L', s') = release B c s L now in (b, L', s', []))
      else (let (b, L', ds) = quarantine c L
                  (if reason = [] then ''PROVIDER_REQUEST_COMPLETION_UNPROVEN'' else reason)
            in (b, L', s, ds)))"

section \<open>Requests, searches and pauses\<close>

datatype admit_error =
    Reserved_tokens_not_positive
  | Quota_exhausted string
  | Overflow_in_pause

definition try_admit_request ::
  "'s quota_ops \<Rightarrow> quota_config \<Rightarrow> 's \<Rightarrow> string \<Rightarrow> int \<Rightarrow> int \<Rightarrow>
     (admit_error + bool \<times> string \<times> rat) \<times> 's" where
  "try_admit_request B c s entry reserved_tokens now =
     (let paused = pause_remaining B s (pq_key c ''pause:inference'') now;
          paused_tpm = pause_remaining B s (pq_key c ''pause:tpm'') now
      in if 0 < paused then (Inr (False, ''inference_paused'', paused), s)
         else if 0 < paused_tpm then (Inr (False, ''tpm_paused'', paused_tpm), s)
         else if reserved_tokens < 1 then (Inl Reserved_tokens_not_positive, s)
         else if max_tpm c < reserved_tokens then (Inl (Quota_exhausted ''tpm''), s)
         else (let ((admitted, used, retry), s1) =
                     admit_window B s (pq_key c ''rpm'') entry (max_rpm c)
                       (WINDOW_SECONDS * 1000) now 1
               in if \<not> admitted then (Inr (False, ''rpm'', retry), s1)
                  else (let ((admitted2, used2, retry2), s2) =
                              admit_window B s1 (pq_key c ''tpm'') entry (max_tpm c)
                                (WINDOW_SECONDS * 1000) now reserved_tokens
                        in if \<not> admitted2 then (Inr (False, ''tpm'', retry2), s2)
                           else (Inr (True, [], 0), s2))))"

definition endpoint_qps :: "quota_config \<Rightarrow> search_endpoint \<Rightarrow> int" where
  "endpoint_qps c e = (case e of SEARCH_BASIC \<Rightarrow> fst (search_qps c) | SEARCH_PRO \<Rightarrow> snd (search_qps c))"

definition search_interval_ms :: "quota_config \<Rightarrow> search_endpoint \<Rightarrow> int" where
  "search_interval_ms c e = max 1 (trunc_rat (1000 / of_int (endpoint_qps c e)))"

definition try_admit_search ::
  "'s quota_ops \<Rightarrow> quota_config \<Rightarrow> 's \<Rightarrow> search_endpoint \<Rightarrow> int \<Rightarrow> (bool \<times> rat) \<times> 's" where
  "try_admit_search B c s e now =
     (let paused = pause_remaining B s (pq_key c (''pause:'' @ endpoint_text e)) now
      in if 0 < paused then ((False, paused), s)
         else admit_interval B s (pq_key c (''search:'' @ endpoint_text e)) (search_interval_ms c e) now)"

text \<open>\<open>max(0.0, float(seconds))\<close> is 0 for NaN, and \<open>int\<close> of an infinity raises.\<close>

definition pause :: "'s quota_ops \<Rightarrow> quota_config \<Rightarrow> 's \<Rightarrow> string \<Rightarrow> pyfloat \<Rightarrow> string \<Rightarrow> int \<Rightarrow>
    (admit_error + diagnostic list) \<times> 's" where
  "pause B c s dimension secs reason now =
     (case secs of
        PosInf \<Rightarrow> (Inl Overflow_in_pause, s)
      | Finite x \<Rightarrow>
          if x \<le> 0 then (Inr [], s)
          else (Inr [Quota_paused dimension (py_round 3 x) reason],
                set_pause B s (pq_key c (''pause:'' @ dimension)) (now + trunc_rat (x * 1000)) now)
      | _ \<Rightarrow> (Inr [], s))"

text \<open>\<open>retry_after or 1.0\<close>: zero counts as absent, NaN does not.\<close>

definition pause_length :: "pyfloat option \<Rightarrow> pyfloat" where
  "pause_length retry_after =
     (case retry_after of None \<Rightarrow> Finite 1 | Some v \<Rightarrow> if v = Finite 0 then Finite 1 else v)"

definition round_float :: "pyfloat \<Rightarrow> pyfloat" where
  "round_float v = (case v of Finite x \<Rightarrow> Finite (py_round 3 x) | _ \<Rightarrow> v)"

definition record_rate_limit_signal ::
  "'s quota_ops \<Rightarrow> quota_config \<Rightarrow> 's \<Rightarrow> string \<Rightarrow> pyfloat option \<Rightarrow> int option \<Rightarrow> int option \<Rightarrow>
     int option \<Rightarrow> int \<Rightarrow> (admit_error + diagnostic list) \<times> 's" where
  "record_rate_limit_signal B c s dimension retry_after limit remaining headroom now =
     (let (paused, s') = pause B c s dimension (pause_length retry_after) ''provider_rate_limit'' now
      in (case paused of
            Inl e \<Rightarrow> (Inl e, s')
          | Inr ds \<Rightarrow>
              (let shown = map_option round_float retry_after in
               (Inr (ds @ [case headroom of
                   Some h \<Rightarrow> if 0 < h then Limiter_drift dimension shown limit remaining h
                             else Rate_limited dimension shown limit remaining headroom
                 | None \<Rightarrow> Rate_limited dimension shown limit remaining None]), s'))))"

end
