(* ===== verification/Quota_Safety.thy ===== *)
theory Quota_Safety
  imports Quota_Coordinator
begin

text \<open>
  Every MILO process works against one store.  \<open>world\<close> is that store, the clock, and what is
  true outside the store: the uuids ever drawn, the leases whose provider request may still be
  running (\<open>running\<close>), the requests really sent and the searches really sent.  \<open>world_step\<close> lets
  any process take any coordinator operation next, lets a reply of the store be lost, lets a process
  vanish (it then simply takes no further step), and lets an operator reclaim a lease whose
  request is over.
\<close>

record 's world =
  store :: 's
  clock :: int
  issued :: "string set"
  running :: "lease set"
  sent :: "(int \<times> int) list"
  searched :: "search_endpoint \<Rightarrow> int list"

inductive world_step :: "'s quota_ops \<Rightarrow> quota_config \<Rightarrow> 's world \<Rightarrow> 's world \<Rightarrow> bool"
  for B :: "'s quota_ops" and c :: quota_config
where
  Tick: "clock w \<le> t \<Longrightarrow> world_step B c w (w\<lparr>clock := t\<rparr>)"
| Start: "l \<notin> issued w \<Longrightarrow> try_acquire_inference B c (store w) l (clock w) = (Some l', s') \<Longrightarrow>
    world_step B c w (w\<lparr>store := s', issued := insert l (issued w), running := insert l' (running w)\<rparr>)"
| Start_unheard: "l \<notin> issued w \<Longrightarrow> try_acquire_inference B c (store w) l (clock w) = (r, s') \<Longrightarrow>
    world_step B c w (w\<lparr>store := s', issued := insert l (issued w)\<rparr>)"
| Settle_proven: "settle B c (store w) L True reason (clock w) = (b, L', s', ds) \<Longrightarrow>
    world_step B c w (w\<lparr>store := s', running := running w - {lease_id L}\<rparr>)"
| Finish_unheard: "world_step B c w (w\<lparr>running := running w - {l}\<rparr>)"
| Settle_unproven: "settle B c (store w) L False reason (clock w) = (b, L', s', ds) \<Longrightarrow>
    world_step B c w (w\<lparr>store := s'\<rparr>)"
| Reclaim: "l \<notin> running w \<Longrightarrow>
    operator_reclaim_inference B c (store w) l reason (clock w) = (r, s') \<Longrightarrow>
    world_step B c w (w\<lparr>store := s'\<rparr>)"
| Send: "e \<notin> issued w \<Longrightarrow>
    try_admit_request B c (store w) e tokens (clock w) = (Inr (True, why, retry), s') \<Longrightarrow>
    world_step B c w (w\<lparr>store := s', issued := insert e (issued w),
                        sent := (clock w, tokens) # sent w\<rparr>)"
| Send_refused: "e \<notin> issued w \<Longrightarrow>
    try_admit_request B c (store w) e tokens (clock w) = (r, s') \<Longrightarrow>
    world_step B c w (w\<lparr>store := s', issued := insert e (issued w)\<rparr>)"
| Search: "try_admit_search B c (store w) p (clock w) = ((True, retry), s') \<Longrightarrow>
    world_step B c w (w\<lparr>store := s',
      searched := (searched w)(p := clock w # searched w p)\<rparr>)"
| Search_refused: "try_admit_search B c (store w) p (clock w) = (r, s') \<Longrightarrow>
    world_step B c w (w\<lparr>store := s'\<rparr>)"
| Rate_limited: "record_rate_limit_signal B c (store w) d ra reported remaining headroom (clock w) = (r, s') \<Longrightarrow>
    world_step B c w (w\<lparr>store := s'\<rparr>)"

inductive_cases world_stepE: "world_step B c w w'"

definition start_world :: "'s \<Rightarrow> int \<Rightarrow> 's world" where
  "start_world s t = \<lparr>store = s, clock = t, issued = {}, running = {}, sent = [], searched = (\<lambda>_. [])\<rparr>"

definition world_reachable :: "'s quota_ops \<Rightarrow> quota_config \<Rightarrow> 's \<Rightarrow> 's world \<Rightarrow> bool" where
  "world_reachable B c s0 w = (\<exists>t \<ge> 0. (world_step B c)\<^sup>*\<^sup>* (start_world s0 t) w)"

text \<open>What the provider sees at a moment: the requests and the tokens of the last minute.\<close>

definition requests_in_window :: "'s world \<Rightarrow> int" where
  "requests_in_window w = window_weight (map (\<lambda>(t, n). (t, 1)) (sent w)) (WINDOW_SECONDS * 1000) (clock w)"

definition tokens_in_window :: "'s world \<Rightarrow> int" where
  "tokens_in_window w = window_weight (sent w) (WINDOW_SECONDS * 1000) (clock w)"

text \<open>Newest first, each at least \<open>gap\<close> after the one before.\<close>

fun spaced :: "int \<Rightarrow> int list \<Rightarrow> bool" where
  "spaced gap (t # u # ts) = (u + gap \<le> t \<and> spaced gap (u # ts))"
| "spaced gap _ = True"

section \<open>Safety, for any store that keeps the contract\<close>

context quota_backend
begin

definition leases_safe :: "quota_config \<Rightarrow> 's world \<Rightarrow> bool" where
  "leases_safe c w =
     ((\<forall>u \<ge> clock w. running w \<subseteq> live (store w) (pq_key c ''conc'') u) \<and>
      int (card (live (store w) (pq_key c ''conc'') (clock w))) \<le> max_concurrency c)"

definition window_safe :: "'s \<Rightarrow> key \<Rightarrow> int \<Rightarrow> (int \<times> int) list \<Rightarrow> int \<Rightarrow> bool" where
  "window_safe s k limit hist now =
     ((\<forall>u \<ge> now. window_weight hist W u \<le> used s k u) \<and>
      (\<forall>u v. now \<le> u \<and> u \<le> v \<longrightarrow> used s k v \<le> used s k u) \<and>
      used s k now \<le> limit)"

definition search_safe :: "'s \<Rightarrow> key \<Rightarrow> int list \<Rightarrow> bool" where
  "search_safe s k hist =
     (spaced I hist \<and> (hist = [] \<or> (\<exists>t. slot s k = Some t \<and> List.hd hist \<le> t)))"

definition search_key :: "quota_config \<Rightarrow> search_endpoint \<Rightarrow> key" where
  "search_key c p = pq_key c (''search:'' @ endpoint_text p)"

definition world_safe :: "quota_config \<Rightarrow> 's world \<Rightarrow> bool" where
  "world_safe c w =
     (inv (store w) (clock w) \<and> leases_safe c w \<and> (\<forall>k. ids (store w) k \<subseteq> issued w) \<and>
      window_safe (store w) (pq_key c ''rpm'') (max_rpm c) (map (\<lambda>(t, n). (t, 1)) (sent w)) (clock w) \<and>
      window_safe (store w) (pq_key c ''tpm'') (max_tpm c) (sent w) (clock w) \<and>
      (\<forall>p. search_safe (store w) (search_key c p) (searched w p)))"

lemma window_safe_later:
  "window_safe s k limit hist now \<Longrightarrow> now \<le> t \<Longrightarrow> window_safe s k limit hist t"
  unfolding window_safe_def by (meson order_refl order_trans)

lemma window_safe_cong: "used s' k = used s k \<Longrightarrow> window_safe s' k limit hist now = window_safe s k limit hist now"
  by (simp add: window_safe_def)

lemma search_safe_cong: "slot s' = slot s \<Longrightarrow> search_safe s' k hist = search_safe s k hist"
  by (simp add: search_safe_def)

lemma window_safe_admit:
  assumes "inv s now" "e \<notin> ids s k" "0 \<le> wt"
    and run: "admit_window B s k e limit W now wt = ((g, n, d), s')"
    and safe: "window_safe s k limit hist now"
  shows "window_safe s' k limit hist now"
    and "g \<Longrightarrow> window_safe s' k limit ((now, wt) # hist) now"
proof -
  note law = window_law [OF assms(1,2) run]
  have u: "used s' k u = used s k u + (if g \<and> u - W < now then wt else 0)" if "now \<le> u" for u
    using law that by auto
  have g: "g = (used s k now + wt \<le> limit)" using law by blast
  have low: "window_weight hist W v \<le> used s k v" if "now \<le> v" for v
    using safe that by (simp add: window_safe_def)
  have anti: "used s k y \<le> used s k x" if "now \<le> x" "x \<le> y" for x y
    using safe that by (simp add: window_safe_def)
  have top: "used s k now \<le> limit" using safe by (simp add: window_safe_def)
  have anti': "used s' k y \<le> used s' k x" if "now \<le> x" "x \<le> y" for x y
    using anti [OF that] u [of x] u [of y] that assms(3) by (auto split: if_splits)
  have top': "used s' k now \<le> limit" using u [of now] g top by (auto split: if_splits)
  have low': "window_weight hist W v \<le> used s' k v" if "now \<le> v" for v
    using low [OF that] u [OF that] assms(3) by (auto split: if_splits)
  show "window_safe s' k limit hist now"
    using anti' top' low' by (simp add: window_safe_def)
  show "window_safe s' k limit ((now, wt) # hist) now" if g
    using anti' top' low u that by (auto simp: window_safe_def)
qed

lemma window_safe_other:
  assumes "inv s now" "e \<notin> ids s k" "admit_window B s k e limit W now wt = ((g, n, d), s')" "k' \<noteq> k"
    and safe: "window_safe s k' limit' hist now"
  shows "window_safe s' k' limit' hist now"
proof -
  have "used s' k' u = used s k' u" if "now \<le> u" for u
    using window_law [OF assms(1-3)] that assms(4) by auto
  with safe show ?thesis by (auto simp: window_safe_def)
qed

lemma search_safe_admit:
  assumes "inv s now" "admit_interval B s k I now = ((g, d), s')" "search_safe s k hist" "0 \<le> I"
  shows "search_safe s' k hist" and "g \<Longrightarrow> search_safe s' k (now # hist)"
    and "k' \<noteq> k \<Longrightarrow> search_safe s k' hist' \<Longrightarrow> search_safe s' k' hist'"
proof -
  note law = interval_law [OF assms(1,2)]
  have slot: "slot s' = (if g then (slot s)(k := Some now) else slot s)" using law by blast
  have gap: "List.hd hist + I \<le> now" if "g" "hist \<noteq> []"
    using law that assms(3) by (auto simp: search_safe_def)
  show "search_safe s' k hist"
  proof (cases "g \<and> hist \<noteq> []")
    case True
    with gap assms(4) have "List.hd hist \<le> now" by simp
    with True assms(3) slot show ?thesis by (simp add: search_safe_def)
  next
    case False
    with assms(3) slot show ?thesis by (auto simp: search_safe_def)
  qed
  show "search_safe s' k (now # hist)" if g
    using assms(3) slot gap that by (cases hist) (auto simp: search_safe_def)
  show "search_safe s' k' hist'" if "k' \<noteq> k" "search_safe s k' hist'"
    using that slot by (auto simp: search_safe_def)
qed

text \<open>Each operation keeps \<open>world_safe\<close>; the configuration matches the store's parameters.\<close>

definition fitted :: "quota_config \<Rightarrow> bool" where
  "fitted c = (reclaim = None \<and> abandoned_reclaim_ms c = None \<and> W = WINDOW_SECONDS * 1000 \<and>
     0 \<le> I \<and> (\<forall>p. search_interval_ms c p = I))"

lemma acquire_keeps_safe:
  assumes "fitted c" "world_safe c w" "try_acquire_inference B c (store w) l (clock w) = (r, s')"
    and R: "R = running w \<or> (\<exists>l'. r = Some l' \<and> R = insert l' (running w))"
  shows "world_safe c (w\<lparr>store := s', issued := insert l (issued w), running := R\<rparr>)"
proof (cases "0 < pause_remaining B (store w) (pq_key c ''pause:inference'') (clock w)")
  case True
  with assms show ?thesis
    by (auto simp: try_acquire_inference_def world_safe_def leases_safe_def)
next
  case False
  let ?k = "pq_key c ''conc''"
  obtain g n where run: "acquire_concurrency B (store w) ?k l (max_concurrency c) reclaim (clock w) = ((g, n), s')"
    and r: "r = (if g then Some l else None)"
    using False assms(1,3) by (auto simp: try_acquire_inference_def fitted_def split: prod.splits)
  have safe: "inv (store w) (clock w)" "leases_safe c w" using assms(2) by (simp_all add: world_safe_def)
  note law = acquire_law [OF safe(1) run]
  have live: "live s' ?k u = (if g then insert l (live (store w) ?k u) else live (store w) ?k u)"
    if "clock w \<le> u" for u
    using law that assms(1) by (auto simp: fitted_def stamp_def)
  have "int (card (live s' ?k (clock w))) \<le> max_concurrency c"
  proof (cases g)
    case True
    with run acquire_adds_one [OF safe(1), of ?k l "max_concurrency c" n s'] show ?thesis by simp
  next
    case False
    with safe(2) live [of "clock w"] show ?thesis by (simp add: leases_safe_def)
  qed
  moreover have "R \<subseteq> live s' ?k u" if "clock w \<le> u" for u
    using safe(2) live [OF that] R r that
    by (auto simp: leases_safe_def split: if_splits)
  moreover note lease_frame(1) [OF run] law
  ultimately show ?thesis
    using assms(2) by (auto simp: world_safe_def leases_safe_def window_safe_def search_safe_def)
qed

lemma release_keeps_safe:
  assumes "world_safe c w" "release_concurrency B (store w) (pq_key c ''conc'') l (clock w) = (b, s')"
  shows "world_safe c (w\<lparr>store := s', running := running w - {l}\<rparr>)"
proof -
  let ?k = "pq_key c ''conc''"
  have safe: "inv (store w) (clock w)" "leases_safe c w" using assms(1) by (simp_all add: world_safe_def)
  note law = release_law [OF safe(1) assms(2)]
  have live: "live s' ?k u = live (store w) ?k u - {l}" if "clock w \<le> u" for u using law that by auto
  have "card (live s' ?k (clock w)) \<le> card (live (store w) ?k (clock w))"
    using live [of "clock w"] by (auto intro: card_mono live_finite)
  then have "leases_safe c (w\<lparr>store := s', running := running w - {l}\<rparr>)"
    using safe(2) live by (auto simp: leases_safe_def)
  with lease_frame(2) [OF assms(2)] law assms(1) show ?thesis
    by (auto simp: world_safe_def window_safe_def search_safe_def)
qed

lemma recover_keeps_safe:
  assumes "world_safe c w" "l \<notin> running w"
    "recover_concurrency B (store w) (pq_key c ''conc'') l cutoff (clock w) = (r, s')"
  shows "world_safe c (w\<lparr>store := s'\<rparr>)"
proof -
  let ?k = "pq_key c ''conc''"
  have safe: "inv (store w) (clock w)" "leases_safe c w" using assms(1) by (simp_all add: world_safe_def)
  note law = recover_law [OF safe(1) assms(3)]
  have live: "live s' ?k u = live (store w) ?k u - (if r = RECOVERY_REMOVED then {l} else {})"
    if "clock w \<le> u" for u using law that by auto
  have "card (live s' ?k (clock w)) \<le> card (live (store w) ?k (clock w))"
    using live [of "clock w"] by (auto intro: card_mono live_finite)
  then have "leases_safe c (w\<lparr>store := s'\<rparr>)"
    using safe(2) live assms(2) by (auto simp: leases_safe_def)
  with lease_frame(3) [OF assms(3)] law assms(1) show ?thesis
    by (auto simp: world_safe_def window_safe_def search_safe_def)
qed

lemma admit_keeps_safe:
  assumes fit: "fitted c" and safe: "world_safe c w" and e: "e \<notin> issued w"
    and run: "try_admit_request B c (store w) e tokens (clock w) = (r, s')"
    and S: "S = sent w \<or> (\<exists>why retry. r = Inr (True, why, retry) \<and> S = (clock w, tokens) # sent w)"
  shows "world_safe c (w\<lparr>store := s', issued := insert e (issued w), sent := S\<rparr>)"
proof (cases "s' = store w \<and> S = sent w")
  case True
  with safe show ?thesis by (auto simp: world_safe_def leases_safe_def)
next
  case False
  let ?rpm = "pq_key c ''rpm''" and ?tpm = "pq_key c ''tpm''" and ?now = "clock w"
  have W: "W = WINDOW_SECONDS * 1000" using fit by (simp add: fitted_def)
  have pos: "0 \<le> tokens" using run S False
    by (auto simp: try_admit_request_def Let_def split: if_splits)
  obtain g n d s1 where r1: "admit_window B (store w) ?rpm e (max_rpm c) W ?now 1 = ((g, n, d), s1)"
    by (metis prod_cases3 surj_pair)
  obtain g2 n2 d2 s2 where r2: "admit_window B s1 ?tpm e (max_tpm c) W ?now tokens = ((g2, n2, d2), s2)"
    by (metis prod_cases3 surj_pair)
  have out: "s' = (if g then s2 else s1)" "\<exists>why retry. r = Inr (True, why, retry) \<Longrightarrow> g \<and> g2"
    using run S False r1 r2 W
    by (auto simp: try_admit_request_def Let_def split: if_splits)
  have inv0: "inv (store w) ?now" and ids0: "\<forall>k. ids (store w) k \<subseteq> issued w"
    and rpm0: "window_safe (store w) ?rpm (max_rpm c) (map (\<lambda>(t, n). (t, 1)) (sent w)) ?now"
    and tpm0: "window_safe (store w) ?tpm (max_tpm c) (sent w) ?now"
    using safe by (simp_all add: world_safe_def)
  have e1: "e \<notin> ids (store w) ?rpm" using ids0 e by blast
  have key: "?tpm \<noteq> ?rpm" "?rpm \<noteq> ?tpm" by simp_all
  note law1 = window_law [OF inv0 e1 r1]
  have inv1: "inv s1 ?now" using law1 by blast
  have sub: "ids s1 k \<subseteq> ids (store w) k \<union> (if k = ?rpm then {e} else {})" for k using law1 by blast
  have ids1: "ids s1 k \<subseteq> insert e (issued w)" for k
    using ids0 sub [of k] by (fastforce split: if_splits)
  have e2: "e \<notin> ids s1 ?tpm" using sub [of ?tpm] ids0 e by auto
  note law2 = window_law [OF inv1 e2 r2]
  have rpm1: "window_safe s1 ?rpm (max_rpm c) (map (\<lambda>(t, n). (t, 1)) (sent w)) ?now"
    "g \<Longrightarrow> window_safe s1 ?rpm (max_rpm c) (map (\<lambda>(t, n). (t, 1)) ((?now, tokens) # sent w)) ?now"
    using window_safe_admit [OF inv0 e1 _ r1 rpm0] by simp_all
  have tpm1: "window_safe s1 ?tpm (max_tpm c) (sent w) ?now"
    using window_safe_other [OF inv0 e1 r1 key(1) tpm0] .
  have rpm2: "window_safe s2 ?rpm (max_rpm c) h ?now" if "window_safe s1 ?rpm (max_rpm c) h ?now" for h
    using window_safe_other [OF inv1 e2 r2 key(2) that] .
  have tpm2: "window_safe s2 ?tpm (max_tpm c) (sent w) ?now"
    "g2 \<Longrightarrow> window_safe s2 ?tpm (max_tpm c) ((?now, tokens) # sent w) ?now"
    using window_safe_admit [OF inv1 e2 pos r2 tpm1] by simp_all
  have sub2: "ids s2 k \<subseteq> ids s1 k \<union> (if k = ?tpm then {e} else {})" for k using law2 by blast
  have ids2: "ids s2 k \<subseteq> insert e (issued w)" for k
    using ids1 [of k] sub2 [of k] by (fastforce split: if_splits)
  have inv2: "inv s2 ?now" using law2 by blast
  have frame: "live s' = live (store w)" "slot s' = slot (store w)"
    using out(1) window_frame [OF r1] window_frame [OF r2] by simp_all
  have inv': "inv s' ?now" using out(1) inv1 inv2 by simp
  have ids': "\<forall>k. ids s' k \<subseteq> insert e (issued w)" using out(1) ids1 ids2 by simp
  have "window_safe s' ?rpm (max_rpm c) (map (\<lambda>(t, n). (t, 1)) S) ?now"
    using S out rpm1 rpm2 by auto
  moreover have "window_safe s' ?tpm (max_tpm c) S ?now"
    using S out tpm1 tpm2 by auto
  ultimately show ?thesis
    using safe frame inv' ids' by (simp add: world_safe_def leases_safe_def search_safe_def)
qed

lemma search_keeps_safe:
  assumes fit: "fitted c" and safe: "world_safe c w"
    and run: "try_admit_search B c (store w) p (clock w) = ((g, retry), s')"
    and H: "H = searched w \<or> (g \<and> H = (searched w)(p := clock w # searched w p))"
  shows "world_safe c (w\<lparr>store := s', searched := H\<rparr>)"
proof (cases "0 < pause_remaining B (store w) (pq_key c (''pause:'' @ endpoint_text p)) (clock w)")
  case True
  with safe run H show ?thesis by (auto simp: try_admit_search_def world_safe_def leases_safe_def)
next
  case False
  let ?k = "search_key c p"
  have run': "admit_interval B (store w) ?k I (clock w) = ((g, retry), s')" and I: "0 \<le> I"
    using False run fit by (auto simp: try_admit_search_def search_key_def fitted_def Let_def)
  have inv0: "inv (store w) (clock w)" and s0: "\<forall>p. search_safe (store w) (search_key c p) (searched w p)"
    using safe by (simp_all add: world_safe_def)
  note adm = search_safe_admit [OF inv0 run' _ I]
  have key: "search_key c p' \<noteq> ?k" if "p' \<noteq> p" for p'
    using that by (cases p; cases p') (auto simp: search_key_def endpoint_text_def)
  have "search_safe s' (search_key c p') (H p')" for p'
  proof (cases "p' = p")
    case True
    with H adm(1,2) [OF s0 [rule_format]] show ?thesis by auto
  next
    case False
    with H adm(3) [OF s0 [rule_format] key [OF False] s0 [rule_format]] show ?thesis by auto
  qed
  with safe interval_frame [OF run'] interval_law [OF inv0 run'] show ?thesis
    by (simp add: world_safe_def leases_safe_def window_safe_def)
qed

lemma pause_keeps_safe:
  assumes "world_safe c w" "record_rate_limit_signal B c (store w) d ra l rem h (clock w) = (r, s')"
  shows "world_safe c (w\<lparr>store := s'\<rparr>)"
proof -
  consider "s' = store w" | k until where "s' = set_pause B (store w) k until (clock w)"
    using assms(2) by (auto simp: record_rate_limit_signal_def pause_def Let_def
        split: prod.splits sum.splits pyfloat.splits if_splits)
  then show ?thesis
  proof cases
    case 1
    with assms(1) show ?thesis by simp
  next
    case (2 k until)
    with assms(1) pause_frame [of "store w" k until "clock w"] pause_law(1) [of "store w" "clock w" k until]
    show ?thesis
      by (simp add: world_safe_def leases_safe_def window_safe_def search_safe_def)
  qed
qed

lemma tick_keeps_safe:
  assumes "world_safe c w" "clock w \<le> t"
  shows "world_safe c (w\<lparr>clock := t\<rparr>)"
proof -
  have "card (live (store w) (pq_key c ''conc'') t) \<le> card (live (store w) (pq_key c ''conc'') (clock w))"
    using live_shrinks [OF assms(2)] by (auto intro: card_mono live_finite)
  with assms show ?thesis
    by (auto simp: world_safe_def leases_safe_def intro: inv_later window_safe_later)
qed

lemma world_step_safe:
  assumes "world_step B c w w'" "fitted c" "world_safe c w"
  shows "world_safe c w'"
  using assms(1)
proof cases
  case (Start l l' s')
  then show ?thesis using acquire_keeps_safe [OF assms(2,3), of l "Some l'" s'] by simp
next
  case (Start_unheard l r s')
  then show ?thesis using acquire_keeps_safe [OF assms(2,3), of l r s' "running w"] by simp
next
  case (Settle_proven L reason b L' s' ds)
  show ?thesis
  proof (cases "settled L")
    case True
    with Settle_proven assms(3) show ?thesis
      by (fastforce simp: settle_def release_def world_safe_def leases_safe_def)
  next
    case False
    with Settle_proven release_keeps_safe [OF assms(3)] show ?thesis
      by (auto simp: settle_def release_def release_inference_def split: prod.splits)
  qed
next
  case (Finish_unheard l)
  then show ?thesis using assms(3) by (fastforce simp: world_safe_def leases_safe_def)
next
  case (Settle_unproven L reason b L' s' ds)
  then show ?thesis using assms(3) by (auto simp: settle_def split: prod.splits)
next
  case (Reclaim l reason r s')
  then show ?thesis using recover_keeps_safe [OF assms(3), of l] assms(3)
    by (auto simp: operator_reclaim_inference_def Let_def split: if_splits prod.splits recovery.splits)
next
  case (Send e tokens why retry s')
  then show ?thesis using admit_keeps_safe [OF assms(2,3)] by blast
next
  case (Send_refused e tokens r s')
  then show ?thesis using admit_keeps_safe [OF assms(2,3), of e tokens r s' "sent w"] by simp
next
  case (Search p retry s')
  then show ?thesis using search_keeps_safe [OF assms(2,3)] by blast
next
  case (Search_refused p r s')
  then show ?thesis using search_keeps_safe [OF assms(2,3), of p "fst r" "snd r" s' "searched w"] by simp
next
  case Rate_limited
  then show ?thesis using pause_keeps_safe [OF assms(3)] by blast
qed (use assms tick_keeps_safe in blast)

lemma reachable_safe:
  assumes "world_reachable B c s0 w" "fitted c" "1 \<le> max_concurrency c" "1 \<le> max_rpm c" "1 \<le> max_tpm c"
    and "inv s0 0" "\<forall>k u. live s0 k u = {} \<and> used s0 k u = 0 \<and> ids s0 k = {}"
  shows "world_safe c w"
proof -
  obtain t where t: "0 \<le> t" "(world_step B c)\<^sup>*\<^sup>* (start_world s0 t) w"
    using assms(1) by (auto simp: world_reachable_def)
  have "world_safe c (start_world s0 t)"
    using assms(3-7) t(1) inv_later [OF assms(6)]
    by (simp add: world_safe_def leases_safe_def window_safe_def search_safe_def start_world_def)
  from t(2) this show ?thesis
    by (induction rule: rtranclp_induct) (auto intro: world_step_safe [OF _ assms(2)])
qed

lemma reachable_bounds:
  assumes "world_reachable B c s0 w" "fitted c" "1 \<le> max_concurrency c" "1 \<le> max_rpm c" "1 \<le> max_tpm c"
    and "inv s0 0" "\<forall>k u. live s0 k u = {} \<and> used s0 k u = 0 \<and> ids s0 k = {}"
  shows "int (card (running w)) \<le> max_concurrency c"
    and "requests_in_window w \<le> max_rpm c \<and> tokens_in_window w \<le> max_tpm c"
    and "spaced I (searched w p)"
proof -
  have W: "W = WINDOW_SECONDS * 1000" using assms(2) by (simp add: fitted_def)
  have safe: "world_safe c w" by (rule reachable_safe [OF assms])
  have "card (running w) \<le> card (live (store w) (pq_key c ''conc'') (clock w))"
    using safe by (intro card_mono live_finite) (auto simp: world_safe_def leases_safe_def)
  with safe show "int (card (running w)) \<le> max_concurrency c"
    by (simp add: world_safe_def leases_safe_def)
  show "requests_in_window w \<le> max_rpm c \<and> tokens_in_window w \<le> max_tpm c"
    using safe
    unfolding world_safe_def window_safe_def requests_in_window_def tokens_in_window_def W [symmetric]
    by (meson order_refl order_trans)
  show "spaced I (searched w p)" using safe by (simp add: world_safe_def search_safe_def)
qed

end

section \<open>The two stores\<close>

lemma search_interval: "config_ok c \<Longrightarrow> search_interval_ms c p = 1000"
  by (cases p) (auto simp: config_ok_def search_interval_ms_def endpoint_qps_def trunc_rat_def)

lemma redis_fitted:
  assumes "config_ok c" "abandoned_lease_reclaim_seconds c = None"
  shows "red.fitted None (WINDOW_SECONDS * 1000) 1000 c"
  using assms search_interval [OF assms(1)] by (simp add: red.fitted_def abandoned_reclaim_ms_def)

lemma memory_fitted:
  assumes "config_ok c" "abandoned_lease_reclaim_seconds c = None"
  shows "mem.fitted None (WINDOW_SECONDS * 1000) 1000 c"
  using assms search_interval [OF assms(1)] by (simp add: mem.fitted_def abandoned_reclaim_ms_def)

lemma empty_redis_ok: "redis_inv None (WINDOW_SECONDS * 1000) 1000 empty_redis 0"
  by (simp add: redis_inv_def lease_key_ok_def window_key_ok_def empty_redis_def dict_wf_def
      WINDOW_SECONDS_def)

lemma empty_redis_views:
  "\<forall>k u. redis_live empty_redis k u = {} \<and> redis_used W empty_redis k u = 0 \<and> redis_ids empty_redis k = {}"
  by (simp add: redis_views empty_redis_def holders_at_def)

lemma empty_memory_ok: "memory_inv empty_memory 0"
  by (simp add: memory_inv_def empty_memory_def dict_wf_def)

lemma empty_memory_views:
  "\<forall>k u. memory_live empty_memory k u = {} \<and> memory_used W empty_memory k u = 0 \<and>
     memory_ids empty_memory k = {}"
  by (simp add: memory_views empty_memory_def holders_at_def)

lemma config_ok_positive:
  "config_ok c \<Longrightarrow> 1 \<le> max_concurrency c \<and> 1 \<le> max_rpm c \<and> 1 \<le> max_tpm c"
  by (simp add: config_ok_def)

lemma redis_bounds:
  assumes "world_reachable redis_backend c empty_redis w" "config_ok c"
    "abandoned_lease_reclaim_seconds c = None"
  shows "int (card (running w)) \<le> max_concurrency c"
    and "requests_in_window w \<le> max_rpm c \<and> tokens_in_window w \<le> max_tpm c"
    and "spaced 1000 (searched w p)"
  using red.reachable_bounds [OF assms(1) redis_fitted [OF assms(2,3)] _ _ _ empty_redis_ok
      empty_redis_views] config_ok_positive [OF assms(2)] by blast+

lemma memory_bounds:
  assumes "world_reachable memory_backend c empty_memory w" "config_ok c"
    "abandoned_lease_reclaim_seconds c = None"
  shows "int (card (running w)) \<le> max_concurrency c"
    and "requests_in_window w \<le> max_rpm c \<and> tokens_in_window w \<le> max_tpm c"
    and "spaced 1000 (searched w p)"
  using mem.reachable_bounds [OF assms(1) memory_fitted [OF assms(2,3)] _ _ _ empty_memory_ok
      empty_memory_views] config_ok_positive [OF assms(2)] by blast+

lemma default_config_ok: "config_ok default_config"
  by (simp add: config_ok_def default_config_def org_ceilings SEARCH_QPS_FALLBACK_def
      request_deadline_seconds_def default_request_deadline_def lease_safety_margin_def quota_constants)

lemma default_never_reclaims: "abandoned_lease_reclaim_seconds default_config = None"
  by (simp add: default_config_def)

text \<open>A world with one request admitted at second 5: the lease, then the request.\<close>

definition redis_one :: redis where
  "redis_one = snd (try_acquire_inference redis_backend default_config empty_redis ''a'' 5000)"

definition redis_two :: redis where
  "redis_two = snd (try_admit_request redis_backend default_config redis_one ''b'' 900 5000)"

definition redis_world :: "redis world" where
  "redis_world = \<lparr>store = redis_two, clock = 5000, issued = {''b'', ''a''}, running = {''a''},
     sent = [(5000, 900)], searched = (\<lambda>_. [])\<rparr>"

lemma redis_one_result:
  "try_acquire_inference redis_backend default_config empty_redis ''a'' 5000 = (Some ''a'', redis_one)"
  by (simp add: redis_one_def try_acquire_inference_def redis_backend_def redis_acquire_def
      lua_acquire_def redis_pause_remaining_def read_string_def seconds_def empty_redis_def
      zmembers_def hfields_def key_gone_def Let_def default_config_def org_ceilings)

lemma redis_two_result:
  "try_admit_request redis_backend default_config redis_one ''b'' 900 5000 =
     (Inr (True, [], 0), redis_two)"
  by (simp add: redis_two_def redis_one_def try_acquire_inference_def try_admit_request_def
      redis_backend_def redis_acquire_def lua_acquire_def redis_pause_remaining_def read_string_def
      seconds_def empty_redis_def store_leases_def lua_admit_window_def
      zmembers_def hfields_def wmembers_def key_gone_def Let_def default_config_def org_ceilings)

lemma redis_world_reachable: "world_reachable redis_backend default_config empty_redis redis_world"
proof -
  let ?w0 = "start_world empty_redis 5000"
  let ?w1 = "?w0\<lparr>store := redis_one, issued := insert ''a'' (issued ?w0),
                 running := insert ''a'' (running ?w0)\<rparr>"
  have one: "world_step redis_backend default_config ?w0 ?w1"
    by (rule Start) (simp_all add: redis_one_result start_world_def)
  have two: "world_step redis_backend default_config ?w1
      (?w1\<lparr>store := redis_two, issued := insert ''b'' (issued ?w1), sent := (clock ?w1, 900) # sent ?w1\<rparr>)"
    by (rule Send [where why = "[]" and retry = 0]) (simp_all add: redis_two_result start_world_def)
  have eq: "?w1\<lparr>store := redis_two, issued := insert ''b'' (issued ?w1),
      sent := (clock ?w1, 900) # sent ?w1\<rparr> = redis_world"
    by (simp add: redis_world_def start_world_def)
  have "(world_step redis_backend default_config)\<^sup>*\<^sup>* ?w0 redis_world"
    by (rule converse_rtranclp_into_rtranclp [where r = "world_step redis_backend default_config", OF one
          converse_rtranclp_into_rtranclp [where r = "world_step redis_backend default_config",
            OF two [unfolded eq] rtranclp.rtrancl_refl]])
  then show ?thesis unfolding world_reachable_def by (intro exI [of _ 5000]) simp
qed





text \<open>C24. The in-process store makes the same promises as Redis: concurrency, both rate windows
  and the spacing of Web Search requests hold in every reachable world.\<close>

theorem memory_store_keeps_every_ceiling:
  assumes "world_reachable memory_backend c empty_memory w" and "config_ok c"
    and "abandoned_lease_reclaim_seconds c = None"
  shows "int (card (running w)) \<le> max_concurrency c \<and>
    requests_in_window w \<le> max_rpm c \<and> tokens_in_window w \<le> max_tpm c \<and>
    spaced 1000 (searched w SEARCH_BASIC) \<and> spaced 1000 (searched w SEARCH_PRO)"
  using memory_bounds [OF assms] by blast

lemma search_world_reachable:
  "world_reachable memory_backend default_config empty_memory
     ((start_world empty_memory 5000)\<lparr>
        store := snd (try_admit_search memory_backend default_config empty_memory SEARCH_PRO 5000),
        searched := (\<lambda>_. [])(SEARCH_PRO := [5000])\<rparr>)"
proof -
  let ?w = "start_world empty_memory 5000"
  let ?r = "try_admit_search memory_backend default_config empty_memory SEARCH_PRO 5000"
  have "?r = ((True, 0), snd ?r)"
    by (simp add: try_admit_search_def memory_backend_def memory_admit_interval_def seconds_def
        memory_pause_remaining_def empty_memory_def search_interval [OF default_config_ok] Let_def)
  then have "world_step memory_backend default_config ?w
     (?w\<lparr>store := snd ?r, searched := (searched ?w)(SEARCH_PRO := clock ?w # searched ?w SEARCH_PRO)\<rparr>)"
    by (intro Search) (simp add: start_world_def)
  then have "(world_step memory_backend default_config)\<^sup>*\<^sup>* ?w
     (?w\<lparr>store := snd ?r, searched := (\<lambda>_. [])(SEARCH_PRO := [5000])\<rparr>)"
    by (intro r_into_rtranclp) (simp add: start_world_def)
  then show ?thesis unfolding world_reachable_def by (intro exI [of _ 5000]) simp
qed

lemma memory_store_keeps_every_ceiling_witness:
  "spaced 1000 (searched ((start_world empty_memory 5000)\<lparr>
        store := snd (try_admit_search memory_backend default_config empty_memory SEARCH_PRO 5000),
        searched := (\<lambda>_. [])(SEARCH_PRO := [5000])\<rparr>) SEARCH_PRO)"
  using memory_store_keeps_every_ceiling
    [OF search_world_reachable default_config_ok default_never_reclaims] by blast

text \<open>Web Search pacing on the shared Redis store: on each endpoint the searches all processes
  together have sent are at least one second apart.\<close>

theorem redis_searches_are_spaced:
  assumes "world_reachable redis_backend c empty_redis w" and "config_ok c"
    and "abandoned_lease_reclaim_seconds c = None"
  shows "spaced 1000 (searched w p)"
  by (rule redis_bounds(3) [OF assms])

lemma redis_searches_are_spaced_witness: "spaced 1000 (searched redis_world SEARCH_BASIC)"
  by (rule redis_searches_are_spaced [OF redis_world_reachable default_config_ok default_never_reclaims])

section \<open>What a timer costs\<close>

definition timed_config :: quota_config where
  "timed_config = default_config\<lparr>max_concurrency := 1, abandoned_lease_reclaim_seconds := Some 4500\<rparr>"

definition timed_one :: memory where
  "timed_one = snd (try_acquire_inference memory_backend timed_config empty_memory ''a'' 0)"

definition timed_two :: memory where
  "timed_two = snd (try_acquire_inference memory_backend timed_config timed_one ''b'' 4500000)"

lemma timed_results:
  "try_acquire_inference memory_backend timed_config empty_memory ''a'' 0 = (Some ''a'', timed_one)"
  "try_acquire_inference memory_backend timed_config timed_one ''b'' 4500000 = (Some ''b'', timed_two)"
  by (simp_all add: timed_one_def timed_two_def try_acquire_inference_def memory_backend_def
      memory_acquire_def memory_pause_remaining_def seconds_def empty_memory_def Let_def drop_keys_def
      timed_config_def default_config_def abandoned_reclaim_ms_def trunc_rat_def stamp_def)

lemma timed_world_reachable:
  "world_reachable memory_backend timed_config empty_memory
     \<lparr>store = timed_two, clock = 4500000, issued = {''b'', ''a''}, running = {''b'', ''a''},
      sent = [], searched = (\<lambda>_. [])\<rparr>"
proof -
  let ?S = "world_step memory_backend timed_config"
  let ?w0 = "start_world empty_memory 0"
  let ?w1 = "?w0\<lparr>store := timed_one, issued := insert ''a'' (issued ?w0),
                 running := insert ''a'' (running ?w0)\<rparr>"
  let ?w2 = "?w1\<lparr>clock := 4500000\<rparr>"
  have one: "?S ?w0 ?w1" by (rule Start) (simp_all add: timed_results start_world_def)
  have two: "?S ?w1 ?w2" by (rule Tick) (simp add: start_world_def)
  have three: "?S ?w2 (?w2\<lparr>store := timed_two, issued := insert ''b'' (issued ?w2),
      running := insert ''b'' (running ?w2)\<rparr>)"
    by (rule Start) (simp_all add: timed_results start_world_def)
  have "?S\<^sup>*\<^sup>* ?w0 (?w2\<lparr>store := timed_two, issued := insert ''b'' (issued ?w2),
      running := insert ''b'' (running ?w2)\<rparr>)"
    by (rule converse_rtranclp_into_rtranclp [where r = ?S, OF one
          converse_rtranclp_into_rtranclp [where r = ?S, OF two
            converse_rtranclp_into_rtranclp [where r = ?S, OF three rtranclp.rtrancl_refl]]])
  then show ?thesis unfolding world_reachable_def by (intro exI [of _ 0]) (simp add: start_world_def)
qed

text \<open>The guarantee really rests on having no timer.  With the shortest timer the validation
  accepts (4500 seconds for the default process lifetime) and a ceiling of one, a world is reachable
  in which two requests run: the timer returned the first lease while its request was still
  unproven.\<close>

theorem timed_reclaim_breaks_the_ceiling:
  "post_init timed_config = Inr timed_config \<and> max_concurrency timed_config = 1 \<and>
   (\<exists>w. world_reachable memory_backend timed_config empty_memory w \<and> card (running w) = 2)"
proof -
  have "post_init timed_config = Inr timed_config"
    by (simp add: timed_config_def post_init_def default_config_def first_error_def org_ceilings
        search_rate_error_def SEARCH_QPS_FALLBACK_def assert_request_deadline_safe_def
        assert_abandoned_lease_reclaim_safe_def request_deadline_seconds_def
        default_request_deadline_def lease_safety_margin_def quota_constants
        minimum_abandoned_lease_reclaim_def)
  moreover have "max_concurrency timed_config = 1" by (simp add: timed_config_def)
  ultimately show ?thesis using timed_world_reachable by fastforce
qed

section \<open>Settlement, reclaim and pauses\<close>

text \<open>Settling a lease, on proof or not, any number of times and however late, changes nothing
  for any other lease: on the Redis store every other held lease of every key stays held, and
  without proof the store is not touched at all.\<close>

theorem settlement_frees_only_its_own_lease:
  assumes "redis_inv None W I r now"
    and "settle redis_backend c r L proven reason now = (b, L', r', ds)"
  shows "redis_live r k now - {lease_id L} \<subseteq> redis_live r' k now \<and>
    redis_live r' k now \<subseteq> redis_live r k now \<and> (proven \<or> r' = r) \<and> settled L'"
proof (cases "proven \<and> \<not> settled L")
  case True
  then obtain b2 where run: "release_concurrency redis_backend r (pq_key c ''conc'') (lease_id L) now = (b2, r')"
    and L': "settled L'"
    using assms(2) by (auto simp: settle_def release_def release_inference_def settled_def split: prod.splits)
  from red.release_law [OF assms(1) run] True L' show ?thesis by auto
next
  case False
  with assms(2) have "r' = r \<and> settled L'"
    by (auto simp: settle_def release_def quarantine_def settled_def split: prod.splits if_splits)
  then show ?thesis by blast
qed

lemma settlement_frees_only_its_own_lease_witness:
  "\<exists>b L' r' ds. settle redis_backend default_config empty_redis \<lparr>lease_id = ''a'', lease_outcome = None\<rparr>
      True [] 0 = (b, L', r', ds) \<and> settled L'"
proof -
  obtain b L' r' ds where run: "settle redis_backend default_config empty_redis
      \<lparr>lease_id = ''a'', lease_outcome = None\<rparr> True [] 0 = (b, L', r', ds)"
    by (metis prod_cases4)
  from settlement_frees_only_its_own_lease [OF empty_redis_ok run] run show ?thesis by blast
qed

text \<open>An operator reclaim that succeeds on the Redis store names a lease whose recorded
  acquisition is at least the process-lifetime floor old, and carries a non-blank printable
  reason of at most 200 characters.\<close>

theorem operator_reclaim_respects_process_lifetime:
  assumes "redis_inv None W I r now"
    and "operator_reclaim_inference redis_backend c r l reason now = (Inr d, r')"
  shows "(\<exists>a. redis_age r (pq_key c ''conc'') l = Some a \<and>
            a + trunc_rat (minimum_reclaim_seconds c * 1000) \<le> now) \<and>
    recorded_reason reason \<noteq> [] \<and> length (recorded_reason reason) \<le> 200"
proof -
  have run: "recover_concurrency redis_backend r (pq_key c ''conc'') l
      (now - trunc_rat (minimum_reclaim_seconds c * 1000)) now = (RECOVERY_REMOVED, r')"
    using assms(2) by (auto simp: operator_reclaim_inference_def Let_def
        split: prod.splits recovery.splits if_splits)
  have "recorded_reason reason \<noteq> []"
    using assms(2) by (auto simp: operator_reclaim_inference_def Let_def split: if_splits)
  moreover have "length (recorded_reason reason) \<le> 200" by (simp add: recorded_reason_def)
  ultimately show ?thesis using red.recover_law [OF assms(1) run] by fastforce
qed

definition held_redis :: redis where
  "held_redis = empty_redis\<lparr>zset := (\<lambda>_. [(''a'', Forever)]), hash := (\<lambda>_. [(''a'', 7)])\<rparr>"

lemma held_redis_reclaim:
  "redis_inv None (WINDOW_SECONDS * 1000) 1000 held_redis 4500007 \<and>
   (\<exists>d r'. operator_reclaim_inference redis_backend default_config held_redis ''a'' ''gone'' 4500007 = (Inr d, r'))"
  by (simp add: redis_inv_def lease_key_ok_def window_key_ok_def held_redis_def empty_redis_def
      dict_wf_def WINDOW_SECONDS_def operator_reclaim_inference_def redis_backend_def lua_recover_def
      zmembers_def hfields_def key_gone_def Let_def recorded_reason_def normalize_spaces_def
      is_space_def is_printable_def minimum_reclaim_seconds_def minimum_abandoned_lease_reclaim_def
      lease_safety_margin_def quota_constants default_config_def trunc_rat_def)

lemma operator_reclaim_respects_process_lifetime_witness:
  "recorded_reason ''gone'' \<noteq> []"
proof -
  obtain d r' where "operator_reclaim_inference redis_backend default_config held_redis ''a'' ''gone''
      4500007 = (Inr d, r')" using held_redis_reclaim by blast
  with operator_reclaim_respects_process_lifetime held_redis_reclaim show ?thesis by blast
qed

lemma pause_blocks:
  assumes "now \<le> t" "t < until"
  shows "0 < pause_remaining redis_backend (set_pause redis_backend r k until now) k t"
  by (rule red.pause_law(2) [OF assms])

text \<open>A provider rate-limit signal with a positive finite wait stops all inference admission on
  the Redis store until that wait has passed: no request is admitted and no lease is granted, by any
  process, before \<open>now\<close> plus the wait.\<close>

theorem rate_limit_signal_stops_admission:
  assumes "record_rate_limit_signal redis_backend c r ''inference'' (Some (Finite x)) reported
      remaining headroom now = (out, r')"
    and "0 < x" and "now \<le> t" and "t < now + trunc_rat (x * 1000)"
  shows "fst (try_acquire_inference redis_backend c r' l t) = None \<and>
    (\<exists>retry. fst (try_admit_request redis_backend c r' e tokens t) = Inr (False, ''inference_paused'', retry))"
proof -
  have "r' = set_pause redis_backend r (pq_key c ''pause:inference'') (now + trunc_rat (x * 1000)) now"
    using assms(1,2) by (auto simp: record_rate_limit_signal_def pause_length_def pause_def Let_def
        split: option.splits if_splits)
  with pause_blocks [OF assms(3,4)]
  have "0 < pause_remaining redis_backend r' (pq_key c ''pause:inference'') t" by simp
  then show ?thesis by (simp add: try_acquire_inference_def try_admit_request_def Let_def)
qed

lemma rate_limit_signal_stops_admission_witness:
  "\<exists>r'. fst (try_acquire_inference redis_backend default_config r' ''a'' 1500) = None"
proof -
  obtain out r' where run: "record_rate_limit_signal redis_backend default_config empty_redis ''inference''
      (Some (Finite 2)) None None None 0 = (out, r')" by (metis surj_pair)
  have "fst (try_acquire_inference redis_backend default_config r' ''a'' 1500) = None"
    using rate_limit_signal_stops_admission [OF run, of 1500 "''a''"] by (simp add: trunc_rat_def)
  then show ?thesis by blast
qed

text \<open>A rate-limit signal whose wait is NaN (which the header parser accepts) pauses nothing on
  any store, although \<open>None\<close> or zero would have paused for a second; an infinite one raises.\<close>

theorem nan_rate_limit_is_no_pause:
  "snd (record_rate_limit_signal B c s d (Some NaN) reported remaining headroom now) = s \<and>
   fst (record_rate_limit_signal B c s d (Some PosInf) reported remaining headroom now) =
     Inl Overflow_in_pause \<and>
   snd (record_rate_limit_signal B c s d None reported remaining headroom now) =
     set_pause B s (pq_key c (''pause:'' @ d)) (now + 1000) now"
  by (simp add: record_rate_limit_signal_def pause_length_def pause_def trunc_rat_def Let_def)

text \<open>The two stores differ on a second pause: after a pause of ten seconds and then one of two
  seconds, the in-process store still waits ten seconds, and Redis, whose \<open>SET\<close> overwrites, two.\<close>

theorem redis_pause_is_overwritten:
  "pause_remaining memory_backend
     (set_pause memory_backend (set_pause memory_backend empty_memory k 10000 0) k 2000 0) k 0 = 10 \<and>
   pause_remaining redis_backend
     (set_pause redis_backend (set_pause redis_backend empty_redis k 10000 0) k 2000 0) k 0 = 2"
  by (simp add: memory_backend_def redis_backend_def memory_set_pause_def memory_pause_remaining_def
      redis_set_pause_def redis_pause_remaining_def read_string_def seconds_def empty_memory_def
      empty_redis_def)

end
