(* ===== verification/Python_Floats.thy ===== *)
theory Python_Floats
  imports Prelude
begin

text \<open>
  Python's floats where the code lets a non-finite one through: comparison, addition, \<open>min\<close> and
  scaling on \<open>pyfloat\<close>, and the environment readers shared by \<open>backend/budget.py\<close> and
  \<open>backend/provider_scheduler.py\<close>.  Finite values are exact.
\<close>

section \<open>Comparison and arithmetic\<close>

text \<open>Every comparison with NaN is false.\<close>

fun py_less :: "pyfloat \<Rightarrow> pyfloat \<Rightarrow> bool" where
  "py_less (Finite x) (Finite y) = (x < y)"
| "py_less (Finite _) PosInf = True"
| "py_less NegInf (Finite _) = True"
| "py_less NegInf PosInf = True"
| "py_less _ _ = False"

fun py_plus :: "pyfloat \<Rightarrow> pyfloat \<Rightarrow> pyfloat" where
  "py_plus (Finite x) (Finite y) = Finite (x + y)"
| "py_plus NaN _ = NaN"
| "py_plus _ NaN = NaN"
| "py_plus PosInf NegInf = NaN"
| "py_plus NegInf PosInf = NaN"
| "py_plus PosInf _ = PosInf"
| "py_plus _ PosInf = PosInf"
| "py_plus NegInf _ = NegInf"
| "py_plus _ NegInf = NegInf"

text \<open>\<open>min(a, b)\<close> keeps \<open>a\<close> unless \<open>b < a\<close>.\<close>

definition py_min :: "pyfloat \<Rightarrow> pyfloat \<Rightarrow> pyfloat" where
  "py_min a b = (if py_less b a then b else a)"

text \<open>Multiplication by a positive number.\<close>

definition py_scale :: "rat \<Rightarrow> pyfloat \<Rightarrow> pyfloat" where
  "py_scale k a = (case a of Finite x \<Rightarrow> Finite (k * x) | _ \<Rightarrow> a)"

lemma py_plus_NaN [simp]: "py_plus NaN b = NaN" "py_plus a NaN = NaN"
  by (cases a; simp)+

lemma py_less_NaN [simp]: "\<not> py_less NaN b" "\<not> py_less a NaN"
  by (cases a; simp)+

section \<open>Reading the environment\<close>

datatype env_error = Not_an_integer string | Not_a_number string | Not_positive string

definition env_raw :: "(string \<Rightarrow> string option) \<Rightarrow> string \<Rightarrow> string" where
  "env_raw env k = py_strip (case env k of None \<Rightarrow> '''' | Some v \<Rightarrow> v)"

definition env_int :: "(string \<Rightarrow> string option) \<Rightarrow> string \<Rightarrow> env_error + int option" where
  "env_int env k =
     (if env_raw env k = [] then Inr None
      else (case py_int (env_raw env k) of
              None \<Rightarrow> Inl (Not_an_integer k)
            | Some v \<Rightarrow> if v \<le> 0 then Inl (Not_positive k) else Inr (Some v)))"

text \<open>
  \<open>float(text)\<close>: an optional sign, then \<open>inf\<close>/\<open>infinity\<close>/\<open>nan\<close> in any case, or decimal digits with an
  optional point and exponent (underscores between digits are accepted by Python and are not
  parsed here).
\<close>

fun digits_prefix :: "string \<Rightarrow> string \<times> string" where
  "digits_prefix [] = ([], [])"
| "digits_prefix (c # cs) =
     (if digit_value c = None then ([], c # cs)
      else (let (d, r) = digits_prefix cs in (c # d, r)))"

fun digits_value :: "int \<Rightarrow> string \<Rightarrow> int" where
  "digits_value acc [] = acc"
| "digits_value acc (c # cs) =
     digits_value (10 * acc + (case digit_value c of None \<Rightarrow> 0 | Some d \<Rightarrow> d)) cs"

definition scale10 :: "rat \<Rightarrow> int \<Rightarrow> rat" where
  "scale10 m e = (if 0 \<le> e then m * 10 ^ nat e else m / 10 ^ nat (- e))"

definition float_exponent :: "string \<Rightarrow> int option" where
  "float_exponent t =
     (case t of
        [] \<Rightarrow> Some 0
      | c # cs \<Rightarrow>
          if c = CHR ''e''
          then (let (neg, ds) = (case cs of
                     [] \<Rightarrow> (False, [])
                   | s # ss \<Rightarrow> if s = CHR ''-'' then (True, ss)
                              else if s = CHR ''+'' then (False, ss) else (False, cs));
                    (d, r) = digits_prefix ds
                in if d = [] \<or> r \<noteq> [] then None
                   else Some ((if neg then - 1 else 1) * digits_value 0 d))
          else None)"

definition float_magnitude :: "string \<Rightarrow> pyfloat option" where
  "float_magnitude t =
     (if t = ''inf'' \<or> t = ''infinity'' then Some PosInf
      else if t = ''nan'' then Some NaN
      else (let (whole, r) = digits_prefix t;
                (frac, r') = (case r of
                   [] \<Rightarrow> ([], [])
                 | c # cs \<Rightarrow> if c = CHR ''.'' then digits_prefix cs else ([], r))
            in if whole = [] \<and> frac = [] then None
               else (case float_exponent r' of
                       None \<Rightarrow> None
                     | Some e \<Rightarrow> Some (Finite (scale10 (of_int (digits_value 0 (whole @ frac)))
                                               (e - int (length frac)))))))"

definition negate_float :: "pyfloat \<Rightarrow> pyfloat" where
  "negate_float v = (case v of Finite r \<Rightarrow> Finite (- r) | PosInf \<Rightarrow> NegInf | NegInf \<Rightarrow> PosInf | NaN \<Rightarrow> NaN)"

definition py_float :: "string \<Rightarrow> pyfloat option" where
  "py_float s =
     (case py_lower (py_strip s) of
        [] \<Rightarrow> None
      | c # cs \<Rightarrow>
          if c = CHR ''-'' then map_option negate_float (float_magnitude cs)
          else if c = CHR ''+'' then float_magnitude cs
          else float_magnitude (c # cs))"

text \<open>\<open>value <= 0\<close> is the only refusal; it is false for NaN and for an infinity.\<close>

definition not_positive :: "pyfloat \<Rightarrow> bool" where
  "not_positive v = (case v of Finite r \<Rightarrow> r \<le> 0 | NegInf \<Rightarrow> True | _ \<Rightarrow> False)"

definition env_float :: "(string \<Rightarrow> string option) \<Rightarrow> string \<Rightarrow> env_error + pyfloat option" where
  "env_float env k =
     (if env_raw env k = [] then Inr None
      else (case py_float (env_raw env k) of
              None \<Rightarrow> Inl (Not_a_number k)
            | Some v \<Rightarrow> if not_positive v then Inl (Not_positive k) else Inr (Some v)))"

end
