(* ===== verification/Budget_Tracker.thy ===== *)
theory Budget_Tracker
  imports Usage_Ledger Model_Pricing Python_Floats
begin

text \<open>
  \<open>BudgetTracker\<close> of \<open>backend/budget.py\<close>: the hard gate every paid model call passes, its
  in-flight reservations, settlement, search reservations, the cumulative counters and restore.

  The attributes the ledger names (\<open>LEDGER_COUNTERS\<close>, \<open>LEDGER_AMOUNTS\<close>) are read and written by
  name in the code (\<open>getattr\<close>/\<open>setattr\<close>) and are two functions here.  Everything an operation
  reads from outside -- kill switch, lease, cancellation, daily sums, reservers, the settler, the
  recorder and the clock -- is the record \<open>env\<close>.  What it reports outside -- events, per-call rows,
  durable snapshots -- is appended to \<open>trace\<close>.  An operation returns \<open>Inl\<close> the exception or
  \<open>Inr\<close> the value together with the state the tracker is left in; each runs under the tracker's
  lock, so concurrent callers are an interleaving of whole operations.  Message texts are not
  modelled.
\<close>

section \<open>Configuration\<close>

text \<open>A dollar ceiling is a float read from the environment and may be any float.\<close>

record budget_config =
  max_model_calls_per_run :: "int option"
  max_input_tokens_per_run :: "int option"
  max_output_tokens_per_run :: "int option"
  max_total_tokens_per_run :: "int option"
  max_estimated_cost_per_run :: "pyfloat option"
  max_cost_per_run :: "pyfloat option"
  max_run_duration_seconds :: "int option"
  max_agent_steps :: "int option"
  max_retries :: "int option"
  daily_user_budget :: "pyfloat option"
  daily_project_budget :: "pyfloat option"
  estimated_cost_per_call :: rat
  max_search_invocations_per_run :: "int option"
  max_builtin_searches_per_request :: int
  search_cost_per_invocation :: rat

text \<open>\<open>limit is not None and used > limit\<close>, and \<open>>=\<close>, with Python's comparison of floats.\<close>

definition above :: "pyfloat option \<Rightarrow> rat \<Rightarrow> bool" where
  "above limit used =
     (case limit of Some (Finite l) \<Rightarrow> l < used | Some NegInf \<Rightarrow> True | _ \<Rightarrow> False)"

definition reached :: "pyfloat option \<Rightarrow> rat \<Rightarrow> bool" where
  "reached limit used =
     (case limit of Some (Finite l) \<Rightarrow> l \<le> used | Some NegInf \<Rightarrow> True | _ \<Rightarrow> False)"

lemma above_Finite [simp]: "above (Some (Finite l)) u = (l < u)" "above None u = False"
  by (simp_all add: above_def)

lemma reached_Finite [simp]: "reached (Some (Finite l)) u = (l \<le> u)" "reached None u = False"
  by (simp_all add: reached_def)

section \<open>State\<close>

datatype budget_code =
    PAID_EXECUTION_DISABLED | WORKER_LEASE_LOST | RUN_DURATION_EXCEEDED | MODEL_CALL_LIMIT_REACHED
  | AGENT_STEP_LIMIT_REACHED | RETRY_LIMIT_REACHED | INPUT_TOKEN_LIMIT_REACHED
  | OUTPUT_TOKEN_LIMIT_REACHED | TOTAL_TOKEN_LIMIT_REACHED | ESTIMATED_COST_LIMIT_REACHED
  | COST_LIMIT_REACHED | DAILY_USER_BUDGET_REACHED | DAILY_PROJECT_BUDGET_REACHED
  | BUDGET_INSUFFICIENT_FOR_ROLE | COST_RESERVATION_EXCEEDED | BUDGET_RESERVATION_MISSING
  | BUDGET_SETTLEMENT_FAILED | INPUT_TOKEN_LIMIT_EXCEEDED | OUTPUT_TOKEN_LIMIT_EXCEEDED
  | TOTAL_TOKEN_LIMIT_EXCEEDED | COST_LIMIT_EXCEEDED | SEARCH_LIMIT_REACHED
  | SEARCH_MULTIPLICITY_EXCEEDED | SEARCH_LIMIT_EXCEEDED | MODEL_PROFILE_UNKNOWN_CODE
  | Daily_rejection string

record exceeded =
  code :: budget_code
  event_type :: string
  terminal_status :: string

datatype budget_error =
    Budget_exceeded exceeded
  | Cancellation_requested
  | Recorder_failed
  | Search_cost_negative
  | Restore_refused ledger_error

record call_reservation =
  reservation_id :: string
  reservation_seq :: int
  reservation_cost :: rat

record ledger_row =
  row_decision :: string
  row_seq :: int
  row_reason :: "budget_code option"
  row_input :: "int option"
  row_output :: "int option"
  row_cost :: "rat option"
  row_model :: string
  row_usage :: "usage_breakdown option"

datatype effect =
    Stop_event string budget_code usage
  | Warning_event string rat rat usage
  | Row ledger_row
  | Durable usage
  | Usage_diagnostic string
  | Cap_missing_event string

record tracker =
  count :: "usage_field \<Rightarrow> int"
  amount :: "usage_field \<Rightarrow> rat"
  reserved_input_tokens :: int
  reserved_output_tokens :: int
  reserved_search_invocations :: int
  reserved_cost :: rat
  ledger_version :: int
  missing_output_cap_calls :: int
  stop :: "exceeded option"
  started_at :: rat
  warned :: "string list"
  reservations :: "(int \<times> call_reservation) list"
  open_reservations :: "(int \<times> int \<times> int) list"
  open_cost_reservations :: "(int \<times> rat) list"
  open_search_reservations :: "(int \<times> int) list"
  search_seq :: int
  trace :: "effect list"

definition fresh_tracker :: "rat \<Rightarrow> tracker" where
  "fresh_tracker now = \<lparr>count = (\<lambda>_. 0), amount = (\<lambda>_. 0), reserved_input_tokens = 0,
     reserved_output_tokens = 0, reserved_search_invocations = 0, reserved_cost = 0,
     ledger_version = 0, missing_output_cap_calls = 0, stop = None, started_at = now, warned = [],
     reservations = [], open_reservations = [], open_cost_reservations = [],
     open_search_reservations = [], search_seq = 0, trace = []\<rparr>"

text \<open>What the injected callables do at one operation.\<close>

datatype recorder_reply = Reported_version int | Reported_other | Write_failed

datatype raw_reservation =
    Handle call_reservation
  | Reservation_text string
  | Rejected_by_database string
  | Reservation_row string "int option" "rat option"
  | No_reservation

record env =
  kill_switch :: bool
  lease_held :: "bool option"
  cancelled :: bool
  daily_user_cost :: "rat option"
  daily_project_cost :: "rat option"
  user_reserver :: "(rat \<Rightarrow> int \<Rightarrow> raw_reservation) option"
  project_reserver :: "(rat \<Rightarrow> int \<Rightarrow> raw_reservation) option"
  settler :: "(call_reservation \<Rightarrow> rat \<Rightarrow> bool) option"
  recorder :: "(usage \<Rightarrow> recorder_reply) option"
  now :: rat

type_synonym 'a budget_result = "(budget_error + 'a) \<times> tracker"

text \<open>Run the second operation only when the first returned.\<close>

definition and_then :: "'a budget_result \<Rightarrow> ('a \<Rightarrow> tracker \<Rightarrow> 'b budget_result) \<Rightarrow> 'b budget_result" where
  "and_then r f = (case r of (Inl e, t) \<Rightarrow> (Inl e, t) | (Inr x, t) \<Rightarrow> f x t)"

lemma and_then_simps [simp]: "and_then (Inl e, t) f = (Inl e, t)" "and_then (Inr x, t) f = f x t"
  by (simp_all add: and_then_def)

definition add_count :: "usage_field \<Rightarrow> int \<Rightarrow> tracker \<Rightarrow> tracker" where
  "add_count f n t = t\<lparr>count := (count t)(f := count t f + n)\<rparr>"

definition add_amount :: "usage_field \<Rightarrow> rat \<Rightarrow> tracker \<Rightarrow> tracker" where
  "add_amount f x t = t\<lparr>amount := (amount t)(f := amount t f + x)\<rparr>"

definition log_effect :: "effect \<Rightarrow> tracker \<Rightarrow> tracker" where
  "log_effect e t = t\<lparr>trace := trace t @ [e]\<rparr>"

section \<open>Snapshots and recording\<close>

definition elapsed :: "env \<Rightarrow> tracker \<Rightarrow> rat" where
  "elapsed v t = now v - started_at t"

definition ledger_snapshot :: "env \<Rightarrow> tracker \<Rightarrow> usage" where
  "ledger_snapshot v t =
     \<lparr>counts = (\<lambda>f. if f \<in> set LEDGER_COUNTERS then Some (count t f)
                    else if f = Total_tokens
                    then Some (count t Input_tokens + count t Output_tokens)
                    else if f = Schema_version then Some LEDGER_SCHEMA_VERSION
                    else if f = Ledger_version then Some (ledger_version t) else None),
      amounts = (\<lambda>f. if f = Elapsed_seconds then Some (py_round 3 (elapsed v t))
                     else if f \<in> set LEDGER_AMOUNTS then Some (py_round 6 (amount t f)) else None)\<rparr>"

definition public_snapshot :: "env \<Rightarrow> tracker \<Rightarrow> usage" where
  "public_snapshot v t = public_usage_projection (ledger_snapshot v t)"

definition record_usage :: "env \<Rightarrow> tracker \<Rightarrow> unit budget_result" where
  "record_usage v t =
     (case recorder v of
        None \<Rightarrow> (Inr (), t)
      | Some f \<Rightarrow>
          (let snap = ledger_snapshot v t in
           case f snap of
             Write_failed \<Rightarrow> (Inl Recorder_failed, t)
           | Reported_version n \<Rightarrow>
               (Inr (), log_effect (Durable snap) (t\<lparr>ledger_version := max (ledger_version t) n\<rparr>))
           | Reported_other \<Rightarrow> (Inr (), log_effect (Durable snap) t)))"

definition stop_with :: "env \<Rightarrow> exceeded \<Rightarrow> tracker \<Rightarrow> tracker" where
  "stop_with v e t =
     (if stop t = None
      then (let t' = t\<lparr>stop := Some e\<rparr>
            in log_effect (Stop_event (event_type e) (code e) (public_snapshot v t')) t')
      else t)"

definition plain_row :: "string \<Rightarrow> int \<Rightarrow> ledger_row" where
  "plain_row decision seq = \<lparr>row_decision = decision, row_seq = seq, row_reason = None,
     row_input = None, row_output = None, row_cost = None, row_model = [], row_usage = None\<rparr>"

definition reject :: "env \<Rightarrow> exceeded \<Rightarrow> tracker \<Rightarrow> 'a budget_result" where
  "reject v e t =
     (Inl (Budget_exceeded e),
      stop_with v e (log_effect (Row ((plain_row ''rejected'' (count t Model_calls))
                                        \<lparr>row_reason := Some (code e)\<rparr>)) t))"

definition raise_stop :: "env \<Rightarrow> exceeded \<Rightarrow> tracker \<Rightarrow> 'a budget_result" where
  "raise_stop v e t = (Inl (Budget_exceeded e), stop_with v e t)"

definition exhausted :: "budget_code \<Rightarrow> exceeded" where
  "exhausted c = \<lparr>code = c, event_type = ''budget_exhausted'', terminal_status = ''budget_exhausted''\<rparr>"

definition refuse_call :: "env \<Rightarrow> exceeded \<Rightarrow> tracker \<Rightarrow> exceeded \<times> tracker" where
  "refuse_call v e t =
     (case stop t of
        Some s \<Rightarrow> (s, t)
      | None \<Rightarrow> (e, snd (reject v e t :: unit budget_result)))"

definition warn_if_close :: "env \<Rightarrow> string \<Rightarrow> rat \<Rightarrow> pyfloat option \<Rightarrow> tracker \<Rightarrow> tracker" where
  "warn_if_close v name used limit t =
     (case limit of
        Some (Finite l) \<Rightarrow>
          if l \<le> 0 \<or> name \<in> set (warned t) then t
          else if 8 / 10 * l \<le> used
          then (let t' = t\<lparr>warned := name # warned t\<rparr>
                in log_effect (Warning_event name used l (public_snapshot v t')) t')
          else t
      | _ \<Rightarrow> t)"

definition int_limit :: "int option \<Rightarrow> pyfloat option" where
  "int_limit l = map_option (\<lambda>n. Finite (of_int n)) l"

section \<open>The hard gate\<close>

record call_contract =
  role :: string
  min_answer_reserve :: int

definition refusal :: "budget_code \<Rightarrow> string \<Rightarrow> string \<Rightarrow> exceeded" where
  "refusal c ev st = \<lparr>code = c, event_type = ev, terminal_status = st\<rparr>"

definition committed_input :: "tracker \<Rightarrow> int" where
  "committed_input t = count t Input_tokens + reserved_input_tokens t"

definition committed_output :: "tracker \<Rightarrow> int" where
  "committed_output t = count t Output_tokens + reserved_output_tokens t"

text \<open>What is left for output: the output ceiling first, then the total ceiling.\<close>

definition remaining_output :: "budget_config \<Rightarrow> int \<Rightarrow> tracker \<Rightarrow> int option" where
  "remaining_output c est t =
     (let by_output = map_option (\<lambda>l. l - committed_output t) (max_output_tokens_per_run c)
      in case max_total_tokens_per_run c of
           None \<Rightarrow> by_output
         | Some l \<Rightarrow>
             (let by_total = l - committed_input t - committed_output t - est
              in Some (min_opt by_output by_total)))"

definition daily_reached :: "pyfloat option \<Rightarrow> rat option \<Rightarrow> rat \<Rightarrow> bool" where
  "daily_reached budget spent extra =
     (case spent of None \<Rightarrow> False | Some s \<Rightarrow> reached budget (s + extra))"

definition daily_above :: "pyfloat option \<Rightarrow> rat option \<Rightarrow> rat \<Rightarrow> bool" where
  "daily_above budget spent extra =
     (case spent of None \<Rightarrow> False | Some s \<Rightarrow> above budget (s + extra))"

text \<open>The capacity checks, in order; \<open>None\<close> is a pass.\<close>

definition capacity_refusal :: "env \<Rightarrow> budget_config \<Rightarrow> int \<Rightarrow> tracker \<Rightarrow> exceeded option" where
  "capacity_refusal v c est t =
     (if reached (int_limit (max_run_duration_seconds c)) (elapsed v t)
      then Some (refusal RUN_DURATION_EXCEEDED ''run_timed_out'' ''timed_out'')
      else if at_least (max_model_calls_per_run c) (count t Model_calls)
      then Some (exhausted MODEL_CALL_LIMIT_REACHED)
      else if over (max_agent_steps c) (count t Agent_steps)
      then Some (exhausted AGENT_STEP_LIMIT_REACHED)
      else if over (max_retries c) (count t Retries)
      then Some (refusal RETRY_LIMIT_REACHED ''retry_limit_reached'' ''failed'')
      else if over (max_input_tokens_per_run c) (committed_input t + est)
      then Some (refusal INPUT_TOKEN_LIMIT_REACHED ''token_limit_reached'' ''budget_exhausted'')
      else if at_least (max_output_tokens_per_run c) (committed_output t)
      then Some (refusal OUTPUT_TOKEN_LIMIT_REACHED ''token_limit_reached'' ''budget_exhausted'')
      else if (case remaining_output c est t of None \<Rightarrow> False | Some r \<Rightarrow> r \<le> 0)
      then Some (refusal TOTAL_TOKEN_LIMIT_REACHED ''token_limit_reached'' ''budget_exhausted'')
      else if above (max_estimated_cost_per_run c) (amount t Estimated_cost + estimated_cost_per_call c)
      then Some (exhausted ESTIMATED_COST_LIMIT_REACHED)
      else if reached (max_cost_per_run c) (amount t Actual_cost)
      then Some (exhausted COST_LIMIT_REACHED)
      else if daily_reached (daily_user_budget c) (daily_user_cost v) 0
      then Some (exhausted DAILY_USER_BUDGET_REACHED)
      else if daily_reached (daily_project_budget c) (daily_project_cost v) 0
      then Some (exhausted DAILY_PROJECT_BUDGET_REACHED)
      else None)"

definition allowed_output :: "int option \<Rightarrow> int option \<Rightarrow> int option" where
  "allowed_output remaining requested =
     (case requested of None \<Rightarrow> remaining | Some r \<Rightarrow> Some (min_opt remaining r))"

text \<open>
  The role contract: never shrunk below its reserve, and held at its worst-case dollars.  The
  result is the amount to reserve and the worst case of a contract call.
\<close>

definition contract_check ::
  "env \<Rightarrow> budget_config \<Rightarrow> tracker \<Rightarrow> call_contract option \<Rightarrow> model_profile option \<Rightarrow> int \<Rightarrow>
     int option \<Rightarrow> int option \<Rightarrow> exceeded + rat \<times> rat option" where
  "contract_check v c t contract profile upper requested allowed =
     (case contract of
        None \<Rightarrow> Inr (estimated_cost_per_call c, None)
      | Some k \<Rightarrow>
          if (case allowed of None \<Rightarrow> False | Some a \<Rightarrow> a < min_answer_reserve k)
          then Inl (exhausted BUDGET_INSUFFICIENT_FOR_ROLE)
          else (case profile of
            None \<Rightarrow> Inl (refusal COST_RESERVATION_EXCEEDED ''budget_exhausted'' ''failed'')
          | Some p \<Rightarrow>
              (case (case allowed of None \<Rightarrow> requested | Some a \<Rightarrow> Some a) of
                 None \<Rightarrow> Inl (refusal COST_RESERVATION_EXCEEDED ''budget_exhausted'' ''failed'')
               | Some cap \<Rightarrow>
                   (let worst = worst_case_cost p upper cap
                    in if above (max_cost_per_run c) (amount t Actual_cost + reserved_cost t + worst)
                       then Inl (exhausted COST_RESERVATION_EXCEEDED)
                       else if daily_above (daily_user_budget c) (daily_user_cost v) worst
                       then Inl (exhausted COST_RESERVATION_EXCEEDED)
                       else if daily_above (daily_project_budget c) (daily_project_cost v) worst
                       then Inl (exhausted COST_RESERVATION_EXCEEDED)
                       else Inr (worst, Some worst)))))"

definition normalize_reservation ::
  "raw_reservation \<Rightarrow> int \<Rightarrow> rat \<Rightarrow> exceeded + call_reservation" where
  "normalize_reservation raw seq cost =
     (let missing = Inl (refusal BUDGET_RESERVATION_MISSING ''budget_exhausted'' ''failed'') in
      case raw of
        Handle h \<Rightarrow> Inr h
      | Reservation_text s \<Rightarrow>
          if s = [] then missing
          else Inr \<lparr>reservation_id = s, reservation_seq = seq, reservation_cost = cost\<rparr>
      | Rejected_by_database reason \<Rightarrow>
          Inl (exhausted (Daily_rejection (if reason = [] then ''DAILY_BUDGET_REACHED'' else reason)))
      | Reservation_row rid rseq rcost \<Rightarrow>
          if rid = [] then missing
          else Inr \<lparr>reservation_id = rid,
                    reservation_seq = (case rseq of None \<Rightarrow> seq | Some n \<Rightarrow> if n = 0 then seq else n),
                    reservation_cost = (case rcost of None \<Rightarrow> cost | Some x \<Rightarrow> if x = 0 then cost else x)\<rparr>
      | No_reservation \<Rightarrow> missing)"

definition daily_reservation ::
  "pyfloat option \<Rightarrow> (rat \<Rightarrow> int \<Rightarrow> raw_reservation) option \<Rightarrow> rat \<Rightarrow> int \<Rightarrow>
     exceeded + call_reservation option" where
  "daily_reservation budget reserver cost seq =
     (case (budget, reserver) of
        (Some b, Some f) \<Rightarrow> map_sum id Some (normalize_reservation (f cost seq) seq cost)
      | _ \<Rightarrow> Inr None)"

text \<open>The project's reservation, when there is one, replaces the user's.\<close>

definition daily_reservations ::
  "env \<Rightarrow> budget_config \<Rightarrow> rat \<Rightarrow> int \<Rightarrow> exceeded + call_reservation option" where
  "daily_reservations v c cost seq =
     res_bind (daily_reservation (daily_user_budget c) (user_reserver v) cost seq) (\<lambda>user.
     res_bind (daily_reservation (daily_project_budget c) (project_reserver v) cost seq) (\<lambda>project.
       Inr (case project of None \<Rightarrow> user | Some p \<Rightarrow> Some p)))"

text \<open>Admission: count the call and hold its capacity under its sequence number.\<close>

definition commit_call ::
  "budget_config \<Rightarrow> int \<Rightarrow> int option \<Rightarrow> rat \<Rightarrow> rat option \<Rightarrow> call_reservation option \<Rightarrow>
     model_profile option \<Rightarrow> tracker \<Rightarrow> tracker" where
  "commit_call c est allowed amt worst res profile t =
     (let seq = count t Model_calls + 1;
          held = (case allowed of None \<Rightarrow> 0 | Some a \<Rightarrow> a);
          t1 = add_amount Estimated_cost (estimated_cost_per_call c)
                 (add_count Provider_attempts 1 (add_count Model_calls 1 t));
          t2 = t1\<lparr>reserved_input_tokens := reserved_input_tokens t1 + est,
                  reserved_output_tokens := reserved_output_tokens t1 + (if 0 < held then held else 0),
                  open_reservations := open_reservations t1 @ [(seq, est, held)]\<rparr>;
          t3 = (case worst of None \<Rightarrow> t2
                | Some w \<Rightarrow> t2\<lparr>reserved_cost := reserved_cost t2 + w,
                             open_cost_reservations := open_cost_reservations t2 @ [(seq, w)]\<rparr>);
          t4 = (case res of None \<Rightarrow> t3
                | Some r \<Rightarrow> t3\<lparr>reservations := reservations t3 @ [(seq, r)]\<rparr>)
      in log_effect (Row ((plain_row ''reserved'' (count t4 Model_calls))
            \<lparr>row_input := Some est, row_output := Some held, row_cost := Some (py_round 6 amt),
             row_model := (case profile of None \<Rightarrow> [] | Some p \<Rightarrow> model p)\<rparr>)) t4)"

definition open_call ::
  "env \<Rightarrow> budget_config \<Rightarrow> int \<Rightarrow> int option \<Rightarrow> call_contract option \<Rightarrow> model_profile option \<Rightarrow> int \<Rightarrow>
     tracker \<Rightarrow> (int \<times> int option) budget_result" where
  "open_call v c estimated requested contract profile upper t =
     (case stop t of
        Some e \<Rightarrow> (Inl (Budget_exceeded e), t)
      | None \<Rightarrow>
     if \<not> kill_switch v
     then reject v (refusal PAID_EXECUTION_DISABLED ''kill_switch_activated'' ''failed'') t
     else if lease_held v = Some False
     then reject v (refusal WORKER_LEASE_LOST ''run_failed'' ''failed'') t
     else if cancelled v then (Inl Cancellation_requested, t)
     else (let est = max 0 estimated in
       case capacity_refusal v c est t of
         Some e \<Rightarrow> reject v e t
       | None \<Rightarrow>
           (let seq = count t Model_calls + 1;
                allowed = allowed_output (remaining_output c est t) requested in
            case contract_check v c t contract profile upper requested allowed of
              Inl e \<Rightarrow> reject v e t
            | Inr (amt, worst) \<Rightarrow>
                (case daily_reservations v c amt seq of
                   Inl e \<Rightarrow> reject v e t
                 | Inr res \<Rightarrow>
                     and_then (record_usage v (commit_call c est allowed amt worst res profile t))
                       (\<lambda>_ t'. (Inr (seq, allowed), t'))))))"

section \<open>Settlement\<close>

definition release_held :: "int \<Rightarrow> int \<Rightarrow> int \<Rightarrow> tracker \<Rightarrow> tracker" where
  "release_held seq own_input own_output t =
     (let (held_input, held_output) =
            (case map_of (open_reservations t) seq of
               Some held \<Rightarrow> held | None \<Rightarrow> (max 0 own_input, max 0 own_output));
          held_cost = (case map_of (open_cost_reservations t) seq of None \<Rightarrow> 0 | Some w \<Rightarrow> w)
      in t\<lparr>open_reservations := AList.delete seq (open_reservations t),
           reserved_input_tokens := max 0 (reserved_input_tokens t - held_input),
           reserved_output_tokens := (if held_output = 0 then reserved_output_tokens t
                                      else max 0 (reserved_output_tokens t - held_output)),
           open_cost_reservations := AList.delete seq (open_cost_reservations t),
           reserved_cost := (if held_cost = 0 then reserved_cost t
                             else max 0 (reserved_cost t - held_cost))\<rparr>)"

definition or0 :: "int option \<Rightarrow> int" where
  "or0 x = (case x of None \<Rightarrow> 0 | Some n \<Rightarrow> n)"

definition add_breakdown :: "usage_breakdown option \<Rightarrow> tracker \<Rightarrow> tracker" where
  "add_breakdown u t =
     (case u of
        None \<Rightarrow> t
      | Some b \<Rightarrow>
          (let t1 = add_count Answer_tokens (or0 (answer_tokens_of b))
                     (add_count Reasoning_tokens (or0 (reasoning_tokens_of b))
                     (add_count Cache_write_tokens (or0 (cache_write_tokens_of b))
                     (add_count Cached_input_tokens (or0 (cached_input_tokens_of b)) t)))
           in if reasoning_estimated_of b
              then add_count Reasoning_tokens_estimated (or0 (reasoning_tokens_estimated_of b))
                     (add_count Reasoning_estimated_calls 1 t1)
              else t1))"

definition positive_part :: "rat option \<Rightarrow> rat" where
  "positive_part cost = (case cost of None \<Rightarrow> 0 | Some x \<Rightarrow> if 0 < x then x else 0)"

definition add_actuals ::
  "int \<Rightarrow> int \<Rightarrow> rat option \<Rightarrow> string \<Rightarrow> usage_breakdown option \<Rightarrow> tracker \<Rightarrow> tracker" where
  "add_actuals input output cost status u t =
     (let t1 = add_amount Actual_cost (positive_part cost)
                 (add_count Output_tokens (max 0 output) (add_count Input_tokens (max 0 input) t));
          t2 = add_breakdown u t1
      in if status \<noteq> ''settled'' then add_count Provider_failures 1 t2 else t2)"

definition warnings :: "env \<Rightarrow> budget_config \<Rightarrow> tracker \<Rightarrow> tracker" where
  "warnings v c t =
     (let t1 = warn_if_close v ''model_calls'' (of_int (count t Model_calls))
                 (int_limit (max_model_calls_per_run c)) t;
          t2 = warn_if_close v ''total_tokens'' (of_int (count t Input_tokens + count t Output_tokens))
                 (int_limit (max_total_tokens_per_run c)) t1;
          t3 = warn_if_close v ''estimated_cost'' (amount t Estimated_cost)
                 (max_estimated_cost_per_run c) t2
      in warn_if_close v ''elapsed_seconds'' (elapsed v t) (int_limit (max_run_duration_seconds c)) t3)"

definition overage :: "budget_config \<Rightarrow> tracker \<Rightarrow> exceeded option" where
  "overage c t =
     (if over (max_input_tokens_per_run c) (count t Input_tokens)
      then Some (refusal INPUT_TOKEN_LIMIT_EXCEEDED ''token_limit_reached'' ''budget_exhausted'')
      else if over (max_output_tokens_per_run c) (count t Output_tokens)
      then Some (refusal OUTPUT_TOKEN_LIMIT_EXCEEDED ''token_limit_reached'' ''budget_exhausted'')
      else if over (max_total_tokens_per_run c) (count t Input_tokens + count t Output_tokens)
      then Some (refusal TOTAL_TOKEN_LIMIT_EXCEEDED ''token_limit_reached'' ''budget_exhausted'')
      else if above (max_cost_per_run c) (amount t Actual_cost)
      then Some (exhausted COST_LIMIT_EXCEEDED)
      else None)"

text \<open>
  One settlement.  \<open>own_input\<close>/\<open>own_output\<close> are the caller's numbers, used only when the call has
  no open reservation; \<open>call_seq = None\<close> means the current call counter.
\<close>

definition settle_call ::
  "env \<Rightarrow> budget_config \<Rightarrow> int \<Rightarrow> int option \<Rightarrow> int \<Rightarrow> int \<Rightarrow> rat option \<Rightarrow> string \<Rightarrow> int option \<Rightarrow>
     usage_breakdown option \<Rightarrow> string \<Rightarrow> tracker \<Rightarrow> unit budget_result" where
  "settle_call v c own_input own_output input output cost status call_seq u mdl t =
     (let seq = (case call_seq of None \<Rightarrow> count t Model_calls | Some s \<Rightarrow> s);
          res = map_of (reservations t) seq;
          t0 = t\<lparr>reservations := AList.delete seq (reservations t)\<rparr>;
          actual = (case cost of None \<Rightarrow> 0 | Some x \<Rightarrow> x)
      in if (case (res, settler v) of (Some r, Some f) \<Rightarrow> \<not> f r actual | _ \<Rightarrow> False)
         then raise_stop v (refusal BUDGET_SETTLEMENT_FAILED ''budget_exhausted'' ''failed'')
                (t0\<lparr>reservations := reservations t0 @ [(seq, the res)]\<rparr>)
         else (let diagnostic = (case u of None \<Rightarrow> False
                     | Some b \<Rightarrow> reasoning_estimated_of b \<and> count t Reasoning_estimated_calls = 0);
                   t1 = add_actuals input output cost status u
                          (release_held seq own_input (or0 own_output) t0);
                   t2 = warnings v c t1;
                   t3 = log_effect (Row ((plain_row ''settled'' seq)
                          \<lparr>row_input := Some input, row_output := Some output,
                           row_cost := (if actual = 0 then None else Some actual),
                           row_model := take 64 mdl, row_usage := u\<rparr>)) t2
               in and_then (record_usage v t3) (\<lambda>_ t4.
                    (let t5 = (if diagnostic then log_effect (Usage_diagnostic (take 64 mdl)) t4 else t4)
                     in case overage c t5 of
                          None \<Rightarrow> (Inr (), t5)
                        | Some e \<Rightarrow>
                            raise_stop v e (log_effect (Row ((plain_row ''overage'' seq)
                               \<lparr>row_reason := Some (code e)\<rparr>)) t5)))))"

definition reserve_call :: "env \<Rightarrow> budget_config \<Rightarrow> int \<Rightarrow> int option \<Rightarrow> tracker \<Rightarrow> int option budget_result" where
  "reserve_call v c estimated requested t =
     and_then (open_call v c estimated requested None None 0 t) (\<lambda>r t'. (Inr (snd r), t'))"

definition before_call :: "env \<Rightarrow> budget_config \<Rightarrow> tracker \<Rightarrow> unit budget_result" where
  "before_call v c t = and_then (reserve_call v c 0 None t) (\<lambda>_ t'. (Inr (), t'))"

definition after_call :: "env \<Rightarrow> budget_config \<Rightarrow> int \<Rightarrow> int \<Rightarrow> rat option \<Rightarrow> tracker \<Rightarrow> unit budget_result" where
  "after_call v c input output cost t =
     settle_call v c 0 None input output cost ''settled'' None None [] t"

section \<open>Counters without a call\<close>

definition record_agent_step :: "env \<Rightarrow> budget_config \<Rightarrow> tracker \<Rightarrow> unit budget_result" where
  "record_agent_step v c t =
     and_then (record_usage v (add_count Agent_steps 1 t)) (\<lambda>_ t'.
       if over (max_agent_steps c) (count t' Agent_steps)
       then reject v (exhausted AGENT_STEP_LIMIT_REACHED) t' else (Inr (), t'))"

definition record_retry :: "env \<Rightarrow> budget_config \<Rightarrow> tracker \<Rightarrow> unit budget_result" where
  "record_retry v c t =
     and_then (record_usage v (add_count Retries 1 t)) (\<lambda>_ t'.
       if over (max_retries c) (count t' Retries)
       then reject v (refusal RETRY_LIMIT_REACHED ''retry_limit_reached'' ''failed'') t' else (Inr (), t'))"

definition record_tool_call :: "env \<Rightarrow> tracker \<Rightarrow> unit budget_result" where
  "record_tool_call v t = record_usage v (add_count Tool_calls 1 t)"

definition record_task_result :: "env \<Rightarrow> string \<Rightarrow> tracker \<Rightarrow> unit budget_result" where
  "record_task_result v status t =
     (if status = ''completed'' then record_usage v (add_count Tasks_completed 1 t)
      else if status = ''failed'' then record_usage v (add_count Tasks_failed 1 t)
      else (Inr (), t))"

definition record_replan :: "env \<Rightarrow> bool \<Rightarrow> tracker \<Rightarrow> unit budget_result" where
  "record_replan v correction t =
     record_usage v ((if correction then add_count Correction_rounds 1 else id) (add_count Replans 1 t))"

definition note_missing_output_cap :: "string \<Rightarrow> tracker \<Rightarrow> tracker" where
  "note_missing_output_cap mdl t =
     log_effect (Cap_missing_event (take 64 mdl))
       (t\<lparr>missing_output_cap_calls := missing_output_cap_calls t + 1\<rparr>)"

definition record_provider_backpressure :: "env \<Rightarrow> tracker \<Rightarrow> unit budget_result" where
  "record_provider_backpressure v t = record_usage v (add_count Provider_backpressure_events 1 t)"

section \<open>Search reservations\<close>

text \<open>\<open>max_search_invocations_per_run\<close> is checked against spent plus reserved plus wanted.\<close>

definition reserve_search :: "env \<Rightarrow> budget_config \<Rightarrow> int \<Rightarrow> tracker \<Rightarrow> int budget_result" where
  "reserve_search v c n t =
     (let wanted = max 0 n in
      if wanted = 0 then (Inr 0, t)
      else (case stop t of
        Some e \<Rightarrow> (Inl (Budget_exceeded e), t)
      | None \<Rightarrow>
          if over (max_search_invocations_per_run c)
               (count t Search_invocations + reserved_search_invocations t + wanted)
          then reject v (exhausted SEARCH_LIMIT_REACHED) t
          else (Inr (search_seq t + 1),
                t\<lparr>search_seq := search_seq t + 1,
                  reserved_search_invocations := reserved_search_invocations t + wanted,
                  open_search_reservations := open_search_reservations t @ [(search_seq t + 1, wanted)]\<rparr>)))"

definition release_search :: "int \<Rightarrow> int \<Rightarrow> tracker \<Rightarrow> tracker" where
  "release_search seq held t =
     t\<lparr>open_search_reservations := AList.delete seq (open_search_reservations t),
       reserved_search_invocations := max 0 (reserved_search_invocations t - held)\<rparr>"

definition add_search :: "int \<Rightarrow> rat \<Rightarrow> tracker \<Rightarrow> tracker" where
  "add_search charged amt t =
     (if charged = 0 then t
      else add_amount Actual_cost amt
             (add_amount Search_cost amt (add_count Search_invocations charged t)))"

definition settle_search ::
  "env \<Rightarrow> budget_config \<Rightarrow> int \<Rightarrow> int option \<Rightarrow> rat option \<Rightarrow> bool \<Rightarrow> tracker \<Rightarrow> unit budget_result" where
  "settle_search v c seq actual cost pre_execution t =
     (let unit = (case cost of None \<Rightarrow> search_cost_per_invocation c | Some x \<Rightarrow> x) in
      if unit < 0 then (Inl Search_cost_negative, t)
      else (case map_of (open_search_reservations t) seq of
        None \<Rightarrow> (Inr (), t)
      | Some held \<Rightarrow>
          (let charged = (case actual of None \<Rightarrow> held | Some n \<Rightarrow> max 0 n);
               amt = unit * of_int charged
           in if pre_execution \<and> charged \<noteq> 0 \<and> above (max_cost_per_run c) (amount t Actual_cost + amt)
              then raise_stop v (exhausted COST_LIMIT_REACHED) (release_search seq held t)
              else and_then (record_usage v (add_search charged amt (release_search seq held t))) (\<lambda>_ t'.
                if held < charged then raise_stop v (exhausted SEARCH_MULTIPLICITY_EXCEEDED) t'
                else if over (max_search_invocations_per_run c) (count t' Search_invocations)
                then reject v (exhausted SEARCH_LIMIT_EXCEEDED) t'
                else if above (max_cost_per_run c) (amount t' Actual_cost)
                then raise_stop v (exhausted COST_LIMIT_EXCEEDED) t'
                else (Inr (), t')))))"

definition record_search :: "env \<Rightarrow> budget_config \<Rightarrow> rat option \<Rightarrow> tracker \<Rightarrow> unit budget_result" where
  "record_search v c cost t =
     and_then (reserve_search v c 1 t) (\<lambda>seq t'. settle_search v c seq (Some 1) cost False t')"

section \<open>Restore\<close>

definition tracker_is_fresh :: "tracker \<Rightarrow> bool" where
  "tracker_is_fresh t =
     (list_all (\<lambda>f. count t f = 0) LEDGER_COUNTERS \<and>
      list_all (\<lambda>f. f = Elapsed_seconds \<or> amount t f = 0) LEDGER_AMOUNTS \<and>
      reserved_input_tokens t = 0 \<and> reserved_output_tokens t = 0 \<and>
      reserved_search_invocations t = 0 \<and> reserved_cost t = 0)"

text \<open>Fields outside \<open>LEDGER_SNAPSHOT_FIELDS\<close> are refused before parsing.\<close>

definition restore_snapshot :: "env \<Rightarrow> snapshot \<Rightarrow> tracker \<Rightarrow> unit budget_result" where
  "restore_snapshot v s t =
     (case s of
        Not_mapping \<Rightarrow> (Inl (Restore_refused Not_an_object), t)
      | Mapping kvs \<Rightarrow>
          if \<not> list_all (\<lambda>(f, x). f \<in> set LEDGER_SNAPSHOT_FIELDS) kvs
          then (Inl (Restore_refused Unknown_fields), t)
          else (case validate_usage_snapshot s of
            Inl e \<Rightarrow> (Inl (Restore_refused e), t)
          | Inr u \<Rightarrow>
              if \<not> tracker_is_fresh t then (Inl (Restore_refused Tracker_not_fresh), t)
              else (Inr (),
                t\<lparr>count := (\<lambda>f. if f \<in> set LEDGER_COUNTERS then count_of u f else count t f),
                  amount := (\<lambda>f. if f \<in> set LEDGER_AMOUNTS \<and> f \<noteq> Elapsed_seconds
                                 then amount_of u f else amount t f),
                  ledger_version := count_of u Ledger_version,
                  started_at := now v - amount_of u Elapsed_seconds\<rparr>)))"

section \<open>The part of the state an operation is about\<close>

text \<open>
  Recording, warning, rejecting and stopping write only \<open>trace\<close>, \<open>warned\<close>, \<open>stop\<close> and
  \<open>ledger_version\<close>.  \<open>core\<close> forgets those four and the cap telemetry, so the accounting lemmas are about the rest.
\<close>

definition core :: "tracker \<Rightarrow> tracker" where
  "core t = t\<lparr>trace := [], warned := [], stop := None, ledger_version := 0, missing_output_cap_calls := 0\<rparr>"

named_theorems core_facts \<open>operations that leave the accounting alone\<close>

lemma core_fields [simp]:
  "count (core t) = count t" "amount (core t) = amount t"
  "reserved_input_tokens (core t) = reserved_input_tokens t"
  "reserved_output_tokens (core t) = reserved_output_tokens t"
  "reserved_search_invocations (core t) = reserved_search_invocations t"
  "reserved_cost (core t) = reserved_cost t"
  "open_reservations (core t) = open_reservations t"
  "open_cost_reservations (core t) = open_cost_reservations t"
  "open_search_reservations (core t) = open_search_reservations t"
  "search_seq (core t) = search_seq t" "reservations (core t) = reservations t"
  by (simp_all add: core_def)

lemma core_log [core_facts]: "core (log_effect e t) = core t"
  by (simp add: core_def log_effect_def)

lemma core_stop_with [core_facts]: "core (stop_with v e t) = core t"
  by (simp add: core_def log_effect_def stop_with_def Let_def)

lemma core_reject [core_facts]: "core (snd (reject v e t)) = core t"
  by (simp add: reject_def core_facts)

lemma core_raise_stop [core_facts]: "core (snd (raise_stop v e t)) = core t"
  by (simp add: raise_stop_def core_facts)

lemma core_record [core_facts]: "core (snd (record_usage v t)) = core t"
  by (simp add: record_usage_def Let_def core_def log_effect_def split: option.split recorder_reply.split)

lemma core_warn [core_facts]: "core (warn_if_close v n u l t) = core t"
  by (auto simp: warn_if_close_def core_facts Let_def split: option.split pyfloat.split)
     (simp add: core_def)

lemma core_warnings [core_facts]: "core (warnings v c t) = core t"
  by (simp add: warnings_def Let_def core_facts)

lemma core_and_then:
  assumes "\<And>x t'. core (snd (f x t')) = core t'"
  shows "core (snd (and_then r f)) = core (snd r)"
  using assms by (cases r; cases "fst r") auto

lemma core_record_then:
  assumes "\<And>x t'. core (snd (f x t')) = core t'"
  shows "core (snd (and_then (record_usage v t) f)) = core t"
  using core_and_then [of f] assms core_record by metis

lemma core_open_call:
  "core (snd (open_call v c est req k p up t)) = core t \<or>
   (\<exists>amt worst res. stop t = None \<and> kill_switch v \<and> lease_held v \<noteq> Some False \<and> \<not> cancelled v \<and>
      capacity_refusal v c (max 0 est) t = None \<and>
      contract_check v c t k p up req (allowed_output (remaining_output c (max 0 est) t) req) = Inr (amt, worst) \<and>
      core (snd (open_call v c est req k p up t)) =
        core (commit_call c (max 0 est) (allowed_output (remaining_output c (max 0 est) t) req) amt worst res p t))"
proof -
  have rec: "core (snd (and_then (record_usage v t1) (\<lambda>_ t'. (Inr x, t')))) = core t1" for t1 x
    by (rule core_record_then) simp
  show ?thesis
    by (auto simp: open_call_def Let_def core_facts rec split: option.split sum.split)
qed

end
