(* ===== verification/Budget_Safety.thy ===== *)
theory Budget_Safety
  imports Budget_Tracker
begin

text \<open>
  The accounting of \<open>BudgetTracker\<close> over any interleaving of its operations: reservations are
  exact, no ceiling is passed while the provider keeps to what was reserved, nothing recorded is
  ever taken back, and the stop is final.
\<close>

section \<open>One operation after another\<close>

datatype budget_op =
    Open_call int "int option" "call_contract option" "model_profile option" int
  | Settle_call int "int option" int int "rat option" string "int option" "usage_breakdown option" string
  | Agent_step
  | Retry
  | Tool_call
  | Task_result string
  | Reserve_search int
  | Settle_search int "int option" "rat option" bool
  | Replan bool
  | Backpressure
  | Refuse exceeded
  | Missing_cap string

fun perform :: "env \<Rightarrow> budget_config \<Rightarrow> budget_op \<Rightarrow> tracker \<Rightarrow> tracker" where
  "perform v c (Open_call est req k p up) t = snd (open_call v c est req k p up t)"
| "perform v c (Settle_call oi oo i ou cost st sq u m) t = snd (settle_call v c oi oo i ou cost st sq u m t)"
| "perform v c Agent_step t = snd (record_agent_step v c t)"
| "perform v c Retry t = snd (record_retry v c t)"
| "perform v c Tool_call t = snd (record_tool_call v t)"
| "perform v c (Task_result s) t = snd (record_task_result v s t)"
| "perform v c (Reserve_search n) t = snd (reserve_search v c n t)"
| "perform v c (Settle_search sq a cost pre) t = snd (settle_search v c sq a cost pre t)"
| "perform v c (Replan b) t = snd (record_replan v b t)"
| "perform v c Backpressure t = snd (record_provider_backpressure v t)"
| "perform v c (Refuse e) t = snd (refuse_call v e t)"
| "perform v c (Missing_cap m) t = note_missing_output_cap m t"

fun perform_all :: "budget_config \<Rightarrow> (env \<times> budget_op) list \<Rightarrow> tracker \<Rightarrow> tracker" where
  "perform_all c [] t = t"
| "perform_all c ((v, oper) # os) t = perform_all c os (perform v c oper t)"

text \<open>A run in which every operation satisfies \<open>P\<close> in the state it meets.\<close>

fun each_op :: "(budget_op \<Rightarrow> tracker \<Rightarrow> bool) \<Rightarrow> budget_config \<Rightarrow> (env \<times> budget_op) list \<Rightarrow> tracker \<Rightarrow> bool" where
  "each_op P c [] t = True"
| "each_op P c ((v, oper) # os) t = (P oper t \<and> each_op P c os (perform v c oper t))"

lemma perform_all_invariant:
  assumes "\<And>v oper t. I t \<Longrightarrow> P oper t \<Longrightarrow> I (perform v c oper t)" and "I t" and "each_op P c os t"
  shows "I (perform_all c os t)"
  using assms(2,3)
proof (induction os arbitrary: t)
  case (Cons p os)
  obtain v oper where p: "p = (v, oper)" by fastforce
  with Cons.prems have "I (perform v c oper t)" "each_op P c os (perform v c oper t)"
    by (simp_all add: assms(1))
  with Cons.IH p show ?case by simp
qed simp

section \<open>Which part of the state each operation changes\<close>

text \<open>The settlement's own change, before recording, warnings and overage checks.\<close>

definition settled_state ::
  "int \<Rightarrow> int option \<Rightarrow> int \<Rightarrow> int \<Rightarrow> rat option \<Rightarrow> string \<Rightarrow> int option \<Rightarrow> usage_breakdown option \<Rightarrow>
     tracker \<Rightarrow> tracker" where
  "settled_state oi oo i ou cost st sq u t =
     (let seq = (case sq of None \<Rightarrow> count t Model_calls | Some s \<Rightarrow> s)
      in add_actuals i ou cost st u
           (release_held seq oi (or0 oo) (t\<lparr>reservations := AList.delete seq (reservations t)\<rparr>)))"

lemma core_settle_call:
  "(\<exists>rs. core (snd (settle_call v c oi oo i ou cost st sq u m t)) = core (t\<lparr>reservations := rs\<rparr>)) \<or>
   core (snd (settle_call v c oi oo i ou cost st sq u m t)) = core (settled_state oi oo i ou cost st sq u t)"
proof -
  let ?seq = "case sq of None \<Rightarrow> count t Model_calls | Some s \<Rightarrow> s"
  have tail: "core (snd (let t5 = (if d then log_effect x t4 else t4)
                in case overage c t5 of None \<Rightarrow> (Inr (), t5)
                   | Some e \<Rightarrow> raise_stop v e (log_effect (y e) t5))) = core t4" for d x y t4
    by (simp add: Let_def core_facts split: option.split)
  have rec: "core (snd (and_then (record_usage v t3) (\<lambda>_ t4. (let t5 = (if d then log_effect x t4 else t4)
                in case overage c t5 of None \<Rightarrow> (Inr (), t5)
                   | Some e \<Rightarrow> raise_stop v e (log_effect (y e) t5))))) = core t3" for d x y t3
    by (rule core_record_then) (rule tail)
  show ?thesis
    unfolding settle_call_def settled_state_def Let_def [of ?seq] Let_def [of "map_of _ _"]
    by (auto simp: rec [unfolded Let_def] core_facts Let_def)
qed

lemma core_agent_step: "core (snd (record_agent_step v c t)) = core (add_count Agent_steps 1 t)"
  unfolding record_agent_step_def by (rule core_record_then) (simp add: core_facts)

lemma core_retry: "core (snd (record_retry v c t)) = core (add_count Retries 1 t)"
  unfolding record_retry_def by (rule core_record_then) (simp add: core_facts)

lemma core_settle_search:
  "core (snd (settle_search v c seq actual cost pre t)) = core t \<or>
   (\<exists>held charged unit. map_of (open_search_reservations t) seq = Some held \<and> 0 \<le> unit \<and>
      unit = (case cost of None \<Rightarrow> search_cost_per_invocation c | Some x \<Rightarrow> x) \<and>
      charged = (case actual of None \<Rightarrow> held | Some n \<Rightarrow> max 0 n) \<and>
      (core (snd (settle_search v c seq actual cost pre t)) = core (release_search seq held t) \<or>
       core (snd (settle_search v c seq actual cost pre t)) =
         core (add_search charged (unit * of_int charged) (release_search seq held t))))"
proof -
  have rec: "core (snd (and_then (record_usage v t3) (\<lambda>_ t'.
        if (h::int) < k then raise_stop v e1 t'
        else if over l (count t' Search_invocations) then reject v e2 t'
        else if above m (amount t' Actual_cost) then raise_stop v e3 t' else (Inr (), t')))) = core t3"
    for t3 h k e1 l e2 m e3
    by (rule core_record_then) (simp add: core_facts)
  show ?thesis
    by (auto simp: settle_search_def Let_def core_facts rec split: option.split)
qed

text \<open>
  \<open>move\<close>: the accounting change of an operation, with the checks that let it happen.
\<close>

definition plain_counters :: "usage_field set" where
  "plain_counters = {Agent_steps, Retries, Tool_calls, Tasks_completed, Tasks_failed, Replans,
     Correction_rounds, Provider_backpressure_events}"

inductive move :: "budget_config \<Rightarrow> budget_op \<Rightarrow> tracker \<Rightarrow> tracker \<Rightarrow> bool" for c where
  Idle: "move c oper t (t\<lparr>reservations := rs\<rparr>)"
| Bump: "f \<in> plain_counters \<Longrightarrow> move c oper t (add_count f 1 t)"
| Bump2: "move c oper t (add_count Correction_rounds 1 (add_count Replans 1 t))"
| Admit: "capacity_refusal v c (max 0 est) t = None \<Longrightarrow>
    allowed = allowed_output (remaining_output c (max 0 est) t) req \<Longrightarrow>
    contract_check v c t k p up req allowed = Inr (amt, worst) \<Longrightarrow>
    move c (Open_call est req k p up) t (commit_call c (max 0 est) allowed amt worst res p t)"
| Settled: "move c (Settle_call oi oo i ou cost st sq u m) t (settled_state oi oo i ou cost st sq u t)"
| Hold: "0 < n \<Longrightarrow>
    \<not> over (max_search_invocations_per_run c) (count t Search_invocations + reserved_search_invocations t + n) \<Longrightarrow>
    move c (Reserve_search n) t
      (t\<lparr>search_seq := search_seq t + 1,
        reserved_search_invocations := reserved_search_invocations t + n,
        open_search_reservations := open_search_reservations t @ [(search_seq t + 1, n)]\<rparr>)"
| Free: "map_of (open_search_reservations t) seq = Some held \<Longrightarrow>
    move c (Settle_search seq actual cost pre) t (release_search seq held t)"
| Spend: "map_of (open_search_reservations t) seq = Some held \<Longrightarrow>
    unit = (case cost of None \<Rightarrow> search_cost_per_invocation c | Some x \<Rightarrow> x) \<Longrightarrow> 0 \<le> unit \<Longrightarrow>
    charged = (case actual of None \<Rightarrow> held | Some n \<Rightarrow> max 0 n) \<Longrightarrow>
    move c (Settle_search seq actual cost pre) t
      (add_search charged (unit * of_int charged) (release_search seq held t))"

inductive_cases moveE: "move c oper t t'"

lemma idle_move: "core x = core t \<Longrightarrow> \<exists>t'. move c oper t t' \<and> core x = core t'"
  using Idle [of c oper t "reservations t"] by auto

lemma bump_move: "f \<in> plain_counters \<Longrightarrow> core x = core (add_count f 1 t) \<Longrightarrow>
    \<exists>t'. move c oper t t' \<and> core x = core t'"
  using Bump by blast

lemma perform_moves: "\<exists>t'. move c oper t t' \<and> core (perform v c oper t) = core t'"
proof (cases oper)
  case (Open_call est req k p up)
  then show ?thesis using core_open_call [of v c est req k p up t]
    by (auto intro: idle_move Admit)
next
  case (Settle_call oi oo i ou cost st sq u m)
  then show ?thesis using core_settle_call [of v c oi oo i ou cost st sq u m t]
    by (auto intro: Idle Settled)
next
  case (Reserve_search n)
  show ?thesis
  proof (cases "stop t = None \<and> 0 < n \<and> \<not> over (max_search_invocations_per_run c)
      (count t Search_invocations + reserved_search_invocations t + n)")
    case True
    with Reserve_search have "perform v c oper t = t\<lparr>search_seq := search_seq t + 1,
        reserved_search_invocations := reserved_search_invocations t + n,
        open_search_reservations := open_search_reservations t @ [(search_seq t + 1, n)]\<rparr>"
      by (simp add: reserve_search_def Let_def max_def)
    with True Reserve_search Hold [of n c t] show ?thesis by metis
  next
    case False
    with Reserve_search have "core (perform v c oper t) = core t"
      by (auto simp: reserve_search_def Let_def max_def core_facts split: option.split)
    then show ?thesis by (rule idle_move)
  qed
next
  case (Settle_search sq a cost pre)
  then show ?thesis using core_settle_search [of v c sq a cost pre t]
    by (auto intro: idle_move Free Spend)
next
  case (Refuse e)
  then show ?thesis by (auto simp: refuse_call_def core_facts intro!: idle_move split: option.split)
next
  case (Missing_cap m)
  then show ?thesis
    by (auto intro!: idle_move simp: note_missing_output_cap_def core_facts) (simp add: core_def)
next
  case (Replan b)
  then show ?thesis
    by (cases b) (auto simp: record_replan_def core_facts plain_counters_def intro: Bump2 bump_move)
qed (auto simp: core_agent_step core_retry record_tool_call_def record_task_result_def
      record_provider_backpressure_def core_facts plain_counters_def intro: bump_move idle_move)

lemma moves_invariant:
  assumes "\<And>t. I (core t) = I t" and "\<And>oper t t'. move c oper t t' \<Longrightarrow> I t \<Longrightarrow> P oper t \<Longrightarrow> I t'"
    and "I t" and "each_op P c os t"
  shows "I (perform_all c os t)"
proof (rule perform_all_invariant [where I = I and P = P and c = c and t = t, OF _ assms(3,4)])
  fix v oper t assume "I t" "P oper t"
  moreover obtain t' where "move c oper t t'" "core (perform v c oper t) = core t'"
    using perform_moves by blast
  ultimately show "I (perform v c oper t)" using assms(1,2) by metis
qed

section \<open>Reservations are exact\<close>

definition accounting_ok :: "tracker \<Rightarrow> bool" where
  "accounting_ok t =
     (dict_wf (open_reservations t) \<and> dict_wf (open_cost_reservations t) \<and>
      dict_wf (open_search_reservations t) \<and>
      (\<forall>k \<in> keys (open_reservations t). k \<le> count t Model_calls) \<and>
      (\<forall>k \<in> keys (open_cost_reservations t). k \<le> count t Model_calls) \<and>
      (\<forall>k \<in> keys (open_search_reservations t). k \<le> search_seq t) \<and>
      (\<forall>(k, i, ou) \<in> set (open_reservations t). 0 \<le> i \<and> 0 \<le> ou) \<and>
      (\<forall>(k, w) \<in> set (open_cost_reservations t). 0 \<le> w) \<and>
      (\<forall>(k, n) \<in> set (open_search_reservations t). 0 \<le> n) \<and>
      reserved_input_tokens t = dsum fst (open_reservations t) \<and>
      reserved_output_tokens t = dsum snd (open_reservations t) \<and>
      reserved_cost t = dsum id (open_cost_reservations t) \<and>
      reserved_search_invocations t = dsum id (open_search_reservations t))"

text \<open>
  What the callers owe: a declared cap is positive, a profile is a registered one, and a settlement
  names an open call or brings no numbers of its own.
\<close>

fun well_formed_op :: "budget_op \<Rightarrow> tracker \<Rightarrow> bool" where
  "well_formed_op (Open_call est req k p up) t =
     ((case req of None \<Rightarrow> True | Some r \<Rightarrow> 0 < r) \<and> (case p of None \<Rightarrow> True | Some q \<Rightarrow> wf_profile q))"
| "well_formed_op (Settle_call oi oo i ou cost st sq u m) t =
     (map_of (open_reservations t) (case sq of None \<Rightarrow> count t Model_calls | Some s \<Rightarrow> s) \<noteq> None \<or>
      (oi \<le> 0 \<and> or0 oo \<le> 0))"
| "well_formed_op _ t = True"

lemma accounting_core: "accounting_ok (core t) = accounting_ok t"
  by (simp add: accounting_ok_def)

lemma dsum_delete_le:
  fixes d :: "('k \<times> 'v) list" and f :: "'v \<Rightarrow> 'n::linordered_idom"
  assumes "dict_wf d" "map_of d k = Some v" "\<forall>p \<in> set d. 0 \<le> f (snd p)"
  shows "f v \<le> dsum f d" and "0 \<le> f v"
proof -
  have "0 \<le> dsum f (AList.delete k d)"
    using assms(3) by (intro dsum_nonneg_on) (auto simp: AList.delete_eq)
  then show "f v \<le> dsum f d" using dsum_delete [OF assms(1,2), of f] by simp
  show "0 \<le> f v" using assms(2,3) by (force dest: map_of_SomeD)
qed

lemma breakdown_fields [simp]:
  "open_reservations (add_breakdown u t) = open_reservations t"
  "open_cost_reservations (add_breakdown u t) = open_cost_reservations t"
  "open_search_reservations (add_breakdown u t) = open_search_reservations t"
  "reserved_input_tokens (add_breakdown u t) = reserved_input_tokens t"
  "reserved_output_tokens (add_breakdown u t) = reserved_output_tokens t"
  "reserved_cost (add_breakdown u t) = reserved_cost t"
  "reserved_search_invocations (add_breakdown u t) = reserved_search_invocations t"
  "search_seq (add_breakdown u t) = search_seq t"
  "amount (add_breakdown u t) = amount t"
  "f \<notin> {Cached_input_tokens, Cache_write_tokens, Reasoning_tokens, Answer_tokens,
         Reasoning_tokens_estimated, Reasoning_estimated_calls} \<Longrightarrow>
     count (add_breakdown u t) f = count t f"
  by (auto simp: add_breakdown_def add_count_def Let_def split: option.split)

lemma settled_fields [simp]:
  "open_reservations (add_actuals i ou cost st u t) = open_reservations t"
  "open_cost_reservations (add_actuals i ou cost st u t) = open_cost_reservations t"
  "open_search_reservations (add_actuals i ou cost st u t) = open_search_reservations t"
  "reserved_input_tokens (add_actuals i ou cost st u t) = reserved_input_tokens t"
  "reserved_output_tokens (add_actuals i ou cost st u t) = reserved_output_tokens t"
  "reserved_cost (add_actuals i ou cost st u t) = reserved_cost t"
  "reserved_search_invocations (add_actuals i ou cost st u t) = reserved_search_invocations t"
  "search_seq (add_actuals i ou cost st u t) = search_seq t"
  "count (add_actuals i ou cost st u t) Model_calls = count t Model_calls"
  "count (add_actuals i ou cost st u t) Input_tokens = count t Input_tokens + max 0 i"
  "count (add_actuals i ou cost st u t) Output_tokens = count t Output_tokens + max 0 ou"
  "count (add_actuals i ou cost st u t) Search_invocations = count t Search_invocations"
  "amount (add_actuals i ou cost st u t) = (amount t)(Actual_cost := amount t Actual_cost + positive_part cost)"
  by (auto simp: add_actuals_def add_count_def add_amount_def Let_def)

text \<open>What a call holds, and zero when it holds nothing.\<close>

definition held_input_of :: "tracker \<Rightarrow> int \<Rightarrow> int" where
  "held_input_of t seq = (case map_of (open_reservations t) seq of None \<Rightarrow> 0 | Some (i, ou) \<Rightarrow> i)"

definition held_output_of :: "tracker \<Rightarrow> int \<Rightarrow> int" where
  "held_output_of t seq = (case map_of (open_reservations t) seq of None \<Rightarrow> 0 | Some (i, ou) \<Rightarrow> ou)"

definition held_cost_of :: "tracker \<Rightarrow> int \<Rightarrow> rat" where
  "held_cost_of t seq = (case map_of (open_cost_reservations t) seq of None \<Rightarrow> 0 | Some w \<Rightarrow> w)"

lemma release_exact:
  assumes ok: "accounting_ok t"
    and own: "map_of (open_reservations t) seq \<noteq> None \<or> (oi \<le> 0 \<and> oo \<le> 0)"
  defines "t' \<equiv> release_held seq oi oo t"
  shows "open_reservations t' = AList.delete seq (open_reservations t)"
    "open_cost_reservations t' = AList.delete seq (open_cost_reservations t)"
    "reserved_input_tokens t' = reserved_input_tokens t - held_input_of t seq"
    "reserved_output_tokens t' = reserved_output_tokens t - held_output_of t seq"
    "reserved_cost t' = reserved_cost t - held_cost_of t seq"
    "dsum fst (AList.delete seq (open_reservations t)) = reserved_input_tokens t - held_input_of t seq"
    "dsum snd (AList.delete seq (open_reservations t)) = reserved_output_tokens t - held_output_of t seq"
    "dsum id (AList.delete seq (open_cost_reservations t)) = reserved_cost t - held_cost_of t seq"
proof -
  have wf: "dict_wf (open_reservations t)" "dict_wf (open_cost_reservations t)"
    and pos: "\<forall>p \<in> set (open_reservations t). 0 \<le> fst (snd p)" "\<forall>p \<in> set (open_reservations t). 0 \<le> snd (snd p)"
      "\<forall>p \<in> set (open_cost_reservations t). 0 \<le> id (snd p)"
    and eq: "reserved_input_tokens t = dsum fst (open_reservations t)"
      "reserved_output_tokens t = dsum snd (open_reservations t)"
      "reserved_cost t = dsum id (open_cost_reservations t)"
    using ok by (fastforce simp: accounting_ok_def)+
  have gone: "AList.delete seq d = d" if "map_of d seq = None" for d :: "(int \<times> 'z) list"
    using that by (simp add: delete_notin map_of_eq_None_iff)
  show "open_reservations t' = AList.delete seq (open_reservations t)"
    "open_cost_reservations t' = AList.delete seq (open_cost_reservations t)"
    by (simp_all add: t'_def release_held_def Let_def split: prod.split)
  have nn: "0 \<le> dsum fst (open_reservations t)" "0 \<le> dsum snd (open_reservations t)"
    using pos by (auto intro: dsum_nonneg_on)
  show "reserved_input_tokens t' = reserved_input_tokens t - held_input_of t seq"
    "reserved_output_tokens t' = reserved_output_tokens t - held_output_of t seq"
    using own eq nn dsum_delete_le(1) [OF wf(1) _ pos(1)] dsum_delete_le(1) [OF wf(1) _ pos(2)]
    by (auto simp: t'_def release_held_def Let_def held_input_of_def held_output_of_def
        split: option.splits prod.splits)
  have le: "w \<le> dsum id (open_cost_reservations t)"
    if "map_of (open_cost_reservations t) seq = Some w" for w
    using dsum_delete_le(1) [OF wf(2) that pos(3)] by simp
  show "reserved_cost t' = reserved_cost t - held_cost_of t seq"
    using eq le
    by (auto simp: t'_def release_held_def Let_def held_cost_of_def split: option.splits prod.splits)
  show "dsum fst (AList.delete seq (open_reservations t)) = reserved_input_tokens t - held_input_of t seq"
    "dsum snd (AList.delete seq (open_reservations t)) = reserved_output_tokens t - held_output_of t seq"
    using eq dsum_delete [OF wf(1), of seq _ fst] dsum_delete [OF wf(1), of seq _ snd]
      gone [of "open_reservations t"]
    by (auto simp: held_input_of_def held_output_of_def split: option.splits)
  show "dsum id (AList.delete seq (open_cost_reservations t)) = reserved_cost t - held_cost_of t seq"
    using eq dsum_delete [OF wf(2), of seq _ id] gone [of "open_cost_reservations t"]
    by (auto simp: held_cost_of_def split: option.splits)
qed

lemma release_other_fields [simp]:
  "count (release_held seq oi oo t) = count t" "amount (release_held seq oi oo t) = amount t"
  "open_search_reservations (release_held seq oi oo t) = open_search_reservations t"
  "reserved_search_invocations (release_held seq oi oo t) = reserved_search_invocations t"
  "search_seq (release_held seq oi oo t) = search_seq t"
  by (simp_all add: release_held_def Let_def split: prod.split)

lemma keys_deleteD: "p \<in> set (AList.delete k d) \<Longrightarrow> p \<in> set d"
  by (auto simp: AList.delete_eq)

lemma settled_accounting:
  assumes ok: "accounting_ok t"
    and own: "map_of (open_reservations t) seq \<noteq> None \<or> (oi \<le> 0 \<and> oo \<le> 0)"
  shows "accounting_ok (add_actuals i ou cost st u (release_held seq oi oo t))"
proof -
  note r = release_exact [OF ok own]
  show ?thesis
    using ok unfolding accounting_ok_def
    by (auto simp: r dest: keys_deleteD)
qed

lemma commit_fields [simp]:
  "count (commit_call c est al amt worst res p t) =
     (count t)(Model_calls := count t Model_calls + 1, Provider_attempts := count t Provider_attempts + 1)"
  "amount (commit_call c est al amt worst res p t) =
     (amount t)(Estimated_cost := amount t Estimated_cost + estimated_cost_per_call c)"
  "open_search_reservations (commit_call c est al amt worst res p t) = open_search_reservations t"
  "reserved_search_invocations (commit_call c est al amt worst res p t) = reserved_search_invocations t"
  "search_seq (commit_call c est al amt worst res p t) = search_seq t"
  "reserved_input_tokens (commit_call c est al amt worst res p t) = reserved_input_tokens t + est"
  "reserved_output_tokens (commit_call c est al amt worst res p t) =
     reserved_output_tokens t + max 0 (or0 al)"
  "open_reservations (commit_call c est al amt worst res p t) =
     open_reservations t @ [(count t Model_calls + 1, est, or0 al)]"
  "reserved_cost (commit_call c est al amt worst res p t) =
     reserved_cost t + (case worst of None \<Rightarrow> 0 | Some w \<Rightarrow> w)"
  "open_cost_reservations (commit_call c est al amt worst res p t) =
     open_cost_reservations t @ (case worst of None \<Rightarrow> [] | Some w \<Rightarrow> [(count t Model_calls + 1, w)])"
  by (auto simp: commit_call_def add_count_def add_amount_def log_effect_def or0_def Let_def
      split: option.split)

text \<open>What the gate has established when it lets a call through.\<close>

lemma capacity_passed:
  assumes "capacity_refusal v c est t = None"
  shows "\<And>r. remaining_output c est t = Some r \<Longrightarrow> 0 < r"
    and "\<And>l. max_input_tokens_per_run c = Some l \<Longrightarrow> committed_input t + est \<le> l"
    and "\<And>l. max_model_calls_per_run c = Some l \<Longrightarrow> count t Model_calls < l"
    and "\<And>l. max_estimated_cost_per_run c = Some (Finite l) \<Longrightarrow>
           amount t Estimated_cost + estimated_cost_per_call c \<le> l"
  using assms by (auto simp: capacity_refusal_def split: if_splits option.splits)

lemma contract_passed:
  assumes "contract_check v c t k p up req al = Inr (amt, worst)"
  shows "k = None \<Longrightarrow> worst = None"
    and "k = Some q \<Longrightarrow> (\<forall>a. al = Some a \<longrightarrow> min_answer_reserve q \<le> a) \<and>
           (\<exists>pr cap. p = Some pr \<and> (al = Some cap \<or> al = None \<and> req = Some cap) \<and>
              worst = Some (worst_case_cost pr up cap) \<and> amt = worst_case_cost pr up cap)"
    and "worst = Some w \<Longrightarrow> max_cost_per_run c = Some (Finite l) \<Longrightarrow>
           amount t Actual_cost + reserved_cost t + w \<le> l"
  using assms by (auto simp: contract_check_def Let_def split: option.splits if_splits)

lemma allowed_positive:
  assumes "capacity_refusal v c est t = None" "case req of None \<Rightarrow> True | Some r \<Rightarrow> 0 < r"
  shows "0 \<le> or0 (allowed_output (remaining_output c est t) req)"
  using capacity_passed(1) [OF assms(1)] assms(2)
  by (auto simp: allowed_output_def or0_def min_opt_def less_imp_le split: option.splits)

lemma add_count_fields [simp]:
  "open_reservations (add_count f n t) = open_reservations t"
  "open_cost_reservations (add_count f n t) = open_cost_reservations t"
  "open_search_reservations (add_count f n t) = open_search_reservations t"
  "reserved_input_tokens (add_count f n t) = reserved_input_tokens t"
  "reserved_output_tokens (add_count f n t) = reserved_output_tokens t"
  "reserved_cost (add_count f n t) = reserved_cost t"
  "reserved_search_invocations (add_count f n t) = reserved_search_invocations t"
  "search_seq (add_count f n t) = search_seq t"
  "amount (add_count f n t) = amount t"
  "count (add_count f n t) = (count t)(f := count t f + n)"
  by (simp_all add: add_count_def)

lemma add_amount_fields [simp]:
  "open_reservations (add_amount f x t) = open_reservations t"
  "open_cost_reservations (add_amount f x t) = open_cost_reservations t"
  "open_search_reservations (add_amount f x t) = open_search_reservations t"
  "reserved_input_tokens (add_amount f x t) = reserved_input_tokens t"
  "reserved_output_tokens (add_amount f x t) = reserved_output_tokens t"
  "reserved_cost (add_amount f x t) = reserved_cost t"
  "reserved_search_invocations (add_amount f x t) = reserved_search_invocations t"
  "search_seq (add_amount f x t) = search_seq t"
  "count (add_amount f x t) = count t"
  "amount (add_amount f x t) = (amount t)(f := amount t f + x)"
  by (simp_all add: add_amount_def)

lemma search_fields [simp]:
  "open_reservations (add_search n x t) = open_reservations t"
  "open_cost_reservations (add_search n x t) = open_cost_reservations t"
  "open_search_reservations (add_search n x t) = open_search_reservations t"
  "reserved_input_tokens (add_search n x t) = reserved_input_tokens t"
  "reserved_output_tokens (add_search n x t) = reserved_output_tokens t"
  "reserved_cost (add_search n x t) = reserved_cost t"
  "reserved_search_invocations (add_search n x t) = reserved_search_invocations t"
  "search_seq (add_search n x t) = search_seq t"
  "count (add_search n x t) = (count t)(Search_invocations := count t Search_invocations + n)"
  by (simp_all add: add_search_def)

lemma release_search_fields [simp]:
  "open_reservations (release_search seq h t) = open_reservations t"
  "open_cost_reservations (release_search seq h t) = open_cost_reservations t"
  "reserved_input_tokens (release_search seq h t) = reserved_input_tokens t"
  "reserved_output_tokens (release_search seq h t) = reserved_output_tokens t"
  "reserved_cost (release_search seq h t) = reserved_cost t"
  "search_seq (release_search seq h t) = search_seq t"
  "count (release_search seq h t) = count t" "amount (release_search seq h t) = amount t"
  "open_search_reservations (release_search seq h t) = AList.delete seq (open_search_reservations t)"
  by (simp_all add: release_search_def)

lemma release_search_exact:
  assumes ok: "accounting_ok t" and held: "map_of (open_search_reservations t) seq = Some h"
  shows "reserved_search_invocations (release_search seq h t) = reserved_search_invocations t - h"
    and "dsum id (AList.delete seq (open_search_reservations t)) = reserved_search_invocations t - h"
    and "0 \<le> h"
proof -
  have wf: "dict_wf (open_search_reservations t)"
    and pos: "\<forall>p \<in> set (open_search_reservations t). 0 \<le> id (snd p)"
    and eq: "reserved_search_invocations t = dsum id (open_search_reservations t)"
    using ok by (fastforce simp: accounting_ok_def)+
  have le: "h \<le> dsum id (open_search_reservations t)" "0 \<le> h"
    using dsum_delete_le [OF wf held pos] by simp_all
  then show "reserved_search_invocations (release_search seq h t) = reserved_search_invocations t - h"
    by (simp add: release_search_def eq)
  show "dsum id (AList.delete seq (open_search_reservations t)) = reserved_search_invocations t - h"
    using dsum_delete [OF wf held, of id] eq by simp
  show "0 \<le> h" by (rule le(2))
qed

lemma released_search_accounting:
  assumes ok: "accounting_ok t" and held: "map_of (open_search_reservations t) seq = Some h"
  shows "accounting_ok (release_search seq h t)"
  using ok release_search_exact [OF ok held]
  by (auto simp: accounting_ok_def dest: keys_deleteD)

lemma commit_accounting:
  assumes ok: "accounting_ok t" and "0 \<le> est" "0 \<le> or0 al" "\<forall>w. worst = Some w \<longrightarrow> 0 \<le> w"
  shows "accounting_ok (commit_call c est al amt worst res p t)"
  using assms by (fastforce simp: accounting_ok_def split: option.split)

lemma contract_worst_nonneg:
  assumes "contract_check v c t k p up req al = Inr (amt, worst)"
    and "case p of None \<Rightarrow> True | Some q \<Rightarrow> wf_profile q"
  shows "\<forall>w. worst = Some w \<longrightarrow> 0 \<le> w"
  using assms by (auto simp: contract_check_def Let_def worst_case_nonneg split: option.splits if_splits)

lemma accounting_add_count: "accounting_ok t \<Longrightarrow> f \<noteq> Model_calls \<Longrightarrow> accounting_ok (add_count f n t)"
  by (simp add: accounting_ok_def)

lemma accounting_reservations: "accounting_ok (t\<lparr>reservations := rs\<rparr>) = accounting_ok t"
  by (simp add: accounting_ok_def)

lemma accounting_add_search: "accounting_ok t \<Longrightarrow> accounting_ok (add_search n x t)"
  by (simp add: accounting_ok_def)

lemma hold_accounting:
  "accounting_ok t \<Longrightarrow> 0 < n \<Longrightarrow> accounting_ok (t\<lparr>search_seq := search_seq t + 1,
     reserved_search_invocations := reserved_search_invocations t + n,
     open_search_reservations := open_search_reservations t @ [(search_seq t + 1, n)]\<rparr>)"
  by (fastforce simp: accounting_ok_def)

lemma accounting_move:
  assumes "move c oper t t'" "accounting_ok t" "well_formed_op oper t"
  shows "accounting_ok t'"
  using assms(1)
proof cases
  case (Admit v est allowed req k p up amt worst res)
  have "0 \<le> or0 allowed"
    using allowed_positive [OF Admit(3)] assms(3) Admit(1,4) by simp
  moreover have "\<forall>w. worst = Some w \<longrightarrow> 0 \<le> w"
    using contract_worst_nonneg [OF Admit(5)] assms(3) Admit(1) by simp
  ultimately show ?thesis using commit_accounting [OF assms(2)] Admit(2) by simp
next
  case (Settled oi oo i ou cost st sq u m)
  let ?t0 = "t\<lparr>reservations := AList.delete (case sq of None \<Rightarrow> count t Model_calls | Some s \<Rightarrow> s) (reservations t)\<rparr>"
  have "accounting_ok ?t0" using assms(2) by (simp add: accounting_reservations)
  then show ?thesis
    using settled_accounting [of ?t0] assms(3) Settled by (simp add: settled_state_def Let_def)
next
  case (Spend seq held unit cost charged actual pre)
  then show ?thesis using released_search_accounting [OF assms(2)] by (simp add: accounting_add_search)
qed (use assms(2) in \<open>auto simp: accounting_reservations plain_counters_def accounting_add_count
      hold_accounting released_search_accounting\<close>)

lemma run_accounting:
  "accounting_ok t \<Longrightarrow> each_op well_formed_op c os t \<Longrightarrow> accounting_ok (perform_all c os t)"
  by (rule moves_invariant [where I = accounting_ok and P = well_formed_op])
     (auto simp: accounting_core intro: accounting_move)

lemma fresh_accounting: "accounting_ok (fresh_tracker t0)"
  by (simp add: accounting_ok_def fresh_tracker_def dict_wf_def)

section \<open>Ceilings\<close>

definition seq_of :: "int option \<Rightarrow> tracker \<Rightarrow> int" where
  "seq_of sq t = (case sq of None \<Rightarrow> count t Model_calls | Some s \<Rightarrow> s)"

text \<open>The provider keeps to the output cap, and to the input estimate, of the call it settles.\<close>

fun output_kept :: "budget_op \<Rightarrow> tracker \<Rightarrow> bool" where
  "output_kept (Settle_call oi oo i ou cost st sq u m) t = (max 0 ou \<le> held_output_of t (seq_of sq t))"
| "output_kept _ t = True"

fun input_kept :: "budget_op \<Rightarrow> tracker \<Rightarrow> bool" where
  "input_kept (Settle_call oi oo i ou cost st sq u m) t = (max 0 i \<le> held_input_of t (seq_of sq t))"
| "input_kept _ t = True"

text \<open>Every call is a role call, no settlement costs more than its worst case, searches are free.\<close>

fun dollars_kept :: "budget_op \<Rightarrow> tracker \<Rightarrow> bool" where
  "dollars_kept (Open_call est req k p up) t = (k \<noteq> None)"
| "dollars_kept (Settle_call oi oo i ou cost st sq u m) t =
     (positive_part cost \<le> held_cost_of t (seq_of sq t))"
| "dollars_kept (Settle_search seq actual cost pre) t = (cost = Some 0)"
| "dollars_kept _ t = True"

text \<open>No provider request performs more searches than it reserved.\<close>

fun searches_kept :: "budget_op \<Rightarrow> tracker \<Rightarrow> bool" where
  "searches_kept (Settle_search seq actual cost pre) t =
     (case (map_of (open_search_reservations t) seq, actual) of (Some h, Some n) \<Rightarrow> n \<le> h | _ \<Rightarrow> True)"
| "searches_kept _ t = True"

definition total_committed :: "tracker \<Rightarrow> int" where
  "total_committed t = committed_input t + committed_output t"

definition dollars_committed :: "tracker \<Rightarrow> rat" where
  "dollars_committed t = amount t Actual_cost + reserved_cost t"

definition searches_committed :: "tracker \<Rightarrow> int" where
  "searches_committed t = count t Search_invocations + reserved_search_invocations t"

lemmas committed_defs =
  committed_input_def committed_output_def total_committed_def dollars_committed_def
  searches_committed_def

definition dollars_fit :: "budget_config \<Rightarrow> rat \<Rightarrow> bool" where
  "dollars_fit c x = (\<forall>l. max_cost_per_run c = Some (Finite l) \<longrightarrow> x \<le> l)"

lemma allowed_fits:
  assumes "max_output_tokens_per_run c = Some l" "0 \<le> est" "capacity_refusal v c est t = None"
  shows "committed_output t + max 0 (or0 (allowed_output (remaining_output c est t) req)) \<le> l"
proof -
  obtain r where r: "remaining_output c est t = Some r" "r \<le> l - committed_output t"
    using assms(1) by (cases "max_total_tokens_per_run c") (auto simp: remaining_output_def Let_def)
  with capacity_passed(1) [OF assms(3)] have "0 < r" by blast
  with r show ?thesis by (auto simp: allowed_output_def or0_def split: option.split)
qed

lemma allowed_fits_total:
  assumes "max_total_tokens_per_run c = Some l" "0 \<le> est" "capacity_refusal v c est t = None"
  shows "total_committed t + est + max 0 (or0 (allowed_output (remaining_output c est t) req)) \<le> l"
proof -
  obtain r where r: "remaining_output c est t = Some r" "r \<le> l - committed_input t - committed_output t - est"
    using assms(1) by (cases "max_output_tokens_per_run c") (auto simp: remaining_output_def Let_def)
  with capacity_passed(1) [OF assms(3)] have "0 < r" by blast
  with r show ?thesis by (auto simp: allowed_output_def or0_def total_committed_def split: option.split)
qed

text \<open>What a settlement does to the four committed sums.\<close>

lemma settled_sums:
  assumes ok: "accounting_ok t" and wf: "well_formed_op (Settle_call oi oo i ou cost st sq u m) t"
  defines "t' \<equiv> settled_state oi oo i ou cost st sq u t"
  shows "committed_output t' = committed_output t - held_output_of t (seq_of sq t) + max 0 ou"
    and "committed_input t' = committed_input t - held_input_of t (seq_of sq t) + max 0 i"
    and "dollars_committed t' = dollars_committed t - held_cost_of t (seq_of sq t) + positive_part cost"
    and "searches_committed t' = searches_committed t"
proof -
  let ?t0 = "t\<lparr>reservations := AList.delete (seq_of sq t) (reservations t)\<rparr>"
  have own: "map_of (open_reservations ?t0) (seq_of sq t) \<noteq> None \<or> (oi \<le> 0 \<and> or0 oo \<le> 0)"
    using wf by (simp add: seq_of_def)
  have ok0: "accounting_ok ?t0" using ok by (simp add: accounting_reservations)
  have t': "t' = add_actuals i ou cost st u (release_held (seq_of sq t) oi (or0 oo) ?t0)"
    by (simp add: t'_def settled_state_def seq_of_def Let_def)
  note r = release_exact(3-5) [OF ok0 own]
  show "committed_output t' = committed_output t - held_output_of t (seq_of sq t) + max 0 ou"
    "committed_input t' = committed_input t - held_input_of t (seq_of sq t) + max 0 i"
    "dollars_committed t' = dollars_committed t - held_cost_of t (seq_of sq t) + positive_part cost"
    "searches_committed t' = searches_committed t"
    by (simp_all add: t' committed_defs r held_output_of_def held_input_of_def held_cost_of_def)
qed

lemma output_move:
  assumes "move c oper t t'" "accounting_ok t" "well_formed_op oper t" "output_kept oper t"
    and "fits (max_output_tokens_per_run c) (committed_output t)"
  shows "fits (max_output_tokens_per_run c) (committed_output t')"
  using assms(1)
proof cases
  case (Admit v est allowed req k p up amt worst res)
  then show ?thesis using allowed_fits [OF _ _ Admit(3), of _ req]
    by (cases "max_output_tokens_per_run c") (auto simp: committed_output_def)
next
  case (Settled oi oo i ou cost st sq u m)
  then have "committed_output t' \<le> committed_output t"
    using settled_sums(1) [OF assms(2)] assms(3,4) by auto
  then show ?thesis using fits_mono assms(5) by blast
qed (use assms(5) in \<open>auto simp: committed_output_def plain_counters_def\<close>)

lemma total_move:
  assumes "move c oper t t'" "accounting_ok t" "well_formed_op oper t" "output_kept oper t" "input_kept oper t"
    and "fits (max_total_tokens_per_run c) (total_committed t)"
  shows "fits (max_total_tokens_per_run c) (total_committed t')"
  using assms(1)
proof cases
  case (Admit v est allowed req k p up amt worst res)
  then show ?thesis using allowed_fits_total [OF _ _ Admit(3), of _ req]
    by (cases "max_total_tokens_per_run c") (auto simp: committed_defs algebra_simps)
next
  case (Settled oi oo i ou cost st sq u m)
  then have "total_committed t' \<le> total_committed t"
    using settled_sums(1,2) [OF assms(2)] assms(3,4,5) by (auto simp: total_committed_def)
  then show ?thesis using fits_mono assms(6) by blast
qed (use assms(6) in \<open>auto simp: committed_defs plain_counters_def\<close>)

lemma dollars_move:
  assumes "move c oper t t'" "accounting_ok t" "well_formed_op oper t" "dollars_kept oper t"
    and "dollars_fit c (dollars_committed t)"
  shows "dollars_fit c (dollars_committed t')"
  using assms(1)
proof cases
  case (Admit v est allowed req k p up amt worst res)
  then obtain w where w: "worst = Some w"
    using contract_passed(2) [OF Admit(5)] assms(4) by fastforce
  have "amount t Actual_cost + reserved_cost t + w \<le> l" if "max_cost_per_run c = Some (Finite l)" for l
    using contract_passed(3) [OF Admit(5) w that] .
  then show ?thesis using Admit w by (auto simp: dollars_fit_def dollars_committed_def)
next
  case (Settled oi oo i ou cost st sq u m)
  then have "dollars_committed t' \<le> dollars_committed t"
    using settled_sums(3) [OF assms(2)] assms(3,4) by auto
  then show ?thesis using assms(5) by (fastforce simp: dollars_fit_def)
next
  case (Spend seq held unit cost charged actual pre)
  then show ?thesis using assms(4,5) by (auto simp: dollars_committed_def add_search_def)
qed (use assms(5) in \<open>auto simp: dollars_committed_def plain_counters_def\<close>)

lemma searches_move:
  assumes "move c oper t t'" "accounting_ok t" "well_formed_op oper t" "searches_kept oper t"
    and "fits (max_search_invocations_per_run c) (searches_committed t)"
  shows "fits (max_search_invocations_per_run c) (searches_committed t')"
  using assms(1)
proof cases
  case (Settled oi oo i ou cost st sq u m)
  then show ?thesis using settled_sums(4) [OF assms(2)] assms(3,5) by simp
next
  case (Hold n)
  then show ?thesis by (simp add: searches_committed_def not_over algebra_simps)
next
  case (Free seq held actual cost pre)
  then have "searches_committed t' \<le> searches_committed t"
    using release_search_exact(1,3) [OF assms(2) Free(3)] by (simp add: searches_committed_def)
  then show ?thesis using fits_mono assms(5) by blast
next
  case (Spend seq held unit cost charged actual pre)
  then have "charged \<le> held"
    using assms(4) release_search_exact(3) [OF assms(2) Spend(3)] by (auto split: option.splits)
  then have "searches_committed t' \<le> searches_committed t"
    using release_search_exact(1) [OF assms(2) Spend(3)] Spend(2) by (simp add: searches_committed_def)
  then show ?thesis using fits_mono assms(5) by blast
qed (use assms(5) in \<open>auto simp: searches_committed_def plain_counters_def\<close>)

lemma each_op_conj:
  "each_op (\<lambda>oper t. P oper t \<and> Q oper t) c os t = (each_op P c os t \<and> each_op Q c os t)"
  by (induction P c os t rule: each_op.induct) auto

text \<open>A committed sum that no move of a well-behaved operation raises above its ceiling stays below it.\<close>

lemma run_ceiling:
  assumes move: "\<And>oper t t'. move c oper t t' \<Longrightarrow> accounting_ok t \<Longrightarrow> well_formed_op oper t \<Longrightarrow>
      P oper t \<Longrightarrow> F t \<Longrightarrow> F t'"
    and core: "\<And>t. F (core t) = F t"
    and start: "accounting_ok t" "F t"
    and run: "each_op well_formed_op c os t" "each_op P c os t"
  shows "F (perform_all c os t)"
proof -
  have "accounting_ok (perform_all c os t) \<and> F (perform_all c os t)"
  proof (rule moves_invariant [where I = "\<lambda>t. accounting_ok t \<and> F t"
        and P = "\<lambda>oper t. well_formed_op oper t \<and> P oper t" and c = c and t = t])
    show "each_op (\<lambda>oper t. well_formed_op oper t \<and> P oper t) c os t"
      using run by (simp add: each_op_conj)
  qed (use move core start accounting_move in \<open>auto simp: accounting_core\<close>)
  then show ?thesis ..
qed

section \<open>Nothing recorded is taken back\<close>

definition never_less :: "tracker \<Rightarrow> tracker \<Rightarrow> bool" where
  "never_less t0 t = ((\<forall>f. count t0 f \<le> count t f) \<and> (\<forall>f. amount t0 f \<le> amount t f))"

definition breakdown_nonneg :: "usage_breakdown \<Rightarrow> bool" where
  "breakdown_nonneg b =
     (0 \<le> or0 (cached_input_tokens_of b) \<and> 0 \<le> or0 (cache_write_tokens_of b) \<and>
      0 \<le> or0 (reasoning_tokens_of b) \<and> 0 \<le> or0 (answer_tokens_of b) \<and>
      0 \<le> or0 (reasoning_tokens_estimated_of b))"

fun counts_nonneg :: "budget_op \<Rightarrow> tracker \<Rightarrow> bool" where
  "counts_nonneg (Settle_call oi oo i ou cost st sq u m) t =
     (case u of None \<Rightarrow> True | Some b \<Rightarrow> breakdown_nonneg b)"
| "counts_nonneg _ t = True"

lemma never_less_trans: "never_less a b \<Longrightarrow> never_less b d \<Longrightarrow> never_less a d"
  unfolding never_less_def by (meson order_trans)

lemma add_count_more: "0 \<le> n \<Longrightarrow> never_less t (add_count f n t)"
  by (simp add: never_less_def)

lemma add_amount_more: "0 \<le> x \<Longrightarrow> never_less t (add_amount f x t)"
  by (simp add: never_less_def)

lemma add_breakdown_more:
  "case u of None \<Rightarrow> True | Some b \<Rightarrow> breakdown_nonneg b \<Longrightarrow> never_less t (add_breakdown u t)"
  by (auto simp: add_breakdown_def breakdown_nonneg_def Let_def never_less_def split: option.splits)

lemma positive_part_nonneg [simp]: "0 \<le> positive_part x"
  by (simp add: positive_part_def split: option.split)

lemma add_actuals_more:
  assumes "case u of None \<Rightarrow> True | Some b \<Rightarrow> breakdown_nonneg b"
  shows "never_less t (add_actuals i ou cost st u t)"
proof -
  let ?t1 = "add_amount Actual_cost (positive_part cost)
               (add_count Output_tokens (max 0 ou) (add_count Input_tokens (max 0 i) t))"
  have 1: "never_less t ?t1" by (simp add: never_less_def)
  have 2: "never_less t (add_breakdown u ?t1)"
    by (rule never_less_trans [OF 1 add_breakdown_more [OF assms]])
  then have "never_less t (add_count Provider_failures 1 (add_breakdown u ?t1))"
    by (rule never_less_trans) (simp add: add_count_more)
  with 2 show ?thesis by (simp add: add_actuals_def Let_def)
qed

definition held_searches_nonneg :: "tracker \<Rightarrow> bool" where
  "held_searches_nonneg t = (\<forall>p \<in> set (open_search_reservations t). 0 \<le> snd p)"

lemma settled_other [simp]:
  "open_search_reservations (settled_state oi oo i ou cost st sq u t) = open_search_reservations t"
  by (simp add: settled_state_def Let_def)

lemma held_searches_move: "move c oper t t' \<Longrightarrow> held_searches_nonneg t \<Longrightarrow> held_searches_nonneg t'"
  by (erule moveE) (auto simp: held_searches_nonneg_def dest: keys_deleteD)

lemma never_less_move:
  assumes "move c oper t t'" "counts_nonneg oper t" "0 \<le> estimated_cost_per_call c"
    "held_searches_nonneg t"
  shows "never_less t t'"
  using assms(1)
proof cases
  case (Settled oi oo i ou cost st sq u m)
  let ?r = "release_held (seq_of sq t) oi (or0 oo) (t\<lparr>reservations := AList.delete (seq_of sq t) (reservations t)\<rparr>)"
  have "never_less ?r t'"
    using add_actuals_more [of u ?r] Settled assms(2) by (simp add: settled_state_def seq_of_def Let_def)
  then show ?thesis by (simp add: never_less_def)
next
  case (Spend seq held unit cost charged actual pre)
  have "0 \<le> charged"
    using Spend assms(4) by (auto simp: held_searches_nonneg_def dest!: map_of_SomeD split: option.splits)
  with Spend show ?thesis by (auto simp: never_less_def add_search_def)
qed (use assms(3) in \<open>auto simp: never_less_def\<close>)

lemma run_never_less:
  assumes "0 \<le> estimated_cost_per_call c" "held_searches_nonneg t" "each_op counts_nonneg c os t"
  shows "never_less t (perform_all c os t)"
proof -
  let ?I = "\<lambda>s. never_less t s \<and> held_searches_nonneg s"
  have core: "?I (core s) = ?I s" for s by (simp add: never_less_def held_searches_nonneg_def)
  have step: "?I s'" if "move c oper s s'" "?I s" "counts_nonneg oper s" for oper s s'
    using that held_searches_move [OF that(1)] never_less_move [OF that(1,3) assms(1)] never_less_trans
    by blast
  have "?I t" using assms(2) by (simp add: never_less_def)
  then have "?I (perform_all c os t)"
    by (rule moves_invariant [where I = ?I and P = counts_nonneg, rotated 2])
       (use core step assms(3) in blast)+
  then show ?thesis ..
qed

section \<open>The stop is final\<close>

lemma stop_log [simp]: "stop (log_effect e t) = stop t"
  by (simp add: log_effect_def)

lemma stop_count [simp]: "stop (add_count f n t) = stop t" "stop (add_amount f x t) = stop t"
  by (simp_all add: add_count_def add_amount_def)

lemma stop_kept:
  assumes "stop t = Some e"
  shows "stop (stop_with v e' t) = Some e" "stop (snd (reject v e' t)) = Some e"
    "stop (snd (raise_stop v e' t)) = Some e" "stop (snd (record_usage v t)) = Some e"
    "stop (warn_if_close v n u l t) = Some e"
  using assms
  by (auto simp: stop_with_def reject_def raise_stop_def record_usage_def warn_if_close_def Let_def
      split: option.split recorder_reply.split pyfloat.split)

lemma stop_and_then:
  assumes "stop (snd r) = Some e" "\<And>x t'. stop t' = Some e \<Longrightarrow> stop (snd (f x t')) = Some e"
  shows "stop (snd (and_then r f)) = Some e"
  using assms by (cases r; cases "fst r") auto

lemma stop_settled [simp]:
  "stop (add_actuals i ou cost st u (release_held seq oi oo t)) = stop t"
  by (auto simp: add_actuals_def add_breakdown_def release_held_def Let_def split: option.split prod.split)

lemma stop_search [simp]: "stop (add_search n x t) = stop t" "stop (release_search seq h t) = stop t"
  by (simp_all add: add_search_def release_search_def)

lemma stop_warnings: "stop t = Some e \<Longrightarrow> stop (warnings v c t) = Some e"
  by (simp add: warnings_def Let_def stop_kept)

lemma stop_settle_call:
  assumes "stop t = Some e"
  shows "stop (snd (settle_call v c oi oo i ou cost st sq u m t)) = Some e"
  unfolding settle_call_def Let_def
  using assms
  by (auto intro!: stop_and_then stop_kept stop_warnings split: option.split)

lemma stop_stays:
  assumes "stop t = Some e"
  shows "stop (perform v c oper t) = Some e"
proof (cases oper)
  case (Settle_call oi oo i ou cost st sq u m)
  with assms show ?thesis by (simp add: stop_settle_call)
next
  case (Missing_cap m)
  with assms show ?thesis by (simp add: note_missing_output_cap_def)
qed (use assms in \<open>auto simp: open_call_def record_agent_step_def record_retry_def record_tool_call_def
      record_task_result_def record_replan_def record_provider_backpressure_def refuse_call_def
      reserve_search_def settle_search_def Let_def
      intro!: stop_and_then stop_kept split: option.split\<close>)

lemma stop_final: "stop t = Some e \<Longrightarrow> stop (perform_all c os t) = Some e"
  by (induction c os t rule: perform_all.induct) (simp_all add: stop_stays)

section \<open>An example run\<close>

definition example_config :: budget_config where
  "example_config = \<lparr>max_model_calls_per_run = Some 5, max_input_tokens_per_run = Some 1000,
     max_output_tokens_per_run = Some 150, max_total_tokens_per_run = Some 200,
     max_estimated_cost_per_run = Some (Finite 1), max_cost_per_run = Some (Finite 1),
     max_run_duration_seconds = None, max_agent_steps = None, max_retries = Some 3,
     daily_user_budget = None, daily_project_budget = None, estimated_cost_per_call = 5 / 100,
     max_search_invocations_per_run = Some 60, max_builtin_searches_per_request = 4,
     search_cost_per_invocation = 0\<rparr>"

definition example_env :: env where
  "example_env = \<lparr>kill_switch = True, lease_held = None, cancelled = False, daily_user_cost = None,
     daily_project_cost = None, user_reserver = None, project_reserver = None, settler = None,
     recorder = Some (\<lambda>u. Reported_version (count_of u Ledger_version + 1)), now = 7\<rparr>"

definition example_contract :: call_contract where
  "example_contract = \<lparr>role = ''worker'', min_answer_reserve = 50\<rparr>"

abbreviation example_open :: budget_op where
  "example_open \<equiv> Open_call 20 (Some 400) (Some example_contract) (Some kimi_k3) 100"

abbreviation example_settle :: budget_op where
  "example_settle \<equiv> Settle_call 0 None 20 140 (Some (1 / 1000)) ''settled'' (Some 1) None ''kimi-k3''"

definition opened :: tracker where
  "opened = perform example_env example_config example_open (fresh_tracker 0)"

lemma daily_none [simp]: "\<not> daily_reached b None x" "\<not> daily_above b None x"
  by (simp_all add: daily_reached_def daily_above_def)

lemma example_worst_case: "worst_case_cost kimi_k3 100 150 = 51 / 20000"
  by (simp add: worst_case_cost_def money_def reserve_input_price_def kimi_k3_def)

lemma opened_result:
  "open_call example_env example_config 20 (Some 400) (Some example_contract) (Some kimi_k3) 100
     (fresh_tracker 0) = (Inr (1, Some 150), opened)"
  by (simp add: opened_def open_call_def example_env_def example_config_def example_contract_def
      fresh_tracker_def capacity_refusal_def int_limit_def elapsed_def committed_input_def
      committed_output_def remaining_output_def allowed_output_def contract_check_def
      daily_reservations_def daily_reservation_def example_worst_case record_usage_def Let_def)

lemma opened_fields:
  "open_reservations opened = [(1, 20, 150)]" "open_cost_reservations opened = [(1, 51 / 20000)]"
  "open_search_reservations opened = []" "count opened Model_calls = 1" "reservations opened = []"
  by (simp_all add: opened_def open_call_def example_env_def example_config_def example_contract_def
      fresh_tracker_def capacity_refusal_def int_limit_def elapsed_def committed_input_def
      committed_output_def remaining_output_def allowed_output_def contract_check_def
      daily_reservations_def daily_reservation_def example_worst_case record_usage_def Let_def
      commit_call_def add_count_def add_amount_def log_effect_def)

definition example_run :: "(env \<times> budget_op) list" where
  "example_run = [(example_env, example_open), (example_env, example_settle)]"

lemma kimi_k3_wf: "wf_profile kimi_k3"
  by (simp add: wf_profile_def kimi_k3_def)

lemma example_run_behaves:
  "each_op well_formed_op example_config example_run (fresh_tracker 0)"
  "each_op output_kept example_config example_run (fresh_tracker 0)"
  "each_op input_kept example_config example_run (fresh_tracker 0)"
  "each_op dollars_kept example_config example_run (fresh_tracker 0)"
  "each_op searches_kept example_config example_run (fresh_tracker 0)"
  "each_op counts_nonneg example_config example_run (fresh_tracker 0)"
  by (simp_all add: example_run_def kimi_k3_wf opened_def [unfolded perform.simps, symmetric]
      opened_fields held_output_of_def held_input_of_def held_cost_of_def seq_of_def positive_part_def)

lemma fresh_committed [simp]:
  "committed_output (fresh_tracker x) = 0" "total_committed (fresh_tracker x) = 0"
  "dollars_committed (fresh_tracker x) = 0" "searches_committed (fresh_tracker x) = 0"
  "count (fresh_tracker x) f = 0" "held_searches_nonneg (fresh_tracker x)"
  by (simp_all add: committed_defs fresh_tracker_def held_searches_nonneg_def)

section \<open>Properties\<close>

text \<open>Reservations are exact after any interleaving of calls, settlements and searches whose
  settlements name an open call (or bring no numbers of their own): the reserved input, output,
  dollars and searches are the sums over the calls still open, no call is open twice, and every
  open call was counted.\<close>

theorem reservations_are_exact:
  assumes "accounting_ok t" and "each_op well_formed_op c os t"
  shows "reserved_input_tokens (perform_all c os t) = dsum fst (open_reservations (perform_all c os t)) \<and>
    reserved_output_tokens (perform_all c os t) = dsum snd (open_reservations (perform_all c os t)) \<and>
    reserved_cost (perform_all c os t) = dsum id (open_cost_reservations (perform_all c os t)) \<and>
    reserved_search_invocations (perform_all c os t) = dsum id (open_search_reservations (perform_all c os t)) \<and>
    distinct (map fst (open_reservations (perform_all c os t)))"
  using run_accounting [OF assms] by (simp add: accounting_ok_def dict_wf_def)

theorem reservations_are_exact_witness:
  "reserved_output_tokens (perform_all example_config example_run (fresh_tracker 0)) =
     dsum snd (open_reservations (perform_all example_config example_run (fresh_tracker 0)))"
  using reservations_are_exact [OF fresh_accounting example_run_behaves(1)] by blast

text \<open>C19. The output-token ceiling is a ceiling: however calls interleave, as long as the provider
  stays within each call's granted cap, recorded plus reserved output tokens never exceed
  \<open>max_output_tokens_per_run\<close>.\<close>

theorem output_ceiling_holds:
  assumes "accounting_ok t" and "each_op well_formed_op c os t" and "each_op output_kept c os t"
    and "max_output_tokens_per_run c = Some l" and "committed_output t \<le> l"
  shows "committed_output (perform_all c os t) \<le> l"
  using run_ceiling [where P = output_kept and F = "\<lambda>t. fits (max_output_tokens_per_run c) (committed_output t)",
      OF output_move _ assms(1) _ assms(2,3)] assms(4,5)
  by (simp add: committed_output_def)

theorem output_ceiling_holds_witness:
  "committed_output (perform_all example_config example_run (fresh_tracker 0)) \<le> 150"
  by (rule output_ceiling_holds [OF fresh_accounting example_run_behaves(1,2)])
     (simp_all add: example_config_def)

text \<open>The total-token ceiling holds in the same way when settled input also stays within its
  estimate.\<close>

theorem total_ceiling_holds:
  assumes "accounting_ok t" and "each_op well_formed_op c os t" and "each_op output_kept c os t"
    and "each_op input_kept c os t"
    and "max_total_tokens_per_run c = Some l" and "total_committed t \<le> l"
  shows "total_committed (perform_all c os t) \<le> l"
  using run_ceiling [where P = "\<lambda>oper t. output_kept oper t \<and> input_kept oper t"
      and F = "\<lambda>t. fits (max_total_tokens_per_run c) (total_committed t)",
      OF total_move _ assms(1) _ assms(2)] assms(3-6)
  by (simp add: committed_defs each_op_conj)

theorem total_ceiling_holds_witness:
  "total_committed (perform_all example_config example_run (fresh_tracker 0)) \<le> 200"
  by (rule total_ceiling_holds [OF fresh_accounting example_run_behaves(1-3)])
     (simp_all add: example_config_def)



text \<open>The search ceiling holds before dispatch: while no request performs more searches than it
  reserved, performed plus reserved searches never exceed \<open>max_search_invocations_per_run\<close>.\<close>

theorem search_ceiling_holds:
  assumes "accounting_ok t" and "each_op well_formed_op c os t" and "each_op searches_kept c os t"
    and "max_search_invocations_per_run c = Some l" and "searches_committed t \<le> l"
  shows "searches_committed (perform_all c os t) \<le> l"
  using run_ceiling [where P = searches_kept and F = "\<lambda>t. fits (max_search_invocations_per_run c) (searches_committed t)",
      OF searches_move _ assms(1) _ assms(2,3)] assms(4,5)
  by (simp add: searches_committed_def)

theorem search_ceiling_holds_witness:
  "searches_committed (perform_all example_config example_run (fresh_tracker 0)) \<le> 60"
  by (rule search_ceiling_holds [OF fresh_accounting example_run_behaves(1,5)])
     (simp_all add: example_config_def)

text \<open>No operation takes recorded usage back: over any run, successful or refused, every counter
  and every amount only grows, so a durable record never has to shrink.\<close>

theorem recorded_usage_only_grows:
  assumes "0 \<le> estimated_cost_per_call c" and "held_searches_nonneg t" and "each_op counts_nonneg c os t"
  shows "count t f \<le> count (perform_all c os t) f \<and> amount t g \<le> amount (perform_all c os t) g"
  using run_never_less [OF assms] by (simp add: never_less_def)

theorem recorded_usage_only_grows_witness:
  "0 \<le> count (perform_all example_config example_run (fresh_tracker 0)) Output_tokens"
  using recorded_usage_only_grows [OF _ _ example_run_behaves(6), of Output_tokens]
  by (simp add: example_config_def)

text \<open>A stop is final: once a hard limit has stopped the run, no later operation replaces the
  stop, and every further model call raises that same stop and changes nothing.\<close>

theorem stop_is_final:
  assumes "stop t = Some e"
  shows "stop (perform_all c os t) = Some e \<and>
    open_call v c est req k p up (perform_all c os t) = (Inl (Budget_exceeded e), perform_all c os t)"
  using stop_final [OF assms] by (simp add: open_call_def)

theorem stop_is_final_witness:
  "stop (perform_all example_config example_run ((fresh_tracker 0)\<lparr>stop := Some (exhausted COST_LIMIT_REACHED)\<rparr>))
     = Some (exhausted COST_LIMIT_REACHED)"
  using stop_is_final [of "(fresh_tracker 0)\<lparr>stop := Some (exhausted COST_LIMIT_REACHED)\<rparr>"] by simp

text \<open>A refused call takes nothing: whenever \<open>open_call\<close> raises for any reason other than a failed
  durable write, no counter, amount or reservation has changed.\<close>

theorem refused_call_takes_nothing:
  assumes "open_call v c est req k p up t = (Inl e, t')" and "e \<noteq> Recorder_failed"
  shows "core t' = core t"
  using assms
  by (auto simp: open_call_def reject_def record_usage_def and_then_def core_facts Let_def
      split: option.splits if_splits sum.splits recorder_reply.splits)

theorem refused_call_takes_nothing_witness:
  "core (snd (open_call (example_env\<lparr>kill_switch := False\<rparr>) example_config 20 None None None 0 (fresh_tracker 0)))
     = core (fresh_tracker 0)"
  by (rule refused_call_takes_nothing
        [of "example_env\<lparr>kill_switch := False\<rparr>" example_config 20 None None None 0 "fresh_tracker 0"
          "Budget_exceeded (refusal PAID_EXECUTION_DISABLED ''kill_switch_activated'' ''failed'')"])
     (simp_all add: open_call_def reject_def fresh_tracker_def)

text \<open>Admission is durable before the request is sent: when \<open>open_call\<close> returns and a recorder is
  present, the last thing it did was to write a snapshot that already counts the call.\<close>

theorem admission_is_durable_first:
  assumes "open_call v c est req k p up t = (Inr (seq, allowed), t')" and "recorder v \<noteq> None"
  shows "\<exists>u. last (trace t') = Durable u \<and> count_of u Model_calls = count t Model_calls + 1 \<and>
    seq = count t Model_calls + 1"
proof -
  have snap: "count_of (ledger_snapshot v s) Model_calls = count s Model_calls" for s
    by (simp add: ledger_snapshot_def count_of_def LEDGER_COUNTERS_def)
  show ?thesis
    using assms
    by (auto simp: open_call_def reject_def record_usage_def and_then_def log_effect_def Let_def snap
        split: option.splits if_splits sum.splits recorder_reply.splits)
qed

theorem admission_is_durable_first_witness:
  "\<exists>u. last (trace opened) = Durable u \<and> count_of u Model_calls = 1"
  using admission_is_durable_first [OF opened_result] by (simp add: example_env_def fresh_tracker_def)

section \<open>Where the accounting gives way\<close>

lemma core_settle_no_settler:
  assumes "settler v = None"
  shows "core (snd (settle_call v c oi oo i ou cost st sq u m t)) = core (settled_state oi oo i ou cost st sq u t)"
proof -
  have tail: "core (snd (let t5 = (if d then log_effect x t4 else t4)
                in case overage c t5 of None \<Rightarrow> (Inr (), t5)
                   | Some e \<Rightarrow> raise_stop v e (log_effect (y e) t5))) = core t4" for d x y t4
    by (simp add: Let_def core_facts split: option.split)
  have rec: "core (snd (and_then (record_usage v t3) (\<lambda>_ t4. (let t5 = (if d then log_effect x t4 else t4)
                in case overage c t5 of None \<Rightarrow> (Inr (), t5)
                   | Some e \<Rightarrow> raise_stop v e (log_effect (y e) t5))))) = core t3" for d x y t3
    by (rule core_record_then) (rule tail)
  show ?thesis
    unfolding settle_call_def settled_state_def
    using assms by (simp add: rec [unfolded Let_def] core_facts Let_def split: option.split)
qed

text \<open>Settling a call a second time is not a no-op when the settlement brings its own numbers, as
  the guarded client's settlements do: the second one hands back output tokens that other open
  calls still hold.\<close>

theorem second_settlement_releases_others:
  assumes "map_of (open_reservations t) s = None" and "settler v = None"
    and "0 < n" and "n \<le> reserved_output_tokens t"
    and t': "t' = snd (settle_call v c 0 (Some n) 0 0 None ''released'' (Some s) None [] t)"
  shows "reserved_output_tokens t' = reserved_output_tokens t - n \<and> open_reservations t' = open_reservations t"
proof -
  have "core t' = core (settled_state 0 (Some n) 0 0 None ''released'' (Some s) None t)"
    unfolding t' by (rule core_settle_no_settler [OF assms(2)])
  then have "reserved_output_tokens t' = reserved_output_tokens (settled_state 0 (Some n) 0 0 None ''released'' (Some s) None t)"
    "open_reservations t' = open_reservations (settled_state 0 (Some n) 0 0 None ''released'' (Some s) None t)"
    by (metis core_fields)+
  moreover have "AList.delete s (open_reservations t) = open_reservations t"
    using assms(1) by (simp add: delete_notin map_of_eq_None_iff)
  ultimately show ?thesis
    using assms(1,3,4) by (simp add: settled_state_def release_held_def or0_def Let_def)
qed

theorem second_settlement_releases_others_witness:
  "reserved_output_tokens (snd (settle_call example_env example_config 0 (Some 100) 0 0 None ''released''
     (Some 9) None [] (opened\<lparr>reserved_output_tokens := 150\<rparr>))) = 50"
  using second_settlement_releases_others [of "opened\<lparr>reserved_output_tokens := 150\<rparr>" 9 example_env 100 _ example_config]
  by (simp add: opened_fields example_env_def)

text \<open>A ceiling read as NaN is no ceiling: the environment parser accepts \<open>nan\<close> for a dollar limit
  (only values at most zero are refused), and the gate then behaves exactly as if the limit were
  unset.\<close>

theorem nan_dollar_ceiling_is_no_ceiling:
  "env_float (\<lambda>_. Some ''nan'') key = Inr (Some NaN) \<and>
   open_call v (c\<lparr>max_cost_per_run := Some NaN\<rparr>) est req k p up t =
     open_call v (c\<lparr>max_cost_per_run := None\<rparr>) est req k p up t"
proof -
  have 1: "env_float (\<lambda>_. Some ''nan'') key = Inr (Some NaN)"
    by (simp add: env_float_def env_raw_def py_float_def py_strip_def py_lower_def lower_char_def
        is_space_def float_magnitude_def not_positive_def)
  have cap: "capacity_refusal v (c\<lparr>max_cost_per_run := Some NaN\<rparr>) e t =
      capacity_refusal v (c\<lparr>max_cost_per_run := None\<rparr>) e t" for e
    by (simp add: capacity_refusal_def reached_def remaining_output_def)
  have con: "contract_check v (c\<lparr>max_cost_per_run := Some NaN\<rparr>) t k p up req al =
      contract_check v (c\<lparr>max_cost_per_run := None\<rparr>) t k p up req al" for al
    by (simp add: contract_check_def above_def Let_def split: option.split)
  have rest: "remaining_output (c\<lparr>max_cost_per_run := x\<rparr>) e t = remaining_output c e t"
    "daily_reservations v (c\<lparr>max_cost_per_run := x\<rparr>) = daily_reservations v c"
    "commit_call (c\<lparr>max_cost_per_run := x\<rparr>) = commit_call c" for x e
    by (simp_all add: remaining_output_def daily_reservations_def commit_call_def fun_eq_iff)
  have "open_call v (c\<lparr>max_cost_per_run := Some NaN\<rparr>) est req k p up t =
      open_call v (c\<lparr>max_cost_per_run := None\<rparr>) est req k p up t"
    unfolding open_call_def cap con rest ..
  with 1 show ?thesis ..
qed

text \<open>The pre-execution cost check of a standalone search does not count the dollars that calls in
  flight hold: a search that fits what is recorded is charged although, with the open
  reservations, the run is then committed above its dollar ceiling.\<close>

theorem search_charge_ignores_reserved_dollars:
  assumes "map_of (open_search_reservations t) s = Some 1" and "max_cost_per_run c = Some (Finite l)"
    and "0 \<le> x" and "amount t Actual_cost + x \<le> l" and "l < dollars_committed t + x"
    and "recorder v = None" and "fits (max_search_invocations_per_run c) (count t Search_invocations + 1)"
  shows "fst (settle_search v c s (Some 1) (Some x) True t) = Inr () \<and>
    l < dollars_committed (snd (settle_search v c s (Some 1) (Some x) True t))"
proof -
  have "settle_search v c s (Some 1) (Some x) True t = (Inr (), add_search 1 x (release_search s 1 t))"
    using assms by (simp add: settle_search_def Let_def record_usage_def not_over [symmetric] add_search_def)
  then show ?thesis using assms(5) by (simp add: dollars_committed_def add_search_def)
qed

theorem search_charge_ignores_reserved_dollars_witness:
  "1 < dollars_committed (snd (settle_search (example_env\<lparr>recorder := None\<rparr>) example_config 1 (Some 1) (Some (1 / 2)) True
     ((fresh_tracker 0)\<lparr>reserved_cost := 3 / 4, open_search_reservations := [(1, 1)]\<rparr>)))"
  using search_charge_ignores_reserved_dollars [of "(fresh_tracker 0)\<lparr>reserved_cost := 3 / 4,
      open_search_reservations := [(1, 1)]\<rparr>" 1 example_config 1 "1 / 2" "example_env\<lparr>recorder := None\<rparr>"]
  by (simp add: example_config_def example_env_def fresh_tracker_def dollars_committed_def)

section \<open>Restore\<close>

definition raw_record :: "usage \<Rightarrow> (usage_field \<times> pyval) list" where
  "raw_record u =
     map (\<lambda>f. (f, PInt (count_of u f))) (LEDGER_COUNTERS @ [Total_tokens] @ LEDGER_METADATA) @
     map (\<lambda>f. (f, PFloat (Finite (amount_of u f)))) LEDGER_AMOUNTS"

lemma map_of_tabulate: "map_of (map (\<lambda>f. (f, g f)) fs) f = (if f \<in> set fs then Some (g f) else None)"
  by (induction fs) auto

lemma raw_record_lookup:
  "map_of (raw_record u) f =
     (if f \<in> set LEDGER_AMOUNTS then Some (PFloat (Finite (amount_of u f)))
      else if f \<in> set (LEDGER_COUNTERS @ [Total_tokens] @ LEDGER_METADATA) then Some (PInt (count_of u f))
      else None)"
proof -
  have "set LEDGER_AMOUNTS \<inter> set (LEDGER_COUNTERS @ [Total_tokens] @ LEDGER_METADATA) = {}"
    by (auto simp: field_list_defs)
  then show ?thesis
    by (auto simp: raw_record_def map_of_tabulate map_add_def split: option.split)
qed

lemma parse_counters_ok:
  "\<forall>f \<in> set fs. \<exists>n \<ge> 0. map_of snap f = Some (PInt n) \<Longrightarrow> \<exists>q. parse_counters fs snap p = Inr q"
  by (induction fs arbitrary: p) (auto simp: counter_value_def)

lemma parse_amounts_ok:
  "\<forall>f \<in> set fs. \<exists>r \<ge> 0. map_of snap f = Some (PFloat (Finite r)) \<Longrightarrow> \<exists>q. parse_amounts fs snap p = Inr q"
  by (induction fs arbitrary: p) (auto simp: amount_value_def)

lemma validate_raw_record:
  assumes n: "\<forall>f \<in> set (LEDGER_COUNTERS @ LEDGER_METADATA). 0 \<le> count_of u f"
    and r: "\<forall>f \<in> set LEDGER_AMOUNTS. 0 \<le> amount_of u f"
    and total: "count_of u Total_tokens = count_of u Input_tokens + count_of u Output_tokens"
  obtains p where "validate_usage_snapshot (Mapping (raw_record u)) = Inr p"
    "\<And>f. f \<in> set (LEDGER_COUNTERS @ LEDGER_METADATA) \<Longrightarrow> count_of p f = count_of u f"
    "\<And>f. f \<in> set LEDGER_AMOUNTS \<Longrightarrow> amount_of p f = amount_of u f"
proof -
  let ?s = "raw_record u"
  have disj: "f \<notin> set LEDGER_AMOUNTS" if "f \<in> set (LEDGER_COUNTERS @ [Total_tokens] @ LEDGER_METADATA)" for f
    using that by (auto simp: field_list_defs)
  have c: "\<forall>f \<in> set (LEDGER_COUNTERS @ LEDGER_METADATA). \<exists>n \<ge> 0. map_of ?s f = Some (PInt n)"
    using n disj by (auto simp: raw_record_lookup)
  obtain p1 where p1: "parse_counters LEDGER_COUNTERS ?s empty_usage = Inr p1"
    using parse_counters_ok [of LEDGER_COUNTERS ?s] c by auto
  obtain p2 where p2: "parse_amounts LEDGER_AMOUNTS ?s p1 = Inr p2"
    using parse_amounts_ok [of LEDGER_AMOUNTS ?s] r by (auto simp: raw_record_lookup)
  obtain p3 where p3: "parse_counters LEDGER_METADATA ?s p2 = Inr p3"
    using parse_counters_ok [of LEDGER_METADATA ?s] c by auto
  have "map_of ?s Total_tokens = Some (PInt (count_of u Total_tokens))"
    "map_of ?s Input_tokens = Some (PInt (count_of u Input_tokens))"
    "map_of ?s Output_tokens = Some (PInt (count_of u Output_tokens))"
    by (simp_all add: raw_record_lookup field_list_defs)
  moreover have "0 \<le> count_of u Input_tokens" "0 \<le> count_of u Output_tokens"
    using n by (simp_all add: LEDGER_COUNTERS_def)
  ultimately obtain p where p: "parse_total ?s p3 = Inr p"
    using total by (simp add: parse_total_def counter_value_def get_counter_def)
  have v: "validate_usage_snapshot (Mapping ?s) = Inr p"
    by (simp add: validate_usage_snapshot_def p1 p2 p3 p)
  have "count_of p f = count_of u f" if "f \<in> set (LEDGER_COUNTERS @ LEDGER_METADATA)" for f
    using validate_counts [OF v that] disj that by (auto simp: raw_record_lookup count_of_def)
  moreover have "amount_of p f = amount_of u f" if "f \<in> set LEDGER_AMOUNTS" for f
  proof -
    have "amounts p f = amounts p2 f"
      using parse_total_Inr [OF p] parse_counters_amounts [OF p3] by simp
    moreover have "amount_value (PFloat (Finite (amount_of u f))) = Inr (amount_of u f)"
      using r that by (auto simp: amount_value_def)
    ultimately show ?thesis
      using parse_amounts_Inr [OF p2, of f] that by (simp add: raw_record_lookup amount_of_def [of p])
  qed
  ultimately show thesis using that [OF v] by blast
qed

text \<open>Restoring a ledger snapshot loses nothing: a fresh tracker that restores what another
  tracker of the run recorded has every counter of it, every amount to the recorded six decimals,
  its write sequence number, and has been running for as long (to the millisecond).\<close>

theorem restore_resumes_the_record:
  assumes "\<forall>f. 0 \<le> count t f" and "\<forall>f. 0 \<le> amount t f" and "0 \<le> elapsed v t"
    and "0 \<le> ledger_version t"
    and out: "out = restore_snapshot v' (Mapping (raw_record (ledger_snapshot v t))) (fresh_tracker x)"
  shows "fst out = Inr () \<and>
    (\<forall>f \<in> set LEDGER_COUNTERS. count (snd out) f = count t f) \<and>
    (\<forall>f \<in> set LEDGER_AMOUNTS - {Elapsed_seconds}. amount (snd out) f = py_round 6 (amount t f)) \<and>
    elapsed v' (snd out) = py_round 3 (elapsed v t) \<and> ledger_version (snd out) = ledger_version t"
proof -
  let ?u = "ledger_snapshot v t"
  have cs: "count_of ?u f = count t f" if "f \<in> set LEDGER_COUNTERS" for f
    using that by (simp add: ledger_snapshot_def count_of_def)
  have ver: "count_of ?u Ledger_version = ledger_version t" "count_of ?u Schema_version = 2"
    by (simp_all add: ledger_snapshot_def count_of_def LEDGER_COUNTERS_def LEDGER_SCHEMA_VERSION_def)
  have am: "amount_of ?u f = (if f = Elapsed_seconds then py_round 3 (elapsed v t) else py_round 6 (amount t f))"
    if "f \<in> set LEDGER_AMOUNTS" for f
    using that by (simp add: ledger_snapshot_def amount_of_def)
  have n: "\<forall>f \<in> set (LEDGER_COUNTERS @ LEDGER_METADATA). 0 \<le> count_of ?u f"
    using assms(1,4) cs ver by (auto simp: LEDGER_METADATA_def)
  have r: "\<forall>f \<in> set LEDGER_AMOUNTS. 0 \<le> amount_of ?u f"
    using assms(2,3) am by (auto simp: py_round_nonneg)
  have total: "count_of ?u Total_tokens = count_of ?u Input_tokens + count_of ?u Output_tokens"
    by (simp add: ledger_snapshot_def count_of_def LEDGER_COUNTERS_def)
  obtain p where p: "validate_usage_snapshot (Mapping (raw_record ?u)) = Inr p"
    "\<And>f. f \<in> set (LEDGER_COUNTERS @ LEDGER_METADATA) \<Longrightarrow> count_of p f = count_of ?u f"
    "\<And>f. f \<in> set LEDGER_AMOUNTS \<Longrightarrow> amount_of p f = amount_of ?u f"
    by (rule validate_raw_record [OF n r total]) blast
  have known: "list_all (\<lambda>(f, x). f \<in> set LEDGER_SNAPSHOT_FIELDS) (raw_record ?u)"
    by (auto simp: raw_record_def LEDGER_SNAPSHOT_FIELDS_def LEDGER_DERIVED_def list_all_iff)
  have fresh: "tracker_is_fresh (fresh_tracker x)"
    by (simp add: tracker_is_fresh_def fresh_tracker_def list_all_iff)
  have el: "amount_of p Elapsed_seconds = py_round 3 (elapsed v t)"
    using p(3) [of Elapsed_seconds] am [of Elapsed_seconds] by (simp add: LEDGER_AMOUNTS_def)
  have lv: "count_of p Ledger_version = ledger_version t"
    using p(2) [of Ledger_version] ver by (simp add: LEDGER_METADATA_def)
  show ?thesis
    unfolding out restore_snapshot_def
    using p known fresh cs am el lv by (simp add: elapsed_def)
qed

theorem restore_resumes_the_record_witness:
  "fst (restore_snapshot example_env (Mapping (raw_record (ledger_snapshot example_env (fresh_tracker 3))))
     (fresh_tracker 9)) = Inr ()"
  using restore_resumes_the_record [of "fresh_tracker 3" example_env _ example_env 9]
  by (simp add: fresh_tracker_def elapsed_def example_env_def)

end
