(* ===== verification/Guarded_Client.thy ===== *)
theory Guarded_Client
  imports Budget_Safety Provider_Outcome
begin

text \<open>
  The guarded client of \<open>backend/budget.py\<close> (\<open>_GuardedCompletions.create\<close>): price, cap and
  worst case before the request, one reservation around it, and a settlement on every way out.
  The provider is a parameter: \<open>reply\<close> is what the inner client (stream assembly included) did.
  Exceptions live in a heap as in \<open>Provider_Outcome\<close>.
\<close>

section \<open>The output cap on the wire\<close>

definition DEFAULT_OUTPUT_CAP :: int where "DEFAULT_OUTPUT_CAP = 1024"

datatype cap_error = Cap_not_integer | Cap_not_positive | Cap_overflow

text \<open>The caller's two spellings, in \<open>OUTPUT_CAP_ALIASES\<close> order.\<close>

record cap_fields =
  max_completion_tokens :: pyval
  max_tokens :: pyval

definition cap_value :: "pyval \<Rightarrow> cap_error + int" where
  "cap_value v =
     (case int_of_pyval v of
        Inl e \<Rightarrow> Inl (if e = Overflow_error then Cap_overflow else Cap_not_integer)
      | Inr n \<Rightarrow> if n \<le> 0 then Inl Cap_not_positive else Inr n)"

definition read_output_cap :: "cap_fields \<Rightarrow> cap_error + int option" where
  "read_output_cap k =
     (if max_completion_tokens k \<noteq> PNone then res_bind (cap_value (max_completion_tokens k)) (\<lambda>n. Inr (Some n))
      else if max_tokens k \<noteq> PNone then res_bind (cap_value (max_tokens k)) (\<lambda>n. Inr (Some n))
      else Inr None)"

text \<open>Exactly one spelling leaves: the one the model's profile names.\<close>

definition apply_output_cap :: "int \<Rightarrow> output_cap_field \<Rightarrow> cap_fields \<Rightarrow> cap_fields" where
  "apply_output_cap cap field k =
     (case field of
        Cap_max_completion_tokens \<Rightarrow> \<lparr>max_completion_tokens = PInt cap, max_tokens = PNone\<rparr>
      | Cap_max_tokens \<Rightarrow> \<lparr>max_completion_tokens = PNone, max_tokens = PInt cap\<rparr>)"

text \<open>\<open>lengths\<close>: the lengths of \<open>str(content)\<close>, message by message.\<close>

definition CHARS_PER_TOKEN :: int where "CHARS_PER_TOKEN = 4"

definition estimate_message_tokens :: "int list \<Rightarrow> int" where
  "estimate_message_tokens lengths = max 1 (sum_list lengths div CHARS_PER_TOKEN)"

section \<open>One guarded call\<close>

record chat_request =
  rq_model :: string
  rq_messages :: json
  rq_lengths :: "int list"
  rq_tools :: json
  rq_response_format :: json
  rq_caps :: cap_fields
  rq_stream :: bool
  rq_contract :: "call_contract option"

record chat_response =
  rs_usage :: "usage_block option"
  rs_content :: "string option"
  rs_usage_cost :: "rat option"
  rs_usage_total_cost :: "rat option"
  rs_cost :: "rat option"

datatype reply = Answered chat_response | Raised nat

text \<open>
  What \<open>create\<close> raises: the kind, the exception it was raised while handling
  (\<open>__context__\<close>), and \<open>provider_request_completed\<close>.
\<close>

datatype failure_kind =
    Refused exceeded
  | Bad_cap cap_error
  | Unmeasurable admission_error
  | Gate budget_error
  | Provider_raised nat
  | Usage_unreadable
  | Settlement budget_error
  | Charge budget_error

record client_failure =
  kind :: failure_kind
  while_handling :: "nat option"
  completed_mark :: "bool option"

definition failure :: "failure_kind \<Rightarrow> nat option \<Rightarrow> bool option \<Rightarrow> client_failure" where
  "failure k ctx mark = \<lparr>kind = k, while_handling = ctx, completed_mark = mark\<rparr>"

text \<open>The byte-bounded worst-case input of a contract call; a call without one carries 0.\<close>

definition input_bound :: "chat_request \<Rightarrow> admission_error + int" where
  "input_bound rq =
     (if rq_contract rq = None then Inr 0
      else res_bind (conservative_input_tokens (rq_messages rq) (rq_tools rq)) (\<lambda>n.
        if rq_response_format rq = JNull then Inr (int n)
        else res_bind (measured_bytes (rq_response_format rq)) (\<lambda>m. Inr (int n + int m))))"

text \<open>\<open>a or b or c\<close> of optional numbers.\<close>

definition first_truthy :: "rat option \<Rightarrow> rat option \<Rightarrow> rat option" where
  "first_truthy a b = (case a of Some x \<Rightarrow> if x = 0 then b else a | None \<Rightarrow> b)"

definition reported_cost :: "chat_response \<Rightarrow> rat option" where
  "reported_cost r = first_truthy (rs_usage_cost r) (first_truthy (rs_usage_total_cost r) (rs_cost r))"

definition empty_usage_block :: usage_block where
  "empty_usage_block = \<lparr>prompt_tokens = PNone, completion_tokens = PNone, cached_tokens_top = PNone,
     details_cached_tokens = PNone, details_cache_write_tokens = PNone, details_cache_write_ttl = PNone,
     details_cache_ttl = PNone, usage_cache_write_ttl = PNone, usage_cache_ttl = PNone,
     completion_reasoning_tokens = PNone\<rparr>"

definition unmeasured :: "int \<Rightarrow> int \<Rightarrow> usage_breakdown" where
  "unmeasured i ou = \<lparr>input_tokens_of = i, output_tokens_of = ou, cached_input_tokens_of = None,
     cache_write_tokens_of = None, cache_write_ttl_of = TTL_5m, reasoning_tokens_of = None,
     answer_tokens_of = None, reasoning_tokens_estimated_of = None, reasoning_estimated_of = False\<rparr>"

text \<open>\<open>x or y\<close> for integers.\<close>

definition int_or :: "int \<Rightarrow> int \<Rightarrow> int" where
  "int_or x y = (if x = 0 then y else x)"

type_synonym 'a client_result = "(client_failure + 'a) \<times> tracker"

text \<open>After the provider raised: settle, then charge the one allowance the outcome names.\<close>

definition failed_call ::
  "env \<Rightarrow> budget_config \<Rightarrow> chat_request \<Rightarrow> model_profile \<Rightarrow> exn_heap \<Rightarrow> nat \<Rightarrow> int \<Rightarrow> int \<Rightarrow> int \<Rightarrow> int \<Rightarrow>
     tracker \<Rightarrow> chat_response client_result" where
  "failed_call v c rq p heap i estimated upper cap seq t =
     (let verdict = classify_outcome heap (Some i);
          whole = (rq_contract rq \<noteq> None \<and> \<not> completion_proven verdict);
          charged_input = (if whole then int_or upper estimated else 0);
          charged_output = (if whole then cap else 0);
          charged_cost = (if whole then worst_case_cost p charged_input charged_output else 0);
          charged_usage = (if whole then Some (unmeasured charged_input charged_output) else None)
      in case settle_call v c estimated (Some cap) charged_input charged_output (Some charged_cost)
                ''released'' (Some seq) charged_usage (if whole then rq_model rq else []) t of
           (Inl e, t') \<Rightarrow> (Inl (failure (Settlement e) (Some i) (Some (completion_proven verdict))), t')
         | (Inr _, t') \<Rightarrow>
             (case (if is_backpressure verdict then record_provider_backpressure v t'
                    else if consumes_semantic_retry verdict then record_retry v c t'
                    else (Inr (), t')) of
                (Inl e, t'') \<Rightarrow> (Inl (failure (Charge e) (Some i) None), t'')
              | (Inr _, t'') \<Rightarrow> (Inl (failure (Provider_raised i) None None), t'')))"

text \<open>After an answer: read the usage, price it, settle.\<close>

definition answered_call ::
  "env \<Rightarrow> budget_config \<Rightarrow> chat_request \<Rightarrow> model_profile \<Rightarrow> int option \<Rightarrow> chat_response \<Rightarrow> int \<Rightarrow> int \<Rightarrow> int \<Rightarrow>
     int \<Rightarrow> tracker \<Rightarrow> chat_response client_result" where
  "answered_call v c rq p counter r estimated upper cap seq t =
     (case read_usage counter (case rs_usage r of None \<Rightarrow> empty_usage_block | Some u \<Rightarrow> u) (rs_content r) of
        Inl e \<Rightarrow> (Inl (failure Usage_unreadable None None), t)
      | Inr b0 \<Rightarrow>
          (let silent = (rs_usage r = None \<and> rq_stream rq);
               b = (if silent
                    then b0\<lparr>input_tokens_of := max (input_tokens_of b0) (int_or upper estimated),
                            output_tokens_of := max (output_tokens_of b0) cap\<rparr>
                    else b0);
               cost = (case reported_cost r of
                         Some x \<Rightarrow> x
                       | None \<Rightarrow> usage_cost p (input_tokens_of b) (output_tokens_of b)
                                   (cached_input_tokens_of b) (cache_write_tokens_of b) (cache_write_ttl_of b))
           in case settle_call v c estimated (Some cap) (input_tokens_of b) (output_tokens_of b) (Some cost)
                     ''settled'' (Some seq) (Some b) (rq_model rq) t of
                (Inl e, t') \<Rightarrow> (Inl (failure (Settlement e) None (Some True)), t')
              | (Inr _, t') \<Rightarrow> (Inr r, t')))"

definition create ::
  "env \<Rightarrow> budget_config \<Rightarrow> int option \<Rightarrow> exn_heap \<Rightarrow> (cap_fields \<Rightarrow> reply) \<Rightarrow> chat_request \<Rightarrow> tracker \<Rightarrow>
     chat_response client_result" where
  "create v c counter heap inner rq t =
     (case get_profile (rq_model rq) of
        None \<Rightarrow>
          (let (e, t') = refuse_call v (refusal MODEL_PROFILE_UNKNOWN_CODE ''run_failed'' ''failed'') t
           in (Inl (failure (Refused e) None (Some True)), t'))
      | Some p \<Rightarrow>
          (let estimated = estimate_message_tokens (rq_lengths rq) in
           case read_output_cap (rq_caps rq) of
             Inl e \<Rightarrow> (Inl (failure (Bad_cap e) None None), t)
           | Inr declared \<Rightarrow>
               (let requested = (case declared of None \<Rightarrow> DEFAULT_OUTPUT_CAP | Some n \<Rightarrow> n);
                    t1 = (if declared = None then note_missing_output_cap (rq_model rq) t else t)
                in case input_bound rq of
                     Inl e \<Rightarrow> (Inl (failure (Unmeasurable e) None (Some True)), t1)
                   | Inr upper \<Rightarrow>
                       (case open_call v c estimated (Some requested) (rq_contract rq)
                               (if rq_contract rq = None then None else Some p) upper t1 of
                          (Inl e, t2) \<Rightarrow> (Inl (failure (Gate e) None (Some True)), t2)
                        | (Inr (seq, allowed), t2) \<Rightarrow>
                            (let cap = (case allowed of None \<Rightarrow> requested | Some a \<Rightarrow> a) in
                             case inner (apply_output_cap cap (cap_field p) (rq_caps rq)) of
                               Raised i \<Rightarrow> failed_call v c rq p heap i estimated upper cap seq t2
                             | Answered r \<Rightarrow> answered_call v c rq p counter r estimated upper cap seq t2)))))"

text \<open>What the scheduler asks of the raised exception: is the provider request provably over?\<close>

definition raised_exn :: "client_failure \<Rightarrow> exn" where
  "raised_exn f = \<lparr>class_name = ''BudgetExceeded'', text_of = [], cause = None,
     exn_context = while_handling f, status_code = PNone, response_of = None,
     provider_request_completed = completed_mark f, is_cancellation = False\<rparr>"

definition failure_proves_completion :: "exn_heap \<Rightarrow> client_failure \<Rightarrow> bool" where
  "failure_proves_completion heap f =
     (case kind f of
        Provider_raised i \<Rightarrow> completion_proven (classify_outcome heap (Some i))
      | _ \<Rightarrow> (let fresh = Suc (Max (insert 0 (fst ` set heap)))
             in completion_proven (classify_outcome ((fresh, raised_exn f) # heap) (Some fresh))))"

section \<open>Every ending settles\<close>

lemma settled_releases:
  assumes "settler v = None"
  shows "open_reservations (snd (settle_call v c oi oo i ou cost st (Some s) u m t)) =
      AList.delete s (open_reservations t)"
    and "open_cost_reservations (snd (settle_call v c oi oo i ou cost st (Some s) u m t)) =
      AList.delete s (open_cost_reservations t)"
    and "amount (snd (settle_call v c oi oo i ou cost st (Some s) u m t)) Actual_cost =
      amount t Actual_cost + positive_part cost"
proof -
  note core = arg_cong [where f = open_reservations, OF core_settle_no_settler [OF assms]]
    arg_cong [where f = open_cost_reservations, OF core_settle_no_settler [OF assms]]
    arg_cong [where f = "\<lambda>t. amount t Actual_cost", OF core_settle_no_settler [OF assms]]
  show "open_reservations (snd (settle_call v c oi oo i ou cost st (Some s) u m t)) =
      AList.delete s (open_reservations t)"
    "open_cost_reservations (snd (settle_call v c oi oo i ou cost st (Some s) u m t)) =
      AList.delete s (open_cost_reservations t)"
    "amount (snd (settle_call v c oi oo i ou cost st (Some s) u m t)) Actual_cost =
      amount t Actual_cost + positive_part cost"
    using core [of c oi oo i ou cost st "Some s" u m t]
    by (simp_all add: settled_state_def release_held_def Let_def split: prod.splits)
qed

text \<open>The counters charged after a settlement keep the accounting.\<close>

definition same_books :: "tracker \<Rightarrow> tracker \<Rightarrow> bool" where
  "same_books t t' =
     (open_reservations t' = open_reservations t \<and> open_cost_reservations t' = open_cost_reservations t \<and>
      amount t' = amount t)"

lemma same_books_core: "core t' = core (add_count f n t) \<Longrightarrow> same_books t t'"
  unfolding same_books_def by (metis core_fields add_count_fields)

lemma retry_books: "same_books t (snd (record_retry v c t))"
  by (rule same_books_core) (rule core_retry)

lemma backpressure_books: "same_books t (snd (record_provider_backpressure v t))"
  by (rule same_books_core) (simp add: record_provider_backpressure_def core_facts)

lemma same_books_refl [simp]: "same_books t t"
  by (simp add: same_books_def)

text \<open>What follows the settlement of a failed call.\<close>

definition charge_failure ::
  "env \<Rightarrow> budget_config \<Rightarrow> verdict \<Rightarrow> nat \<Rightarrow> unit budget_result \<Rightarrow> chat_response client_result" where
  "charge_failure v c verdict i r =
     (case r of
        (Inl e, t') \<Rightarrow> (Inl (failure (Settlement e) (Some i) (Some (completion_proven verdict))), t')
      | (Inr _, t') \<Rightarrow>
          (case (if is_backpressure verdict then record_provider_backpressure v t'
                 else if consumes_semantic_retry verdict then record_retry v c t'
                 else (Inr (), t')) of
             (Inl e, t'') \<Rightarrow> (Inl (failure (Charge e) (Some i) None), t'')
           | (Inr _, t'') \<Rightarrow> (Inl (failure (Provider_raised i) None None), t'')))"

lemma charge_failure_books: "same_books (snd r) (snd (charge_failure v c verdict i r))"
  using retry_books [of "snd r" v c] backpressure_books [of "snd r" v]
  by (auto simp: charge_failure_def split: prod.split sum.split)

lemma failed_call_charge:
  obtains ci co cc cu m where "failed_call v c rq p heap i est up cap s t =
      charge_failure v c (classify_outcome heap (Some i)) i
        (settle_call v c est (Some cap) ci co (Some cc) ''released'' (Some s) cu m t)"
    "rq_contract rq \<noteq> None \<and> \<not> completion_proven (classify_outcome heap (Some i)) \<longrightarrow>
       cc = worst_case_cost p (int_or up est) cap"
  unfolding failed_call_def Let_def charge_failure_def by fastforce

lemma failed_call_books:
  assumes "settler v = None"
  shows "open_reservations (snd (failed_call v c rq p heap i est up cap s t)) = AList.delete s (open_reservations t)"
    "open_cost_reservations (snd (failed_call v c rq p heap i est up cap s t)) = AList.delete s (open_cost_reservations t)"
    "rq_contract rq \<noteq> None \<Longrightarrow> \<not> completion_proven (classify_outcome heap (Some i)) \<Longrightarrow>
      amount (snd (failed_call v c rq p heap i est up cap s t)) Actual_cost =
        amount t Actual_cost + positive_part (Some (worst_case_cost p (int_or up est) cap))"
proof -
  obtain ci co cc cu m where f: "failed_call v c rq p heap i est up cap s t =
      charge_failure v c (classify_outcome heap (Some i)) i
        (settle_call v c est (Some cap) ci co (Some cc) ''released'' (Some s) cu m t)"
    and cc: "rq_contract rq \<noteq> None \<and> \<not> completion_proven (classify_outcome heap (Some i)) \<longrightarrow>
       cc = worst_case_cost p (int_or up est) cap"
    by (rule failed_call_charge)
  have books: "same_books (snd (settle_call v c est (Some cap) ci co (Some cc) ''released'' (Some s) cu m t))
      (snd (failed_call v c rq p heap i est up cap s t))"
    unfolding f by (rule charge_failure_books)
  show "open_reservations (snd (failed_call v c rq p heap i est up cap s t)) = AList.delete s (open_reservations t)"
    "open_cost_reservations (snd (failed_call v c rq p heap i est up cap s t)) = AList.delete s (open_cost_reservations t)"
    "rq_contract rq \<noteq> None \<Longrightarrow> \<not> completion_proven (classify_outcome heap (Some i)) \<Longrightarrow>
      amount (snd (failed_call v c rq p heap i est up cap s t)) Actual_cost =
        amount t Actual_cost + positive_part (Some (worst_case_cost p (int_or up est) cap))"
    using books settled_releases [OF assms] cc by (simp_all add: same_books_def)
qed

lemma answered_call_books:
  assumes "settler v = None"
  shows "open_reservations (snd (answered_call v c rq p k r est up cap s t)) = AList.delete s (open_reservations t) \<or>
    (\<exists>f. fst (answered_call v c rq p k r est up cap s t) = Inl f \<and> kind f = Usage_unreadable)"
  using settled_releases(1) [OF assms]
  by (auto simp: answered_call_def failure_def Let_def split: sum.splits prod.splits)
     (metis snd_conv)+

lemma opened_seq:
  assumes "open_call v c est req k p up t = (Inr (s, al), t')"
  shows "s = count t Model_calls + 1"
  using assms
  by (auto simp: open_call_def reject_def record_usage_def and_then_def Let_def
      split: option.splits if_splits sum.splits recorder_reply.splits)

lemma opened_books:
  assumes "open_call v c est req k p up t = (r, t')"
  shows "open_reservations t' = open_reservations t \<or>
    (\<exists>x. open_reservations t' = open_reservations t @ [(count t Model_calls + 1, x)])"
proof -
  have t': "t' = snd (open_call v c est req k p up t)" using assms by simp
  from core_open_call [of v c est req k p up t, folded t'] show ?thesis
  proof (elim disjE exE conjE)
    assume "core t' = core t"
    then show ?thesis by (metis core_fields(7))
  next
    fix amt worst res
    assume "core t' = core (commit_call c (max 0 est) (allowed_output (remaining_output c (max 0 est) t) req) amt worst res p t)"
    from arg_cong [where f = open_reservations, OF this] show ?thesis by simp
  qed
qed

lemma refused_books:
  assumes "open_call v c est req k p up t = (Inl e, t')" "e \<noteq> Recorder_failed"
  shows "open_reservations t' = open_reservations t"
  using assms
  by (auto simp: open_call_def reject_def record_usage_def and_then_def stop_with_def log_effect_def Let_def
      split: option.splits if_splits sum.splits recorder_reply.splits)

lemma note_books [simp]: "open_reservations (note_missing_output_cap m t) = open_reservations t"
  "count (note_missing_output_cap m t) = count t"
  by (simp_all add: note_missing_output_cap_def log_effect_def)

lemma refuse_books: "open_reservations (snd (refuse_call v e t)) = open_reservations t"
  by (auto simp: refuse_call_def reject_def stop_with_def log_effect_def Let_def split: option.split)

lemma delete_last: "s \<notin> keys d \<Longrightarrow> AList.delete s (d @ [(s, x)]) = d"
  by (induction d) (auto simp: AList.delete_eq)

text \<open>
  The three ways a guarded call ends: nothing was sent; the provider raised; the provider answered.
  Only a failed ledger write before the request can leave the call's own reservation open.
\<close>

definition sent_under ::
  "env \<Rightarrow> budget_config \<Rightarrow> (cap_fields \<Rightarrow> reply) \<Rightarrow> chat_request \<Rightarrow> model_profile \<Rightarrow> tracker \<Rightarrow>
     reply \<Rightarrow> int \<Rightarrow> int \<Rightarrow> int \<Rightarrow> tracker \<Rightarrow> bool" where
  "sent_under v c inner rq p t r upper cap seq t2 \<longleftrightarrow>
     get_profile (rq_model rq) = Some p \<and> input_bound rq = Inr upper \<and>
     inner (apply_output_cap cap (cap_field p) (rq_caps rq)) = r \<and> seq = count t Model_calls + 1 \<and>
     (\<exists>req al t1. open_call v c (estimate_message_tokens (rq_lengths rq)) (Some req) (rq_contract rq)
        (if rq_contract rq = None then None else Some p) upper t1 = (Inr (seq, al), t2) \<and>
        cap = (case al of None \<Rightarrow> req | Some a \<Rightarrow> a) \<and> (t1 = t \<or> t1 = note_missing_output_cap (rq_model rq) t))"

definition not_sent :: "client_failure + chat_response \<Rightarrow> tracker \<Rightarrow> tracker \<Rightarrow> bool" where
  "not_sent out t t' \<longleftrightarrow>
     (\<exists>k m. out = Inl (failure k None m) \<and> (\<forall>i. k \<noteq> Provider_raised i) \<and> k \<noteq> Usage_unreadable \<and>
        (open_reservations t' = open_reservations t \<or> k = Gate Recorder_failed))"

lemma not_sentI:
  assumes "out = Inl (failure k None m)" "\<forall>i. k \<noteq> Provider_raised i" "k \<noteq> Usage_unreadable"
    "k \<noteq> Gate Recorder_failed \<Longrightarrow> open_reservations t' = open_reservations t"
  shows "not_sent out t t'"
  using assms by (auto simp: not_sent_def)

lemma create_ends:
  assumes out: "create v c counter heap inner rq t = (out, t')"
  shows "not_sent out t t' \<or>
    (\<exists>p i upper cap seq t2. sent_under v c inner rq p t (Raised i) upper cap seq t2 \<and>
       (out, t') = failed_call v c rq p heap i (estimate_message_tokens (rq_lengths rq)) upper cap seq t2) \<or>
    (\<exists>p r upper cap seq t2. sent_under v c inner rq p t (Answered r) upper cap seq t2 \<and>
       (out, t') = answered_call v c rq p counter r (estimate_message_tokens (rq_lengths rq)) upper cap seq t2)"
proof (cases "get_profile (rq_model rq)")
  case None
  obtain e t2 where r: "refuse_call v (refusal MODEL_PROFILE_UNKNOWN_CODE ''run_failed'' ''failed'') t = (e, t2)"
    by fastforce
  with out None have "out = Inl (failure (Refused e) None (Some True))" "t' = t2"
    by (simp_all add: create_def)
  moreover from r refuse_books have "open_reservations t2 = open_reservations t" by (metis snd_conv)
  ultimately show ?thesis by (intro disjI1 not_sentI) auto
next
  case (Some p)
  let ?est = "estimate_message_tokens (rq_lengths rq)"
  show ?thesis
  proof (cases "read_output_cap (rq_caps rq)")
    case (Inl e)
    with out Some have "out = Inl (failure (Bad_cap e) None None)" "t' = t" by (simp_all add: create_def)
    then show ?thesis by (intro disjI1 not_sentI) auto
  next
    case (Inr declared)
    let ?req = "case declared of None \<Rightarrow> DEFAULT_OUTPUT_CAP | Some n \<Rightarrow> n"
    let ?t1 = "if declared = None then note_missing_output_cap (rq_model rq) t else t"
    let ?prof = "if rq_contract rq = None then None else Some p"
    show ?thesis
    proof (cases "input_bound rq")
      case (Inl e)
      with out Some Inr have "out = Inl (failure (Unmeasurable e) None (Some True))" "t' = ?t1"
        by (simp_all add: create_def Let_def)
      then show ?thesis by (intro disjI1 not_sentI) auto
    next
      case bound: (Inr upper)
      obtain r t2 where open_r: "open_call v c ?est (Some ?req) (rq_contract rq) ?prof upper ?t1 = (r, t2)"
        by fastforce
      show ?thesis
      proof (cases r)
        case (Inl e)
        with out Some Inr bound open_r
        have ended: "t' = t2" "out = Inl (failure (Gate e) None (Some True))"
          by (auto simp: create_def Let_def)
        have "open_reservations t2 = open_reservations t \<or> e = Recorder_failed"
          using refused_books [of v c _ _ _ _ _ ?t1 e t2] open_r Inl by (auto split: if_splits)
        with ended show ?thesis by (intro disjI1 not_sentI) auto
      next
        case (Inr pair)
        obtain seq allowed where pair: "pair = (seq, allowed)" by fastforce
        let ?cap = "case allowed of None \<Rightarrow> ?req | Some a \<Rightarrow> a"
        have seq: "seq = count t Model_calls + 1"
          using opened_seq [of v c ?est "Some ?req" "rq_contract rq" ?prof upper ?t1 seq allowed t2] open_r
          by (simp add: Inr pair)
        have sent: "sent_under v c inner rq p t (inner (apply_output_cap ?cap (cap_field p) (rq_caps rq))) upper ?cap seq t2"
          unfolding sent_under_def
        proof (intro conjI exI)
          show "open_call v c ?est (Some ?req) (rq_contract rq) ?prof upper ?t1 = (Inr (seq, allowed), t2)"
            using open_r by (simp only: Inr pair)
        qed (simp_all add: Some bound seq)
        have run: "(out, t') = (case inner (apply_output_cap ?cap (cap_field p) (rq_caps rq)) of
            Raised i \<Rightarrow> failed_call v c rq p heap i ?est upper ?cap seq t2
          | Answered r \<Rightarrow> answered_call v c rq p counter r ?est upper ?cap seq t2)"
          using out Some \<open>read_output_cap (rq_caps rq) = Inr declared\<close> bound open_r Inr pair
          by (simp add: create_def Let_def split: if_splits)
        show ?thesis
        proof (cases "inner (apply_output_cap ?cap (cap_field p) (rq_caps rq))")
          case (Raised i)
          show ?thesis
            by (rule disjI2, rule disjI1, intro exI conjI, rule sent [unfolded Raised])
               (simp add: run Raised)
        next
          case (Answered rs)
          show ?thesis
            by (rule disjI2, rule disjI2, intro exI conjI, rule sent [unfolded Answered])
               (simp add: run Answered)
        qed
      qed
    qed
  qed
qed

lemma sent_books:
  assumes "sent_under v c inner rq p t r upper cap seq t2" "count t Model_calls + 1 \<notin> keys (open_reservations t)"
  shows "AList.delete seq (open_reservations t2) = open_reservations t"
proof -
  from assms(1) obtain req al t1 where
    open_r: "open_call v c (estimate_message_tokens (rq_lengths rq)) (Some req) (rq_contract rq)
        (if rq_contract rq = None then None else Some p) upper t1 = (Inr (seq, al), t2)"
    and t1: "t1 = t \<or> t1 = note_missing_output_cap (rq_model rq) t" and seq: "seq = count t Model_calls + 1"
    unfolding sent_under_def by blast
  from opened_books [OF open_r] t1 assms(2) seq show ?thesis
    using delete_notin delete_last by (auto split: if_splits)
qed

lemma create_books:
  assumes out: "create v c counter heap inner rq t = (out, t')" and none: "settler v = None"
    and fresh: "count t Model_calls + 1 \<notin> keys (open_reservations t)"
  shows "open_reservations t' = open_reservations t \<or>
    (\<exists>f. out = Inl f \<and> (kind f = Usage_unreadable \<or> kind f = Gate Recorder_failed))"
  using create_ends [OF out]
proof (elim disjE exE conjE)
  fix p i upper cap seq t2
  assume "sent_under v c inner rq p t (Raised i) upper cap seq t2"
    and run: "(out, t') = failed_call v c rq p heap i (estimate_message_tokens (rq_lengths rq)) upper cap seq t2"
  from sent_books [OF this(1) fresh] failed_call_books(1) [OF none] show ?thesis
    by (metis run snd_conv)
next
  fix p r upper cap seq t2
  assume "sent_under v c inner rq p t (Answered r) upper cap seq t2"
    and run: "(out, t') = answered_call v c rq p counter r (estimate_message_tokens (rq_lengths rq)) upper cap seq t2"
  from sent_books [OF this(1) fresh]
    answered_call_books [OF none, of c rq p counter r "estimate_message_tokens (rq_lengths rq)" upper cap seq t2]
  show ?thesis by (metis run fst_conv snd_conv)
qed (auto simp: failure_def not_sent_def)


lemma open_call_actual:
  assumes "open_call v c est req k p up t = (r, t')"
  shows "amount t' Actual_cost = amount t Actual_cost"
proof -
  have t': "t' = snd (open_call v c est req k p up t)" using assms by simp
  from core_open_call [of v c est req k p up t, folded t'] show ?thesis
  proof (elim disjE exE conjE)
    assume "core t' = core t"
    from arg_cong [where f = "\<lambda>t. amount t Actual_cost", OF this] show ?thesis by simp
  next
    fix amt worst res
    assume "core t' = core (commit_call c (max 0 est) (allowed_output (remaining_output c (max 0 est) t) req) amt worst res p t)"
    from arg_cong [where f = "\<lambda>t. amount t Actual_cost", OF this] show ?thesis
      by (simp add: commit_call_def add_count_def add_amount_def log_effect_def Let_def split: option.splits)
  qed
qed

lemma failed_call_kind:
  "\<exists>f. fst (failed_call v c rq p heap i est up cap s t) = Inl f \<and> kind f \<noteq> Usage_unreadable \<and>
     (\<forall>e. kind f \<noteq> Gate e) \<and> (\<forall>j. kind f = Provider_raised j \<longrightarrow> j = i)"
  by (auto simp: failed_call_def failure_def Let_def split: sum.split prod.split)

lemma answered_call_kind:
  "fst (answered_call v c rq p k r est up cap s t) = Inl f \<Longrightarrow> kind f \<noteq> Provider_raised i"
  by (auto simp: answered_call_def failure_def Let_def split: sum.splits prod.splits)


section \<open>What a guarded call promises\<close>

definition example_request :: chat_request where
  "example_request = \<lparr>rq_model = ''kimi-k3'', rq_messages = JArr [], rq_lengths = [], rq_tools = JNull,
     rq_response_format = JNull, rq_caps = \<lparr>max_completion_tokens = PNone, max_tokens = PInt 400\<rparr>,
     rq_stream = True, rq_contract = Some example_contract\<rparr>"

definition dropped_exn :: exn where
  "dropped_exn = plain_exn\<lparr>class_name := ''ReadTimeout'', text_of := ''silence''\<rparr>"

definition dropped :: "tracker \<Rightarrow> chat_response client_result" where
  "dropped t = create example_env example_config None [(0, dropped_exn)] (\<lambda>_. Raised 0) example_request t"

definition sent_tracker :: tracker where
  "sent_tracker = snd (open_call example_env example_config 1 (Some 400) (Some example_contract) (Some kimi_k3) 2
     (fresh_tracker 0))"

lemma sent_worst_case: "worst_case_cost kimi_k3 2 150 = 1128 / 500000"
  by (simp add: worst_case_cost_def money_def reserve_input_price_def kimi_k3_def)

lemma sent_result:
  "open_call example_env example_config 1 (Some 400) (Some example_contract) (Some kimi_k3) 2
     (fresh_tracker 0) = (Inr (1, Some 150), sent_tracker)"
  by (simp add: sent_tracker_def open_call_def example_env_def example_config_def example_contract_def
      fresh_tracker_def capacity_refusal_def int_limit_def elapsed_def committed_input_def
      committed_output_def remaining_output_def allowed_output_def contract_check_def
      daily_reservations_def daily_reservation_def sent_worst_case record_usage_def Let_def)

lemma example_profile: "get_profile ''kimi-k3'' = Some kimi_k3"
  by (simp add: get_profile_def PROFILES_def py_strip_def is_space_def)

lemma example_bound: "input_bound example_request = Inr 2"
  by (simp add: input_bound_def example_request_def conservative_input_tokens_def measured_bytes_def
     json_len_def json_truthy_def res_bind_def)


lemma example_request_fields [simp]:
  "rq_model example_request = ''kimi-k3''" "rq_lengths example_request = []"
  "rq_contract example_request = Some example_contract"
  "rq_caps example_request = \<lparr>max_completion_tokens = PNone, max_tokens = PInt 400\<rparr>"
  by (simp_all add: example_request_def)

lemma example_create:
  "create example_env example_config counter heap (\<lambda>_. r) example_request (fresh_tracker 0) =
     (case r of
        Raised i \<Rightarrow> failed_call example_env example_config example_request kimi_k3 heap i 1 2 150 1 sent_tracker
      | Answered a \<Rightarrow>
          answered_call example_env example_config example_request kimi_k3 counter a 1 2 150 1 sent_tracker)"
  by (simp add: create_def example_profile example_bound sent_result estimate_message_tokens_def
      read_output_cap_def cap_value_def int_of_pyval_def res_bind_def)

lemma dropped_unproven:
  "\<not> completion_proven (classify_outcome [(0, dropped_exn)] (Some 0))"
  by (simp add: classify_fields [of _ _ dropped_exn] completion_is_proven_def dropped_exn_def
        plain_exn_def fired_a_total_deadline_def carries_a_complete_provider_response_def
        failed_before_the_request_was_sent_def NEVER_SENT_def plain_chain next_link_def)


lemma dropped_code: "provider_failure_code dropped_exn = None"
  by (simp add: provider_failure_code_def dropped_exn_def plain_exn_def py_lower_def lower_char_def
     claimed_status_def code_text_def)

lemma dropped_facts:
  "\<not> is_cancellation dropped_exn" "\<not> fired_a_total_deadline [(0, dropped_exn)] 0"
  "\<not> carries_a_complete_provider_response dropped_exn" "\<not> failed_before_the_request_was_sent [(0, dropped_exn)] 0"
  by (simp_all add: dropped_exn_def plain_exn_def fired_a_total_deadline_def carries_a_complete_provider_response_def
        failed_before_the_request_was_sent_def NEVER_SENT_def plain_chain next_link_def)

lemma dropped_verdict:
  "\<not> is_backpressure (classify_outcome [(0, dropped_exn)] (Some 0))"
  "consumes_semantic_retry (classify_outcome [(0, dropped_exn)] (Some 0))"
  by (simp_all add: classify_outcome_def classify_exn_def is_backpressure_def consumes_semantic_retry_def
      dropped_code dropped_facts make_verdict_def SEMANTIC_RETRY_OUTCOMES_def BACKPRESSURE_OUTCOMES_def Let_def case_prod_unfold)

lemma overage_core: "overage c (core t) = overage c t"
  by (simp add: overage_def)

lemma record_returns:
  assumes "recorder v = Some f" "\<forall>u. f u \<noteq> Write_failed"
  shows "\<exists>t'. record_usage v t = (Inr (), t') \<and> core t' = core t"
proof (cases "f (ledger_snapshot v t)")
  case (Reported_version n)
  then show ?thesis using assms(1) by (simp add: record_usage_def core_facts) (simp add: core_def)
next
  case Reported_other
  then show ?thesis using assms(1) by (simp add: record_usage_def core_facts)
qed (use assms(2) in blast)

lemma settle_returns:
  assumes "settler v = None" "recorder v = Some f" "\<forall>u. f u \<noteq> Write_failed"
    and "overage c (settled_state oi oo i ou cost st sq u t) = None"
  shows "fst (settle_call v c oi oo i ou cost st sq u m t) = Inr ()"
proof -
  have tail: "fst (and_then (record_usage v t3) (\<lambda>_ t4. (let t5 = (if d then log_effect x t4 else t4)
                in case overage c t5 of None \<Rightarrow> (Inr (), t5)
                   | Some e \<Rightarrow> raise_stop v e (log_effect (y e) t5)))) = Inr ()"
    if "core t3 = core (settled_state oi oo i ou cost st sq u t)" for d x y t3
  proof -
    obtain t4 where r: "record_usage v t3 = (Inr (), t4)" "core t4 = core t3"
      using record_returns [OF assms(2,3)] by blast
    have "overage c (if d then log_effect x t4 else t4) = None"
      using overage_core [of c t4] overage_core [of c "log_effect x t4"] overage_core [of c "settled_state oi oo i ou cost st sq u t"]
        assms(4) r(2) that by (simp add: core_facts)
    then show ?thesis by (simp add: r(1) and_then_def Let_def)
  qed
  show ?thesis
    unfolding settle_call_def
    using assms(1) tail [unfolded Let_def settled_state_def] by (simp add: core_facts Let_def split: option.split)
qed

lemma sent_fields:
  "count sent_tracker Input_tokens = 0" "count sent_tracker Output_tokens = 0" "amount sent_tracker Actual_cost = 0"
  "count sent_tracker Retries = 0"
  by (simp_all add: sent_tracker_def open_call_def example_env_def example_config_def example_contract_def
      fresh_tracker_def capacity_refusal_def int_limit_def elapsed_def committed_input_def
      committed_output_def remaining_output_def allowed_output_def contract_check_def
      daily_reservations_def daily_reservation_def sent_worst_case record_usage_def Let_def
      commit_call_def add_count_def add_amount_def log_effect_def)

definition dropped_settlement :: "unit budget_result" where
  "dropped_settlement = settle_call example_env example_config 1 (Some 150) 2 150 (Some (1128 / 500000))
     ''released'' (Some 1) (Some (unmeasured 2 150)) ''kimi-k3'' sent_tracker"

lemma dropped_settles: "fst dropped_settlement = Inr ()"
  unfolding dropped_settlement_def
  by (rule settle_returns [of _ "\<lambda>u. Reported_version (count_of u Ledger_version + 1)"])
     (simp_all add: example_env_def settled_state_def add_actuals_def add_breakdown_def unmeasured_def
       add_count_def add_amount_def release_held_def sent_fields overage_def example_config_def positive_part_def Let_def split: prod.split)

lemma dropped_retries: "count (snd dropped_settlement) Retries = 0"
proof -
  have none: "settler example_env = None" by (simp add: example_env_def)
  show ?thesis
    using arg_cong [where f = "\<lambda>t. count t Retries", OF core_settle_no_settler [OF none,
      of example_config 1 "Some 150" 2 150 "Some (1128 / 500000)" "''released''" "Some 1" "Some (unmeasured 2 150)"
      "''kimi-k3''" sent_tracker]]
    by (simp add: dropped_settlement_def settled_state_def add_actuals_def add_breakdown_def unmeasured_def
       add_count_def add_amount_def release_held_def sent_fields Let_def split: prod.split)
qed

lemma retry_returns:
  assumes "recorder v = Some f" "\<forall>u. f u \<noteq> Write_failed" "\<not> over (max_retries c) (count t Retries + 1)"
  shows "fst (record_retry v c t) = Inr ()"
proof -
  obtain t' where r: "record_usage v (add_count Retries 1 t) = (Inr (), t')" "core t' = core (add_count Retries 1 t)"
    using record_returns [OF assms(1,2)] by blast
  from arg_cong [where f = "\<lambda>t. count t Retries", OF r(2)] have "count t' Retries = count t Retries + 1"
    by (simp add: add_count_def)
  then show ?thesis using assms(3) by (simp add: record_retry_def r(1) and_then_def)
qed

lemma dropped_kind: "fst (dropped (fresh_tracker 0)) = Inl (failure (Provider_raised 0) None None)"
proof -
  have run: "dropped (fresh_tracker 0) =
      charge_failure example_env example_config (classify_outcome [(0, dropped_exn)] (Some 0)) 0 dropped_settlement"
    by (simp add: dropped_def example_create failed_call_def charge_failure_def dropped_unproven
     int_or_def sent_worst_case dropped_settlement_def Let_def)
  obtain t1 where t1: "dropped_settlement = (Inr (), t1)" "count t1 Retries = 0"
    using that [of "snd dropped_settlement"] dropped_settles dropped_retries
    by (simp add: prod_eq_iff)
  obtain t2 where "record_retry example_env example_config t1 = (Inr (), t2)"
    using retry_returns [of example_env "\<lambda>u. Reported_version (count_of u Ledger_version + 1)" example_config t1] t1(2)
    by (cases "record_retry example_env example_config t1") (auto simp: example_env_def example_config_def)
  then show ?thesis by (simp add: run t1(1) charge_failure_def dropped_verdict)
qed



text \<open>
  An unproven request is charged its whole worst case: when a role call's provider request fails
  and nothing proves it ended, the run's recorded cost grows by exactly the worst-case price of the
  input bound and the cap that was sent, never by zero.
\<close>

theorem unproven_call_is_charged_whole:
  assumes out: "create v c counter heap inner rq t = (Inl f, t')" and none: "settler v = None"
    and role: "rq_contract rq \<noteq> None" and raised: "kind f = Provider_raised i"
    and unproven: "\<not> completion_proven (classify_outcome heap (Some i))"
  shows "\<exists>p upper cap. get_profile (rq_model rq) = Some p \<and> input_bound rq = Inr upper \<and>
    inner (apply_output_cap cap (cap_field p) (rq_caps rq)) = Raised i \<and>
    amount t' Actual_cost = amount t Actual_cost +
      positive_part (Some (worst_case_cost p (int_or upper (estimate_message_tokens (rq_lengths rq))) cap))"
  using create_ends [OF out]
proof (elim disjE exE)
  assume "not_sent (Inl f) t t'"
  then show ?thesis using raised by (auto simp: not_sent_def failure_def)
next
  fix p j upper cap seq t2
  assume "sent_under v c inner rq p t (Raised j) upper cap seq t2 \<and>
    (Inl f, t') = failed_call v c rq p heap j (estimate_message_tokens (rq_lengths rq)) upper cap seq t2"
  then have sent: "sent_under v c inner rq p t (Raised j) upper cap seq t2"
    and run: "failed_call v c rq p heap j (estimate_message_tokens (rq_lengths rq)) upper cap seq t2 = (Inl f, t')"
    by simp_all
  have j: "j = i"
    using failed_call_kind [of v c rq p heap j "estimate_message_tokens (rq_lengths rq)" upper cap seq t2]
    by (simp add: run raised)
  have "amount t2 Actual_cost = amount t Actual_cost"
    using sent open_call_actual by (fastforce simp: sent_under_def note_missing_output_cap_def log_effect_def)
  with failed_call_books(3) [OF none role unproven, of c p "estimate_message_tokens (rq_lengths rq)" upper cap seq t2]
  have "amount t' Actual_cost = amount t Actual_cost +
      positive_part (Some (worst_case_cost p (int_or upper (estimate_message_tokens (rq_lengths rq))) cap))"
    by (simp add: run [unfolded j])
  with sent show ?thesis unfolding sent_under_def j by blast
next
  fix p r upper cap seq t2
  assume "sent_under v c inner rq p t (Answered r) upper cap seq t2 \<and>
    (Inl f, t') = answered_call v c rq p counter r (estimate_message_tokens (rq_lengths rq)) upper cap seq t2"
  then show ?thesis using answered_call_kind raised by (metis fst_conv)
qed

theorem unproven_call_is_charged_whole_witness:
  "\<exists>p upper cap. get_profile (rq_model example_request) = Some p \<and> input_bound example_request = Inr upper \<and>
    Raised 0 = Raised 0 \<and>
    amount (snd (dropped (fresh_tracker 0))) Actual_cost = amount (fresh_tracker 0) Actual_cost +
      positive_part (Some (worst_case_cost p (int_or upper (estimate_message_tokens (rq_lengths example_request))) cap))"
proof -
  have run: "create example_env example_config None [(0, dropped_exn)] (\<lambda>_. Raised 0) example_request
      (fresh_tracker 0) = (Inl (failure (Provider_raised 0) None None), snd (dropped (fresh_tracker 0)))"
    using dropped_kind by (cases "dropped (fresh_tracker 0)") (simp add: dropped_def)
  show ?thesis
    by (rule unproven_call_is_charged_whole [OF run])
       (simp_all add: example_env_def failure_def dropped_unproven)
qed

section \<open>Where the promises stop\<close>

definition infinite_answer :: chat_response where
  "infinite_answer = \<lparr>rs_usage = Some (empty_usage_block\<lparr>prompt_tokens := PFloat PosInf\<rparr>), rs_content = None,
     rs_usage_cost = None, rs_usage_total_cost = None, rs_cost = None\<rparr>"

text \<open>
  An answer whose usage block reports an infinite count escapes the accounting: the reservation stays
  open, nothing is charged, and the raised error does not say that the request is over.
\<close>

lemma infinite_usage_leaks_the_reservation:
  "create example_env example_config None [] (\<lambda>_. Answered infinite_answer) example_request (fresh_tracker 0) =
     (Inl (failure Usage_unreadable None None), sent_tracker)"
  "open_reservations sent_tracker \<noteq> []"
  "\<not> failure_proves_completion [] (failure Usage_unreadable None None)"
proof -
  show "create example_env example_config None [] (\<lambda>_. Answered infinite_answer) example_request (fresh_tracker 0) =
     (Inl (failure Usage_unreadable None None), sent_tracker)"
    by (simp add: example_create answered_call_def infinite_answer_def read_usage_def count_value_def)
  show "open_reservations sent_tracker \<noteq> []"
    by (simp add: sent_tracker_def open_call_def example_env_def example_config_def example_contract_def
      fresh_tracker_def capacity_refusal_def int_limit_def elapsed_def committed_input_def
      committed_output_def remaining_output_def allowed_output_def contract_check_def
      daily_reservations_def daily_reservation_def sent_worst_case record_usage_def Let_def
      commit_call_def add_count_def add_amount_def log_effect_def)
  show "\<not> failure_proves_completion [] (failure Usage_unreadable None None)"
    by (simp add: failure_proves_completion_def failure_def raised_exn_def classify_fields completion_is_proven_def
        fired_a_total_deadline_def carries_a_complete_provider_response_def failed_before_the_request_was_sent_def
        NEVER_SENT_def cause_chain.simps next_link_def)
qed

definition server_exn :: exn where
  "server_exn = plain_exn\<lparr>text_of := ''boom'', response_of := Some \<lparr>response_status = PInt 500, response_headers = None\<rparr>\<rparr>"

text \<open>
  At the retry limit the budget refusal replaces an answered HTTP 500 without carrying over that the
  request is over, so the classifier no longer finds the proof.
\<close>

lemma retry_limit_hides_the_answer:
  "completion_proven (classify_outcome [(0, server_exn)] (Some 0))"
  "\<not> failure_proves_completion [(0, server_exn)] (failure (Charge e) (Some 0) None)"
proof -
  show "completion_proven (classify_outcome [(0, server_exn)] (Some 0))"
    by (simp add: classify_fields [of _ _ server_exn] completion_is_proven_def server_exn_def plain_exn_def
        fired_a_total_deadline_def carries_a_complete_provider_response_def plain_chain next_link_def)
  show "\<not> failure_proves_completion [(0, server_exn)] (failure (Charge e) (Some 0) None)"
    by (simp add: failure_proves_completion_def failure_def raised_exn_def classify_fields completion_is_proven_def
        fired_a_total_deadline_def carries_a_complete_provider_response_def failed_before_the_request_was_sent_def
        NEVER_SENT_def cause_chain.simps next_link_def server_exn_def plain_exn_def)
qed

end
