(* ===== verification/Provider_Scheduler.thy ===== *)
theory Provider_Scheduler
  imports Quota_Safety Provider_Outcome Python_Floats
begin

text \<open>
  \<open>ProviderScheduler\<close> of \<open>backend/provider_scheduler.py\<close>: the process-local request and token
  windows, the cooperative waits, the organization permit around each attempt, and the retry loop.

  The state holds what the scheduler's methods read and write: the clock, the two local windows, the
  local slots, and the shared store as the \<open>world\<close> of \<open>Quota_Safety\<close>.  Between any two of its steps
  the rest of the system moves: \<open>turn n\<close> is what other threads, other processes and the clocks did
  before the \<open>n\<close>-th step (\<open>tick\<close>).  The events are the scheduler's own, newest first.  The loops of
  the code are \<open>while True\<close> and are partial functions: \<open>None\<close> is "does not return".

  The provider's answer, the cancellation flag, the jitter and the failures of the store are given
  per step.  The ownership probe is observability (it reads the store and reports) and is only its
  failure to start; callbacks are not modelled.
\<close>

section \<open>Limits\<close>

record provider_limits =
  max_concurrent :: int
  rpm_limit :: "int option"
  tpm_limit :: "int option"
  max_rate_limit_retries :: int
  max_backpressure_wait :: pyfloat
  backoff_base :: pyfloat
  backoff_max :: pyfloat

definition default_limits :: provider_limits where
  "default_limits = \<lparr>max_concurrent = 2, rpm_limit = Some 3, tpm_limit = None,
     max_rate_limit_retries = 5, max_backpressure_wait = Finite 240, backoff_base = Finite 2,
     backoff_max = Finite 30\<rparr>"

datatype limits_error = Bad_variable env_error | Above_organization_ceiling string

definition positive_int :: "(string \<Rightarrow> string option) \<Rightarrow> string \<Rightarrow> int option \<Rightarrow> limits_error + int option" where
  "positive_int env k dflt =
     (case Python_Floats.env_int env k of
        Inl e \<Rightarrow> Inl (Bad_variable e)
      | Inr None \<Rightarrow> Inr dflt
      | Inr (Some n) \<Rightarrow> Inr (Some n))"

definition positive_float :: "(string \<Rightarrow> string option) \<Rightarrow> string \<Rightarrow> pyfloat \<Rightarrow> limits_error + pyfloat" where
  "positive_float env k dflt =
     (case Python_Floats.env_float env k of
        Inl e \<Rightarrow> Inl (Bad_variable e)
      | Inr None \<Rightarrow> Inr dflt
      | Inr (Some x) \<Rightarrow> Inr x)"

definition assert_within_organization_ceiling :: "provider_limits \<Rightarrow> limits_error option" where
  "assert_within_organization_ceiling c =
     (if over (Some MAX_INFERENCE_CONCURRENCY) (max_concurrent c)
      then Some (Above_organization_ceiling ''MILO_PROVIDER_MAX_CONCURRENCY'')
      else if (case rpm_limit c of None \<Rightarrow> False | Some n \<Rightarrow> over (Some MAX_RPM) n)
      then Some (Above_organization_ceiling ''MILO_PROVIDER_RPM_LIMIT'')
      else if (case tpm_limit c of None \<Rightarrow> False | Some n \<Rightarrow> over (Some MAX_TPM) n)
      then Some (Above_organization_ceiling ''MILO_PROVIDER_TPM_LIMIT'')
      else None)"

definition limits_from_env :: "(string \<Rightarrow> string option) \<Rightarrow> limits_error + provider_limits" where
  "limits_from_env env =
     (let d = default_limits in
      res_bind (positive_int env ''MILO_PROVIDER_MAX_CONCURRENCY'' (Some (max_concurrent d))) (\<lambda>conc.
      res_bind (positive_int env ''MILO_PROVIDER_RPM_LIMIT'' (rpm_limit d)) (\<lambda>rpm.
      res_bind (positive_int env ''MILO_PROVIDER_TPM_LIMIT'' (tpm_limit d)) (\<lambda>tpm.
      res_bind (positive_int env ''MILO_PROVIDER_MAX_RATE_LIMIT_RETRIES''
                  (Some (max_rate_limit_retries d))) (\<lambda>retries.
      res_bind (positive_float env ''MILO_PROVIDER_MAX_BACKPRESSURE_WAIT_SECONDS''
                  (max_backpressure_wait d)) (\<lambda>bound.
      res_bind (positive_float env ''MILO_PROVIDER_BACKOFF_BASE_SECONDS'' (backoff_base d)) (\<lambda>base.
      res_bind (positive_float env ''MILO_PROVIDER_BACKOFF_MAX_SECONDS'' (backoff_max d)) (\<lambda>top.
        (let c = \<lparr>max_concurrent = the conc, rpm_limit = rpm, tpm_limit = tpm,
                  max_rate_limit_retries = the retries, max_backpressure_wait = bound,
                  backoff_base = base, backoff_max = top\<rparr>
         in case assert_within_organization_ceiling c of
              None \<Rightarrow> Inr c
            | Some e \<Rightarrow> Inl e)))))))))"

section \<open>State and surroundings\<close>

definition LOCAL_WINDOW_SECONDS :: rat where "LOCAL_WINDOW_SECONDS = 60"
definition WAIT_CHUNK_SECONDS :: rat where "WAIT_CHUNK_SECONDS = 1"
definition SLOT_POLL_SECONDS :: rat where "SLOT_POLL_SECONDS = 1 / 20"

datatype sched_error =
    Run_cancelled
  | Backpressure_exceeded int
  | Provider_quota_exceeded
  | Store_unavailable
  | Coordinator_error admit_error
  | Window_index_error
  | Probe_not_started
  | Provider_raised_exn nat

datatype event =
    Slept rat
  | Acquired lease
  | Gave_back lease
  | Sent_request "lease option" nat
  | Settled_lease lease bool
  | Took_slot
  | Freed_slot

record 's sched =
  shared :: "'s world"
  mono :: rat
  request_starts :: "rat list"
  token_starts :: "(rat \<times> int) list"
  free_slots :: int
  tick :: nat
  events :: "event list"

record ('s, 'r) surroundings =
  limits :: provider_limits
  coordinator :: "('s quota_ops \<times> quota_config) option"
  turn :: "nat \<Rightarrow> 's sched \<Rightarrow> 's sched"
  cancelled_at :: "nat \<Rightarrow> bool"
  fresh_id :: "string set \<Rightarrow> string"
  store_down :: "nat \<Rightarrow> bool"
  probe_fails :: "nat \<Rightarrow> bool"
  provider :: "nat \<Rightarrow> nat + 'r"
  not_an_exception :: "nat \<Rightarrow> bool"
  exceptions :: exn_heap
  jitter :: "nat \<Rightarrow> rat"

text \<open>One move of everything else; it cannot touch the scheduler's own record of what it did.\<close>

definition turned :: "('s, 'r) surroundings \<Rightarrow> 's sched \<Rightarrow> 's sched" where
  "turned v s = (turn v (tick s) s)\<lparr>tick := Suc (tick s), events := events s\<rparr>"

definition happened :: "event \<Rightarrow> 's sched \<Rightarrow> 's sched" where
  "happened e s = s\<lparr>events := e # events s\<rparr>"

section \<open>Waiting\<close>

partial_function (option) wait ::
  "('s, 'r) surroundings \<Rightarrow> pyfloat \<Rightarrow> 's sched \<Rightarrow> ((sched_error + unit) \<times> 's sched) option" where
  "wait v remaining s =
     (if cancelled_at v (tick s) then Some (Inl Run_cancelled, s)
      else if py_less (Finite 0) remaining
      then (let d = (case remaining of Finite x \<Rightarrow> min x WAIT_CHUNK_SECONDS | _ \<Rightarrow> WAIT_CHUNK_SECONDS)
            in wait v (py_plus remaining (Finite (- d))) (turned v (happened (Slept d) s)))
      else Some (Inr (), s))"

section \<open>The process-local windows\<close>

definition prune :: "rat \<Rightarrow> 's sched \<Rightarrow> 's sched" where
  "prune now s = s\<lparr>
     request_starts := dropWhile (\<lambda>t. LOCAL_WINDOW_SECONDS \<le> now - t) (request_starts s),
     token_starts := dropWhile (\<lambda>(t, n). LOCAL_WINDOW_SECONDS \<le> now - t) (token_starts s)\<rparr>"

datatype 'a turnout = Refused_at sched_error | Granted 'a | Busy rat

definition try_admit :: "provider_limits \<Rightarrow> int \<Rightarrow> 's sched \<Rightarrow> unit turnout \<times> 's sched" where
  "try_admit c est s0 =
     (let now = mono s0; s = prune now s0 in
      if (case rpm_limit c of None \<Rightarrow> False | Some l \<Rightarrow> l \<le> int (length (request_starts s)))
           \<and> request_starts s = []
      then (Refused_at Window_index_error, s)
      else
        (let delay1 = (case rpm_limit c of
               None \<Rightarrow> 0
             | Some l \<Rightarrow> if l \<le> int (length (request_starts s))
                         then max 0 (LOCAL_WINDOW_SECONDS - (now - List.hd (request_starts s))) else 0);
             delay = (case tpm_limit c of
               None \<Rightarrow> delay1
             | Some l \<Rightarrow>
                 if 0 < est \<and> token_starts s \<noteq> [] \<and> l < (\<Sum>(t, n)\<leftarrow>token_starts s. n) + est
                 then max delay1 (LOCAL_WINDOW_SECONDS - (now - fst (List.hd (token_starts s))))
                 else delay1)
         in if 0 < delay then (Busy (max delay (1 / 1000)), s)
            else (Granted (),
                  s\<lparr>request_starts := request_starts s @ [now],
                    token_starts := token_starts s @ (if 0 < est then [(now, est)] else [])\<rparr>)))"

text \<open>
  The shape of \<open>_admit\<close>, \<open>_acquire_global\<close> and \<open>admit_search\<close>: ask; when busy, wait within the
  bound and ask again.  \<open>so_far\<close> is what the call waited before, \<open>waited\<close> what this loop waited.
\<close>

partial_function (option) capacity_loop ::
  "('s, 'r) surroundings \<Rightarrow> pyfloat \<Rightarrow> ('s sched \<Rightarrow> 'a turnout \<times> 's sched) \<Rightarrow> pyfloat \<Rightarrow> rat \<Rightarrow> 's sched \<Rightarrow>
     ((sched_error + 'a \<times> rat) \<times> 's sched) option" where
  "capacity_loop v bound ask so_far waited s =
     (if cancelled_at v (tick s) then Some (Inl Run_cancelled, s)
      else (case ask (turned v s) of
        (Refused_at e, s1) \<Rightarrow> Some (Inl e, s1)
      | (Granted x, s1) \<Rightarrow> Some (Inr (x, waited), s1)
      | (Busy delay, s1) \<Rightarrow>
          if py_less bound (py_plus so_far (Finite (waited + delay)))
          then Some (Inl (Backpressure_exceeded 0), s1)
          else (case wait v (Finite delay) s1 of
                  None \<Rightarrow> None
                | Some (r, s2) \<Rightarrow>
                    (case r of
                       Inl e \<Rightarrow> Some (Inl e, s2)
                     | Inr u \<Rightarrow> capacity_loop v bound ask so_far (waited + delay) s2))))"

definition admit ::
  "('s, 'r) surroundings \<Rightarrow> int \<Rightarrow> pyfloat \<Rightarrow> 's sched \<Rightarrow> ((sched_error + unit \<times> rat) \<times> 's sched) option" where
  "admit v est so_far s =
     (if (case tpm_limit (limits v) of None \<Rightarrow> False | Some l \<Rightarrow> l < est)
      then Some (Inl (Backpressure_exceeded 0), s)
      else capacity_loop v (max_backpressure_wait (limits v)) (try_admit (limits v) est) so_far 0 s)"

section \<open>Local slots\<close>

definition take_slot :: "'s sched \<Rightarrow> 's sched option" where
  "take_slot s = (if 0 < free_slots s
     then Some (happened Took_slot (s\<lparr>free_slots := free_slots s - 1\<rparr>)) else None)"

definition free_slot :: "'s sched \<Rightarrow> 's sched" where
  "free_slot s = happened Freed_slot (s\<lparr>free_slots := free_slots s + 1\<rparr>)"

partial_function (option) slot_loop ::
  "('s, 'r) surroundings \<Rightarrow> pyfloat \<Rightarrow> rat \<Rightarrow> 's sched \<Rightarrow> ((sched_error + rat) \<times> 's sched) option" where
  "slot_loop v so_far waited s =
     (if cancelled_at v (tick s) then Some (Inl Run_cancelled, s)
      else if py_less (max_backpressure_wait (limits v)) (py_plus so_far (Finite (waited + SLOT_POLL_SECONDS)))
      then Some (Inl (Backpressure_exceeded 0), s)
      else (let s1 = turned v (happened (Slept SLOT_POLL_SECONDS) s) in
        if cancelled_at v (tick s1) then Some (Inl Run_cancelled, s1)
        else (case take_slot s1 of
                Some s2 \<Rightarrow> Some (Inr (waited + SLOT_POLL_SECONDS), s2)
              | None \<Rightarrow> slot_loop v so_far (waited + SLOT_POLL_SECONDS) s1)))"

definition acquire_slot ::
  "('s, 'r) surroundings \<Rightarrow> pyfloat \<Rightarrow> 's sched \<Rightarrow> ((sched_error + rat) \<times> 's sched) option" where
  "acquire_slot v so_far s0 =
     (let s = turned v s0 in
      case take_slot s of
        Some s1 \<Rightarrow> Some (Inr 0, s1)
      | None \<Rightarrow> slot_loop v so_far 0 s)"

section \<open>The organization permit\<close>

text \<open>
  \<open>try_acquire_inference\<close> on the shared store.  A granted lease is recorded as a request that may run
  from here on.
\<close>

definition take_lease ::
  "('s, 'r) surroundings \<Rightarrow> 's quota_ops \<Rightarrow> quota_config \<Rightarrow> 's sched \<Rightarrow> lease option \<times> 's sched" where
  "take_lease v B c s =
     (let w = shared s; l = fresh_id v (issued w);
          (got, st) = try_acquire_inference B c (store w) l (clock w)
      in case got of
           None \<Rightarrow> (None, s\<lparr>shared := w\<lparr>store := st, issued := insert l (issued w)\<rparr>\<rparr>)
         | Some l' \<Rightarrow> (Some l', happened (Acquired l')
             (s\<lparr>shared := w\<lparr>store := st, issued := insert l (issued w), running := insert l' (running w)\<rparr>\<rparr>)))"

text \<open>\<open>lease.release()\<close> before anything was sent; a store that is down raises and keeps the lease.\<close>

definition give_back ::
  "('s, 'r) surroundings \<Rightarrow> 's quota_ops \<Rightarrow> quota_config \<Rightarrow> lease \<Rightarrow> 's sched \<Rightarrow>
     (sched_error + unit) \<times> 's sched" where
  "give_back v B c l s0 =
     (let s = turned v s0; w = shared s in
      if store_down v (tick s)
      then (Inl Store_unavailable,
            happened (Gave_back l) (s\<lparr>shared := w\<lparr>running := running w - {l}\<rparr>\<rparr>))
      else (let (b, L, st, ds) = settle B c (store w) \<lparr>lease_id = l, lease_outcome = None\<rparr> True [] (clock w)
            in (Inr (), happened (Gave_back l) (s\<lparr>shared := w\<lparr>store := st, running := running w - {l}\<rparr>\<rparr>))))"

text \<open>\<open>try_admit_request\<close>; an admitted request counts as sent from here on.\<close>

definition offer ::
  "('s, 'r) surroundings \<Rightarrow> 's quota_ops \<Rightarrow> quota_config \<Rightarrow> int \<Rightarrow> 's sched \<Rightarrow>
     (sched_error + bool \<times> string \<times> rat) \<times> 's sched" where
  "offer v B c demand s0 =
     (let s = turned v s0; w = shared s; e = fresh_id v (issued w) in
      if store_down v (tick s) then (Inl Store_unavailable, s)
      else (let (r, st) = try_admit_request B c (store w) e demand (clock w);
                w1 = w\<lparr>store := st, issued := insert e (issued w)\<rparr>
            in case r of
                 Inl x \<Rightarrow> (Inl (Coordinator_error x), s\<lparr>shared := w1\<rparr>)
               | Inr (ok, why, retry) \<Rightarrow>
                   (Inr (ok, why, retry),
                    s\<lparr>shared := (if ok then w1\<lparr>sent := (clock w, demand) # sent w\<rparr> else w1)\<rparr>)))"

text \<open>One round of \<open>_acquire_global\<close>: the lease is given back before any wait.\<close>

definition try_global ::
  "('s, 'r) surroundings \<Rightarrow> 's quota_ops \<Rightarrow> quota_config \<Rightarrow> int \<Rightarrow> 's sched \<Rightarrow> lease turnout \<times> 's sched" where
  "try_global v B c demand s =
     (if store_down v (tick s) then (Refused_at Store_unavailable, s)
      else (case take_lease v B c s of
        (None, s1) \<Rightarrow> (Busy SLOT_POLL_SECONDS, s1)
      | (Some l, s1) \<Rightarrow>
          (case offer v B c demand s1 of
             (Inl e, s2) \<Rightarrow>
               (case give_back v B c l s2 of
                  (Inl e', s3) \<Rightarrow> (Refused_at e', s3)
                | (Inr u, s3) \<Rightarrow> (Refused_at e, s3))
           | (Inr (ok, why, retry), s2) \<Rightarrow>
               if ok then (Granted l, s2)
               else (case give_back v B c l s2 of
                       (Inl e', s3) \<Rightarrow> (Refused_at e', s3)
                     | (Inr u, s3) \<Rightarrow> (Busy (max retry SLOT_POLL_SECONDS), s3)))))"

definition acquire_global ::
  "('s, 'r) surroundings \<Rightarrow> 's quota_ops \<Rightarrow> quota_config \<Rightarrow> int \<Rightarrow> pyfloat \<Rightarrow> 's sched \<Rightarrow>
     ((sched_error + lease \<times> rat) \<times> 's sched) option" where
  "acquire_global v B c demand so_far s =
     capacity_loop v (max_backpressure_wait (limits v)) (try_global v B c demand) so_far 0 s"

text \<open>The permit of one attempt: none without a coordinator; given back when the probe does not start.\<close>

definition take_permit ::
  "('s, 'r) surroundings \<Rightarrow> int \<Rightarrow> pyfloat \<Rightarrow> 's sched \<Rightarrow>
     ((sched_error + lease option \<times> rat) \<times> 's sched) option" where
  "take_permit v demand so_far s =
     (case coordinator v of
        None \<Rightarrow> Some (Inr (None, 0), s)
      | Some (B, c) \<Rightarrow>
          (case acquire_global v B c (max 1 demand) so_far s of
             None \<Rightarrow> None
           | Some (Inl e, s1) \<Rightarrow> Some (Inl e, s1)
           | Some (Inr (l, waited), s1) \<Rightarrow>
               if probe_fails v (tick s1)
               then (case give_back v B c l s1 of
                       (Inl e, s2) \<Rightarrow> Some (Inl e, s2)
                     | (Inr u, s2) \<Rightarrow> Some (Inl Probe_not_started, s2))
               else Some (Inr (Some l, waited), s1)))"

section \<open>One attempt\<close>

definition unproven_text :: "unproven_reason \<Rightarrow> string" where
  "unproven_text r = (case r of
       No_reason \<Rightarrow> []
     | OUTCOME_DECLARED_UNKNOWN \<Rightarrow> ''PROVIDER_REQUEST_OUTCOME_DECLARED_UNKNOWN''
     | DEADLINE_EXCEEDED \<Rightarrow> ''PROVIDER_REQUEST_DEADLINE_EXCEEDED''
     | OUTCOME_UNKNOWN \<Rightarrow> ''PROVIDER_REQUEST_OUTCOME_UNKNOWN'')"

text \<open>\<open>min(backoff_max, base * 2 ** (attempts - 1)) * (1 + 0.25 * rng())\<close>\<close>

definition backoff :: "provider_limits \<Rightarrow> int \<Rightarrow> rat \<Rightarrow> pyfloat" where
  "backoff c attempts r =
     py_scale (1 + r / 4) (py_min (backoff_max c) (py_scale (2 ^ nat (attempts - 1)) (backoff_base c)))"

datatype 'r decision = Finished "sched_error + 'r" | Retry_after int pyfloat

text \<open>
  The \<open>except\<close> block: the limiter is told about a rate limit; a hard quota refusal and everything
  that is not backpressure end the call.
\<close>

definition signal_limiter ::
  "('s, 'r) surroundings \<Rightarrow> verdict \<Rightarrow> 's sched \<Rightarrow> (sched_error + unit) \<times> 's sched" where
  "signal_limiter v verdict s0 =
     (case coordinator v of
        None \<Rightarrow> (Inr (), s0)
      | Some (B, c) \<Rightarrow>
          (let s = turned v s0; w = shared s; h = rate_headers verdict in
           if store_down v (tick s) then (Inl Store_unavailable, s)
           else (let (r, st) = record_rate_limit_signal B c (store w)
                       (if provider_code verdict \<noteq> Some SEARCH_RATE_LIMITED then ''inference'' else ''search'')
                       (case retry_after verdict of
                          Some d \<Rightarrow> Some d
                        | None \<Rightarrow> map_option (\<lambda>n. Finite (of_int n)) (header_reset h))
                       (header_limit h) (header_remaining h) (Some (max_concurrent (limits v))) (clock w)
                 in (case r of Inl x \<Rightarrow> Inl (Coordinator_error x) | Inr ds \<Rightarrow> Inr (),
                     s\<lparr>shared := w\<lparr>store := st\<rparr>\<rparr>))))"

definition after_failure ::
  "('s, 'r) surroundings \<Rightarrow> nat \<Rightarrow> verdict \<Rightarrow> int \<Rightarrow> pyfloat \<Rightarrow> 's sched \<Rightarrow> 'r decision \<times> 's sched" where
  "after_failure v i verdict attempts so_far s =
     (if not_an_exception v i then (Finished (Inl (Provider_raised_exn i)), s)
      else if is_quota_exhaustion verdict then (Finished (Inl Provider_quota_exceeded), s)
      else if \<not> is_backpressure verdict then (Finished (Inl (Provider_raised_exn i)), s)
      else (case signal_limiter v verdict s of
              (Inl e, s1) \<Rightarrow> (Finished (Inl e), s1)
            | (Inr u, s1) \<Rightarrow>
                (let n = attempts + 1;
                     delay = (case retry_after verdict of
                                Some d \<Rightarrow> d | None \<Rightarrow> backoff (limits v) n (jitter v (tick s1)))
                 in if max_rate_limit_retries (limits v) < n
                       \<or> py_less (max_backpressure_wait (limits v)) (py_plus so_far delay)
                    then (Finished (Inl (Backpressure_exceeded n)), s1)
                    else (Retry_after n delay, s1))))"

text \<open>
  The \<open>finally\<close> block: the local slot goes back, the lease is settled on the proof.  A store that is
  down while a proven lease is released raises, and that replaces the result; quarantine touches no
  store.
\<close>

definition settle_permit ::
  "('s, 'r) surroundings \<Rightarrow> lease option \<Rightarrow> bool \<Rightarrow> string \<Rightarrow> 's sched \<Rightarrow> (sched_error + unit) \<times> 's sched" where
  "settle_permit v lease proven reason s0 =
     (case (lease, coordinator v) of
        (Some l, Some (B, c)) \<Rightarrow>
          (let s = turned v s0; w = shared s in
           if proven \<and> store_down v (tick s)
           then (Inl Store_unavailable,
                 happened (Settled_lease l proven) (s\<lparr>shared := w\<lparr>running := running w - {l}\<rparr>\<rparr>))
           else (let (b, L, st, ds) = settle B c (store w) \<lparr>lease_id = l, lease_outcome = None\<rparr> proven reason (clock w)
                 in (Inr (), happened (Settled_lease l proven)
                       (s\<lparr>shared := w\<lparr>store := st,
                          running := (if proven then running w - {l} else running w)\<rparr>\<rparr>))))
      | _ \<Rightarrow> (Inr (), s0))"

definition attempt ::
  "('s, 'r) surroundings \<Rightarrow> lease option \<Rightarrow> int \<Rightarrow> pyfloat \<Rightarrow> 's sched \<Rightarrow> 'r decision \<times> 's sched" where
  "attempt v lease attempts so_far s0 =
     (let s' = turned v s0;
          s = happened (Sent_request lease (tick s')) s';
          (d, proven, reason, s1) =
            (case provider v (tick s) of
               Inr x \<Rightarrow> (Finished (Inr x), True, [], s)
             | Inl i \<Rightarrow>
                 (let verdict = classify_outcome (exceptions v) (Some i);
                      (d, s1) = after_failure v i verdict attempts so_far s
                  in (d, completion_proven verdict, unproven_text (unproven_reason verdict), s1)))
      in case settle_permit v lease proven reason (free_slot s1) of
           (Inl e, s2) \<Rightarrow> (Finished (Inl e), s2)
         | (Inr u, s2) \<Rightarrow> (d, s2))"

section \<open>The guarded call\<close>

partial_function (option) execute ::
  "('s, 'r) surroundings \<Rightarrow> int \<Rightarrow> int \<Rightarrow> int \<Rightarrow> pyfloat \<Rightarrow> 's sched \<Rightarrow>
     ((sched_error + 'r) \<times> 's sched) option" where
  "execute v est demand attempts so_far s =
     (case admit v est so_far s of
        None \<Rightarrow> None
      | Some (Inl e, s1) \<Rightarrow> Some (Inl e, s1)
      | Some (Inr (u, w1), s1) \<Rightarrow>
     (if cancelled_at v (tick s1) then Some (Inl Run_cancelled, s1)
      else (case acquire_slot v (py_plus so_far (Finite w1)) s1 of
        None \<Rightarrow> None
      | Some (Inl e, s2) \<Rightarrow> Some (Inl e, s2)
      | Some (Inr w2, s2) \<Rightarrow>
     (case take_permit v demand (py_plus so_far (Finite (w1 + w2))) s2 of
        None \<Rightarrow> None
      | Some (Inl e, s3) \<Rightarrow> Some (Inl e, free_slot s3)
      | Some (Inr (lease, w3), s3) \<Rightarrow>
     (case attempt v lease attempts (py_plus so_far (Finite (w1 + w2 + w3))) s3 of
        (Finished r, s4) \<Rightarrow> Some (r, s4)
      | (Retry_after n delay, s4) \<Rightarrow>
          (case wait v delay s4 of
             None \<Rightarrow> None
           | Some (r, s5) \<Rightarrow>
               (case r of
                  Inl e \<Rightarrow> Some (Inl e, s5)
                | Inr u \<Rightarrow> execute v est demand n
                     (py_plus (py_plus so_far (Finite (w1 + w2 + w3))) delay) s5)))))))"

section \<open>Web Search admission\<close>

definition try_search ::
  "('s, 'r) surroundings \<Rightarrow> 's quota_ops \<Rightarrow> quota_config \<Rightarrow> search_endpoint \<Rightarrow> 's sched \<Rightarrow>
     unit turnout \<times> 's sched" where
  "try_search v B c p s =
     (if store_down v (tick s) then (Refused_at Store_unavailable, s)
      else (let w = shared s; ((ok, retry), st) = try_admit_search B c (store w) p (clock w)
            in if ok then (Granted (),
                 s\<lparr>shared := w\<lparr>store := st, searched := (searched w)(p := clock w # searched w p)\<rparr>\<rparr>)
               else (Busy (max retry SLOT_POLL_SECONDS), s\<lparr>shared := w\<lparr>store := st\<rparr>\<rparr>)))"

definition admit_search ::
  "('s, 'r) surroundings \<Rightarrow> search_endpoint \<Rightarrow> pyfloat option \<Rightarrow> 's sched \<Rightarrow>
     ((sched_error + rat) \<times> 's sched) option" where
  "admit_search v p max_wait s =
     (case coordinator v of
        None \<Rightarrow> Some (Inr 0, s)
      | Some (B, c) \<Rightarrow>
          map_option (\<lambda>(r, s1). (map_sum id snd r, s1))
            (capacity_loop v (case max_wait of None \<Rightarrow> max_backpressure_wait (limits v) | Some b \<Rightarrow> b)
               (try_search v B c p) (Finite 0) 0 s))"

end
