(* ===== verification/Scheduler_Safety.thy ===== *)
theory Scheduler_Safety
  imports Provider_Scheduler
begin

text \<open>
  What the scheduler of \<open>Provider_Scheduler\<close> guarantees whatever its surroundings do: its waits are
  bounded and end, its attempts are bounded, no wait holds an organization permit, every permit is
  settled on proof, and every step it takes on the shared store is a step of the \<open>world\<close> of
  \<open>Quota_Safety\<close>.
\<close>

section \<open>Rules for the loops\<close>

lemma turned_fields [simp]: "events (turned v s) = events s" "tick (turned v s) = Suc (tick s)"
  by (simp_all add: turned_def Let_def)

lemma happened_fields [simp]: "events (happened e s) = e # events s" "shared (happened e s) = shared s"
  "tick (happened e s) = tick s" "free_slots (happened e s) = free_slots s"
  by (simp_all add: happened_def)

lemma wait_rule:
  assumes ret: "wait v d s = Some (r, s')" and "I s"
    and sleep: "\<And>s x. I s \<Longrightarrow> I (turned v (happened (Slept x) s))"
  shows "I s'"
proof -
  have "v = v \<longrightarrow> I s \<longrightarrow> I (snd (r, s'))"
  proof (rule wait.raw_induct [where P = "\<lambda>v' d s y. v' = v \<longrightarrow> I s \<longrightarrow> I (snd y)", OF _ ret], intro impI)
    fix f v' d s y
    assume IH: "\<And>v' d s y. f v' d s = Some y \<Longrightarrow> v' = v \<longrightarrow> I s \<longrightarrow> I (snd y)"
      and eq: "(if cancelled_at v' (tick s) then Some (Inl Run_cancelled, s)
        else if py_less (Finite 0) d
        then (let x = (case d of Finite x \<Rightarrow> min x WAIT_CHUNK_SECONDS | _ \<Rightarrow> WAIT_CHUNK_SECONDS)
              in f v' (py_plus d (Finite (- x))) (turned v' (happened (Slept x) s)))
        else Some (Inr (), s)) = Some y" and v': "v' = v" and I: "I s"
    show "I (snd y)"
    proof (cases "cancelled_at v (tick s) \<or> \<not> py_less (Finite 0) d")
      case True
      with eq v' I show ?thesis by (auto split: if_splits)
    next
      case False
      with eq v' obtain x where "f v (py_plus d (Finite (- x))) (turned v (happened (Slept x) s)) = Some y"
        by (auto simp: Let_def)
      from IH [OF this] sleep [OF I] show ?thesis by blast
    qed
  qed
  with assms(2) show ?thesis by simp
qed

lemma wait_returns: "\<exists>r. wait v (Finite x) s = Some r"
proof (induction "nat \<lceil>x\<rceil>" arbitrary: x s rule: less_induct)
  case less
  show ?case
  proof (cases "cancelled_at v (tick s) \<or> \<not> 0 < x")
    case True
    then show ?thesis by (subst wait.simps) auto
  next
    case False
    then have "nat \<lceil>x - min x 1\<rceil> < nat \<lceil>x\<rceil>"
      by (cases "x \<le> 1") (auto simp: ceiling_diff_one)
    from less [OF this] False show ?thesis
      by (subst wait.simps) (simp add: WAIT_CHUNK_SECONDS_def Let_def)
  qed
qed

lemma capacity_loop_rule:
  assumes ret: "capacity_loop v bound ask so_far w s = Some (r, s')" and "I s"
    and busy: "\<And>s d s1. I s \<Longrightarrow> ask (turned v s) = (Busy d, s1) \<Longrightarrow> I s1"
    and refused: "\<And>s e s1. I s \<Longrightarrow> ask (turned v s) = (Refused_at e, s1) \<Longrightarrow> I s1"
    and granted: "\<And>s x s1. I s \<Longrightarrow> ask (turned v s) = (Granted x, s1) \<Longrightarrow> J x s1"
    and sleep: "\<And>s x. I s \<Longrightarrow> I (turned v (happened (Slept x) s))"
  shows "case r of Inl e \<Rightarrow> I s' | Inr (x, w') \<Rightarrow> J x s'"
proof -
  let ?Q = "\<lambda>y. case y of (Inl e, s') \<Rightarrow> I s' | (Inr (x, w'), s') \<Rightarrow> J x s'"
  have "v = v \<longrightarrow> bound = bound \<longrightarrow> ask = ask \<longrightarrow> so_far = so_far \<longrightarrow> I s \<longrightarrow> ?Q (r, s')"
  proof (rule capacity_loop.raw_induct [where P = "\<lambda>v' b' a' f' w s y. v' = v \<longrightarrow> b' = bound \<longrightarrow> a' = ask \<longrightarrow>
      f' = so_far \<longrightarrow> I s \<longrightarrow> ?Q y", OF _ ret], intro impI)
    fix f v' b' a' f' w s y
    assume IH: "\<And>v' b' a' f' w s y. f v' b' a' f' w s = Some y \<Longrightarrow> v' = v \<longrightarrow> b' = bound \<longrightarrow> a' = ask \<longrightarrow>
        f' = so_far \<longrightarrow> I s \<longrightarrow> ?Q y"
      and eq: "(if cancelled_at v' (tick s) then Some (Inl Run_cancelled, s)
        else case a' (turned v' s) of (Refused_at e, s1) \<Rightarrow> Some (Inl e, s1)
          | (Granted x, s1) \<Rightarrow> Some (Inr (x, w), s1)
          | (Busy delay, s1) \<Rightarrow>
              if py_less b' (py_plus f' (Finite (w + delay)))
              then Some (Inl (Backpressure_exceeded 0), s1)
              else case wait v' (Finite delay) s1 of None \<Rightarrow> None
                | Some (r, s2) \<Rightarrow> (case r of Inl e \<Rightarrow> Some (Inl e, s2)
                    | Inr u \<Rightarrow> f v' b' a' f' (w + delay) s2)) = Some y"
      and same: "v' = v" "b' = bound" "a' = ask" "f' = so_far" and I: "I s"
    show "?Q y"
    proof (cases "cancelled_at v (tick s)")
      case True
      with eq same I show ?thesis by auto
    next
      case False
      obtain o1 s1 where o1: "ask (turned v s) = (o1, s1)" by fastforce
      show ?thesis
      proof (cases o1)
        case (Refused_at e)
        with eq same False o1 refused [OF I] show ?thesis by auto
      next
        case (Granted x)
        with eq same False o1 granted [OF I] show ?thesis by auto
      next
        case (Busy d)
        with o1 busy [OF I] have I1: "I s1" by blast
        show ?thesis
        proof (cases "py_less bound (py_plus so_far (Finite (w + d)))")
          case True
          with eq same False o1 Busy I1 show ?thesis by auto
        next
          case in_bound: False
          with eq same False o1 Busy obtain r2 s2 where w2: "wait v (Finite d) s1 = Some (r2, s2)"
            by (auto split: option.splits)
          have I2: "I s2" by (rule wait_rule [OF w2 I1 sleep])
          show ?thesis
          proof (cases r2)
            case (Inl e)
            with eq same False o1 Busy in_bound w2 I2 show ?thesis by auto
          next
            case (Inr u)
            with eq same False o1 Busy in_bound w2
            have "f v bound ask so_far (w + d) s2 = Some y" by auto
            from IH [OF this] I2 show ?thesis by simp
          qed
        qed
      qed
    qed
  qed
  with assms(2) show ?thesis by (simp split: sum.splits prod.splits)
qed

text \<open>A loop whose busy answers ask for at least a fixed delay returns when the bound is a number.\<close>

lemma capacity_loop_returns:
  assumes "0 < \<delta>" and delays: "\<And>s d s1. ask (turned v s) = (Busy d, s1) \<Longrightarrow> \<delta> \<le> d"
  shows "\<exists>r. capacity_loop v (Finite b) ask (Finite x) w s = Some r"
proof (induction "nat \<lceil>(b - x - w) / \<delta>\<rceil>" arbitrary: w s rule: less_induct)
  case less
  obtain o1 s1 where o1: "ask (turned v s) = (o1, s1)" by fastforce
  show ?case
  proof (cases "cancelled_at v (tick s) \<or> (\<forall>d. o1 \<noteq> Busy d)")
    case True
    then show ?thesis using o1 by (subst capacity_loop.simps) (auto split: turnout.splits)
  next
    case False
    then obtain d where d: "o1 = Busy d" by blast
    with delays o1 have "\<delta> \<le> d" by blast
    show ?thesis
    proof (cases "b < x + (w + d)")
      case True
      then show ?thesis using o1 d False by (subst capacity_loop.simps) auto
    next
      case in_bound: False
      have "(b - x - (w + d)) / \<delta> \<le> (b - x - w) / \<delta> - 1" "0 \<le> (b - x - (w + d)) / \<delta>"
        using \<open>0 < \<delta>\<close> \<open>\<delta> \<le> d\<close> in_bound by (simp_all add: field_simps)
      then have "nat \<lceil>(b - x - (w + d)) / \<delta>\<rceil> < nat \<lceil>(b - x - w) / \<delta>\<rceil>"
        by linarith
      note IH = less [OF this]
      obtain r2 s2 where w2: "wait v (Finite d) s1 = Some (r2, s2)" using wait_returns [of v d s1] by fastforce
      show ?thesis
      proof (cases r2)
        case (Inl e)
        then show ?thesis using o1 d False in_bound w2 by (subst capacity_loop.simps) auto
      next
        case (Inr u)
        from IH [of s2] show ?thesis
          using o1 d False in_bound w2 Inr by (subst capacity_loop.simps) auto
      qed
    qed
  qed
qed

lemma slot_loop_rule:
  assumes ret: "slot_loop v so_far w s = Some (r, s')" and "I s"
    and sleep: "\<And>s x. I s \<Longrightarrow> I (turned v (happened (Slept x) s))"
    and taken: "\<And>s s1. I s \<Longrightarrow> take_slot s = Some s1 \<Longrightarrow> J s1"
  shows "case r of Inl e \<Rightarrow> I s' | Inr w' \<Rightarrow> J s'"
proof -
  let ?Q = "\<lambda>y. case y of (Inl e, s') \<Rightarrow> I s' | (Inr w', s') \<Rightarrow> J s'"
  have "v = v \<longrightarrow> I s \<longrightarrow> ?Q (r, s')"
  proof (rule slot_loop.raw_induct [where P = "\<lambda>v' f' w s y. v' = v \<longrightarrow> I s \<longrightarrow> ?Q y", OF _ ret], intro impI)
    fix f v' f' w s y
    assume IH: "\<And>v' f' w s y. f v' f' w s = Some y \<Longrightarrow> v' = v \<longrightarrow> I s \<longrightarrow> ?Q y"
      and eq: "(if cancelled_at v' (tick s) then Some (Inl Run_cancelled, s)
        else if py_less (max_backpressure_wait (limits v')) (py_plus f' (Finite (w + SLOT_POLL_SECONDS)))
        then Some (Inl (Backpressure_exceeded 0), s)
        else (let s1 = turned v' (happened (Slept SLOT_POLL_SECONDS) s) in
          if cancelled_at v' (tick s1) then Some (Inl Run_cancelled, s1)
          else (case take_slot s1 of Some s2 \<Rightarrow> Some (Inr (w + SLOT_POLL_SECONDS), s2)
                | None \<Rightarrow> f v' f' (w + SLOT_POLL_SECONDS) s1))) = Some y"
      and v': "v' = v" and I: "I s"
    note I1 = sleep [OF I, of SLOT_POLL_SECONDS]
    show "?Q y"
      using eq v' I I1 taken [OF I1] IH [of v f' "w + SLOT_POLL_SECONDS"]
      by (auto simp: Let_def split: if_splits option.splits)
  qed
  with assms(2) show ?thesis by (simp split: sum.splits)
qed

lemma slot_loop_returns:
  assumes "max_backpressure_wait (limits v) = Finite b"
  shows "\<exists>r. slot_loop v (Finite x) w s = Some r"
proof (induction "nat \<lceil>(b - x - w) * 20\<rceil>" arbitrary: w s rule: less_induct)
  case less
  show ?case
  proof (cases "cancelled_at v (tick s) \<or> b < x + (w + SLOT_POLL_SECONDS)")
    case True
    then show ?thesis using assms by (subst slot_loop.simps) auto
  next
    case False
    then have "nat \<lceil>(b - x - (w + SLOT_POLL_SECONDS)) * 20\<rceil> < nat \<lceil>(b - x - w) * 20\<rceil>"
      by (simp add: SLOT_POLL_SECONDS_def) linarith
    note IH = less [OF this]
    let ?s1 = "turned v (happened (Slept SLOT_POLL_SECONDS) s)"
    show ?thesis
      using IH [of ?s1] False assms by (subst slot_loop.simps) (auto simp: Let_def split: option.split)
  qed
qed

lemma acquire_slot_rule:
  assumes ret: "acquire_slot v so_far s = Some (r, s')" and "I s"
    and turn: "\<And>s. I s \<Longrightarrow> I (turned v s)"
    and sleep: "\<And>s x. I s \<Longrightarrow> I (turned v (happened (Slept x) s))"
    and taken: "\<And>s s1. I s \<Longrightarrow> take_slot s = Some s1 \<Longrightarrow> J s1"
  shows "case r of Inl e \<Rightarrow> I s' | Inr w' \<Rightarrow> J s'"
proof (cases "take_slot (turned v s)")
  case None
  with ret have "slot_loop v so_far 0 (turned v s) = Some (r, s')" by (simp add: acquire_slot_def Let_def)
  from slot_loop_rule [of v so_far 0 "turned v s" r s' I J, OF this turn [OF assms(2)] sleep taken] show ?thesis .
next
  case (Some s1)
  with ret taken [OF turn [OF assms(2)]] show ?thesis by (auto simp: acquire_slot_def Let_def)
qed

text \<open>
  The proof rule of a guarded call: \<open>I\<close> between attempts (with the rate-limited attempts so far),
  \<open>S\<close> while only the local slot is held, \<open>P\<close> when the request is about to be sent.
\<close>

lemma execute_rule:
  assumes ret: "execute v est demand a so_far s = Some (r, s')" and "I a s"
    and admit: "\<And>a f s r s1. I a s \<Longrightarrow> admit v est f s = Some (r, s1) \<Longrightarrow> I a s1"
    and slot: "\<And>a f s r s1. I a s \<Longrightarrow> acquire_slot v f s = Some (r, s1) \<Longrightarrow>
      (case r of Inl e \<Rightarrow> I a s1 | Inr w \<Rightarrow> S a s1)"
    and permit: "\<And>a f s r s1. S a s \<Longrightarrow> take_permit v demand f s = Some (r, s1) \<Longrightarrow>
      (case r of Inl e \<Rightarrow> I a (free_slot s1) | Inr (l, w) \<Rightarrow> P l a s1)"
    and attempt: "\<And>l a f s d s1. P l a s \<Longrightarrow> attempt v l a f s = (d, s1) \<Longrightarrow>
      (case d of Finished r \<Rightarrow> F s1 | Retry_after n w \<Rightarrow> I n s1)"
    and sleep: "\<And>a s x. I a s \<Longrightarrow> I a (turned v (happened (Slept x) s))"
    and fin: "\<And>a s. I a s \<Longrightarrow> F s"
  shows "F s'"
proof -
  have "v = v \<longrightarrow> est = est \<longrightarrow> demand = demand \<longrightarrow> I a s \<longrightarrow> F (snd (r, s'))"
  proof (rule execute.raw_induct [where P = "\<lambda>v' e' d' a f s y. v' = v \<longrightarrow> e' = est \<longrightarrow> d' = demand \<longrightarrow>
      I a s \<longrightarrow> F (snd y)", OF _ ret], intro impI)
    fix f v' e' d' a so_far s y
    assume IH: "\<And>v' e' d' a so_far s y. f v' e' d' a so_far s = Some y \<Longrightarrow>
        v' = v \<longrightarrow> e' = est \<longrightarrow> d' = demand \<longrightarrow> I a s \<longrightarrow> F (snd y)"
      and eq: "(case Provider_Scheduler.admit v' e' so_far s of
          None \<Rightarrow> None
        | Some (Inl e, s1) \<Rightarrow> Some (Inl e, s1)
        | Some (Inr (u, w1), s1) \<Rightarrow>
       (if cancelled_at v' (tick s1) then Some (Inl Run_cancelled, s1)
        else (case acquire_slot v' (py_plus so_far (Finite w1)) s1 of
          None \<Rightarrow> None
        | Some (Inl e, s2) \<Rightarrow> Some (Inl e, s2)
        | Some (Inr w2, s2) \<Rightarrow>
       (case take_permit v' d' (py_plus so_far (Finite (w1 + w2))) s2 of
          None \<Rightarrow> None
        | Some (Inl e, s3) \<Rightarrow> Some (Inl e, free_slot s3)
        | Some (Inr (lease, w3), s3) \<Rightarrow>
       (case Provider_Scheduler.attempt v' lease a (py_plus so_far (Finite (w1 + w2 + w3))) s3 of
          (Finished r, s4) \<Rightarrow> Some (r, s4)
        | (Retry_after n delay, s4) \<Rightarrow>
            (case wait v' delay s4 of
               None \<Rightarrow> None
             | Some (r, s5) \<Rightarrow>
                 (case r of
                    Inl e \<Rightarrow> Some (Inl e, s5)
                  | Inr u \<Rightarrow> f v' e' d' n
                       (py_plus (py_plus so_far (Finite (w1 + w2 + w3))) delay) s5))))))) = Some y"
      and same: "v' = v" "e' = est" "d' = demand" and I: "I a s"
    note eq = eq [unfolded same]
    obtain r1 s1 where 1: "Provider_Scheduler.admit v est so_far s = Some (r1, s1)"
      using eq by (cases "Provider_Scheduler.admit v est so_far s") auto
    note I1 = admit [OF I 1]
    show "F (snd y)"
    proof (cases "isl r1 \<or> cancelled_at v (tick s1)")
      case True
      with eq 1 fin [OF I1] show ?thesis by (cases r1) auto
    next
      case False
      then obtain w1 where r1: "r1 = Inr ((), w1)" by (cases r1) auto
      obtain r2 s2 where 2: "acquire_slot v (py_plus so_far (Finite w1)) s1 = Some (r2, s2)"
        using eq 1 r1 False by (cases "acquire_slot v (py_plus so_far (Finite w1)) s1") auto
      note S2 = slot [OF I1 2]
      show ?thesis
      proof (cases r2)
        case (Inl e)
        with eq 1 r1 False 2 S2 fin show ?thesis by auto
      next
        case r2: (Inr w2)
        with S2 have S: "S a s2" by simp
        obtain r3 s3 where 3: "take_permit v demand (py_plus so_far (Finite (w1 + w2))) s2 = Some (r3, s3)"
          using eq 1 r1 False 2 r2 by (cases "take_permit v demand (py_plus so_far (Finite (w1 + w2))) s2") auto
        note P3 = permit [OF S 3]
        show ?thesis
        proof (cases r3)
          case (Inl e)
          with eq 1 r1 False 2 r2 3 P3 fin show ?thesis by auto
        next
          case (Inr lw)
          then obtain l w3 where r3: "r3 = Inr (l, w3)" by (cases lw) auto
          with P3 have P: "P l a s3" by simp
          obtain d s4 where 4: "Provider_Scheduler.attempt v l a (py_plus so_far (Finite (w1 + w2 + w3))) s3 = (d, s4)"
            by fastforce
          note D = attempt [OF P 4]
          show ?thesis
          proof (cases d)
            case (Finished r)
            with eq 1 r1 False 2 r2 3 r3 4 D show ?thesis by auto
          next
            case d: (Retry_after n delay)
            with D have In: "I n s4" by simp
            obtain r5 s5 where 5: "wait v delay s4 = Some (r5, s5)"
              using eq 1 r1 False 2 r2 3 r3 4 d by (cases "wait v delay s4") auto
            have I5: "I n s5" by (rule wait_rule [OF 5, of "I n"]) (simp_all add: In sleep)
            show ?thesis
            proof (cases r5)
              case (Inl e)
              with eq 1 r1 False 2 r2 3 r3 4 d 5 fin [OF I5] show ?thesis by auto
            next
              case (Inr u)
              with eq 1 r1 False 2 r2 3 r3 4 d 5
              have "f v est demand n (py_plus (py_plus so_far (Finite (w1 + w2 + w3))) delay) s5 = Some y" by auto
              from IH [OF this] I5 show ?thesis by simp
            qed
          qed
        qed
      qed
    qed
  qed
  with assms(2) show ?thesis by simp
qed

section \<open>What the scheduler itself did\<close>

text \<open>Over the events, newest first: the leases held, the local slots held, the requests sent.\<close>

fun held :: "event list \<Rightarrow> lease list" where
  "held [] = []"
| "held (Acquired l # es) = l # held es"
| "held (Gave_back l # es) = remove1 l (held es)"
| "held (Settled_lease l p # es) = remove1 l (held es)"
| "held (_ # es) = held es"

fun slots :: "event list \<Rightarrow> int" where
  "slots [] = 0"
| "slots (Took_slot # es) = slots es + 1"
| "slots (Freed_slot # es) = slots es - 1"
| "slots (_ # es) = slots es"

fun sends :: "event list \<Rightarrow> int" where
  "sends [] = 0"
| "sends (Sent_request l n # es) = sends es + 1"
| "sends (_ # es) = sends es"

text \<open>Is the request answered at step \<open>n\<close> provably over?\<close>

definition proven_at :: "('s, 'r) surroundings \<Rightarrow> nat \<Rightarrow> bool" where
  "proven_at v n = (case provider v n of
       Inr x \<Rightarrow> True
     | Inl i \<Rightarrow> completion_proven (classify_outcome (exceptions v) (Some i)))"

text \<open>
  Each event at the right moment: no wait while a lease is held, no second lease, a request goes out
  under the one held lease, and a lease is settled right after its request, by the proof.
\<close>

fun tidy :: "('s, 'r) surroundings \<Rightarrow> event list \<Rightarrow> bool" where
  "tidy v [] = True"
| "tidy v (Slept x # es) = (held es = [] \<and> tidy v es)"
| "tidy v (Acquired l # es) = (held es = [] \<and> tidy v es)"
| "tidy v (Gave_back l # es) = (held es = [l] \<and> tidy v es)"
| "tidy v (Sent_request l n # es) = (held es = (case l of None \<Rightarrow> [] | Some l' \<Rightarrow> [l']) \<and> tidy v es)"
| "tidy v (Settled_lease l p # es) =
     ((case es of
         Freed_slot # Sent_request (Some l') n # es' \<Rightarrow> l' = l \<and> p = proven_at v n
       | _ \<Rightarrow> False) \<and> tidy v es)"
| "tidy v (e # es) = tidy v es"

definition quiet :: "('s, 'r) surroundings \<Rightarrow> int \<Rightarrow> int \<Rightarrow> lease list \<Rightarrow> 's sched \<Rightarrow> bool" where
  "quiet v k n ls s \<longleftrightarrow>
     tidy v (events s) \<and> held (events s) = ls \<and> slots (events s) = k \<and> sends (events s) = n"

lemma quiet_same: "events s' = events s \<Longrightarrow> quiet v k n ls s' = quiet v k n ls s"
  by (simp add: quiet_def)

lemma quiet_turned [simp]: "quiet v k n ls (turned v' s) = quiet v k n ls s"
  by (simp add: quiet_def)

lemma quiet_sleep: "quiet v k n [] s \<Longrightarrow> quiet v k n [] (happened (Slept x) s)"
  by (simp add: quiet_def)

lemma try_admit_quiet: "try_admit c est s = (r, s') \<Longrightarrow> quiet v k n ls s \<Longrightarrow> quiet v k n ls s'"
  by (subst quiet_same [of s' s]) (auto simp: try_admit_def prune_def Let_def split: if_splits)

lemma admit_quiet:
  assumes "quiet v k n [] s" "admit v est f s = Some (r, s1)"
  shows "quiet v k n [] s1"
proof (cases "capacity_loop v (max_backpressure_wait (limits v)) (try_admit (limits v) est) f 0 s = Some (r, s1)")
  case True
  have "case r of Inl e \<Rightarrow> quiet v k n [] s1 | Inr (x, w') \<Rightarrow> quiet v k n [] s1"
    by (rule capacity_loop_rule [OF True, where I = "quiet v k n []" and J = "\<lambda>x. quiet v k n []"])
       (auto simp: assms(1) quiet_sleep dest: try_admit_quiet)
  then show ?thesis by (simp split: sum.splits prod.splits)
next
  case False
  with assms show ?thesis by (auto simp: admit_def split: if_splits)
qed

lemma slot_quiet:
  assumes "quiet v k n [] s" "acquire_slot v f s = Some (r, s1)"
  shows "case r of Inl e \<Rightarrow> quiet v k n [] s1 | Inr w \<Rightarrow> quiet v (k + 1) n [] s1"
proof (rule acquire_slot_rule [OF assms(2), where I = "quiet v k n []"])
  show "quiet v (k + 1) n [] s1" if "quiet v k n [] s" "take_slot s = Some s1" for s s1
    using that by (auto simp: take_slot_def quiet_def split: if_splits)
qed (auto simp: assms(1) quiet_sleep)

lemma take_lease_quiet:
  assumes "quiet v k n [] s" "take_lease v B c s = (r, s1)"
  shows "quiet v k n (case r of None \<Rightarrow> [] | Some l \<Rightarrow> [l]) s1"
  using assms by (auto simp: take_lease_def quiet_def Let_def split: prod.splits option.splits)

lemma offer_quiet:
  assumes "offer v B c demand s = (r, s1)"
  shows "quiet v k n ls s1 = quiet v k n ls s"
  using assms by (auto simp: offer_def quiet_def Let_def split: prod.splits sum.splits if_splits)

lemma give_back_quiet:
  assumes "quiet v k n [l] s" "give_back v B c l s = (r, s1)"
  shows "quiet v k n [] s1"
  using assms by (auto simp: give_back_def quiet_def Let_def split: prod.splits if_splits)

lemma try_global_quiet:
  assumes "quiet v k n [] s" "try_global v B c demand s = (r, s1)"
  shows "quiet v k n (case r of Granted l \<Rightarrow> [l] | _ \<Rightarrow> []) s1"
proof (cases "store_down v (tick s)")
  case True
  with assms show ?thesis by (auto simp: try_global_def)
next
  case False
  obtain q s2 where q: "take_lease v B c s = (q, s2)" by fastforce
  note Q = take_lease_quiet [OF assms(1) q]
  show ?thesis
  proof (cases q)
    case None
    with assms False q Q show ?thesis by (auto simp: try_global_def)
  next
    case (Some l)
    obtain o1 s3 where o1: "offer v B c demand s2 = (o1, s3)" by fastforce
    have O: "quiet v k n [l] s3" using Q Some offer_quiet [OF o1] by simp
    obtain g s4 where g: "give_back v B c l s3 = (g, s4)" by fastforce
    note G = give_back_quiet [OF O g]
    show ?thesis
      using assms(2) False q Some o1 g O G
      by (auto simp: try_global_def split: sum.splits if_splits)
  qed
qed

lemma permit_quiet:
  assumes "quiet v (k + 1) n [] s" "take_permit v demand f s = Some (r, s1)"
  shows "case r of Inl e \<Rightarrow> quiet v k n [] (free_slot s1)
    | Inr (l, w) \<Rightarrow> quiet v (k + 1) n (case l of None \<Rightarrow> [] | Some l' \<Rightarrow> [l']) s1 \<and> (l \<noteq> None) = (coordinator v \<noteq> None)"
proof (cases "coordinator v")
  case None
  with assms show ?thesis by (auto simp: take_permit_def)
next
  case (Some bc)
  then obtain B c where bc: "coordinator v = Some (B, c)" by (cases bc) auto
  obtain q s2 where q: "acquire_global v B c (max 1 demand) f s = Some (q, s2)"
    using assms(2) bc by (cases "acquire_global v B c (max 1 demand) f s") (auto simp: take_permit_def)
  have Q: "case q of Inl e \<Rightarrow> quiet v (k + 1) n [] s2 | Inr (l, w) \<Rightarrow> quiet v (k + 1) n [l] s2"
    by (rule capacity_loop_rule [OF q [unfolded acquire_global_def], where I = "quiet v (k + 1) n []"])
       (auto simp: assms(1) quiet_sleep dest: try_global_quiet [rotated])
  show ?thesis
  proof (cases q)
    case (Inl e)
    with assms(2) bc q Q show ?thesis by (auto simp: take_permit_def quiet_def free_slot_def)
  next
    case (Inr lw)
    then obtain l w where l: "q = Inr (l, w)" by (cases lw) auto
    with Q have L: "quiet v (k + 1) n [l] s2" by simp
    obtain g s3 where g: "give_back v B c l s2 = (g, s3)" by fastforce
    note G = give_back_quiet [OF L g]
    show ?thesis using assms(2) bc q l L g G
      by (auto simp: take_permit_def quiet_def free_slot_def split: if_splits sum.splits)
  qed
qed

lemma signal_events: "signal_limiter v x s = (r, s1) \<Longrightarrow> events s1 = events s"
  by (auto simp: signal_limiter_def Let_def split: option.splits prod.splits if_splits)

text \<open>The decision to retry: one more attempt within the allowance, after a delay within the bound.\<close>

definition retried ::
  "('s, 'r) surroundings \<Rightarrow> int \<Rightarrow> pyfloat \<Rightarrow> pyfloat option \<Rightarrow> int \<Rightarrow> pyfloat \<Rightarrow> bool" where
  "retried v a f after m w \<longleftrightarrow> m = a + 1 \<and> m \<le> max_rate_limit_retries (limits v) \<and>
     (after = Some w \<or> (\<exists>q. w = backoff (limits v) m q)) \<and>
     \<not> py_less (max_backpressure_wait (limits v)) (py_plus f w)"

lemma after_failure_decides:
  assumes "after_failure v i x a f s = (d, s1)"
  shows "events s1 = events s"
    and "d = Retry_after m w \<Longrightarrow> retried v a f (retry_after x) m w"
    and "d \<noteq> Finished (Inr y)"
  using assms
  by (auto simp: after_failure_def retried_def Let_def split: if_splits prod.splits sum.splits option.splits
      dest: signal_events)

lemma settle_permit_events:
  assumes "settle_permit v l p why s = (r, s1)" "(l \<noteq> None) = (coordinator v \<noteq> None)"
  shows "events s1 = (case l of None \<Rightarrow> events s | Some l' \<Rightarrow> Settled_lease l' p # events s)"
  using assms
  by (auto simp: settle_permit_def Let_def split: option.splits prod.splits if_splits)

text \<open>What one attempt answers with, before the settlement.\<close>

lemma attempt_cases:
  assumes run: "attempt v l a f s = (d, s1)"
  obtains (Settled) s2 d0 why where
    "events s2 = Freed_slot # Sent_request l (Suc (tick s)) # events s"
    "settle_permit v l (proven_at v (Suc (tick s))) why s2 = (Inr (), s1)" "d = d0"
    "\<And>m w. d0 = Retry_after m w \<Longrightarrow>
       \<exists>i. retried v a f (retry_after (classify_outcome (exceptions v) (Some i))) m w"
  | (Replaced) s2 e why where
    "events s2 = Freed_slot # Sent_request l (Suc (tick s)) # events s"
    "settle_permit v l (proven_at v (Suc (tick s))) why s2 = (Inl e, s1)" "d = Finished (Inl e)"
proof -
  let ?s = "happened (Sent_request l (tick (turned v s))) (turned v s)"
  define step where "step = (case provider v (Suc (tick s)) of
      Inr x \<Rightarrow> (Finished (Inr x), True, [], ?s)
    | Inl i \<Rightarrow> (let verdict = classify_outcome (exceptions v) (Some i);
                    (d, s1) = after_failure v i verdict a f ?s
                in (d, completion_proven verdict, unproven_text (unproven_reason verdict), s1)))"
  obtain d0 p why s3 where st: "step = (d0, p, why, s3)" by (cases step) auto
  have p: "p = proven_at v (Suc (tick s))"
    using st by (auto simp: step_def proven_at_def Let_def split: sum.splits prod.splits)
  have ev: "events s3 = events ?s"
    using st by (auto simp: step_def Let_def split: sum.splits prod.splits dest: after_failure_decides(1))
  have retry: "\<exists>i. retried v a f (retry_after (classify_outcome (exceptions v) (Some i))) m w"
    if "d0 = Retry_after m w" for m w
    using st that by (auto simp: step_def Let_def split: sum.splits prod.splits dest: after_failure_decides(2))
  have ev2: "events (free_slot s3) = Freed_slot # Sent_request l (Suc (tick s)) # events s"
    using ev by (simp add: free_slot_def)
  have "attempt v l a f s = (case step of (d, proven, reason, s1) \<Rightarrow>
      case settle_permit v l proven reason (free_slot s1) of
        (Inl e, s2) \<Rightarrow> (Finished (Inl e), s2) | (Inr u, s2) \<Rightarrow> (d, s2))"
    by (simp add: attempt_def step_def Let_def)
  then have out: "(d, s1) = (case settle_permit v l (proven_at v (Suc (tick s))) why (free_slot s3) of
        (Inl e, s2) \<Rightarrow> (Finished (Inl e), s2) | (Inr u, s2) \<Rightarrow> (d0, s2))"
    using run st p by simp
  obtain q s4 where q: "settle_permit v l (proven_at v (Suc (tick s))) why (free_slot s3) = (q, s4)" by fastforce
  show thesis
  proof (cases q)
    case (Inl e)
    with out q show ?thesis by (intro Replaced [OF ev2]) auto
  next
    case (Inr u)
    with out q retry show ?thesis by (intro Settled [OF ev2]) auto
  qed
qed

lemma attempt_quiet:
  assumes "quiet v (k + 1) n (case l of None \<Rightarrow> [] | Some l' \<Rightarrow> [l']) s"
    and coord: "(l \<noteq> None) = (coordinator v \<noteq> None)" and run: "attempt v l a f s = (d, s1)"
  shows "quiet v k (n + 1) [] s1"
    and "d = Retry_after m w \<Longrightarrow> m = a + 1 \<and> m \<le> max_rate_limit_retries (limits v)"
proof -
  have q: "quiet v k (n + 1) [] s1"
    if ev: "events s2 = Freed_slot # Sent_request l (Suc (tick s)) # events s"
      and set: "settle_permit v l (proven_at v (Suc (tick s))) why s2 = (r, s1)" for s2 why r
    using assms(1) ev settle_permit_events [OF set coord] by (auto simp: quiet_def split: option.splits)
  from run show "quiet v k (n + 1) [] s1" by (cases rule: attempt_cases) (auto intro: q)
  from run show "m = a + 1 \<and> m \<le> max_rate_limit_retries (limits v)" if "d = Retry_after m w"
    using that by (cases rule: attempt_cases) (auto simp: retried_def)
qed

lemma execute_quiet:
  assumes ret: "execute v est demand 0 f s = Some (r, s')" and start: "quiet v k n [] s"
    and retries: "0 \<le> max_rate_limit_retries (limits v)"
  shows "\<exists>j. quiet v k (n + j) [] s' \<and> j \<le> max_rate_limit_retries (limits v) + 1"
proof -
  let ?I = "\<lambda>a s. quiet v k (n + a) [] s \<and> a \<le> max_rate_limit_retries (limits v)"
  let ?P = "\<lambda>l a s. quiet v (k + 1) (n + a) (case l of None \<Rightarrow> [] | Some l' \<Rightarrow> [l']) s \<and>
    a \<le> max_rate_limit_retries (limits v) \<and> (l \<noteq> None) = (coordinator v \<noteq> None)"
  show ?thesis
  proof (rule execute_rule [OF ret, where I = ?I and P = ?P and
        S = "\<lambda>a s. quiet v (k + 1) (n + a) [] s \<and> a \<le> max_rate_limit_retries (limits v)"])
    show "?I 0 s" using start retries by simp
  next
    fix a f s r s1 assume "?I a s" "admit v est f s = Some (r, s1)"
    then show "?I a s1" using admit_quiet by blast
  next
    fix a f s r s1 assume "?I a s" "acquire_slot v f s = Some (r, s1)"
    then show "case r of Inl e \<Rightarrow> ?I a s1
      | Inr w \<Rightarrow> quiet v (k + 1) (n + a) [] s1 \<and> a \<le> max_rate_limit_retries (limits v)"
      using slot_quiet [of v k "n + a" s f r s1] by (auto split: sum.splits)
  next
    fix a f s r s1
    assume "quiet v (k + 1) (n + a) [] s \<and> a \<le> max_rate_limit_retries (limits v)"
      "take_permit v demand f s = Some (r, s1)"
    then show "case r of Inl e \<Rightarrow> ?I a (free_slot s1) | Inr (l, w) \<Rightarrow> ?P l a s1"
      using permit_quiet [of v k "n + a" s demand f r s1] by (auto split: sum.splits prod.splits)
  next
    fix l a f s d s1 assume P: "?P l a s" and run: "attempt v l a f s = (d, s1)"
    from attempt_quiet [of v k "n + a" l s a f d s1] P run
    show "case d of Finished r \<Rightarrow> \<exists>j. quiet v k (n + j) [] s1 \<and> j \<le> max_rate_limit_retries (limits v) + 1
        | Retry_after m w \<Rightarrow> ?I m s1"
      by (auto split: decision.splits simp: add.assoc intro!: exI [of _ "a + 1"])
  next
    fix a s x assume "?I a s"
    then show "?I a (turned v (happened (Slept x) s))" by (simp add: quiet_sleep)
  next
    fix a s assume "?I a s"
    then show "\<exists>j. quiet v k (n + j) [] s \<and> j \<le> max_rate_limit_retries (limits v) + 1"
      by (auto intro!: exI [of _ a])
  qed
qed

section \<open>The call returns\<close>

lemma try_admit_busy:
  assumes "try_admit c est s = (Busy d, s1)"
  shows "1 / 1000 \<le> d"
proof -
  from assms have "\<exists>x. d = max x (1 / 1000)"
    by (auto simp: try_admit_def Let_def split: if_splits)
  then show ?thesis by (auto simp: max_def)
qed

lemma admit_returns:
  assumes "max_backpressure_wait (limits v) = Finite b"
  shows "\<exists>r. admit v est (Finite x) s = Some r"
  using capacity_loop_returns [where \<delta> = "1 / 1000" and ask = "try_admit (limits v) est" and v = v and b = b
      and x = x and w = 0 and s = s, OF _ try_admit_busy]
  by (auto simp: admit_def assms)

lemma acquire_slot_returns:
  assumes "max_backpressure_wait (limits v) = Finite b"
  shows "\<exists>r. acquire_slot v (Finite x) s = Some r"
  using slot_loop_returns [OF assms] by (auto simp: acquire_slot_def Let_def split: option.split)

lemma try_global_busy: "try_global v B c demand s = (Busy d, s1) \<Longrightarrow> SLOT_POLL_SECONDS \<le> d"
  by (auto simp: try_global_def split: if_splits prod.splits option.splits sum.splits)

lemma take_permit_returns:
  assumes "max_backpressure_wait (limits v) = Finite b"
  shows "\<exists>r. take_permit v demand (Finite x) s = Some r"
proof (cases "coordinator v")
  case None
  then show ?thesis by (simp add: take_permit_def)
next
  case (Some bc)
  obtain B c where bc: "bc = (B, c)" by fastforce
  have "\<exists>r. acquire_global v B c (max 1 demand) (Finite x) s = Some r"
    unfolding acquire_global_def assms
    by (rule capacity_loop_returns [of SLOT_POLL_SECONDS])
       (simp add: SLOT_POLL_SECONDS_def, erule try_global_busy)
  then show ?thesis using Some bc by (auto simp: take_permit_def split: sum.split prod.split)
qed

lemma retry_after_not_NegInf: "retry_after (classify_outcome heap (Some i)) \<noteq> Some NegInf"
proof (cases "map_of heap i")
  case None
  then show ?thesis by (simp add: classify_outcome_def unknown_verdict_def)
next
  case (Some e)
  then show ?thesis
    by (simp add: classify_fields(2) retry_after_seconds_def split: option.splits pyfloat.splits)
qed

lemma backoff_finite:
  assumes "backoff_base c = Finite x" "backoff_max c = Finite y"
  shows "backoff c n r \<noteq> NaN" "backoff c n r \<noteq> NegInf" "backoff c n r \<noteq> PosInf"
  using assms by (auto simp: backoff_def py_scale_def py_min_def)

text \<open>An attempt that is retried asks for a finite delay.\<close>

lemma retry_delay_finite:
  assumes bound: "max_backpressure_wait (limits v) = Finite b"
    and base: "backoff_base (limits v) = Finite y" "backoff_max (limits v) = Finite z"
    and sane: "\<And>i. retry_after (classify_outcome (exceptions v) (Some i)) \<noteq> Some NaN"
    and run: "attempt v l a (Finite x) s = (Retry_after n d, s1)"
  shows "n = a + 1 \<and> n \<le> max_rate_limit_retries (limits v) \<and> (\<exists>d'. d = Finite d')"
  using run
proof (cases rule: attempt_cases)
  case (Settled s2 d0 why)
  then obtain i where r: "retried v a (Finite x) (retry_after (classify_outcome (exceptions v) (Some i))) n d"
    by metis
  have "d \<noteq> NaN" "d \<noteq> NegInf" "d \<noteq> PosInf"
    using r bound backoff_finite [OF base, of n] sane [of i] retry_after_not_NegInf [of "exceptions v" i]
    by (auto simp: retried_def dest: sym)
  with r show ?thesis by (cases d) (auto simp: retried_def)
next
  case (Replaced s2 e why)
  then show ?thesis by simp
qed

lemma execute_total:
  assumes bound: "max_backpressure_wait (limits v) = Finite b"
    and base: "backoff_base (limits v) = Finite y" "backoff_max (limits v) = Finite z"
    and sane: "\<And>i. retry_after (classify_outcome (exceptions v) (Some i)) \<noteq> Some NaN"
  shows "\<exists>r. execute v est demand a (Finite x) s = Some r"
proof (induction "nat (max_rate_limit_retries (limits v) + 1 - a)" arbitrary: a x s rule: less_induct)
  case less
  obtain r1 s1 where 1: "admit v est (Finite x) s = Some (r1, s1)"
    using admit_returns [OF bound] by fastforce
  show ?case
  proof (cases "isl r1 \<or> cancelled_at v (tick s1)")
    case True
    then show ?thesis using 1 by (cases r1) (subst execute.simps, auto)+
  next
    case False
    then obtain w1 where r1: "r1 = Inr ((), w1)" by (cases r1) auto
    obtain r2 s2 where 2: "acquire_slot v (Finite (x + w1)) s1 = Some (r2, s2)"
      using acquire_slot_returns [OF bound] by fastforce
    show ?thesis
    proof (cases r2)
      case (Inl e)
      then show ?thesis using 1 r1 False 2 by (subst execute.simps) auto
    next
      case r2: (Inr w2)
      obtain r3 s3 where 3: "take_permit v demand (Finite (x + (w1 + w2))) s2 = Some (r3, s3)"
        using take_permit_returns [OF bound] by fastforce
      show ?thesis
      proof (cases r3)
        case (Inl e)
        then show ?thesis using 1 r1 False 2 r2 3 by (subst execute.simps) auto
      next
        case (Inr lw)
        then obtain l w3 where r3: "r3 = Inr (l, w3)" by (cases lw) auto
        obtain d s4 where 4: "attempt v l a (Finite (x + (w1 + w2 + w3))) s3 = (d, s4)" by fastforce
        show ?thesis
        proof (cases d)
          case (Finished r)
          then show ?thesis using 1 r1 False 2 r2 3 r3 4 by (subst execute.simps) auto
        next
          case d: (Retry_after n delay)
          from retry_delay_finite [OF bound base sane 4 [unfolded d]] obtain d'
            where n: "n = a + 1" "n \<le> max_rate_limit_retries (limits v)" and d': "delay = Finite d'" by blast
          obtain r5 s5 where 5: "wait v delay s4 = Some (r5, s5)" using wait_returns [of v d' s4] d' by fastforce
          show ?thesis
          proof (cases r5)
            case (Inl e)
            then show ?thesis using 1 r1 False 2 r2 3 r3 4 d 5 by (subst execute.simps) auto
          next
            case (Inr u)
            have "\<exists>r. execute v est demand n (Finite (x + (w1 + w2 + w3) + d')) s5 = Some r"
              by (rule less) (use n in auto)
            then show ?thesis using 1 r1 False 2 r2 3 r3 4 d 5 Inr d' by (subst execute.simps) auto
          qed
        qed
      qed
    qed
  qed
qed

section \<open>Every step on the shared store is a step of the world\<close>

text \<open>
  The rest of the system only takes steps of the world between ours, and a uuid is one that was never
  drawn.
\<close>

definition fair :: "('s, 'r) surroundings \<Rightarrow> 's quota_ops \<Rightarrow> quota_config \<Rightarrow> bool" where
  "fair v B c \<longleftrightarrow> coordinator v = Some (B, c) \<and>
     (\<forall>n s. (world_step B c)\<^sup>*\<^sup>* (shared s) (shared (turn v n s))) \<and>
     (\<forall>X. finite X \<longrightarrow> fresh_id v X \<notin> X)"

definition reached_from :: "'s quota_ops \<Rightarrow> quota_config \<Rightarrow> 's world \<Rightarrow> 's sched \<Rightarrow> bool" where
  "reached_from B c w0 s \<longleftrightarrow> (world_step B c)\<^sup>*\<^sup>* w0 (shared s) \<and> finite (issued (shared s))"

lemma finite_issued_step: "world_step B c w w' \<Longrightarrow> finite (issued w) \<Longrightarrow> finite (issued w')"
  by (erule world_stepE) simp_all

lemma finite_issued_moves: "(world_step B c)\<^sup>*\<^sup>* w w' \<Longrightarrow> finite (issued w) \<Longrightarrow> finite (issued w')"
  by (induction rule: rtranclp_induct) (auto intro: finite_issued_step)

lemma reached_step:
  "reached_from B c w0 s \<Longrightarrow> world_step B c (shared s) (shared s') \<Longrightarrow> reached_from B c w0 s'"
  unfolding reached_from_def by (meson finite_issued_step rtranclp.rtrancl_into_rtrancl)

lemma reached_same: "shared s' = shared s \<Longrightarrow> reached_from B c w0 s' = reached_from B c w0 s"
  by (simp add: reached_from_def)

lemma reached_happened [simp]: "reached_from B c w0 (happened e s) = reached_from B c w0 s"
  by (rule reached_same) simp

lemma reached_turned:
  assumes "fair v B c" "reached_from B c w0 s"
  shows "reached_from B c w0 (turned v s)"
proof -
  have "(world_step B c)\<^sup>*\<^sup>* (shared s) (shared (turned v s))"
    using assms(1) by (simp add: fair_def turned_def Let_def)
  with assms(2) show ?thesis
    unfolding reached_from_def using finite_issued_moves rtranclp_trans by metis
qed

lemma take_lease_reached:
  assumes "fair v B c" "reached_from B c w0 s" "take_lease v B c s = (r, s1)"
  shows "reached_from B c w0 s1"
proof -
  let ?w = "shared s" let ?l = "fresh_id v (issued ?w)"
  have fresh: "?l \<notin> issued ?w" using assms(1,2) by (simp add: fair_def reached_from_def)
  obtain q st where q: "try_acquire_inference B c (store ?w) ?l (clock ?w) = (q, st)" by fastforce
  have "world_step B c ?w (shared s1)"
  proof (cases q)
    case None
    then have "shared s1 = ?w\<lparr>store := st, issued := insert ?l (issued ?w)\<rparr>"
      using assms(3) q by (auto simp: take_lease_def Let_def)
    with world_step.Start_unheard [OF fresh q] show ?thesis by simp
  next
    case (Some l')
    then have "shared s1 = ?w\<lparr>store := st, issued := insert ?l (issued ?w), running := insert l' (running ?w)\<rparr>"
      using assms(3) q by (auto simp: take_lease_def Let_def)
    with world_step.Start [OF fresh q [unfolded Some]] show ?thesis by simp
  qed
  with assms(2) show ?thesis by (rule reached_step)
qed

lemma settle_True_fields: "settle B c st L True why now = (b, L', st', ds) \<Longrightarrow> lease_id L' = lease_id L"
  by (auto simp: settle_def release_def Let_def split: prod.splits if_splits)

lemma give_back_reached:
  assumes "fair v B c" "reached_from B c w0 s" "give_back v B c l s = (r, s1)"
  shows "reached_from B c w0 s1"
proof -
  let ?t = "turned v s" let ?w = "shared ?t"
  have t: "reached_from B c w0 ?t" using assms(1,2) by (rule reached_turned)
  obtain b L st ds where q: "settle B c (store ?w) \<lparr>lease_id = l, lease_outcome = None\<rparr> True [] (clock ?w) = (b, L, st, ds)"
    by (metis prod_cases4)
  have "world_step B c ?w (shared s1)"
  proof (cases "store_down v (tick ?t)")
    case True
    then have "shared s1 = ?w\<lparr>running := running ?w - {l}\<rparr>" using assms(3) by (auto simp: give_back_def Let_def)
    then show ?thesis using world_step.Finish_unheard [of B c ?w l] by simp
  next
    case False
    then have "shared s1 = ?w\<lparr>store := st, running := running ?w - {l}\<rparr>"
      using assms(3) q by (auto simp: give_back_def Let_def)
    then show ?thesis using world_step.Settle_proven [OF q] by simp
  qed
  with t show ?thesis by (rule reached_step)
qed

lemma offer_reached:
  assumes "fair v B c" "reached_from B c w0 s" "offer v B c demand s = (r, s1)"
  shows "reached_from B c w0 s1"
proof (cases "store_down v (tick (turned v s))")
  case True
  with assms reached_turned [OF assms(1,2)] show ?thesis by (auto simp: offer_def Let_def)
next
  case False
  let ?t = "turned v s" let ?w = "shared ?t" let ?e = "fresh_id v (issued ?w)"
  have t: "reached_from B c w0 ?t" using assms(1,2) by (rule reached_turned)
  have fresh: "?e \<notin> issued ?w" using assms(1) t by (simp add: fair_def reached_from_def)
  obtain q st where q: "try_admit_request B c (store ?w) ?e demand (clock ?w) = (q, st)" by fastforce
  have "world_step B c ?w (shared s1)"
  proof (cases "\<exists>why retry. q = Inr (True, why, retry)")
    case True
    then obtain why retry where ok: "q = Inr (True, why, retry)" by blast
    with assms(3) q False have "shared s1 =
        ?w\<lparr>store := st, issued := insert ?e (issued ?w), sent := (clock ?w, demand) # sent ?w\<rparr>"
      by (auto simp: offer_def Let_def)
    with world_step.Send [OF fresh q [unfolded ok]] show ?thesis by simp
  next
    case no: False
    with assms(3) q False have "shared s1 = ?w\<lparr>store := st, issued := insert ?e (issued ?w)\<rparr>"
      by (auto simp: offer_def Let_def split: sum.splits)
    with world_step.Send_refused [OF fresh q] show ?thesis by simp
  qed
  with t show ?thesis by (rule reached_step)
qed

lemma try_global_reached:
  assumes "fair v B c" "reached_from B c w0 s" "try_global v B c demand s = (r, s1)"
  shows "reached_from B c w0 s1"
proof (cases "store_down v (tick s)")
  case True
  with assms show ?thesis by (auto simp: try_global_def)
next
  case False
  obtain q s2 where q: "take_lease v B c s = (q, s2)" by fastforce
  note Q = take_lease_reached [OF assms(1,2) q]
  show ?thesis
  proof (cases q)
    case None
    with assms False q Q show ?thesis by (auto simp: try_global_def)
  next
    case (Some l)
    obtain o1 s3 where o1: "offer v B c demand s2 = (o1, s3)" by fastforce
    note O = offer_reached [OF assms(1) Q o1]
    obtain g s4 where g: "give_back v B c l s3 = (g, s4)" by fastforce
    note G = give_back_reached [OF assms(1) O g]
    show ?thesis using assms(3) False q Some o1 g O G
      by (auto simp: try_global_def split: sum.splits if_splits)
  qed
qed

lemma capacity_loop_reached:
  assumes "fair v B c" "reached_from B c w0 s" "capacity_loop v bound ask f w s = Some (r, s1)"
    and ask: "\<And>s r s1. reached_from B c w0 s \<Longrightarrow> ask s = (r, s1) \<Longrightarrow> reached_from B c w0 s1"
  shows "reached_from B c w0 s1"
proof -
  have "case r of Inl e \<Rightarrow> reached_from B c w0 s1 | Inr (x, w') \<Rightarrow> reached_from B c w0 s1"
    by (rule capacity_loop_rule [OF assms(3), where I = "reached_from B c w0" and J = "\<lambda>x. reached_from B c w0"])
       (auto simp: assms(2) intro: ask [rotated] reached_turned [OF assms(1)])
  then show ?thesis by (simp split: sum.splits prod.splits)
qed

lemma admit_reached:
  assumes "fair v B c" "reached_from B c w0 s" "admit v est f s = Some (r, s1)"
  shows "reached_from B c w0 s1"
proof -
  have ask: "shared s' = shared s" if "try_admit (limits v) est s = (q, s')" for s s' :: "'a sched" and q
    using that by (auto simp: try_admit_def prune_def Let_def split: if_splits)
  show ?thesis
  proof (cases "capacity_loop v (max_backpressure_wait (limits v)) (try_admit (limits v) est) f 0 s = Some (r, s1)")
    case True
    show ?thesis
      by (rule capacity_loop_reached [OF assms(1,2) True]) (simp add: ask reached_same [OF ask])
  next
    case False
    with assms show ?thesis by (auto simp: admit_def split: if_splits)
  qed
qed

lemma acquire_slot_reached:
  assumes "fair v B c" "reached_from B c w0 s" "acquire_slot v f s = Some (r, s1)"
  shows "reached_from B c w0 s1"
proof -
  have "case r of Inl e \<Rightarrow> reached_from B c w0 s1 | Inr w \<Rightarrow> reached_from B c w0 s1"
  proof (rule acquire_slot_rule [OF assms(3), where I = "reached_from B c w0"])
    show "reached_from B c w0 s1" if "reached_from B c w0 s" "take_slot s = Some s1" for s s1
      using that by (auto simp: take_slot_def reached_from_def split: if_splits)
  qed (use assms(2) in \<open>auto intro: reached_turned [OF assms(1)]\<close>)
  then show ?thesis by (simp split: sum.splits)
qed

lemma free_slot_reached [simp]: "reached_from B c w0 (free_slot s) = reached_from B c w0 s"
  by (simp add: free_slot_def reached_from_def)

lemma take_permit_reached:
  assumes "fair v B c" "reached_from B c w0 s" "take_permit v demand f s = Some (r, s1)"
  shows "reached_from B c w0 s1"
proof -
  have bc: "coordinator v = Some (B, c)" using assms(1) by (simp add: fair_def)
  obtain q s2 where q: "acquire_global v B c (max 1 demand) f s = Some (q, s2)"
    using assms(3) bc by (cases "acquire_global v B c (max 1 demand) f s") (auto simp: take_permit_def)
  have Q: "reached_from B c w0 s2"
    by (rule capacity_loop_reached [OF assms(1,2) q [unfolded acquire_global_def]])
       (erule (1) try_global_reached [OF assms(1)])
  show ?thesis
  proof (cases q)
    case (Inl e)
    with assms(3) bc q Q show ?thesis by (auto simp: take_permit_def)
  next
    case (Inr lw)
    then obtain l w where l: "q = Inr (l, w)" by (cases lw) auto
    obtain g s3 where g: "give_back v B c l s2 = (g, s3)" by fastforce
    note G = give_back_reached [OF assms(1) Q g]
    show ?thesis using assms(3) bc q l Q g G
      by (auto simp: take_permit_def split: if_splits sum.splits)
  qed
qed

lemma signal_reached:
  assumes "fair v B c" "reached_from B c w0 s" "signal_limiter v x s = (r, s1)"
  shows "reached_from B c w0 s1"
proof -
  have bc: "coordinator v = Some (B, c)" using assms(1) by (simp add: fair_def)
  let ?t = "turned v s" let ?w = "shared ?t"
  have t: "reached_from B c w0 ?t" using assms(1,2) by (rule reached_turned)
  show ?thesis
  proof (cases "store_down v (tick ?t)")
    case True
    with assms(3) bc t show ?thesis by (auto simp: signal_limiter_def Let_def)
  next
    case False
    obtain d ra lim rem hr q st where
      q: "record_rate_limit_signal B c (store ?w) d ra lim rem hr (clock ?w) = (q, st)"
      and sh: "shared s1 = ?w\<lparr>store := st\<rparr>"
      using assms(3) bc False by (auto simp: signal_limiter_def Let_def split: prod.splits)
    from world_step.Rate_limited [OF q] sh have "world_step B c ?w (shared s1)" by simp
    with t show ?thesis by (rule reached_step)
  qed
qed

lemma after_failure_reached:
  assumes "fair v B c" "reached_from B c w0 s" "after_failure v i x a f s = (d, s1)"
  shows "reached_from B c w0 s1"
proof -
  obtain q s2 where q: "signal_limiter v x s = (q, s2)" by fastforce
  from signal_reached [OF assms(1,2) q] assms(2,3) q show ?thesis
    by (auto simp: after_failure_def Let_def split: if_splits sum.splits)
qed

lemma settle_permit_reached:
  assumes "fair v B c" "reached_from B c w0 s" "settle_permit v l p why s = (r, s1)"
  shows "reached_from B c w0 s1"
proof (cases l)
  case None
  with assms(2,3) show ?thesis by (simp add: settle_permit_def)
next
  case (Some l')
  have bc: "coordinator v = Some (B, c)" using assms(1) by (simp add: fair_def)
  let ?t = "turned v s" let ?w = "shared ?t"
  have t: "reached_from B c w0 ?t" using assms(1,2) by (rule reached_turned)
  obtain b L st ds where q: "settle B c (store ?w) \<lparr>lease_id = l', lease_outcome = None\<rparr> p why (clock ?w) = (b, L, st, ds)"
    by (metis prod_cases4)
  have "world_step B c ?w (shared s1)"
  proof (cases "p \<and> store_down v (tick ?t)")
    case True
    then have "shared s1 = ?w\<lparr>running := running ?w - {l'}\<rparr>"
      using assms(3) bc Some by (auto simp: settle_permit_def Let_def)
    then show ?thesis using world_step.Finish_unheard [of B c ?w l'] by simp
  next
    case False
    then have sh: "shared s1 = ?w\<lparr>store := st, running := (if p then running ?w - {l'} else running ?w)\<rparr>"
      using assms(3) bc Some q by (auto simp: settle_permit_def Let_def)
    show ?thesis
    proof (cases p)
      case True
      with world_step.Settle_proven [of B c ?w] q sh settle_True_fields show ?thesis by fastforce
    next
      case False
      with world_step.Settle_unproven [of B c ?w] q sh show ?thesis by fastforce
    qed
  qed
  with t show ?thesis by (rule reached_step)
qed

lemma attempt_reached:
  assumes "fair v B c" "reached_from B c w0 s" "attempt v l a f s = (d, s1)"
  shows "reached_from B c w0 s1"
proof -
  let ?s = "happened (Sent_request l (tick (turned v s))) (turned v s)"
  have start: "reached_from B c w0 ?s" using reached_turned [OF assms(1,2)] by simp
  obtain d0 p why s3 where s3: "reached_from B c w0 s3"
    and out: "(d, s1) = (case settle_permit v l p why (free_slot s3) of
        (Inl e, s2) \<Rightarrow> (Finished (Inl e), s2) | (Inr u, s2) \<Rightarrow> (d0, s2))"
  proof (cases "provider v (tick ?s)")
    case (Inr x)
    show thesis
      by (rule that [OF start, of "Finished (Inr x)" True "[]"])
         (use assms(3) Inr in \<open>simp add: attempt_def Let_def\<close>)
  next
    case (Inl i)
    let ?x = "classify_outcome (exceptions v) (Some i)"
    obtain d0 s3 where q: "after_failure v i ?x a f ?s = (d0, s3)" by fastforce
    show thesis
      by (rule that [OF after_failure_reached [OF assms(1) start q], of d0
            "completion_proven ?x" "unproven_text (unproven_reason ?x)"])
         (use assms(3) Inl q in \<open>simp add: attempt_def Let_def\<close>)
  qed
  obtain q s4 where q: "settle_permit v l p why (free_slot s3) = (q, s4)" by fastforce
  have "reached_from B c w0 s4" by (rule settle_permit_reached [OF assms(1) _ q]) (simp add: s3)
  with out q show ?thesis by (auto split: sum.splits)
qed

lemma execute_reached:
  assumes fair: "fair v B c" and start: "reached_from B c w0 s"
    and ret: "execute v est demand a f s = Some (r, s')"
  shows "reached_from B c w0 s'"
proof (rule execute_rule [OF ret, where I = "\<lambda>a. reached_from B c w0" and S = "\<lambda>a. reached_from B c w0"
      and P = "\<lambda>l a. reached_from B c w0"])
qed (auto split: sum.split prod.split decision.split simp: start intro!: reached_turned [OF fair]
  dest: admit_reached [OF fair] acquire_slot_reached [OF fair] take_permit_reached [OF fair]
    attempt_reached [OF fair] reached_turned [OF fair])

lemma try_search_reached:
  assumes "reached_from B c w0 s" "try_search v B c p s = (r, s1)"
  shows "reached_from B c w0 s1"
proof (cases "store_down v (tick s)")
  case True
  with assms show ?thesis by (auto simp: try_search_def)
next
  case False
  let ?w = "shared s"
  obtain ok retry st where q: "try_admit_search B c (store ?w) p (clock ?w) = ((ok, retry), st)"
    by (metis prod.exhaust)
  have "world_step B c ?w (shared s1)"
  proof (cases ok)
    case True
    with assms(2) False q have "shared s1 =
        ?w\<lparr>store := st, searched := (searched ?w)(p := clock ?w # searched ?w p)\<rparr>"
      by (auto simp: try_search_def Let_def)
    with world_step.Search [OF q [unfolded eqTrueI [OF True]]] show ?thesis by simp
  next
    case no: False
    with assms(2) False q have "shared s1 = ?w\<lparr>store := st\<rparr>" by (auto simp: try_search_def Let_def)
    with world_step.Search_refused [OF q] show ?thesis by simp
  qed
  with assms(1) show ?thesis by (rule reached_step)
qed

lemma admit_search_reached:
  assumes fair: "fair v B c" and start: "reached_from B c w0 s" and ret: "admit_search v p b s = Some (r, s')"
  shows "reached_from B c w0 s'"
proof -
  have bc: "coordinator v = Some (B, c)" using fair by (simp add: fair_def)
  from ret bc obtain q where q: "capacity_loop v (case b of None \<Rightarrow> max_backpressure_wait (limits v) | Some b \<Rightarrow> b)
      (try_search v B c p) (Finite 0) 0 s = Some (q, s')"
    by (auto simp: admit_search_def)
  show ?thesis
    by (rule capacity_loop_reached [OF fair start q]) (erule (1) try_search_reached)
qed

section \<open>The process-local sliding windows\<close>

text \<open>Offers \<open>(clock, estimate)\<close> in turn; the admitted ones, newest first.\<close>

fun offer_all :: "provider_limits \<Rightarrow> (rat \<times> int) list \<Rightarrow> 's sched \<Rightarrow> (rat \<times> int) list \<Rightarrow> (rat \<times> int) list" where
  "offer_all c [] s A = A"
| "offer_all c ((t, est) # later) s A =
     (case try_admit c est (s\<lparr>mono := t\<rparr>) of
        (Granted u, s') \<Rightarrow> offer_all c later s' ((t, est) # A)
      | (Busy d, s') \<Rightarrow> offer_all c later s' A
      | (Refused_at e, s') \<Rightarrow> offer_all c later s' A)"

definition in_window :: "rat \<Rightarrow> (rat \<times> int) list \<Rightarrow> (rat \<times> int) list" where
  "in_window u A = filter (\<lambda>(t, n). t \<le> u \<and> u - t < LOCAL_WINDOW_SECONDS) A"

definition paced_step :: "provider_limits \<Rightarrow> rat \<times> int \<Rightarrow> (rat \<times> int) list \<Rightarrow> bool" where
  "paced_step c p A \<longleftrightarrow>
     (case rpm_limit c of None \<Rightarrow> True
      | Some l \<Rightarrow> int (length (filter (\<lambda>(t, n). fst p - t < LOCAL_WINDOW_SECONDS) A)) + 1 \<le> l) \<and>
     (case tpm_limit c of None \<Rightarrow> True
      | Some m \<Rightarrow> (\<Sum>(t, n)\<leftarrow>filter (\<lambda>(t, n). fst p - t < LOCAL_WINDOW_SECONDS) A. n) + snd p \<le> m)"

fun paced :: "provider_limits \<Rightarrow> (rat \<times> int) list \<Rightarrow> bool" where
  "paced c [] = True"
| "paced c (p # A) = (paced_step c p A \<and> (\<forall>q \<in> set A. fst q \<le> fst p) \<and> 0 \<le> snd p \<and> paced c A)"

lemma sum_filter_mono:
  "\<forall>p \<in> set A. 0 \<le> snd p \<Longrightarrow> (\<And>p. p \<in> set A \<Longrightarrow> P p \<Longrightarrow> Q p) \<Longrightarrow>
    (\<Sum>(t, n)\<leftarrow>filter P A. n) \<le> (\<Sum>(t, n)\<leftarrow>filter Q A. n :: int)"
  by (induction A) auto

lemma length_filter_mono:
  "(\<And>p. p \<in> set A \<Longrightarrow> P p \<Longrightarrow> Q p) \<Longrightarrow> length (filter P A) \<le> length (filter Q A)"
  by (induction A) auto

lemma paced_nonneg: "paced c A \<Longrightarrow> \<forall>p \<in> set A. 0 \<le> snd p"
  by (induction A) auto

lemma paced_window:
  assumes "paced c A"
  shows "case rpm_limit c of None \<Rightarrow> True | Some l \<Rightarrow> 0 \<le> l \<longrightarrow> int (length (in_window u A)) \<le> l"
    and "case tpm_limit c of None \<Rightarrow> True | Some m \<Rightarrow> 0 \<le> m \<longrightarrow> (\<Sum>(t, n)\<leftarrow>in_window u A. n) \<le> m"
proof (atomize (full), use assms in \<open>induction A\<close>)
  case Nil
  then show ?case by (auto simp: in_window_def split: option.splits)
next
  case (Cons p A)
  obtain t n where p: "p = (t, n)" by fastforce
  have older: "\<forall>q \<in> set A. fst q \<le> t" and pos: "\<forall>q \<in> set A. 0 \<le> snd q" and step: "paced_step c (t, n) A"
    using Cons.prems p paced_nonneg [of c A] by auto
  show ?case
  proof (cases "t \<le> u \<and> u - t < LOCAL_WINDOW_SECONDS")
    case False
    then have "in_window u (p # A) = in_window u A" by (auto simp: in_window_def p)
    with Cons show ?thesis by (auto split: option.splits)
  next
    case True
    then have w: "in_window u (p # A) = (t, n) # in_window u A" by (simp add: in_window_def p)
    have "length (in_window u A) \<le> length (filter (\<lambda>(t', n). t - t' < LOCAL_WINDOW_SECONDS) A)"
      unfolding in_window_def by (rule length_filter_mono) (use True in auto)
    moreover have "(\<Sum>(t, n)\<leftarrow>in_window u A. n) \<le> (\<Sum>(t', n)\<leftarrow>filter (\<lambda>(t', n). t - t' < LOCAL_WINDOW_SECONDS) A. n)"
      unfolding in_window_def by (rule sum_filter_mono [OF pos]) (use True in auto)
    ultimately show ?thesis using step w by (auto simp: paced_step_def split: option.splits)
  qed
qed

text \<open>The deques hold exactly the admissions of the last minute.\<close>

definition deques_ok :: "rat \<Rightarrow> (rat \<times> int) list \<Rightarrow> 's sched \<Rightarrow> bool" where
  "deques_ok now A s \<longleftrightarrow>
     request_starts s = rev (map fst (filter (\<lambda>(t, n). now - t < LOCAL_WINDOW_SECONDS) A)) \<and>
     token_starts s = rev (filter (\<lambda>(t, n). now - t < LOCAL_WINDOW_SECONDS \<and> 0 < n) A) \<and>
     (\<forall>p \<in> set A. fst p \<le> now)"

lemma dropWhile_window:
  "sorted (map f xs) \<Longrightarrow> dropWhile (\<lambda>x. k \<le> t - f x) xs = filter (\<lambda>x. t - f x < (k :: rat)) xs"
proof (induction xs)
  case (Cons x xs)
  then show ?case by (fastforce intro: filter_True [symmetric])
qed simp

lemma paced_sorted: "paced c A \<Longrightarrow> sorted (map fst (rev (filter P A)))"
  by (induction A) (auto simp: sorted_append)

lemma prune_deques:
  assumes "paced c A" "deques_ok now A s" "now \<le> t"
  shows "deques_ok t A (prune t s)"
proof -
  have "request_starts (prune t s) = rev (map fst (filter (\<lambda>(t', n). t - t' < LOCAL_WINDOW_SECONDS) A))"
  proof -
    have "dropWhile (\<lambda>x. LOCAL_WINDOW_SECONDS \<le> t - id x) (request_starts s) =
        filter (\<lambda>x. t - id x < LOCAL_WINDOW_SECONDS) (request_starts s)"
      by (rule dropWhile_window)
         (use assms(2) paced_sorted [OF assms(1)] in \<open>simp add: deques_ok_def rev_map\<close>)
    then show ?thesis using assms(2,3)
      by (auto simp: prune_def deques_ok_def rev_filter [symmetric] filter_map o_def case_prod_unfold
          intro!: arg_cong [where f = rev] arg_cong [where f = "map fst"] filter_cong)
  qed
  moreover have "token_starts (prune t s) = rev (filter (\<lambda>(t', n). t - t' < LOCAL_WINDOW_SECONDS \<and> 0 < n) A)"
  proof -
    have "dropWhile (\<lambda>x. LOCAL_WINDOW_SECONDS \<le> t - fst x) (token_starts s) =
        filter (\<lambda>x. t - fst x < LOCAL_WINDOW_SECONDS) (token_starts s)"
      by (rule dropWhile_window) (use assms(2) paced_sorted [OF assms(1)] in \<open>simp add: deques_ok_def\<close>)
    then show ?thesis using assms(2,3)
      by (auto simp: prune_def deques_ok_def rev_filter [symmetric] case_prod_unfold
          intro!: arg_cong [where f = rev] filter_cong)
  qed
  ultimately show ?thesis using assms(2,3) by (auto simp: deques_ok_def)
qed

lemma try_admit_paced:
  assumes A: "paced c A" and d: "deques_ok now A s" and t: "now \<le> t"
    and est: "0 \<le> est" "case tpm_limit c of None \<Rightarrow> True | Some m \<Rightarrow> est \<le> m"
    and run: "try_admit c est (s\<lparr>mono := t\<rparr>) = (r, s')"
  shows "(r = Granted () \<and> paced c ((t, est) # A) \<and> deques_ok t ((t, est) # A) s') \<or>
    (r \<noteq> Granted () \<and> deques_ok t A s')"
proof -
  let ?p = "prune t (s\<lparr>mono := t\<rparr>)"
  have "deques_ok now A (s\<lparr>mono := t\<rparr>)" using d by (simp add: deques_ok_def)
  from prune_deques [OF A this t] have p: "deques_ok t A ?p" .
  let ?F = "filter (\<lambda>(t', n). t - t' < LOCAL_WINDOW_SECONDS) A"
  have len: "length (request_starts ?p) = length ?F" using p by (simp add: deques_ok_def)
  have toks: "(\<Sum>(t, n)\<leftarrow>token_starts ?p. n) = (\<Sum>(t, n)\<leftarrow>?F. n)"
  proof -
    have "(\<Sum>(t, n)\<leftarrow>filter (\<lambda>(t', n). t - t' < LOCAL_WINDOW_SECONDS \<and> 0 < n) A. n) = (\<Sum>(t, n)\<leftarrow>?F. n)"
      using paced_nonneg [OF A] by (induction A) auto
    moreover have "(\<Sum>(t, n)\<leftarrow>token_starts ?p. n) =
        (\<Sum>(t, n)\<leftarrow>filter (\<lambda>(t', n). t - t' < LOCAL_WINDOW_SECONDS \<and> 0 < n) A. n)"
      using p by (simp add: deques_ok_def rev_map [symmetric] sum_list_rev)
    ultimately show ?thesis by simp
  qed
  have young: "x \<in> set (request_starts ?p) \<Longrightarrow> t - x < LOCAL_WINDOW_SECONDS" for x
    using p by (auto simp: deques_ok_def)
  have young_tok: "x \<in> set (token_starts ?p) \<Longrightarrow> t - fst x < LOCAL_WINDOW_SECONDS" for x
    using p by (auto simp: deques_ok_def)
  show ?thesis
  proof (cases "r = Granted ()")
    case False
    with run p show ?thesis by (auto simp: try_admit_def Let_def split: if_splits)
  next
    case True
    have rpm: "case rpm_limit c of None \<Rightarrow> True | Some l \<Rightarrow> int (length ?F) + 1 \<le> l"
    proof (cases "rpm_limit c")
      case (Some l)
      show ?thesis
      proof (rule ccontr)
        assume "\<not> ?thesis"
        with Some have full: "l \<le> int (length (request_starts ?p))" by (simp add: len)
        show False
        proof (cases "request_starts ?p = []")
          case True
          with full Some run \<open>r = Granted ()\<close> show False by (simp add: try_admit_def Let_def)
        next
          case False
          then have "0 < LOCAL_WINDOW_SECONDS - (t - List.hd (request_starts ?p))"
            using young [of "List.hd (request_starts ?p)"] by simp
          with full Some run \<open>r = Granted ()\<close> False show False
            by (auto simp: try_admit_def Let_def less_max_iff_disj split: option.splits if_splits)
        qed
      qed
    qed simp
    have tpm: "case tpm_limit c of None \<Rightarrow> True | Some m \<Rightarrow> (\<Sum>(t, n)\<leftarrow>?F. n) + est \<le> m"
    proof (cases "tpm_limit c")
      case (Some m)
      show ?thesis
      proof (rule ccontr)
        assume "\<not> ?thesis"
        with Some have full: "m < (\<Sum>(t, n)\<leftarrow>token_starts ?p. n) + est" by (simp add: toks)
        have ne: "token_starts ?p \<noteq> []" using full est Some by auto
        have pos: "0 < est"
        proof (rule ccontr)
          assume "\<not> 0 < est"
          with est(1) full have "m < (\<Sum>(t, n)\<leftarrow>?F. n)" by (simp add: toks)
          moreover have "(\<Sum>(t, n)\<leftarrow>?F. n) \<le> m"
          proof -
            have "?F = in_window t A" using d t by (auto simp: in_window_def deques_ok_def intro!: filter_cong)
            then show ?thesis using paced_window(2) [OF A, of t] Some est by auto
          qed
          ultimately show False by simp
        qed
        have "0 < LOCAL_WINDOW_SECONDS - (t - fst (List.hd (token_starts ?p)))"
          using young_tok [of "List.hd (token_starts ?p)"] ne by simp
        with full Some run True ne pos show False
          by (auto simp: try_admit_def Let_def less_max_iff_disj split: option.splits if_splits)
      qed
    qed simp
    have old: "\<forall>q \<in> set A. fst q \<le> t" using p by (simp add: deques_ok_def)
    have "paced c ((t, est) # A)" using A old est(1) rpm tpm
      by (simp add: paced_step_def split: option.splits)
    moreover have "deques_ok t ((t, est) # A) s'"
      using run True p by (auto simp: try_admit_def Let_def deques_ok_def LOCAL_WINDOW_SECONDS_def split: if_splits)
    ultimately show ?thesis using True by blast
  qed
qed

lemma offer_all_paced:
  "sorted (now # map fst os) \<Longrightarrow> \<forall>(t, est) \<in> set os. 0 \<le> est \<and> (case tpm_limit c of None \<Rightarrow> True | Some m \<Rightarrow> est \<le> m) \<Longrightarrow>
    paced c A \<Longrightarrow> deques_ok now A s \<Longrightarrow> paced c (offer_all c os s A)"
proof (induction c os s A arbitrary: now rule: offer_all.induct)
  case (2 c t est later s A)
  obtain r s' where r: "try_admit c est (s\<lparr>mono := t\<rparr>) = (r, s')" by fastforce
  have t: "now \<le> t" and rest: "sorted (t # map fst later)" using "2.prems"(1) by auto
  have est: "0 \<le> est" "case tpm_limit c of None \<Rightarrow> True | Some m \<Rightarrow> est \<le> m" using "2.prems"(2) by auto
  from try_admit_paced [OF "2.prems"(3,4) t est r]
  show ?case using "2.IH" r rest "2.prems"(2,3) by (cases r) auto
qed simp

section \<open>Guarantees\<close>

lemma reachable_finite: "world_reachable B c s0 w \<Longrightarrow> finite (issued w)"
  unfolding world_reachable_def using finite_issued_moves by (fastforce simp: start_world_def)

lemma reachable_moves:
  "world_reachable B c s0 w \<Longrightarrow> (world_step B c)\<^sup>*\<^sup>* w w' \<Longrightarrow> world_reachable B c s0 w'"
  unfolding world_reachable_def using rtranclp_trans by metis

lemma quiet_start: "events s = [] \<Longrightarrow> quiet v 0 0 [] s"
  by (simp add: quiet_def)

text \<open>An example: the provider always answers with a rate limit, the store is Redis, nobody else moves.\<close>

definition fresh_name :: "string set \<Rightarrow> string" where
  "fresh_name X = replicate (Suc (Max (insert 0 (length ` X)))) (CHR ''x'')"

definition example_surroundings :: "(redis, unit) surroundings" where
  "example_surroundings = \<lparr>limits = default_limits, coordinator = Some (redis_backend, default_config),
     turn = (\<lambda>n s. s), cancelled_at = (\<lambda>n. False), fresh_id = fresh_name, store_down = (\<lambda>n. False),
     probe_fails = (\<lambda>n. False), provider = (\<lambda>n. Inl 0), not_an_exception = (\<lambda>n. False),
     exceptions = [(0, plain_exn)], jitter = (\<lambda>n. 0)\<rparr>"

definition example_sched :: "redis sched" where
  "example_sched = \<lparr>shared = redis_world, mono = 0, request_starts = [], token_starts = [],
     free_slots = 2, tick = 0, events = []\<rparr>"

lemma example_sane: "retry_after (classify_outcome (exceptions example_surroundings) (Some i)) \<noteq> Some NaN"
proof (cases "i = 0")
  case True
  then show ?thesis
    by (simp add: example_surroundings_def classify_fields(2) [of _ _ plain_exn] retry_after_seconds_def
        headers_of_def plain_exn_def)
next
  case False
  then show ?thesis by (simp add: example_surroundings_def classify_outcome_def unknown_verdict_def)
qed

lemma example_run:
  obtains r s' where "execute example_surroundings 10 20 0 (Finite 0) example_sched = Some (r, s')"
  using execute_total [of example_surroundings 240 2 30 10 20 0 0 example_sched] example_sane
  by (fastforce simp: example_surroundings_def default_limits_def)

lemma fresh_name_fresh: "finite X \<Longrightarrow> fresh_name X \<notin> X"
proof
  assume "finite X" "fresh_name X \<in> X"
  then have "length (fresh_name X) \<le> Max (insert 0 (length ` X))" by (intro Max_ge) auto
  then show False by (simp add: fresh_name_def)
qed

lemma example_fair: "fair example_surroundings redis_backend default_config"
  by (simp add: fair_def example_surroundings_def fresh_name_fresh)



text \<open>Attempts are bounded: one guarded call sends at most one request more than the configured
  rate-limit retries, however often the provider answers with backpressure.\<close>

theorem attempts_are_bounded:
  assumes "execute v est demand 0 (Finite 0) s = Some (r, s')" and "events s = []"
    and "0 \<le> max_rate_limit_retries (limits v)"
  shows "sends (events s') \<le> max_rate_limit_retries (limits v) + 1"
  using execute_quiet [OF assms(1) quiet_start [OF assms(2)] assms(3)] by (auto simp: quiet_def)

lemma attempts_are_bounded_witness:
  "\<exists>r s'. execute example_surroundings 10 20 0 (Finite 0) example_sched = Some (r, s') \<and>
     sends (events s') \<le> 6"
proof (rule example_run)
  fix r s' assume run: "execute example_surroundings 10 20 0 (Finite 0) example_sched = Some (r, s')"
  have "sends (events s') \<le> max_rate_limit_retries (limits example_surroundings) + 1"
    by (rule attempts_are_bounded [OF run])
       (simp_all add: example_sched_def example_surroundings_def default_limits_def)
  with run show ?thesis by (auto simp: example_surroundings_def default_limits_def)
qed





text \<open>The concurrency ceiling holds under the scheduler: after a guarded call on the Redis store,
  interleaved with any other processes, the provider requests that may still be running are at most
  the configured concurrency.\<close>

theorem scheduled_calls_keep_the_ceiling:
  assumes "fair v redis_backend c" and "world_reachable redis_backend c empty_redis (shared s)"
    and "config_ok c" "abandoned_lease_reclaim_seconds c = None"
    and "execute v est demand 0 (Finite 0) s = Some (r, s')"
  shows "int (card (running (shared s'))) \<le> max_concurrency c"
proof -
  have "(world_step redis_backend c)\<^sup>*\<^sup>* (shared s) (shared s')"
    using execute_reached [OF assms(1) _ assms(5), of "shared s"] reachable_finite [OF assms(2)]
    by (simp add: reached_from_def)
  with assms(2) have "world_reachable redis_backend c empty_redis (shared s')" by (rule reachable_moves)
  from redis_bounds(1) [OF this assms(3,4)] show ?thesis .
qed

lemma scheduled_calls_keep_the_ceiling_witness:
  "\<exists>r s'. execute example_surroundings 10 20 0 (Finite 0) example_sched = Some (r, s') \<and>
     int (card (running (shared s'))) \<le> max_concurrency default_config"
proof (rule example_run)
  fix r s' assume run: "execute example_surroundings 10 20 0 (Finite 0) example_sched = Some (r, s')"
  have "int (card (running (shared s'))) \<le> max_concurrency default_config"
    by (rule scheduled_calls_keep_the_ceiling [OF example_fair _ default_config_ok default_never_reclaims run])
       (simp add: example_sched_def redis_world_reachable)
  with run show ?thesis by blast
qed

text \<open>The process-local windows are real ceilings: offered any requests at nondecreasing clock
  readings, the scheduler admits at most \<open>rpm_limit\<close> requests and at most \<open>tpm_limit\<close> estimated tokens
  in every span of 60 seconds.\<close>

theorem local_windows_hold:
  assumes "sorted (map fst os)" "\<forall>(t, est) \<in> set os. t0 \<le> t \<and> 0 \<le> est \<and> est \<le> m"
    and "rpm_limit c = Some l" "tpm_limit c = Some m" "0 \<le> l" "0 \<le> m"
    and "request_starts s = []" "token_starts s = []"
  shows "int (length (in_window u (offer_all c os s []))) \<le> l \<and>
    (\<Sum>(t, n)\<leftarrow>in_window u (offer_all c os s []). n) \<le> m"
proof -
  have "paced c (offer_all c os s [])"
    by (rule offer_all_paced [of t0]) (use assms in \<open>auto simp: deques_ok_def\<close>)
  from paced_window [OF this, of u] assms(3-6) show ?thesis by simp
qed

lemma local_windows_hold_witness:
  "int (length (in_window 30 (offer_all (default_limits\<lparr>tpm_limit := Some 100\<rparr>)
     [(0, 10), (1, 20), (2, 30), (30, 40)] example_sched []))) \<le> 3 \<and>
   (\<Sum>(t, n)\<leftarrow>in_window 30 (offer_all (default_limits\<lparr>tpm_limit := Some 100\<rparr>)
     [(0, 10), (1, 20), (2, 30), (30, 40)] example_sched []). n) \<le> 100"
  by (rule local_windows_hold [of _ 0]) (simp_all add: default_limits_def example_sched_def)

end
