(* ===== verification/Standalone_Search.thy ===== *)
theory Standalone_Search
  imports Prelude
begin

text \<open>
  \<open>backend/standalone_search.py\<close>: the query and the results of a search MILO performs itself, the
  bounded text the model reads back, and the one HTTP request.

  A transport's answer is an untyped document.  What \<open>str(x)\<close> returns for a container or a result is part of the
  value, since the code turns every field into text; \<open>VOther\<close> is any other object, with its text and
  its truth value.  Keys that are not strings are never read and are left out.
\<close>

section \<open>Untyped answers\<close>

record search_result =
  title :: string
  url :: string
  snippet :: string

datatype payload =
    VNone
  | VText string
  | VOther string bool
  | VSeq "payload list" string
  | VMap "(string \<times> payload) list" string
  | VResult search_result string

definition truthy :: "payload \<Rightarrow> bool" where
  "truthy p = (case p of
       VNone \<Rightarrow> False
     | VText s \<Rightarrow> s \<noteq> []
     | VOther s b \<Rightarrow> b
     | VSeq ps s \<Rightarrow> ps \<noteq> []
     | VMap kvs s \<Rightarrow> kvs \<noteq> []
     | VResult r s \<Rightarrow> True)"

definition text_form :: "payload \<Rightarrow> string" where
  "text_form p = (case p of
       VNone \<Rightarrow> ''None''
     | VText s \<Rightarrow> s
     | VOther s b \<Rightarrow> s
     | VSeq ps s \<Rightarrow> s
     | VMap kvs s \<Rightarrow> s
     | VResult r s \<Rightarrow> s)"

definition get_field :: "(string \<times> payload) list \<Rightarrow> string \<Rightarrow> payload" where
  "get_field kvs k = (case map_of kvs k of None \<Rightarrow> VNone | Some p \<Rightarrow> p)"

text \<open>\<open>row.get(k1) or row.get(k2) or ...\<close>: the last operand is the value when none is true.\<close>

fun first_true :: "(string \<times> payload) list \<Rightarrow> string list \<Rightarrow> payload" where
  "first_true kvs [] = VNone"
| "first_true kvs [k] = get_field kvs k"
| "first_true kvs (k # ks) = (if truthy (get_field kvs k) then get_field kvs k else first_true kvs ks)"

section \<open>Bounds\<close>

definition MAX_QUERY_CHARS :: nat where "MAX_QUERY_CHARS = 400"
definition MAX_RESULTS_PER_SEARCH :: nat where "MAX_RESULTS_PER_SEARCH = 8"
definition MAX_RESULT_TITLE_CHARS :: nat where "MAX_RESULT_TITLE_CHARS = 200"
definition MAX_RESULT_URL_CHARS :: nat where "MAX_RESULT_URL_CHARS = 500"
definition MAX_RESULT_SNIPPET_CHARS :: nat where "MAX_RESULT_SNIPPET_CHARS = 1000"
definition MAX_TOOL_CONTENT_CHARS :: nat where "MAX_TOOL_CONTENT_CHARS = 12000"
definition STANDALONE_SEARCH_TIMEOUT_SECONDS :: rat where "STANDALONE_SEARCH_TIMEOUT_SECONDS = 30"
definition MIN_STANDALONE_SEARCH_TIMEOUT_SECONDS :: rat where "MIN_STANDALONE_SEARCH_TIMEOUT_SECONDS = 1"
definition MEDIATED_SEARCH_TOOL_NAME :: string where "MEDIATED_SEARCH_TOOL_NAME = ''web_search''"
definition PROVIDER_BUILTIN_TOOL_TYPE :: string where "PROVIDER_BUILTIN_TOOL_TYPE = ''builtin_function''"

text \<open>The deadline is the one resolved by \<open>resolved_request_deadline\<close>.\<close>

definition standalone_search_timeout_seconds :: "rat \<Rightarrow> int" where
  "standalone_search_timeout_seconds deadline =
     trunc_rat (max MIN_STANDALONE_SEARCH_TIMEOUT_SECONDS (min STANDALONE_SEARCH_TIMEOUT_SECONDS deadline))"

section \<open>The tools of a request\<close>

text \<open>\<open>str(x or "")\<close>\<close>

definition text_or_empty :: "payload \<Rightarrow> string" where
  "text_or_empty p = (if truthy p then text_form p else [])"

definition tool_name :: "(string \<times> payload) list \<Rightarrow> payload" where
  "tool_name kvs = (case get_field kvs ''function'' of VMap f s \<Rightarrow> get_field f ''name'' | _ \<Rightarrow> VNone)"

text \<open>\<open>request.get("tools") or ()\<close> as a list; the iteration over a mapping yields its keys, which are
  not tools.\<close>

definition tools_of :: "payload \<Rightarrow> payload list" where
  "tools_of tools = (case tools of VSeq ts s \<Rightarrow> ts | _ \<Rightarrow> [])"

definition provider_executed :: "payload \<Rightarrow> bool" where
  "provider_executed tool = (case tool of
       VMap kvs s \<Rightarrow>
         text_or_empty (get_field kvs ''type'') = PROVIDER_BUILTIN_TOOL_TYPE \<or>
         (case tool_name kvs of VText n \<Rightarrow> take 1 n = ''$'' | _ \<Rightarrow> False)
     | _ \<Rightarrow> False)"

definition request_offers_provider_executed_search :: "payload \<Rightarrow> bool" where
  "request_offers_provider_executed_search tools = list_ex provider_executed (tools_of tools)"

definition mediated_search_tool :: "payload \<Rightarrow> payload" where
  "mediated_search_tool parameters =
     VSeq [VMap [(''type'', VText ''function''),
                 (''function'', VMap [(''name'', VText MEDIATED_SEARCH_TOOL_NAME),
                    (''description'', VText ''Search the public internet for current information and return ranked results with source URLs. One call performs exactly one search. Ask a single, specific question per call and cite the returned source_url for any fact you take from a result.''),
                    (''parameters'', parameters)] [])] []] []"

section \<open>The query\<close>

datatype search_error =
    Query_not_text
  | Query_empty

text \<open>\<open>" ".join(raw.split())[:MAX_QUERY_CHARS].strip()\<close>\<close>

definition normalize_query :: "payload \<Rightarrow> search_error + string" where
  "normalize_query raw0 =
     (let raw = (case raw0 of VMap kvs s \<Rightarrow> get_field kvs ''query'' | _ \<Rightarrow> raw0) in
      case raw of
        VText s \<Rightarrow>
          (let query = py_strip (take MAX_QUERY_CHARS (normalize_spaces s)) in
           if query = [] then Inl Query_empty else Inr query)
      | _ \<Rightarrow> Inl Query_not_text)"

section \<open>Results\<close>

definition clip :: "payload \<Rightarrow> nat \<Rightarrow> string" where
  "clip p limit =
     take limit (py_strip (map (\<lambda>c. if c = CHR 0x00 then CHR '' '' else c)
       (if p = VNone then [] else text_form p)))"

definition ROW_KEYS :: "string list" where
  "ROW_KEYS = [''search_results'', ''results'', ''data'', ''items'', ''documents'', ''web_results'']"

lemma map_of_size: "map_of kvs k = Some p \<Longrightarrow> size p < size_list (size_prod (\<lambda>_. 0) size) kvs"
  by (induction kvs) (auto split: if_splits)

text \<open>\<open>_result_rows\<close>: the first documented key that holds rows, through nested mappings.\<close>

function result_rows :: "payload \<Rightarrow> payload list"
  and rows_under :: "(string \<times> payload) list \<Rightarrow> string list \<Rightarrow> payload list" where
  "result_rows p = (case p of VSeq ps s \<Rightarrow> ps | VMap kvs s \<Rightarrow> rows_under kvs ROW_KEYS | _ \<Rightarrow> [])"
| "rows_under kvs [] = []"
| "rows_under kvs (k # ks) =
     (case map_of kvs k of
        Some (VSeq ps s) \<Rightarrow> ps
      | Some (VMap inner s) \<Rightarrow>
          (let nested = result_rows (VMap inner s)
           in if nested \<noteq> [] then nested else rows_under kvs ks)
      | _ \<Rightarrow> rows_under kvs ks)"
  by pat_completeness auto
termination
  by (relation "measures [case_sum size (\<lambda>(kvs, ks). size_list (size_prod (\<lambda>_. 0) size) kvs),
        case_sum (\<lambda>_. 0) (\<lambda>(kvs, ks). length ks)]")
    (auto dest: map_of_size)

section \<open>One row\<close>

text \<open>The budget loop over the passages of a row.\<close>

definition chunk_text :: "payload \<Rightarrow> payload" where
  "chunk_text p = (case p of VMap kvs s \<Rightarrow> get_field kvs ''text'' | VText s \<Rightarrow> VText s | _ \<Rightarrow> VNone)"

fun spend_chunks :: "int \<Rightarrow> payload list \<Rightarrow> string list" where
  "spend_chunks budget [] = []"
| "spend_chunks budget (p # ps) =
     (if budget \<le> 0 then []
      else (let clipped = clip (chunk_text p) (nat budget) in
            if clipped = [] then spend_chunks budget ps
            else clipped # spend_chunks (budget - (int (length clipped) + 1)) ps))"

fun join_lines :: "string list \<Rightarrow> string" where
  "join_lines [] = []"
| "join_lines [x] = x"
| "join_lines (x # xs) = x @ CHR 0x0A # join_lines xs"

definition row_chunks :: "(string \<times> payload) list \<Rightarrow> payload list" where
  "row_chunks kvs = (case get_field kvs ''chunks'' of VSeq ps s \<Rightarrow> ps | _ \<Rightarrow> [])"

definition row_snippet :: "(string \<times> payload) list \<Rightarrow> payload" where
  "row_snippet kvs =
     (let chunk_texts = spend_chunks (int MAX_RESULT_SNIPPET_CHARS) (row_chunks kvs) in
      if chunk_texts \<noteq> [] then VText (join_lines chunk_texts)
      else first_true kvs [''snippet'', ''content'', ''text'', ''summary'', ''description''])"

text \<open>What one row adds: nothing for a row that is no text, result or mapping, or is all empty.\<close>

definition row_result :: "payload \<Rightarrow> search_result option" where
  "row_result row = (case row of
       VResult r s \<Rightarrow> Some \<lparr>title = clip (VText (title r)) MAX_RESULT_TITLE_CHARS,
                          url = clip (VText (url r)) MAX_RESULT_URL_CHARS,
                          snippet = clip (VText (snippet r)) MAX_RESULT_SNIPPET_CHARS\<rparr>
     | VText s \<Rightarrow> Some \<lparr>title = [], url = [], snippet = clip row MAX_RESULT_SNIPPET_CHARS\<rparr>
     | VMap kvs s \<Rightarrow>
         (let r = \<lparr>title = clip (first_true kvs [''title'', ''name'', ''heading'']) MAX_RESULT_TITLE_CHARS,
                   url = clip (first_true kvs [''url'', ''link'', ''source_url'', ''href'']) MAX_RESULT_URL_CHARS,
                   snippet = clip (row_snippet kvs) MAX_RESULT_SNIPPET_CHARS\<rparr>
          in if title r \<noteq> [] \<or> url r \<noteq> [] \<or> snippet r \<noteq> [] then Some r else None)
     | _ \<Rightarrow> None)"

fun collect_rows :: "search_result list \<Rightarrow> payload list \<Rightarrow> search_result list" where
  "collect_rows results [] = results"
| "collect_rows results (row # rows) =
     (if MAX_RESULTS_PER_SEARCH \<le> length results then results
      else (case row_result row of
              None \<Rightarrow> collect_rows results rows
            | Some r \<Rightarrow> collect_rows (results @ [r]) rows))"

definition normalize_results :: "payload \<Rightarrow> search_result list" where
  "normalize_results p = collect_rows [] (result_rows p)"

section \<open>What the model reads back\<close>

datatype doc = DText string | DNumber nat | DTrue | DList "doc list" | DObject "(string \<times> doc) list"

definition hex_digit :: "nat \<Rightarrow> char" where
  "hex_digit n = (if n < 10 then char_of (48 + n) else char_of (87 + n))"

text \<open>\<open>json.dumps\<close> with \<open>ensure_ascii=False\<close> escapes quotes, backslashes and characters below 32.\<close>

definition escape_char :: "char \<Rightarrow> string" where
  "escape_char c = (let n = (of_char c :: nat); bs = char_of (92::nat) in
     if n = 34 \<or> n = 92 then [bs, c]
     else if n = 10 then [bs, CHR ''n''] else if n = 13 then [bs, CHR ''r'']
     else if n = 9 then [bs, CHR ''t''] else if n = 12 then [bs, CHR ''f'']
     else if n = 8 then [bs, CHR ''b'']
     else if n < 32 then [bs, CHR ''u'', CHR ''0'', CHR ''0'', hex_digit (n div 16), hex_digit (n mod 16)]
     else [c])"

definition quoted :: "string \<Rightarrow> string" where
  "quoted s = CHR 0x22 # concat (map escape_char s) @ [CHR 0x22]"

fun decimal :: "nat \<Rightarrow> string" where
  "decimal n = (if n < 10 then [char_of (48 + n)] else decimal (n div 10) @ [char_of (48 + n mod 10)])"

fun join_with :: "string \<Rightarrow> string list \<Rightarrow> string" where
  "join_with sep [] = []"
| "join_with sep [x] = x"
| "join_with sep (x # xs) = x @ sep @ join_with sep xs"

fun dumps :: "doc \<Rightarrow> string" where
  "dumps (DText s) = quoted s"
| "dumps (DNumber n) = decimal n"
| "dumps DTrue = ''true''"
| "dumps (DList ds) = ''['' @ join_with '', '' (map dumps ds) @ '']''"
| "dumps (DObject kvs) =
     ''{'' @ join_with '', '' (map (\<lambda>(k, d). quoted k @ '': '' @ dumps d) kvs) @ ''}''"

record search_outcome =
  outcome_query :: string
  outcome_endpoint :: string
  outcome_results :: "search_result list"
  outcome_error :: "string option"
  outcome_admitted :: bool

definition as_dict :: "search_result \<Rightarrow> doc" where
  "as_dict r = DObject [(''title'', DText (title r)), (''source_url'', DText (url r)),
     (''snippet'', DText (snippet r))]"

definition outcome_head :: "search_outcome \<Rightarrow> (string \<times> doc) list" where
  "outcome_head o1 = [(''tool'', DText MEDIATED_SEARCH_TOOL_NAME), (''query'', DText (outcome_query o1)),
     (''status'', DText (if outcome_error o1 = None then ''ok'' else ''error''))]"

definition outcome_payload :: "search_outcome \<Rightarrow> doc" where
  "outcome_payload o1 = DObject (outcome_head o1 @
     (case outcome_error o1 of
        Some e \<Rightarrow> [(''error'', DText e), (''instruction'', DText ''This search returned no results. Do NOT invent sources or facts. Continue with what is already established, or ask a different, narrower query.'')]
      | None \<Rightarrow> [(''results'', DList (map as_dict (outcome_results o1))),
                 (''result_count'', DNumber (length (outcome_results o1)))]))"

definition truncated_payload :: "search_outcome \<Rightarrow> search_result list \<Rightarrow> doc" where
  "truncated_payload o1 kept = DObject (outcome_head o1 @
     [(''results'', DList (map as_dict kept)), (''result_count'', DNumber (length kept)),
      (''truncated'', DTrue)])"

definition budget_notice :: "search_outcome \<Rightarrow> doc" where
  "budget_notice o1 = DObject [(''tool'', DText MEDIATED_SEARCH_TOOL_NAME),
     (''query'', DText (take MAX_QUERY_CHARS (outcome_query o1))), (''status'', DText ''error''),
     (''error'', DText ''result payload exceeded the server-owned size budget'')]"

text \<open>Results are shed from the end until the document fits; \<open>None\<close> when even the empty list does not.\<close>

fun shed :: "search_outcome \<Rightarrow> search_result list \<Rightarrow> string option" where
  "shed o1 [] = None"
| "shed o1 (r # rs) =
     (let kept = butlast (r # rs); encoded = dumps (truncated_payload o1 kept) in
      if length encoded \<le> MAX_TOOL_CONTENT_CHARS then Some encoded else shed o1 kept)"

definition as_tool_content :: "search_outcome \<Rightarrow> string" where
  "as_tool_content o1 =
     (let encoded = dumps (outcome_payload o1) in
      if length encoded \<le> MAX_TOOL_CONTENT_CHARS then encoded
      else (case shed o1 (if outcome_error o1 = None then outcome_results o1 else []) of
              Some e \<Rightarrow> e
            | None \<Rightarrow> dumps (budget_notice o1)))"

section \<open>The transport\<close>

datatype transport_error =
    Unknown_endpoint string
  | No_provider_credential
  | Http_error int
  | Search_failed string

record search_post =
  post_url :: string
  post_key :: string
  text_query :: string
  result_limit :: nat
  timeout_seconds :: int

text \<open>What \<open>client.post\<close> and \<open>response.json\<close> do: they raise an exception of some class, or answer with a
  status and a document; a document that does not parse raises too.\<close>

datatype http_reply = Http_raised string | Http_answer int "string + payload"

record transport =
  own_api_key :: "string option"
  own_base_url :: "string option"
  resolved_deadline :: rat

definition SEARCH_ENDPOINT_PATHS :: "string \<Rightarrow> string option" where
  "SEARCH_ENDPOINT_PATHS = [''search'' \<mapsto> ''/tools/search'', ''search_pro'' \<mapsto> ''/tools/search_pro'']"

definition env_or :: "(string \<Rightarrow> string option) \<Rightarrow> string \<Rightarrow> string \<Rightarrow> string" where
  "env_or env k other = (case env k of None \<Rightarrow> other | Some s \<Rightarrow> if s = [] then other else s)"

definition search_api_key :: "(string \<Rightarrow> string option) \<Rightarrow> string" where
  "search_api_key env = py_strip (env_or env ''KIMI_API_KEY'' (env_or env ''MOONSHOT_API_KEY'' []))"

definition rstrip_slashes :: "string \<Rightarrow> string" where
  "rstrip_slashes s = rev (dropWhile (\<lambda>c. c = CHR ''/'') (rev s))"

definition provider_base_url :: "(string \<Rightarrow> string option) \<Rightarrow> string" where
  "provider_base_url env =
     rstrip_slashes (py_strip (env_or env ''MILO_MODEL_BASE_URL'' ''https://api.moonshot.ai/v1''))"

definition available :: "(string \<Rightarrow> string option) \<Rightarrow> transport \<Rightarrow> bool" where
  "available env tr = (case own_api_key tr of
       Some k \<Rightarrow> py_strip k \<noteq> []
     | None \<Rightarrow> search_api_key env \<noteq> [])"

definition moonshot_search ::
  "(string \<Rightarrow> string option) \<Rightarrow> transport \<Rightarrow> (search_post \<Rightarrow> http_reply) \<Rightarrow> string \<Rightarrow> string \<Rightarrow>
     (transport_error + search_result list) \<times> search_post list" where
  "moonshot_search env tr http query endpoint =
     (case SEARCH_ENDPOINT_PATHS endpoint of
        None \<Rightarrow> (Inl (Unknown_endpoint endpoint), [])
      | Some path \<Rightarrow>
          (let api_key = (case own_api_key tr of Some k \<Rightarrow> k | None \<Rightarrow> search_api_key env) in
           if api_key = [] then (Inl No_provider_credential, [])
           else (let base = (case own_base_url tr of Some b \<Rightarrow> b | None \<Rightarrow> provider_base_url env);
                     post = \<lparr>post_url = rstrip_slashes base @ path, post_key = api_key,
                             text_query = query, result_limit = MAX_RESULTS_PER_SEARCH,
                             timeout_seconds = standalone_search_timeout_seconds (resolved_deadline tr)\<rparr>
                 in (case http post of
                       Http_raised cls \<Rightarrow> Inl (Search_failed cls)
                     | Http_answer status body \<Rightarrow>
                         if 400 \<le> status then Inl (Http_error status)
                         else (case body of
                                 Inl cls \<Rightarrow> Inl (Search_failed cls)
                               | Inr p \<Rightarrow> Inr (normalize_results p)), [post]))))"

text \<open>\<open>DEFAULT_SEARCH_EXECUTOR\<close> is the deployment's own transport, if any.\<close>

definition default_transport :: "rat \<Rightarrow> transport" where
  "default_transport deadline = \<lparr>own_api_key = None, own_base_url = None, resolved_deadline = deadline\<rparr>"

definition default_search_executor ::
  "(string \<Rightarrow> string option) \<Rightarrow> rat \<Rightarrow> 'x option \<Rightarrow> (transport \<Rightarrow> 'x) \<Rightarrow> 'x option" where
  "default_search_executor env deadline override build =
     (case override of
        Some x \<Rightarrow> Some x
      | None \<Rightarrow> if available env (default_transport deadline) then Some (build (default_transport deadline)) else None)"

section \<open>Text facts\<close>

definition rstrip :: "string \<Rightarrow> string" where
  "rstrip s = rev (dropWhile is_space (rev s))"

text \<open>No space at either end.\<close>

definition trimmed :: "string \<Rightarrow> bool" where
  "trimmed s = (s = [] \<or> \<not> is_space (List.hd s) \<and> \<not> is_space (last s))"

lemma py_strip_rstrip: "py_strip s = rstrip (dropWhile is_space s)"
  by (simp add: py_strip_def rstrip_def)

lemma rstrip_Nil [simp]: "rstrip [] = []"
  by (simp add: rstrip_def)

lemma rstrip_append: "rstrip (s @ t) = (if rstrip t = [] then rstrip s else s @ rstrip t)"
  by (auto simp: rstrip_def dropWhile_append dropWhile_eq_Nil_conv)

lemma rstrip_prefix: "\<exists>t. s = rstrip s @ t"
proof -
  have "s = rstrip s @ rev (takeWhile is_space (rev s))"
    unfolding rstrip_def by (metis rev_append rev_rev_ident takeWhile_dropWhile_id)
  then show ?thesis ..
qed

lemma rstrip_id: "s = [] \<or> \<not> is_space (last s) \<Longrightarrow> rstrip s = s"
  by (cases s rule: rev_cases) (auto simp: rstrip_def)

lemma rstrip_last: "rstrip s \<noteq> [] \<Longrightarrow> \<not> is_space (last (rstrip s))"
  unfolding rstrip_def by (metis hd_dropWhile last_rev rev.simps(1))

lemma rstrip_hd: "rstrip s \<noteq> [] \<Longrightarrow> List.hd (rstrip s) = List.hd s"
  by (metis hd_append2 rstrip_prefix)

lemma dropWhile_space: "dropWhile is_space s = [] \<or> \<not> is_space (List.hd (dropWhile is_space s))"
  by (induction s) auto

lemma py_strip_trimmed: "trimmed (py_strip s)"
  using dropWhile_space [of s] rstrip_last [of "dropWhile is_space s"] rstrip_hd [of "dropWhile is_space s"]
  by (metis py_strip_rstrip rstrip_Nil trimmed_def)

lemma dropWhile_hd: "s = [] \<or> \<not> is_space (List.hd s) \<Longrightarrow> dropWhile is_space s = s"
  by (cases s) auto

lemma py_strip_hd: "s = [] \<or> \<not> is_space (List.hd s) \<Longrightarrow> py_strip s = rstrip s"
  by (simp add: py_strip_rstrip dropWhile_hd)

lemma trimmed_py_strip: "trimmed s \<Longrightarrow> py_strip s = s"
  using py_strip_hd [of s] rstrip_id [of s] by (auto simp: trimmed_def)

lemma py_strip_idem [simp]: "py_strip (py_strip s) = py_strip s"
  by (rule trimmed_py_strip [OF py_strip_trimmed])

lemma rstrip_length: "length (rstrip s) \<le> length s"
  by (simp add: rstrip_def length_dropWhile_le [of is_space "rev s", simplified])

lemma py_strip_length: "length (py_strip s) \<le> length s"
  using rstrip_length [of "dropWhile is_space s"] length_dropWhile_le [of is_space s]
  by (simp add: py_strip_rstrip)

lemma rstrip_subset: "set (rstrip s) \<subseteq> set s"
  using rstrip_prefix [of s] by (metis set_append sup_ge1)

lemma py_strip_subset: "set (py_strip s) \<subseteq> set s"
  using rstrip_subset [of "dropWhile is_space s"] set_dropWhileD [of _ is_space s]
  by (auto simp: py_strip_rstrip)

lemma take_hd: "take n s = [] \<or> List.hd (take n s) = List.hd s"
  by (cases s; cases n) auto

section \<open>Queries\<close>

text \<open>Single blanks between words; a blank may stand at an end.\<close>

fun single_blanks :: "string \<Rightarrow> bool" where
  "single_blanks [] = True"
| "single_blanks [c] = (is_space c \<longrightarrow> c = CHR '' '')"
| "single_blanks (c # d # s) = ((is_space c \<longrightarrow> c = CHR '' '' \<and> \<not> is_space d) \<and> single_blanks (d # s))"

lemma space_is_space [simp]: "is_space (CHR '' '')"
  by (simp add: is_space_def)

lemma single_blanks_Cons: "\<not> is_space c \<Longrightarrow> single_blanks s \<Longrightarrow> single_blanks (c # s)"
  by (cases s) auto

lemma squeeze_single_blanks: "single_blanks (squeeze_spaces b s)"
proof (induction b s rule: squeeze_spaces.induct)
  case (2 b c cs)
  then show ?case by (auto simp: single_blanks_Cons)
qed simp

lemma single_blanks_take: "single_blanks s \<Longrightarrow> single_blanks (take n s)"
proof (induction s arbitrary: n rule: single_blanks.induct)
  case (3 c d s)
  show ?case
  proof (cases n)
    case (Suc m)
    with 3 3(1) [of m] show ?thesis by (cases m) auto
  qed simp
qed (auto simp: take_Cons')

lemma single_blanks_squeeze:
  "single_blanks s \<Longrightarrow> s = [] \<or> \<not> is_space (last s) \<Longrightarrow> squeeze_spaces False s = s"
  by (induction s rule: single_blanks.induct) auto

lemma squeeze_start:
  "s = [] \<or> \<not> is_space (List.hd s) \<Longrightarrow>
   squeeze_spaces False s = [] \<or> \<not> is_space (List.hd (squeeze_spaces False s))"
  by (cases s) auto

lemma normalize_spaces_hd: "normalize_spaces s = [] \<or> \<not> is_space (List.hd (normalize_spaces s))"
  unfolding normalize_spaces_def by (rule squeeze_start [OF dropWhile_space])

lemma take_rstrip: "\<exists>m. rstrip (take n s) = take m s"
  by (metis append_eq_conv_conj rstrip_prefix take_take)

definition query_ok :: "string \<Rightarrow> bool" where
  "query_ok q = (q \<noteq> [] \<and> length q \<le> MAX_QUERY_CHARS \<and> trimmed q \<and> single_blanks q)"

lemma normalized_query_ok:
  assumes "py_strip (take MAX_QUERY_CHARS (normalize_spaces s)) = q" "q \<noteq> []"
  shows "query_ok q"
proof -
  let ?n = "normalize_spaces s"
  have "take MAX_QUERY_CHARS ?n = [] \<or> \<not> is_space (List.hd (take MAX_QUERY_CHARS ?n))"
    using normalize_spaces_hd [of s] take_hd [of MAX_QUERY_CHARS ?n] by auto
  then have q: "q = rstrip (take MAX_QUERY_CHARS ?n)" using assms(1) py_strip_hd by metis
  obtain m where "q = take m ?n" using take_rstrip q by metis
  then have "single_blanks q"
    by (simp add: normalize_spaces_def squeeze_single_blanks single_blanks_take)
  moreover have "length q \<le> MAX_QUERY_CHARS" using q rstrip_length [of "take MAX_QUERY_CHARS ?n"] by simp
  ultimately show ?thesis using assms py_strip_trimmed by (auto simp: query_ok_def)
qed

lemma query_ok_fixed: "query_ok q \<Longrightarrow> normalize_query (VText q) = Inr q"
  by (auto simp: query_ok_def normalize_query_def normalize_spaces_def Let_def trimmed_py_strip
      dropWhile_hd single_blanks_squeeze trimmed_def)

lemma normalize_query_ok: "normalize_query p = Inr q \<Longrightarrow> query_ok q"
  using normalized_query_ok by (auto simp: normalize_query_def Let_def split: payload.splits if_splits)

text \<open>The query of a search is server-owned: whatever the model sent, an accepted query is non-empty,
  at most 400 characters, has no space at either end and single blanks inside, and asking for the
  accepted query again asks for the same one.\<close>

theorem accepted_query_is_canonical:
  assumes "normalize_query p = Inr q"
  shows "query_ok q \<and> normalize_query (VText q) = Inr q"
  using normalize_query_ok [OF assms] query_ok_fixed by blast

lemma accepted_query_is_canonical_witness:
  "query_ok ''sedan price'' \<and> normalize_query (VText ''sedan price'') = Inr ''sedan price''"
  by (rule accepted_query_is_canonical [of "VMap [(''query'', VText '' sedan   price '')] []"])
     (simp add: normalize_query_def get_field_def normalize_spaces_def is_space_def MAX_QUERY_CHARS_def py_strip_def)

section \<open>Bounded results\<close>

definition no_nul :: "string \<Rightarrow> bool" where
  "no_nul s = (CHR 0x00 \<notin> set s)"

definition full_text :: "payload \<Rightarrow> string" where
  "full_text p = py_strip (map (\<lambda>c. if c = CHR 0x00 then CHR '' '' else c)
     (if p = VNone then [] else text_form p))"

lemma clip_full: "clip p n = take n (full_text p)"
  by (simp add: clip_def full_text_def)

lemma full_text_no_nul: "no_nul (full_text p)"
proof -
  have "CHR 0x00 \<notin> set (map (\<lambda>c. if c = CHR 0x00 then CHR '' '' else c) s)" for s by auto
  then show ?thesis unfolding full_text_def no_nul_def using py_strip_subset by blast
qed

lemma clip_no_nul: "no_nul (clip p n)"
  using full_text_no_nul [of p] set_take_subset [of n "full_text p"] by (auto simp: clip_full no_nul_def)

lemma clip_length: "length (clip p n) \<le> n"
  by (simp add: clip_def)

lemma full_text_VText:
  assumes "no_nul s"
  shows "full_text (VText s) = py_strip s"
proof -
  have "map (\<lambda>c. if c = CHR 0x00 then CHR '' '' else c) s = s"
    by (rule map_idI) (use assms in \<open>auto simp: no_nul_def\<close>)
  then show ?thesis by (simp add: full_text_def text_form_def)
qed

lemma clip_VText: "no_nul s \<Longrightarrow> length s \<le> n \<Longrightarrow> clip (VText s) n = py_strip s"
  using py_strip_length [of s] by (simp add: clip_full full_text_VText)

definition bounded_result :: "search_result \<Rightarrow> bool" where
  "bounded_result r =
     (length (title r) \<le> MAX_RESULT_TITLE_CHARS \<and> no_nul (title r) \<and>
      length (url r) \<le> MAX_RESULT_URL_CHARS \<and> no_nul (url r) \<and>
      length (snippet r) \<le> MAX_RESULT_SNIPPET_CHARS \<and> no_nul (snippet r))"

lemma row_result_bounded: "row_result row = Some r \<Longrightarrow> bounded_result r"
  by (auto simp: row_result_def bounded_result_def clip_length clip_no_nul Let_def no_nul_def [of "[]"]
      split: payload.splits if_splits)

lemma collect_rows_bounded:
  assumes "length rs \<le> MAX_RESULTS_PER_SEARCH" "list_all bounded_result rs"
  shows "length (collect_rows rs rows) \<le> MAX_RESULTS_PER_SEARCH \<and> list_all bounded_result (collect_rows rs rows)"
  using assms
  by (induction rs rows rule: collect_rows.induct) (auto simp: row_result_bounded split: option.splits)

lemma normalize_results_bounded:
  "length (normalize_results p) \<le> MAX_RESULTS_PER_SEARCH \<and> list_all bounded_result (normalize_results p)"
  unfolding normalize_results_def by (rule collect_rows_bounded) simp_all

text \<open>No answer of a transport widens what reaches a prompt: whatever document a search returns, at
  most 8 results come out of it, with titles, addresses and snippets within their limits and no NUL
  character in any of them.\<close>

theorem results_are_bounded:
  "length (normalize_results p) \<le> 8 \<and>
   (\<forall>r \<in> set (normalize_results p). length (title r) \<le> 200 \<and> length (url r) \<le> 500 \<and>
      length (snippet r) \<le> 1000 \<and> no_nul (title r @ url r @ snippet r))"
  using normalize_results_bounded [of p]
  by (auto simp: list_all_iff bounded_result_def no_nul_def MAX_RESULTS_PER_SEARCH_def
      MAX_RESULT_TITLE_CHARS_def MAX_RESULT_URL_CHARS_def MAX_RESULT_SNIPPET_CHARS_def)

text \<open>A second normalization only trims; a third changes nothing.\<close>

definition trim_result :: "search_result \<Rightarrow> search_result" where
  "trim_result r = \<lparr>title = py_strip (title r), url = py_strip (url r), snippet = py_strip (snippet r)\<rparr>"

lemma row_result_again: "bounded_result r \<Longrightarrow> row_result (VResult r t) = Some (trim_result r)"
  by (simp add: row_result_def bounded_result_def clip_VText trim_result_def)

lemma collect_rows_results:
  "length rs + length xs \<le> MAX_RESULTS_PER_SEARCH \<Longrightarrow> list_all bounded_result xs \<Longrightarrow>
   collect_rows rs (map (\<lambda>r. VResult r (t r)) xs) = rs @ map trim_result xs"
  by (induction xs arbitrary: rs) (auto simp: row_result_again)

lemma trim_result_idem [simp]: "trim_result (trim_result r) = trim_result r"
  by (simp add: trim_result_def)

lemma normalize_again:
  "length xs \<le> MAX_RESULTS_PER_SEARCH \<Longrightarrow> list_all bounded_result xs \<Longrightarrow>
   normalize_results (VSeq (map (\<lambda>r. VResult r (t r)) xs) s) = map trim_result xs"
  by (simp add: normalize_results_def collect_rows_results)

lemma bounded_trim: "bounded_result r \<Longrightarrow> bounded_result (trim_result r)"
  using py_strip_length [of "title r"] py_strip_length [of "url r"] py_strip_length [of "snippet r"]
    py_strip_subset [of "title r"] py_strip_subset [of "url r"] py_strip_subset [of "snippet r"]
  by (auto simp: bounded_result_def trim_result_def no_nul_def)

text \<open>Results normalized by the transport survive the adapter's second normalization: no row is lost,
  each field is only stripped of the white space its cut left at an end, and a third pass is the
  identity.\<close>

theorem normalizing_twice_only_trims:
  "normalize_results (VSeq (map (\<lambda>r. VResult r (t r)) (normalize_results p)) s) = map trim_result (normalize_results p)
   \<and> normalize_results (VSeq (map (\<lambda>r. VResult r (t' r)) (map trim_result (normalize_results p))) s') =
       map trim_result (normalize_results p)"
proof -
  let ?rs = "normalize_results p"
  have b: "length ?rs \<le> MAX_RESULTS_PER_SEARCH" "list_all bounded_result ?rs"
    using normalize_results_bounded by auto
  then have "list_all bounded_result (map trim_result ?rs)" by (auto simp: list_all_iff bounded_trim)
  with b have "normalize_results (VSeq (map (\<lambda>r. VResult r (t' r)) (map trim_result ?rs)) s') = map trim_result (map trim_result ?rs)"
    by (intro normalize_again) simp_all
  with b show ?thesis by (simp add: normalize_again comp_def)
qed

section \<open>The passage budget\<close>

text \<open>Every non-empty passage in full, as if the budget were not there.\<close>

definition all_chunks :: "payload list \<Rightarrow> string list" where
  "all_chunks ps = filter (\<lambda>s. s \<noteq> []) (map (\<lambda>p. full_text (chunk_text p)) ps)"

definition separated :: "string \<Rightarrow> string" where
  "separated s = (if s = [] then [] else CHR 0x0A # s)"

lemma newline_is_space [simp]: "is_space (CHR 0x0A)"
  by (simp add: is_space_def)

lemma join_lines_Cons: "join_lines (x # xs) = (if xs = [] then x else x @ CHR 0x0A # join_lines xs)"
  by (cases xs) auto

lemma rstrip_newline: "rstrip (CHR 0x0A # s) = separated (rstrip s)"
  using rstrip_append [of "[CHR 0x0A]" s] by (simp add: separated_def rstrip_def)

lemma rstrip_text: "trimmed x \<Longrightarrow> rstrip x = x"
  by (rule rstrip_id) (auto simp: trimmed_def)

lemma rstrip_join:
  assumes "trimmed x"
  shows "rstrip (join_lines (x # xs)) = x @ separated (rstrip (join_lines xs))"
  using assms by (auto simp: join_lines_Cons rstrip_append rstrip_newline rstrip_text separated_def)

lemma rstrip_take_join:
  assumes "trimmed x" "length x < n"
  shows "rstrip (take n (join_lines (x # xs))) = x @ separated (rstrip (take (n - (length x + 1)) (join_lines xs)))"
proof -
  have "n - length x = Suc (n - (length x + 1))" using assms(2) by simp
  then show ?thesis
    using assms by (auto simp: join_lines_Cons rstrip_append rstrip_newline rstrip_text separated_def)
qed

lemma take_join_long: "n \<le> length x \<Longrightarrow> take n (join_lines (x # xs)) = take n x"
  by (simp add: join_lines_Cons)

lemma full_text_trimmed: "trimmed (full_text p)"
  by (simp add: full_text_def py_strip_trimmed)

lemma spend_chunks_spent: "b \<le> 0 \<Longrightarrow> spend_chunks b ps = []"
  by (cases ps) auto

lemma spend_chunks_rstrip:
  "0 \<le> b \<Longrightarrow> rstrip (join_lines (spend_chunks b ps)) = rstrip (take (nat b) (join_lines (all_chunks ps)))"
proof (induction ps arbitrary: b)
  case Nil
  then show ?case by (simp add: all_chunks_def)
next
  case (Cons p ps)
  let ?x = "full_text (chunk_text p)"
  show ?case
  proof (cases "b = 0 \<or> ?x = []")
    case True
    with Cons show ?thesis by (auto simp: all_chunks_def clip_full)
  next
    case False
    with Cons.prems have "0 < b" "?x \<noteq> []" by auto
    then have chunks: "all_chunks (p # ps) = ?x # all_chunks ps"
      "spend_chunks b (p # ps) =
         take (nat b) ?x # spend_chunks (b - (int (length (take (nat b) ?x)) + 1)) ps"
      by (auto simp: all_chunks_def clip_full Let_def)
    show ?thesis
    proof (cases "length ?x < nat b")
      case True
      then have "0 \<le> b - (int (length ?x) + 1)" by linarith
      with Cons.IH [OF this] True show ?thesis
        by (simp add: chunks rstrip_join rstrip_take_join full_text_trimmed nat_diff_distrib nat_add_distrib
            del: spend_chunks.simps)
    next
      case F: False
      with \<open>0 < b\<close> show ?thesis by (simp add: chunks take_join_long spend_chunks_spent del: spend_chunks.simps)
    qed
  qed
qed

lemma spend_chunks_length: "0 \<le> b \<Longrightarrow> length (join_lines (spend_chunks b ps)) \<le> nat b"
proof (induction ps arbitrary: b)
  case (Cons p ps)
  let ?x = "clip (chunk_text p) (nat b)"
  let ?b = "b - (int (length ?x) + 1)"
  have x: "length ?x \<le> nat b" by (rule clip_length)
  show ?case
  proof (cases "0 \<le> ?b")
    case True
    from Cons.IH [OF this] True have "length (join_lines (spend_chunks ?b ps)) + length ?x + 1 \<le> nat b" by linarith
    then show ?thesis using Cons.prems x by (auto simp: Let_def join_lines_Cons Cons.IH)
  next
    case False
    with x Cons.prems show ?thesis by (auto simp: Let_def spend_chunks_spent Cons.IH)
  qed
qed simp

lemma no_nul_append [simp]: "no_nul (s @ t) = (no_nul s \<and> no_nul t)" "no_nul []"
  by (auto simp: no_nul_def)

lemma join_lines_ok:
  assumes "\<And>x. x \<in> set xs \<Longrightarrow> trimmed x \<and> x \<noteq> [] \<and> no_nul x"
  shows "no_nul (join_lines xs) \<and> trimmed (join_lines xs) \<and> (xs \<noteq> [] \<longrightarrow> join_lines xs \<noteq> [])"
  using assms
proof (induction xs)
  case Nil
  then show ?case by (simp add: trimmed_def)
next
  case (Cons x xs)
  from Cons.prems [of x] Cons.IH Cons.prems show ?case
    by (auto simp: join_lines_Cons trimmed_def no_nul_def)
qed

lemma all_chunks_ok: "x \<in> set (all_chunks ps) \<Longrightarrow> trimmed x \<and> x \<noteq> [] \<and> no_nul x"
  by (auto simp: all_chunks_def full_text_trimmed full_text_no_nul)

lemma spend_chunks_hd:
  "\<not> is_space (List.hd (join_lines (spend_chunks b ps))) \<or> join_lines (spend_chunks b ps) = []"
proof (induction b ps rule: spend_chunks.induct)
  case (2 b p ps)
  let ?x = "full_text (chunk_text p)"
  have "take (nat b) ?x = [] \<or> \<not> is_space (List.hd (take (nat b) ?x))"
    using full_text_trimmed [of "chunk_text p"] take_hd [of "nat b" ?x] by (auto simp: trimmed_def)
  with 2 show ?case by (auto simp: Let_def clip_full join_lines_Cons hd_append)
qed simp

lemma spend_chunks_no_nul: "no_nul (join_lines (spend_chunks b ps))"
proof (induction b ps rule: spend_chunks.induct)
  case (2 b p ps)
  with clip_no_nul [of "chunk_text p" "nat b"] show ?case
    by (auto simp: Let_def join_lines_Cons no_nul_def)
qed simp

lemma passage_budget:
  "clip (VText (join_lines (spend_chunks (int MAX_RESULT_SNIPPET_CHARS) ps))) MAX_RESULT_SNIPPET_CHARS =
   py_strip (clip (VText (join_lines (all_chunks ps))) MAX_RESULT_SNIPPET_CHARS)"
proof -
  let ?n = MAX_RESULT_SNIPPET_CHARS and ?a = "join_lines (all_chunks ps)"
  let ?s = "join_lines (spend_chunks (int ?n) ps)"
  have all: "no_nul ?a" "trimmed ?a" using join_lines_ok [of "all_chunks ps"] all_chunks_ok by auto
  have "take ?n ?a = [] \<or> \<not> is_space (List.hd (take ?n ?a))"
    using all(2) take_hd [of ?n ?a] by (auto simp: trimmed_def)
  then have "py_strip (take ?n ?a) = rstrip (take ?n ?a)" by (rule py_strip_hd)
  also have "\<dots> = rstrip ?s" using spend_chunks_rstrip [of "int ?n" ps] by simp
  also have "\<dots> = py_strip ?s" using spend_chunks_hd [of "int ?n" ps] by (intro py_strip_hd [symmetric]) blast
  finally have eq: "py_strip (take ?n ?a) = py_strip ?s" .
  have "clip (VText ?s) ?n = py_strip ?s"
    using spend_chunks_length [of "int ?n" ps] by (intro clip_VText) (simp_all add: spend_chunks_no_nul)
  moreover have "clip (VText ?a) ?n = take ?n ?a"
    using all by (simp add: clip_full full_text_VText trimmed_py_strip)
  ultimately show ?thesis using eq by simp
qed

text \<open>Spending the budget down loses nothing of the kept text: the snippet built passage by passage
  within the budget of 1000 characters is the snippet of all passages joined in full and cut afterwards,
  up to white space the cut leaves at the end.\<close>

theorem passage_budget_is_exact:
  "clip (VText (join_lines (spend_chunks (int MAX_RESULT_SNIPPET_CHARS) ps))) MAX_RESULT_SNIPPET_CHARS =
   py_strip (clip (VText (join_lines (all_chunks ps))) MAX_RESULT_SNIPPET_CHARS)"
  by (rule passage_budget)

text \<open>The comment in the code says "byte-identical", which fails exactly when the cut falls on white space.\<close>

lemma cut_passage_differs:
  assumes "trimmed (s @ t)" "no_nul (s @ t)" "length s = MAX_RESULT_SNIPPET_CHARS" "is_space (last s)"
  shows "clip (VText (join_lines (spend_chunks (int MAX_RESULT_SNIPPET_CHARS) [VText (s @ t)]))) MAX_RESULT_SNIPPET_CHARS
    \<noteq> clip (VText (join_lines (all_chunks [VText (s @ t)]))) MAX_RESULT_SNIPPET_CHARS"
proof
  assume eq: "clip (VText (join_lines (spend_chunks (int MAX_RESULT_SNIPPET_CHARS) [VText (s @ t)]))) MAX_RESULT_SNIPPET_CHARS
    = clip (VText (join_lines (all_chunks [VText (s @ t)]))) MAX_RESULT_SNIPPET_CHARS" (is "_ = ?r")
  have "s \<noteq> []" using assms(3) by (auto simp: MAX_RESULT_SNIPPET_CHARS_def)
  then have r: "?r = s"
    using assms by (simp add: all_chunks_def chunk_text_def clip_full full_text_VText trimmed_py_strip)
  from eq have "?r = py_strip ?r" unfolding passage_budget by simp
  with r \<open>s \<noteq> []\<close> assms(4) show False using py_strip_trimmed [of s] by (simp add: trimmed_def)
qed

section \<open>Bounded text\<close>

lemma escape_char_length: "length (escape_char c) \<le> 6"
  by (simp add: escape_char_def Let_def)

lemma quoted_length: "length (quoted s) \<le> 6 * length s + 2"
proof -
  have "length (concat (map escape_char s)) \<le> 6 * length s"
  proof (induction s)
    case (Cons c s)
    then show ?case using escape_char_length [of c] by simp
  qed simp
  then show ?thesis by (simp add: quoted_def)
qed

lemma budget_notice_length: "length (dumps (budget_notice o1)) \<le> MAX_TOOL_CONTENT_CHARS"
proof -
  have q: "length (quoted (take MAX_QUERY_CHARS (outcome_query o1))) \<le> 2402"
    using quoted_length [of "take MAX_QUERY_CHARS (outcome_query o1)"] by (simp add: MAX_QUERY_CHARS_def)
  show ?thesis
    using q quoted_length [of "''tool''"] quoted_length [of MEDIATED_SEARCH_TOOL_NAME]
      quoted_length [of "''query''"] quoted_length [of "''status''"] quoted_length [of "''error''"]
      quoted_length [of "''result payload exceeded the server-owned size budget''"]
    by (simp add: budget_notice_def MEDIATED_SEARCH_TOOL_NAME_def MAX_TOOL_CONTENT_CHARS_def)
qed

lemma shed_prefix:
  "shed o1 rs = Some e \<Longrightarrow> length e \<le> MAX_TOOL_CONTENT_CHARS \<and>
     (\<exists>k < length rs. e = dumps (truncated_payload o1 (take k rs)))"
proof (induction o1 rs rule: shed.induct)
  case (2 o1 r rs)
  let ?kept = "butlast (r # rs)"
  have kept: "?kept = take (length rs) (r # rs)" by (simp add: butlast_conv_take)
  show ?case
  proof (cases "length (dumps (truncated_payload o1 ?kept)) \<le> MAX_TOOL_CONTENT_CHARS")
    case True
    with 2(2) have "e = dumps (truncated_payload o1 ?kept)" "length e \<le> MAX_TOOL_CONTENT_CHARS"
      by (auto simp add: Let_def simp del: butlast.simps)
    then show ?thesis unfolding kept by (metis length_Cons lessI)
  next
    case False
    with 2 obtain k where "k < length ?kept" "e = dumps (truncated_payload o1 (take k ?kept))"
      "length e \<le> MAX_TOOL_CONTENT_CHARS"
      by (auto simp: Let_def simp del: butlast.simps)
    then show ?thesis unfolding kept by (intro conjI exI [of _ k]) (auto simp: min_def)
  qed
qed simp

text \<open>What the model reads back never exceeds 12000 characters, on any path: it is the whole outcome, or
  the outcome with a shorter prefix of the results that says it was truncated, or a notice; it is never
  a cut document.\<close>

theorem tool_content_is_bounded:
  "length (as_tool_content o1) \<le> 12000 \<and>
   (as_tool_content o1 = dumps (outcome_payload o1) \<or>
    (\<exists>k < length (outcome_results o1).
       as_tool_content o1 = dumps (truncated_payload o1 (take k (outcome_results o1)))) \<or>
    as_tool_content o1 = dumps (budget_notice o1))"
proof (cases "length (dumps (outcome_payload o1)) \<le> MAX_TOOL_CONTENT_CHARS")
  case True
  then show ?thesis by (simp add: as_tool_content_def MAX_TOOL_CONTENT_CHARS_def)
next
  case False
  let ?rs = "if outcome_error o1 = None then outcome_results o1 else []"
  show ?thesis
  proof (cases "shed o1 ?rs")
    case None
    with False budget_notice_length [of o1] show ?thesis
      by (simp add: as_tool_content_def MAX_TOOL_CONTENT_CHARS_def)
  next
    case (Some e)
    then have "as_tool_content o1 = e" using False by (simp add: as_tool_content_def)
    with shed_prefix [OF Some] show ?thesis
      by (auto simp: MAX_TOOL_CONTENT_CHARS_def split: if_splits)
  qed
qed

section \<open>The request\<close>

lemma timeout_bounds: "1 \<le> standalone_search_timeout_seconds d \<and> standalone_search_timeout_seconds d \<le> 30"
proof -
  let ?x = "max 1 (min 30 d) :: rat"
  have "1 \<le> ?x" "?x \<le> 30" by auto
  then have "1 \<le> \<lfloor>?x\<rfloor>" "\<lfloor>?x\<rfloor> \<le> 30" by linarith+
  then show ?thesis
    by (simp add: standalone_search_timeout_seconds_def trunc_rat_def STANDALONE_SEARCH_TIMEOUT_SECONDS_def
        MIN_STANDALONE_SEARCH_TIMEOUT_SECONDS_def)
qed

lemma timeout_within_deadline: "1 \<le> d \<Longrightarrow> of_int (standalone_search_timeout_seconds d) \<le> d"
  by (simp add: standalone_search_timeout_seconds_def trunc_rat_def STANDALONE_SEARCH_TIMEOUT_SECONDS_def
      MIN_STANDALONE_SEARCH_TIMEOUT_SECONDS_def) linarith

text \<open>A deadline below one second is shorter than the time the provider is asked for.\<close>

lemma timeout_beyond_deadline: "d < 1 \<Longrightarrow> d < of_int (standalone_search_timeout_seconds d)"
  by (simp add: standalone_search_timeout_seconds_def trunc_rat_def STANDALONE_SEARCH_TIMEOUT_SECONDS_def
      MIN_STANDALONE_SEARCH_TIMEOUT_SECONDS_def)

end
