(* ===== verification/Provider_Adapter.thy ===== *)
theory Provider_Adapter
  imports Standalone_Search Guarded_Client Scheduler_Safety
begin

text \<open>
  \<open>ProviderAdapter\<close> of \<open>backend/provider_authority.py\<close>: what a chat request must carry, the searches
  one provider attempt may spend, and the mediated search: the run's ledger first, the endpoint's rate
  second, the durable charge third, and only then one search.

  The run's ledger is a \<open>tracker option\<close>, since an adapter may be built without one.  The client, the
  search transport and what other threads do to the ledger while a search waits are arguments.  Log
  lines and the client cache are not modelled.
\<close>

section \<open>Searches in a request and in a response\<close>

definition BUILTIN_WEB_SEARCH :: string where "BUILTIN_WEB_SEARCH = ''$web_search''"

definition codes :: "string \<Rightarrow> nat list" where
  "codes s = map of_char s"

definition offers_builtin :: "json \<Rightarrow> bool" where
  "offers_builtin tool = (case tool of
       JObj kvs \<Rightarrow>
         (case map_of kvs (codes ''function'') of
            Some (JObj f) \<Rightarrow> map_of f (codes ''name'') = Some (JStr (codes BUILTIN_WEB_SEARCH))
          | _ \<Rightarrow> False)
     | _ \<Rightarrow> False)"

text \<open>\<open>None\<close> is the \<open>TypeError\<close> of iterating over a number; the items of a mapping or a text are texts.\<close>

definition request_offers_builtin_search :: "json \<Rightarrow> bool option" where
  "request_offers_builtin_search tools =
     (if \<not> json_truthy tools then Some False
      else (case tools of
              JArr ts \<Rightarrow> Some (list_ex offers_builtin ts)
            | JObj kvs \<Rightarrow> Some False
            | JStr s \<Rightarrow> Some False
            | _ \<Rightarrow> None))"

text \<open>An attribute that is absent or \<open>None\<close>, that cannot be iterated, or that yields items; a tool call is
  the name of its function, if it has one.\<close>

datatype 'a attr = Absent | Not_iterable | Items "'a list"

datatype choice = No_message | Message "string option attr"

fun count_choices :: "int \<Rightarrow> choice list \<Rightarrow> int option" where
  "count_choices n [] = Some n"
| "count_choices n (No_message # cs) = None"
| "count_choices n (Message calls # cs) =
     (case calls of
        Absent \<Rightarrow> count_choices n cs
      | Not_iterable \<Rightarrow> None
      | Items names \<Rightarrow>
          count_choices (n + int (length (filter (\<lambda>f. f = Some BUILTIN_WEB_SEARCH) names))) cs)"

definition builtin_searches_in_response :: "choice attr \<Rightarrow> int option" where
  "builtin_searches_in_response choices =
     (case choices of Items cs \<Rightarrow> count_choices 0 cs | _ \<Rightarrow> None)"

section \<open>What a chat request must carry\<close>

datatype chat_error =
    Unreadable_cap cap_error
  | No_output_cap
  | Not_admissible admission_error
  | Tools_not_iterable

definition chat_admission ::
  "(json \<Rightarrow> json \<Rightarrow> pyval) option \<Rightarrow> int option \<Rightarrow> int option \<Rightarrow> chat_request \<Rightarrow>
     chat_error + (token_demand \<times> bool)" where
  "chat_admission counter process_tpm organization_tpm rq =
     (case read_output_cap (rq_caps rq) of
        Inl e \<Rightarrow> Inl (Unreadable_cap e)
      | Inr None \<Rightarrow> Inl No_output_cap
      | Inr (Some cap) \<Rightarrow>
          (case token_demand_of counter process_tpm organization_tpm (rq_messages rq) (PInt cap) (rq_tools rq) of
             Inl e \<Rightarrow> Inl (Not_admissible e)
           | Inr demand \<Rightarrow>
               (case request_offers_builtin_search (rq_tools rq) of
                  None \<Rightarrow> Inl Tools_not_iterable
                | Some searching \<Rightarrow> Inr (demand, searching))))"

section \<open>Search accounting around one attempt\<close>

type_synonym ledger = "tracker option"

definition max_builtin_searches :: "budget_config \<Rightarrow> ledger \<Rightarrow> int" where
  "max_builtin_searches c led =
     (case led of None \<Rightarrow> 1 | Some t \<Rightarrow> max 1 (max_builtin_searches_per_request c))"

definition reserve_searches ::
  "env \<Rightarrow> budget_config \<Rightarrow> int \<Rightarrow> ledger \<Rightarrow> (budget_error + int option) \<times> ledger" where
  "reserve_searches v c n led =
     (case led of
        None \<Rightarrow> (Inr None, None)
      | Some t \<Rightarrow>
          if n \<le> 0 then (Inr None, Some t)
          else (case reserve_search v c n t of
                  (Inl e, t') \<Rightarrow> (Inl e, Some t')
                | (Inr seq, t') \<Rightarrow> (Inr (Some seq), Some t')))"

definition settle_searches ::
  "env \<Rightarrow> budget_config \<Rightarrow> int option \<Rightarrow> int option \<Rightarrow> bool \<Rightarrow> ledger \<Rightarrow> (budget_error + unit) \<times> ledger" where
  "settle_searches v c reservation actual pre_execution led =
     (case (led, reservation) of
        (Some t, Some seq) \<Rightarrow>
          (case settle_search v c seq actual None pre_execution t of (r, t') \<Rightarrow> (r, Some t'))
      | _ \<Rightarrow> (Inr (), led))"

definition searches_after_failure :: "exn_heap \<Rightarrow> nat \<Rightarrow> int option" where
  "searches_after_failure heap i = (if failed_before_the_request_was_sent heap i then Some 0 else None)"

text \<open>
  What escapes one attempt: a refusal before the request, the client's exception, or a refusal by the
  settlement, which carries the verdict on the request (\<open>provider_request_completed\<close>).
\<close>

datatype attempt_failure =
    Search_refused budget_error
  | Client_failed nat
  | Search_settlement budget_error bool "nat option"

definition chat_attempt ::
  "env \<Rightarrow> budget_config \<Rightarrow> exn_heap \<Rightarrow> ('r \<Rightarrow> choice attr) \<Rightarrow> bool \<Rightarrow> (ledger \<Rightarrow> (nat + 'r) \<times> ledger) \<Rightarrow>
     ledger \<Rightarrow> (attempt_failure + 'r) \<times> ledger" where
  "chat_attempt v c heap choices_of searching client led =
     (case (if searching then reserve_searches v c (max_builtin_searches c led) led else (Inr None, led)) of
        (Inl e, led1) \<Rightarrow> (Inl (Search_refused e), led1)
      | (Inr reservation, led1) \<Rightarrow>
          (case client led1 of
             (Inl i, led2) \<Rightarrow>
               (case settle_searches v c reservation (searches_after_failure heap i) False led2 of
                  (Inl e, led3) \<Rightarrow>
                    (Inl (Search_settlement e (completion_proven (classify_outcome heap (Some i))) (Some i)), led3)
                | (Inr u, led3) \<Rightarrow> (Inl (Client_failed i), led3))
           | (Inr r, led2) \<Rightarrow>
               (case settle_searches v c reservation (builtin_searches_in_response (choices_of r)) False led2 of
                  (Inl e, led3) \<Rightarrow> (Inl (Search_settlement e True None), led3)
                | (Inr u, led3) \<Rightarrow> (Inr r, led3))))"

text \<open>The exception the scheduler classifies.\<close>

definition attempt_exn :: "attempt_failure \<Rightarrow> exn option" where
  "attempt_exn f =
     (let refusal = (\<lambda>mark ctx. \<lparr>class_name = ''BudgetExceeded'', text_of = [], cause = None, exn_context = ctx,
            status_code = PNone, response_of = None, provider_request_completed = Some mark,
            is_cancellation = False\<rparr>)
      in case f of
           Search_refused e \<Rightarrow> Some (refusal True None)
         | Client_failed i \<Rightarrow> None
         | Search_settlement e mark ctx \<Rightarrow> Some (refusal mark ctx))"

definition attempt_proven :: "exn_heap \<Rightarrow> attempt_failure \<Rightarrow> bool" where
  "attempt_proven heap f =
     (case (f, attempt_exn f) of
        (Client_failed i, _) \<Rightarrow> completion_proven (classify_outcome heap (Some i))
      | (_, Some e) \<Rightarrow> completion_proven (classify_exn heap (Suc (Max (insert 0 (fst ` set heap)))) e)
      | _ \<Rightarrow> False)"

section \<open>The mediated search\<close>

datatype admission_failure = Search_budget budget_error | Search_capacity sched_error

text \<open>\<open>others\<close> is what other threads of the run did to the ledger while this one waited.\<close>

definition meanwhile :: "budget_config \<Rightarrow> (env \<times> budget_op) list \<Rightarrow> ledger \<Rightarrow> ledger" where
  "meanwhile c others led = map_option (perform_all c others) led"

definition search ::
  "env \<Rightarrow> budget_config \<Rightarrow> ('s, 'r) surroundings \<Rightarrow> search_endpoint \<Rightarrow> pyfloat option \<Rightarrow>
     (env \<times> budget_op) list \<Rightarrow> ledger \<Rightarrow> 's sched \<Rightarrow> ((admission_failure + rat) \<times> ledger \<times> 's sched) option" where
  "search v c sv endpoint max_wait others led s =
     (case reserve_searches v c 1 led of
        (Inl e, led1) \<Rightarrow> Some (Inl (Search_budget e), led1, s)
      | (Inr reservation, led1) \<Rightarrow>
          (case admit_search sv endpoint max_wait s of
             None \<Rightarrow> None
           | Some (Inl e, s1) \<Rightarrow>
               (case settle_searches v c reservation (Some 0) False (meanwhile c others led1) of
                  (Inl e', led2) \<Rightarrow> Some (Inl (Search_budget e'), led2, s1)
                | (Inr u, led2) \<Rightarrow> Some (Inl (Search_capacity e), led2, s1))
           | Some (Inr waited, s1) \<Rightarrow>
               (case settle_searches v c reservation (Some 1) True (meanwhile c others led1) of
                  (Inl e', led2) \<Rightarrow> Some (Inl (Search_budget e'), led2, s1)
                | (Inr u, led2) \<Rightarrow> Some (Inr waited, led2, s1))))"

text \<open>A transport raises a stop of the run (or no \<open>Exception\<close> at all), raises another exception of some
  class, or returns a document.\<close>

datatype executor_reply = Run_stop nat | Raises string | Returns payload

record executor =
  ready :: bool
  perform_search :: "string \<Rightarrow> search_endpoint \<Rightarrow> executor_reply"

datatype run_search_error =
    Bad_query search_error
  | No_ledger
  | No_transport
  | Transport_not_usable
  | Not_admitted admission_failure
  | Run_stopped nat

text \<open>The last component lists the searches performed.\<close>

definition run_search ::
  "env \<Rightarrow> budget_config \<Rightarrow> ('s, 'r) surroundings \<Rightarrow> executor option \<Rightarrow> payload \<Rightarrow> search_endpoint \<Rightarrow>
     pyfloat option \<Rightarrow> (env \<times> budget_op) list \<Rightarrow> ledger \<Rightarrow> 's sched \<Rightarrow>
     ((run_search_error + search_outcome) \<times> ledger \<times> 's sched \<times> (string \<times> search_endpoint) list) option" where
  "run_search v c sv transport query endpoint max_wait others led s =
     (case normalize_query query of
        Inl e \<Rightarrow> Some (Inl (Bad_query e), led, s, [])
      | Inr q \<Rightarrow>
          if led = None then Some (Inl No_ledger, led, s, [])
          else (case transport of
            None \<Rightarrow> Some (Inl No_transport, led, s, [])
          | Some x \<Rightarrow>
              if \<not> ready x then Some (Inl Transport_not_usable, led, s, [])
              else (case search v c sv endpoint max_wait others led s of
                None \<Rightarrow> None
              | Some (Inl e, led1, s1) \<Rightarrow> Some (Inl (Not_admitted e), led1, s1, [])
              | Some (Inr waited, led1, s1) \<Rightarrow>
                  Some ((case perform_search x q endpoint of
                           Run_stop i \<Rightarrow> Inl (Run_stopped i)
                         | Raises cls \<Rightarrow>
                             Inr \<lparr>outcome_query = q, outcome_endpoint = endpoint_text endpoint,
                                  outcome_results = [], outcome_error = Some (''search failed: '' @ cls),
                                  outcome_admitted = True\<rparr>
                         | Returns p \<Rightarrow>
                             Inr \<lparr>outcome_query = q, outcome_endpoint = endpoint_text endpoint,
                                  outcome_results = normalize_results p, outcome_error = None,
                                  outcome_admitted = True\<rparr>), led1, s1, [(q, endpoint)]))))"

text \<open>The shipped transport as an executor: every exception of its HTTP call has become its own.  The texts of the list and
  of the results are never read.\<close>

definition moonshot_executor ::
  "(string \<Rightarrow> string option) \<Rightarrow> transport \<Rightarrow> (search_post \<Rightarrow> http_reply) \<Rightarrow> executor" where
  "moonshot_executor env tr http =
     \<lparr>ready = available env tr,
      perform_search = (\<lambda>q p. case fst (moonshot_search env tr http q (endpoint_text p)) of
         Inl e \<Rightarrow> Raises ''SearchTransportError''
       | Inr rs \<Rightarrow> Returns (VSeq (map (\<lambda>r. VResult r []) rs) []))\<rparr>"

end
