(* ===== verification/Adapter_Safety.thy ===== *)
theory Adapter_Safety
  imports Provider_Adapter
begin

text \<open>
  What the adapter promises about searches: an attempt gives its reservation back on every way out and
  charges an unknown count in full, its settlement never changes what is known about the request, and
  a mediated search is performed at most once, after it was admitted, charged and paced.
\<close>

section \<open>One settlement\<close>

definition search_charge :: "int option \<Rightarrow> int \<Rightarrow> int" where
  "search_charge actual h = (case actual of None \<Rightarrow> h | Some n \<Rightarrow> max 0 n)"

definition search_refused :: "budget_config \<Rightarrow> int option \<Rightarrow> bool \<Rightarrow> int \<Rightarrow> tracker \<Rightarrow> bool" where
  "search_refused c actual pre h t =
     (pre \<and> search_charge actual h \<noteq> 0 \<and>
      above (max_cost_per_run c) (amount t Actual_cost + search_cost_per_invocation c * of_int (search_charge actual h)))"

lemma core_settle_held:
  assumes "0 \<le> search_cost_per_invocation c" "map_of (open_search_reservations t) seq = Some h"
  shows "core (snd (settle_search v c seq actual None pre t)) =
    core (if search_refused c actual pre h t then release_search seq h t
          else add_search (search_charge actual h)
                 (search_cost_per_invocation c * of_int (search_charge actual h)) (release_search seq h t))"
proof -
  have rec: "core (snd (and_then (record_usage v t3) (\<lambda>_ t'.
        if (q::int) < k then raise_stop v e1 t'
        else if over l (count t' Search_invocations) then reject v e2 t'
        else if above m (amount t' Actual_cost) then raise_stop v e3 t' else (Inr (), t')))) = core t3"
    for t3 q k e1 l e2 m e3
    by (rule core_record_then) (simp add: core_facts)
  show ?thesis
    using assms by (simp add: settle_search_def search_refused_def search_charge_def Let_def core_facts rec)
qed

lemma settle_held_books:
  assumes "0 \<le> search_cost_per_invocation c" "map_of (open_search_reservations t) seq = Some h"
  shows "open_search_reservations (snd (settle_search v c seq actual None pre t)) =
      AList.delete seq (open_search_reservations t)"
    and "count (snd (settle_search v c seq actual None pre t)) Search_invocations =
      count t Search_invocations + (if search_refused c actual pre h t then 0 else search_charge actual h)"
proof -
  note core = core_settle_held [OF assms, of v actual pre]
  show "open_search_reservations (snd (settle_search v c seq actual None pre t)) =
      AList.delete seq (open_search_reservations t)"
    using arg_cong [where f = open_search_reservations, OF core] by (simp split: if_splits)
  show "count (snd (settle_search v c seq actual None pre t)) Search_invocations =
      count t Search_invocations + (if search_refused c actual pre h t then 0 else search_charge actual h)"
    using arg_cong [where f = "\<lambda>t. count t Search_invocations", OF core] by (simp split: if_splits)
qed

lemma settle_ok_not_refused:
  assumes "settle_search v c seq actual None pre t = (Inr u, t')"
    "map_of (open_search_reservations t) seq = Some h" "0 \<le> search_cost_per_invocation c"
  shows "\<not> search_refused c actual pre h t"
  using assms by (auto simp: settle_search_def search_refused_def search_charge_def raise_stop_def Let_def)

section \<open>One attempt\<close>

lemma reserve_searches_books:
  assumes "reserve_searches v c n (Some t) = (r, led)" "0 < n"
  shows "(\<exists>e t'. r = Inl e \<and> led = Some t' \<and> core t' = core t) \<or>
    (r = Inr (Some (search_seq t + 1)) \<and> led = Some (t\<lparr>search_seq := search_seq t + 1,
       reserved_search_invocations := reserved_search_invocations t + n,
       open_search_reservations := open_search_reservations t @ [(search_seq t + 1, n)]\<rparr>))"
  using assms core_reject [of v "exhausted SEARCH_LIMIT_REACHED" t]
  by (auto simp: reserve_searches_def reserve_search_def reject_def max_def Let_def core_facts
      split: prod.splits sum.splits option.splits if_splits)

text \<open>The client may do anything to the ledger except settle the attempt's own reservation.\<close>

definition keeps_searches :: "(ledger \<Rightarrow> (nat + 'r) \<times> ledger) \<Rightarrow> bool" where
  "keeps_searches client =
     (\<forall>t. \<exists>t'. snd (client (Some t)) = Some t' \<and> open_search_reservations t' = open_search_reservations t)"

lemma settle_searches_some:
  "settle_searches v c (Some seq) actual pre (Some t) =
     (fst (settle_search v c seq actual None pre t), Some (snd (settle_search v c seq actual None pre t)))"
  by (simp add: settle_searches_def split: prod.split)

lemma delete_snoc: "k \<notin> keys d \<Longrightarrow> AList.delete k (d @ [(k, x)]) = d"
  by (induction d) (auto simp: AList.delete_eq)

lemma fresh_seq: "accounting_ok t \<Longrightarrow> search_seq t + 1 \<notin> keys (open_search_reservations t)"
  by (force simp: accounting_ok_def)

lemma map_of_snoc: "k \<notin> keys d \<Longrightarrow> map_of (d @ [(k, x)]) k = Some x"
  by (induction d) auto

text \<open>What an attempt that may search does to the ledger, by the way it ends.\<close>

definition searches_spent :: "budget_config \<Rightarrow> exn_heap \<Rightarrow> ('r \<Rightarrow> choice attr) \<Rightarrow> nat + 'r \<Rightarrow> int option" where
  "searches_spent c heap choices_of reply =
     (case reply of
        Inl i \<Rightarrow> searches_after_failure heap i
      | Inr r \<Rightarrow> builtin_searches_in_response (choices_of r))"

lemma chat_attempt_sent:
  assumes "reserve_searches v c (max_builtin_searches c led) led = (Inr res, led1)"
  shows "snd (chat_attempt v c heap choices_of True client led) =
    snd (settle_searches v c res (searches_spent c heap choices_of (fst (client led1))) False (snd (client led1)))"
  using assms by (simp add: chat_attempt_def searches_spent_def split: prod.split sum.split)

lemma chat_attempt_refused:
  assumes "reserve_searches v c (max_builtin_searches c led) led = (Inl e, led1)"
  shows "snd (chat_attempt v c heap choices_of True client led) = led1"
  using assms by (simp add: chat_attempt_def)

lemma chat_attempt_plain: "snd (chat_attempt v c heap choices_of False client led) = snd (client led)"
  by (auto simp: chat_attempt_def settle_searches_def split: prod.split sum.split option.split)

lemma count_choices_ge: "count_choices n cs = Some m \<Longrightarrow> n \<le> m"
  by (induction n cs rule: count_choices.induct) (fastforce split: attr.splits)+

lemma max_builtin_pos: "0 < max_builtin_searches c led"
  by (simp add: max_builtin_searches_def max_def split: option.split)

lemma attempt_books:
  assumes ok: "accounting_ok t" and cost: "0 \<le> search_cost_per_invocation c" and client: "keeps_searches client"
    and granted: "reserve_searches v c (max_builtin_searches c (Some t)) (Some t) = (Inr res, led1)"
  shows "\<exists>t2 t'. client led1 = (fst (client led1), Some t2) \<and>
    snd (chat_attempt v c heap choices_of True client (Some t)) = Some t' \<and>
    open_search_reservations t' = open_search_reservations t \<and>
    count t' Search_invocations = count t2 Search_invocations +
      search_charge (searches_spent c heap choices_of (fst (client led1))) (max_builtin_searches c (Some t))"
proof -
  let ?n = "max_builtin_searches c (Some t)" and ?seq = "search_seq t + 1"
  let ?t1 = "t\<lparr>search_seq := ?seq, reserved_search_invocations := reserved_search_invocations t + ?n,
       open_search_reservations := open_search_reservations t @ [(?seq, ?n)]\<rparr>"
  from reserve_searches_books [OF granted max_builtin_pos] have r: "res = Some ?seq" "led1 = Some ?t1" by auto
  from client obtain t2 where t2: "snd (client led1) = Some t2"
    "open_search_reservations t2 = open_search_reservations t @ [(?seq, ?n)]"
    unfolding keeps_searches_def r by fastforce
  let ?a = "searches_spent c heap choices_of (fst (client led1))"
  have h: "map_of (open_search_reservations t2) ?seq = Some ?n"
    unfolding t2(2) by (rule map_of_snoc [OF fresh_seq [OF ok]])
  have "snd (chat_attempt v c heap choices_of True client (Some t)) = Some (snd (settle_search v c ?seq ?a None False t2))"
    unfolding chat_attempt_sent [OF granted] t2 r(1) by (simp add: settle_searches_some)
  moreover have "open_search_reservations (snd (settle_search v c ?seq ?a None False t2)) = open_search_reservations t"
    unfolding settle_held_books(1) [OF cost h] t2 by (rule delete_snoc [OF fresh_seq [OF ok]])
  moreover have "count (snd (settle_search v c ?seq ?a None False t2)) Search_invocations =
      count t2 Search_invocations + search_charge ?a ?n"
    unfolding settle_held_books(2) [OF cost h] by (simp add: search_refused_def)
  moreover have "client led1 = (fst (client led1), Some t2)" using t2(1) by (simp add: prod_eq_iff)
  ultimately show ?thesis by blast
qed

section \<open>What is known about the request\<close>

lemma make_verdict_proven: "completion_proven (make_verdict heap i e oc k) = fst (completion_is_proven heap i e)"
  by (simp add: make_verdict_def split: prod.split)

lemma classify_exn_proven: "completion_proven (classify_exn heap i e) = fst (completion_is_proven heap i e)"
  by (simp add: classify_exn_def Let_def make_verdict_proven split: option.split)

lemma marked_proven: "provider_request_completed e = Some m \<Longrightarrow> completion_proven (classify_exn heap i e) = m"
  by (simp add: classify_exn_proven completion_is_proven_def)

lemma attempt_proven_simps:
  "attempt_proven heap (Search_refused e) = True"
  "attempt_proven heap (Client_failed i) = completion_proven (classify_outcome heap (Some i))"
  "attempt_proven heap (Search_settlement e m ctx) = m"
  by (simp_all add: attempt_proven_def attempt_exn_def marked_proven)

section \<open>The mediated search\<close>

text \<open>Other threads settle only their own reservations.\<close>

definition keeps_reservation :: "budget_config \<Rightarrow> (env \<times> budget_op) list \<Rightarrow> tracker \<Rightarrow> bool" where
  "keeps_reservation c others t =
     (let seq = search_seq t + 1;
          t1 = t\<lparr>search_seq := seq, reserved_search_invocations := reserved_search_invocations t + 1,
                 open_search_reservations := open_search_reservations t @ [(seq, 1)]\<rparr>
      in map_of (open_search_reservations (perform_all c others t1)) seq = Some 1)"

text \<open>The three ways \<open>search\<close> ends: refused by the ledger, refused by the endpoint's rate, charged.\<close>

definition reserved_one :: "tracker \<Rightarrow> tracker" where
  "reserved_one t = t\<lparr>search_seq := search_seq t + 1,
     reserved_search_invocations := reserved_search_invocations t + 1,
     open_search_reservations := open_search_reservations t @ [(search_seq t + 1, 1)]\<rparr>"

lemma search_ends:
  assumes "search v c sv p mw others (Some t) s = Some (r, led', s')"
  shows "(\<exists>e t'. r = Inl (Search_budget e) \<and> reserve_searches v c 1 (Some t) = (Inl e, Some t') \<and> led' = Some t' \<and> s' = s) \<or>
    (\<exists>n. n = (case admit_search sv p mw s of Some (Inr w, _) \<Rightarrow> 1 | _ \<Rightarrow> 0) \<and>
       reserve_searches v c 1 (Some t) = (Inr (Some (search_seq t + 1)), Some (reserved_one t)) \<and>
       led' = Some (snd (settle_search v c (search_seq t + 1) (Some n) None (n = 1) (perform_all c others (reserved_one t)))) \<and>
       (\<forall>w. r = Inr w \<longrightarrow> n = 1 \<and> admit_search sv p mw s = Some (Inr w, s') \<and>
          fst (settle_search v c (search_seq t + 1) (Some n) None True (perform_all c others (reserved_one t))) = Inr ()))"
proof (cases "reserve_searches v c 1 (Some t)")
  case (Pair q led1)
  from reserve_searches_books [OF Pair zero_less_one] show ?thesis
  proof (elim disjE exE conjE)
    fix e t' assume "q = Inl e" "led1 = Some t'"
    with assms Pair show ?thesis by (auto simp: search_def)
  next
    assume q: "q = Inr (Some (search_seq t + 1))" and "led1 = Some (t\<lparr>search_seq := search_seq t + 1,
       reserved_search_invocations := reserved_search_invocations t + 1,
       open_search_reservations := open_search_reservations t @ [(search_seq t + 1, 1)]\<rparr>)"
    then have led1: "led1 = Some (reserved_one t)" by (simp add: reserved_one_def)
    show ?thesis
      using assms unfolding search_def Pair q led1
      by (auto simp: meanwhile_def settle_searches_some split: option.splits prod.splits sum.splits)
  qed
qed

lemma kept: "keeps_reservation c others t \<Longrightarrow>
    map_of (open_search_reservations (perform_all c others (reserved_one t))) (search_seq t + 1) = Some 1"
  by (simp add: keeps_reservation_def reserved_one_def Let_def)

lemma charge_one [simp]: "search_charge (Some 1) h = 1" "search_charge (Some 0) h = 0"
  by (simp_all add: search_charge_def)

text \<open>Everything a search does to the ledger is a run of the ledger's own operations.\<close>

definition search_ops :: "env \<Rightarrow> int \<Rightarrow> (env \<times> budget_op) list \<Rightarrow> int \<Rightarrow> (env \<times> budget_op) list" where
  "search_ops v n others seq = [(v, Reserve_search 1)] @ others @ [(v, Settle_search seq (Some n) None (n = 1))]"

lemma perform_all_append: "perform_all c (xs @ ys) t = perform_all c ys (perform_all c xs t)"
  by (induction xs arbitrary: t) auto

lemma each_op_append: "each_op P c (xs @ ys) t = (each_op P c xs t \<and> each_op P c ys (perform_all c xs t))"
  by (induction xs arbitrary: t) auto

lemma reserve_one_performed:
  assumes "reserve_searches v c 1 (Some t) = (q, Some t')"
  shows "perform v c (Reserve_search 1) t = t'"
  using assms by (auto simp: reserve_searches_def split: prod.splits sum.splits)

lemma search_performed:
  assumes "search v c sv p mw others (Some t) s = Some (r, led', s')"
  shows "led' = Some (perform_all c [(v, Reserve_search 1)] t) \<or>
    (\<exists>n \<in> {0, 1}. perform v c (Reserve_search 1) t = reserved_one t \<and>
       led' = Some (perform_all c (search_ops v n others (search_seq t + 1)) t))"
  using search_ends [OF assms]
proof (elim disjE exE conjE)
  fix e t' assume "reserve_searches v c 1 (Some t) = (Inl e, Some t')" "led' = Some t'"
  then show ?thesis using reserve_one_performed by (intro disjI1) (simp del: perform.simps)
next
  fix n assume n: "n = (case admit_search sv p mw s of Some (Inr w, _) \<Rightarrow> 1 | _ \<Rightarrow> (0::int))"
    and r: "reserve_searches v c 1 (Some t) = (Inr (Some (search_seq t + 1)), Some (reserved_one t))"
    and led': "led' = Some (snd (settle_search v c (search_seq t + 1) (Some n) None (n = 1) (perform_all c others (reserved_one t))))"
  have "n \<in> {0, 1}" using n by (auto split: option.split prod.split sum.split)
  moreover have "perform v c (Reserve_search 1) t = reserved_one t" by (rule reserve_one_performed [OF r])
  ultimately show ?thesis
    unfolding led' by (intro disjI2 bexI [of _ n]) (simp_all add: search_ops_def perform_all_append del: perform.simps(7))
qed

lemma run_search_calls:
  assumes "run_search v c sv transport query p mw others led s = Some (r, led', s', calls)"
  shows "(calls = [] \<and> (\<exists>e. r = Inl e) \<and> (led' = led \<or> (\<exists>e. search v c sv p mw others led s = Some (Inl e, led', s')))) \<or>
    (\<exists>q w. calls = [(q, p)] \<and> normalize_query query = Inr q \<and>
       search v c sv p mw others led s = Some (Inr w, led', s'))"
  using assms
  by (auto simp: run_search_def split: sum.splits option.splits prod.splits if_splits)

section \<open>What the adapter promises\<close>

text \<open>A provider attempt gives its search reservation back on every way out and charges exactly what
  ran: nothing if the request was never sent, the counted searches if the answer can be read, and the
  whole reservation whenever the number is unknown.\<close>

theorem attempt_charges_what_ran:
  assumes "accounting_ok t" "0 \<le> search_cost_per_invocation c" "keeps_searches client"
    and "reserve_searches v c (max_builtin_searches c (Some t)) (Some t) = (Inr res, led1)"
    and "client led1 = (reply, Some t2)"
    and "chat_attempt v c heap choices_of True client (Some t) = (r, Some t')"
  shows "open_search_reservations t' = open_search_reservations t \<and>
    count t' Search_invocations = count t2 Search_invocations +
      (case searches_spent c heap choices_of reply of
         None \<Rightarrow> max_builtin_searches c (Some t)
       | Some n \<Rightarrow> max 0 n)"
  using attempt_books [OF assms(1-4), of heap choices_of] assms(5,6) by (auto simp: search_charge_def)

definition lost_client :: "ledger \<Rightarrow> (nat + unit) \<times> ledger" where
  "lost_client led = (Inl 0, led)"

lemma attempt_charges_what_ran_witness:
  "\<exists>t'. snd (chat_attempt example_env (example_config\<lparr>max_builtin_searches_per_request := 4\<rparr>) [(0, dropped_exn)]
      (\<lambda>u. Absent) True lost_client (Some (fresh_tracker 0))) = Some t' \<and> count t' Search_invocations = 4"
proof -
  let ?c = "example_config\<lparr>max_builtin_searches_per_request := 4\<rparr>" and ?t = "fresh_tracker 0"
  let ?t1 = "?t\<lparr>search_seq := 1, reserved_search_invocations := 4, open_search_reservations := [(1, 4)]\<rparr>"
  have res: "reserve_searches example_env ?c (max_builtin_searches ?c (Some ?t)) (Some ?t) = (Inr (Some 1), Some ?t1)"
    by (simp add: reserve_searches_def max_builtin_searches_def reserve_search_def fresh_tracker_def
        example_config_def Let_def)
  obtain r led where run: "chat_attempt example_env ?c [(0, dropped_exn)] (\<lambda>u. Absent) True lost_client (Some ?t) = (r, led)"
    by fastforce
  have keeps: "keeps_searches lost_client" by (simp add: keeps_searches_def lost_client_def)
  have cost: "0 \<le> search_cost_per_invocation ?c" by (simp add: example_config_def)
  from attempt_books [OF fresh_accounting cost keeps res, of "[(0, dropped_exn)]" "\<lambda>u. Absent"] run
  obtain t' where t': "led = Some t'" by auto
  have "lost_client (Some ?t1) = (Inl 0, Some ?t1)" by (simp add: lost_client_def)
  from attempt_charges_what_ran [OF fresh_accounting cost keeps res this run [unfolded t']]
  have "count t' Search_invocations = 4"
    by (simp add: searches_spent_def searches_after_failure_def dropped_facts fresh_tracker_def
        max_builtin_searches_def)
  with run t' show ?thesis by auto
qed

text \<open>Accounting never changes what is known about the request: when an attempt raises, the permit is
  returned exactly as the provider's own outcome decides -- proven if nothing was sent or an answer was
  read, and by the client's exception otherwise -- even if the settlement itself refuses.\<close>

theorem accounting_keeps_the_verdict:
  assumes "(if searching then reserve_searches v c (max_builtin_searches c led) led else (Inr None, led)) = (r0, led1)"
    and "fst (chat_attempt v c heap choices_of searching client led) = Inl f"
  shows "attempt_proven heap f =
    (case r0 of
       Inl e \<Rightarrow> True
     | Inr res \<Rightarrow> (case fst (client led1) of
                     Inl i \<Rightarrow> completion_proven (classify_outcome heap (Some i))
                   | Inr r \<Rightarrow> True))"
  using assms unfolding chat_attempt_def
  by (auto simp: attempt_proven_simps split: sum.splits prod.splits)

lemma accounting_keeps_the_verdict_witness:
  "\<exists>f. fst (chat_attempt example_env example_config [(0, dropped_exn)] (\<lambda>u. Absent) False lost_client
       (Some (fresh_tracker 0))) = Inl f \<and> \<not> attempt_proven [(0, dropped_exn)] f"
proof -
  have run: "fst (chat_attempt example_env example_config [(0, dropped_exn)] (\<lambda>u. Absent) False lost_client
       (Some (fresh_tracker 0))) = Inl (Client_failed 0)"
    by (simp add: chat_attempt_def lost_client_def settle_searches_def)
  have "attempt_proven [(0, dropped_exn)] (Client_failed 0) =
      completion_proven (classify_outcome [(0, dropped_exn)] (Some 0))"
    using accounting_keeps_the_verdict [of False example_env example_config _ "Inr None" "Some (fresh_tracker 0)", OF _ run]
    by (simp add: lost_client_def)
  with run dropped_unproven show ?thesis by auto
qed

lemma charged_search:
  assumes "search v c sv p mw others (Some t) s = Some (Inr w, led', s')"
    and "keeps_reservation c others t" "0 \<le> search_cost_per_invocation c"
  shows "\<exists>t'. led' = Some t' \<and> admit_search sv p mw s = Some (Inr w, s') \<and>
    count t' Search_invocations = count (perform_all c others (reserved_one t)) Search_invocations + 1"
  using search_ends [OF assms(1)]
proof (elim disjE exE conjE)
  fix n assume led': "led' = Some (snd (settle_search v c (search_seq t + 1) (Some n) None (n = 1) (perform_all c others (reserved_one t))))"
    and r: "\<forall>w'. Inr w = Inr w' \<longrightarrow> n = 1 \<and> admit_search sv p mw s = Some (Inr w', s') \<and>
          fst (settle_search v c (search_seq t + 1) (Some n) None True (perform_all c others (reserved_one t))) = Inr ()"
  from r have n: "n = 1" and adm: "admit_search sv p mw s = Some (Inr w, s')"
    and ok: "fst (settle_search v c (search_seq t + 1) (Some 1) None True (perform_all c others (reserved_one t))) = Inr ()"
    by auto
  note one = kept [OF assms(2)]
  have "\<not> search_refused c (Some 1) True 1 (perform_all c others (reserved_one t))"
    by (rule settle_ok_not_refused [OF _ one assms(3)]) (use ok in \<open>auto simp: prod_eq_iff\<close>)
  with settle_held_books(2) [OF assms(3) one, of v "Some 1" True] adm led' n show ?thesis by auto
qed simp


definition example_transport :: executor where
  "example_transport = \<lparr>ready = True, perform_search = (\<lambda>q p. Raises ''Timeout'')\<rparr>"

definition example_search ::
  "((run_search_error + search_outcome) \<times> ledger \<times> redis sched \<times> (string \<times> search_endpoint) list) option" where
  "example_search = run_search example_env example_config (example_surroundings\<lparr>coordinator := None\<rparr>)
     (Some example_transport) (VText ''price'') SEARCH_BASIC None [] (Some (fresh_tracker 0)) example_sched"

lemma example_searched:
  "\<exists>r led'. example_search = Some (r, led', example_sched, [(''price'', SEARCH_BASIC)])"
  by (simp add: example_search_def run_search_def normalize_query_def normalize_spaces_def py_strip_def
      is_space_def MAX_QUERY_CHARS_def example_transport_def search_def reserve_searches_def reserve_search_def
      fresh_tracker_def example_config_def admit_search_def meanwhile_def settle_searches_def settle_search_def
      record_usage_def example_env_def Let_def above_def
      add_search_def add_count_def add_amount_def release_search_def log_effect_def)


text \<open>Mediated searches never pass the search ceiling, whatever the provider and the transport do: from a
  ledger within \<open>max_search_invocations_per_run\<close>, a search -- refused, paced out or performed, and
  interleaved with operations of other threads that keep to their reservations -- leaves a ledger
  whose performed and reserved searches are within it.\<close>

theorem mediated_searches_keep_the_ceiling:
  assumes "run_search v c sv transport query p mw others (Some t) s = Some (r, Some t', s', calls)"
    and "keeps_reservation c others t"
    and "each_op well_formed_op c others (reserved_one t)" "each_op searches_kept c others (reserved_one t)"
    and "accounting_ok t" "max_search_invocations_per_run c = Some l" "searches_committed t \<le> l"
  shows "accounting_ok t' \<and> searches_committed t' \<le> l"
proof (cases "Some t' = Some t")
  case True
  with assms show ?thesis by simp
next
  case False
  from run_search_calls [OF assms(1)] False obtain x where
    ran: "search v c sv p mw others (Some t) s = Some (x, Some t', s')" by auto
  obtain ops where ops: "t' = perform_all c ops t" "each_op well_formed_op c ops t" "each_op searches_kept c ops t"
    using search_performed [OF ran]
  proof (elim disjE bexE conjE)
    assume "Some t' = Some (perform_all c [(v, Reserve_search 1)] t)"
    then show thesis by (intro that [of "[(v, Reserve_search 1)]"]) simp_all
  next
    fix n assume n: "n \<in> {0, 1::int}" and r: "perform v c (Reserve_search 1) t = reserved_one t"
      and t': "Some t' = Some (perform_all c (search_ops v n others (search_seq t + 1)) t)"
    show thesis
      by (rule that [of "search_ops v n others (search_seq t + 1)"])
         (use t' r n assms(3,4) kept [OF assms(2)] in \<open>auto simp: search_ops_def each_op_append simp del: perform.simps(7)\<close>)
  qed
  have "fits (max_search_invocations_per_run c) (searches_committed (perform_all c ops t))"
    by (rule run_ceiling [where P = searches_kept, OF searches_move _ assms(5) _ ops(2,3)])
       (use assms(6,7) in \<open>simp_all add: searches_committed_def\<close>)
  with run_accounting [OF assms(5) ops(2)] assms(6) ops(1) show ?thesis by simp
qed

lemma mediated_searches_keep_the_ceiling_witness:
  "\<exists>r t'. example_search = Some (r, Some t', example_sched, [(''price'', SEARCH_BASIC)]) \<and>
     searches_committed t' \<le> 60"
proof -
  obtain r led' where run: "example_search = Some (r, led', example_sched, [(''price'', SEARCH_BASIC)])"
    using example_searched by blast
  then obtain t' where t': "led' = Some t'"
    using run_search_calls [OF run [unfolded example_search_def]] search_performed by blast
  have "accounting_ok t' \<and> searches_committed t' \<le> 60"
    by (rule mediated_searches_keep_the_ceiling [OF run [unfolded example_search_def t']])
       (simp_all add: keeps_reservation_def fresh_accounting example_config_def searches_committed_def,
         simp_all add: fresh_tracker_def)
  with run t' show ?thesis by auto
qed

text \<open>The shipped transport turns every exception of its request into its own, also the stop of the run and
  a cancellation, so the adapter's rule that those end the run never applies to it.\<close>

lemma shipped_transport_hides_stops: "perform_search (moonshot_executor env tr http) q p \<noteq> Run_stop i"
  by (simp add: moonshot_executor_def split: sum.split)

end
