(* ===== verification/Tool_Calls.thy ===== *)
theory Tool_Calls
  imports Provider_Outcome
begin

text \<open>
  \<open>engines/swarm_v2/tool_calls.py\<close>: the bounded material of an exactly planned tool call.  Values are
  the JSON documents of \<open>Provider_Outcome\<close> (keys and text as code points); a value that is none of
  JSON's kinds is \<open>JOther\<close>.
\<close>

section \<open>Bounds\<close>

definition MAX_TOOL_CALLS_PER_TASK :: int where "MAX_TOOL_CALLS_PER_TASK = 4"
definition MAX_BINDING_PATH_SEGMENTS :: nat where "MAX_BINDING_PATH_SEGMENTS = 6"
definition MAX_BINDING_PATH_SEGMENT_CHARS :: nat where "MAX_BINDING_PATH_SEGMENT_CHARS = 64"
definition MAX_BINDING_ARRAY_INDEX :: int where "MAX_BINDING_ARRAY_INDEX = 999"
definition MAX_TOOL_ARGUMENT_KEYS :: nat where "MAX_TOOL_ARGUMENT_KEYS = 32"
definition MAX_TOOL_INPUT_JSON_BYTES :: nat where "MAX_TOOL_INPUT_JSON_BYTES = 4096"
definition MAX_TOOL_VALUE_DEPTH :: nat where "MAX_TOOL_VALUE_DEPTH = 8"
definition MAX_TOOL_COLLECTION_ITEMS :: nat where "MAX_TOOL_COLLECTION_ITEMS = 200"

datatype tool_reason =
    DUPLICATE_TOOL_CALL_ID
  | TOOL_ARGUMENTS_INVALID
  | TOOL_ARGUMENTS_TOO_LARGE
  | TOOL_BINDING_CONFLICT
  | TOOL_BINDING_DUPLICATE
  | TOOL_BINDING_PATH_INVALID
  | TOOL_BINDING_UNKNOWN_DEPENDENCY
  | TOOL_BINDING_UNRESOLVED

section \<open>Planned calls\<close>

datatype segment = SKey "nat list" | SIndex int | SBool bool

record binding =
  argument :: "nat list"
  source_task :: string
  path :: "segment list"

record tool_call =
  call_id :: string
  tool_name_of :: string
  operation_name :: string
  literals :: "(nat list \<times> json) list"
  dependency_bindings :: "binding list"

section \<open>Shape and size\<close>

text \<open>\<open>check_shape\<close>: False where the code raises.\<close>

fun check_shape :: "nat \<Rightarrow> json \<Rightarrow> bool" where
  "check_shape depth (JObj kvs) =
     (depth \<le> MAX_TOOL_VALUE_DEPTH \<and> length kvs \<le> MAX_TOOL_COLLECTION_ITEMS \<and>
      list_all (\<lambda>(k, v). check_shape (Suc depth) v) kvs)"
| "check_shape depth (JArr xs) =
     (depth \<le> MAX_TOOL_VALUE_DEPTH \<and> length xs \<le> MAX_TOOL_COLLECTION_ITEMS \<and>
      list_all (check_shape (Suc depth)) xs)"
| "check_shape depth JOther = False"
| "check_shape depth j = (depth \<le> MAX_TOOL_VALUE_DEPTH)"

text \<open>\<open>canonical_json\<close> writes ASCII only: a character outside is an escape of six bytes, or two of them.\<close>

definition ascii_bytes :: "nat \<Rightarrow> nat" where
  "ascii_bytes c =
     (if c \<in> {8, 9, 10, 12, 13, 34, 92} then 2
      else if 32 \<le> c \<and> c \<le> 126 then 1
      else if c < 65536 then 6 else 12)"

definition ascii_string :: "nat list \<Rightarrow> nat" where
  "ascii_string s = sum_list (map ascii_bytes s) + 2"

text \<open>The length of the text: brackets, a comma between elements, a colon per pair.  The order of the
  keys does not matter for it.\<close>

fun canonical_size :: "json \<Rightarrow> nat" where
  "canonical_size JNull = 4"
| "canonical_size (JBool b) = (if b then 4 else 5)"
| "canonical_size (JInt k) = int_bytes k"
| "canonical_size (JFloat r) = length r"
| "canonical_size (JStr s) = ascii_string s"
| "canonical_size (JArr xs) = sum_list (map canonical_size xs) + 2 + (length xs - 1)"
| "canonical_size (JObj kvs) =
     sum_list (map (\<lambda>(k, v). ascii_string k + 1 + canonical_size v) kvs) + 2 + (length kvs - 1)"
| "canonical_size JOther = 0"

definition check_size :: "json \<Rightarrow> nat \<Rightarrow> bool" where
  "check_size j limit = (serializable j \<and> canonical_size j \<le> limit)"

definition check_material :: "json \<Rightarrow> nat \<Rightarrow> bool" where
  "check_material j limit = (check_shape 0 j \<and> check_size j limit)"

section \<open>Paths\<close>

definition path_first :: "nat \<Rightarrow> bool" where
  "path_first c = ((48 \<le> c \<and> c \<le> 57) \<or> (65 \<le> c \<and> c \<le> 90) \<or> (97 \<le> c \<and> c \<le> 122) \<or> c = 95)"

definition path_rest :: "nat \<Rightarrow> bool" where
  "path_rest c = (path_first c \<or> c = 45 \<or> c = 46)"

text \<open>\<open>^[A-Za-z0-9_][A-Za-z0-9_.-]{0,63}$\<close> with \<open>fullmatch\<close>.\<close>

definition PATH_SEGMENT_PATTERN :: "nat list \<Rightarrow> bool" where
  "PATH_SEGMENT_PATTERN s =
     (case s of [] \<Rightarrow> False | c # cs \<Rightarrow> path_first c \<and> length cs \<le> 63 \<and> list_all path_rest cs)"

definition segment_ok :: "segment \<Rightarrow> bool" where
  "segment_ok g = (case g of
       SBool b \<Rightarrow> False
     | SIndex n \<Rightarrow> 0 \<le> n \<and> n \<le> MAX_BINDING_ARRAY_INDEX
     | SKey s \<Rightarrow> length s \<le> MAX_BINDING_PATH_SEGMENT_CHARS \<and> PATH_SEGMENT_PATTERN s)"

definition validate_binding_path :: "segment list \<Rightarrow> bool" where
  "validate_binding_path p =
     (p \<noteq> [] \<and> length p \<le> MAX_BINDING_PATH_SEGMENTS \<and> list_all segment_ok p)"

fun read_path :: "json \<Rightarrow> segment list \<Rightarrow> json option" where
  "read_path doc [] = Some doc"
| "read_path doc (g # gs) =
     (case (g, doc) of
        (SIndex n, JArr xs) \<Rightarrow>
          if 0 \<le> n \<and> n < int (length xs) then read_path (xs ! nat n) gs else None
      | (SKey s, JObj kvs) \<Rightarrow>
          (case map_of kvs s of None \<Rightarrow> None | Some v \<Rightarrow> read_path v gs)
      | _ \<Rightarrow> None)"

section \<open>The final payload of a call\<close>

fun bind_arguments ::
  "(string \<Rightarrow> json option) \<Rightarrow> binding list \<Rightarrow> (nat list \<times> json) list \<Rightarrow> tool_reason + (nat list \<times> json) list" where
  "bind_arguments deps [] args = Inr args"
| "bind_arguments deps (b # bs) args =
     (if argument b \<in> keys args then Inl TOOL_BINDING_CONFLICT
      else (case deps (source_task b) of
              None \<Rightarrow> Inl TOOL_BINDING_UNKNOWN_DEPENDENCY
            | Some output \<Rightarrow>
                if \<not> validate_binding_path (path b) then Inl TOOL_BINDING_PATH_INVALID
                else (case read_path output (path b) of
                        None \<Rightarrow> Inl TOOL_BINDING_UNRESOLVED
                      | Some value \<Rightarrow>
                          if \<not> check_material value MAX_TOOL_INPUT_JSON_BYTES then Inl TOOL_ARGUMENTS_TOO_LARGE
                          else bind_arguments deps bs (args @ [(argument b, value)]))))"

definition resolve_tool_arguments ::
  "tool_call \<Rightarrow> (string \<Rightarrow> json option) \<Rightarrow> tool_reason + (nat list \<times> json) list" where
  "resolve_tool_arguments call deps =
     res_bind (bind_arguments deps (dependency_bindings call) (literals call)) (\<lambda>args.
       if check_material (JObj args) MAX_TOOL_INPUT_JSON_BYTES then Inr args
       else Inl TOOL_ARGUMENTS_TOO_LARGE)"

section \<open>What a payload is made of\<close>

lemma keys_snoc [simp]: "keys (d @ [(k, v)]) = insert k (keys d)"
  by auto

lemma bind_arguments_appends:
  assumes "bind_arguments deps bs args = Inr out"
  shows "\<exists>vs. out = args @ zip (map argument bs) vs \<and> length vs = length bs \<and>
    list_all2 (\<lambda>b v. \<exists>o1. deps (source_task b) = Some o1 \<and> read_path o1 (path b) = Some v \<and>
       validate_binding_path (path b) \<and> check_material v MAX_TOOL_INPUT_JSON_BYTES) bs vs \<and>
    (distinct (map fst args) \<longrightarrow> distinct (map fst out))"
  using assms
proof (induction bs arbitrary: args)
  case (Cons b bs)
  from Cons.prems obtain o1 v where b: "argument b \<notin> keys args" "deps (source_task b) = Some o1"
    "validate_binding_path (path b)" "read_path o1 (path b) = Some v"
    "check_material v MAX_TOOL_INPUT_JSON_BYTES"
    and rest: "bind_arguments deps bs (args @ [(argument b, v)]) = Inr out"
    by (auto split: if_splits option.splits)
  from Cons.IH [OF rest] obtain vs where vs: "out = (args @ [(argument b, v)]) @ zip (map argument bs) vs"
    "length vs = length bs"
    "list_all2 (\<lambda>b v. \<exists>o1. deps (source_task b) = Some o1 \<and> read_path o1 (path b) = Some v \<and>
       validate_binding_path (path b) \<and> check_material v MAX_TOOL_INPUT_JSON_BYTES) bs vs"
    "distinct (map fst (args @ [(argument b, v)])) \<longrightarrow> distinct (map fst out)" by blast
  then show ?case using b by (intro exI [of _ "v # vs"]) auto
qed simp

lemma zip_keys: "length vs = length ks \<Longrightarrow> keys (zip ks vs) = set ks"
  by (metis list.set_map map_fst_zip)

text \<open>A tool receives exactly the approved arguments: a resolved payload keeps every literal of the plan
  unchanged, adds for each binding the value at the binding's literal path in the output of the named
  dependency, holds nothing else, and is within the size and depth bounds.\<close>

theorem resolved_payload_is_the_plan:
  assumes "resolve_tool_arguments call deps = Inr args" and "distinct (map fst (literals call))"
  shows "(\<forall>k \<in> keys (literals call). map_of args k = map_of (literals call) k) \<and>
    (\<forall>b \<in> set (dependency_bindings call). \<exists>o1 v. deps (source_task b) = Some o1 \<and>
       read_path o1 (path b) = Some v \<and> map_of args (argument b) = Some v) \<and>
    keys args = keys (literals call) \<union> argument ` set (dependency_bindings call) \<and>
    check_material (JObj args) MAX_TOOL_INPUT_JSON_BYTES"
proof -
  let ?bs = "dependency_bindings call" and ?ls = "literals call"
  from assms(1) have bound: "bind_arguments deps ?bs ?ls = Inr args"
    and fit: "check_material (JObj args) MAX_TOOL_INPUT_JSON_BYTES"
    by (auto simp: resolve_tool_arguments_def res_bind_Inr split: if_splits)
  from bind_arguments_appends [OF bound] obtain vs where vs: "args = ?ls @ zip (map argument ?bs) vs"
    "length vs = length ?bs" and all: "list_all2 (\<lambda>b v. \<exists>o1. deps (source_task b) = Some o1 \<and>
       read_path o1 (path b) = Some v \<and> validate_binding_path (path b) \<and>
       check_material v MAX_TOOL_INPUT_JSON_BYTES) ?bs vs"
    and dist: "distinct (map fst args)" using assms(2) by blast
  have literal: "map_of args k = map_of ?ls k" if "k \<in> keys ?ls" for k
  proof -
    from that obtain v where v: "map_of ?ls k = Some v" by (metis weak_map_of_SomeI imageE prod.collapse)
    then have "(k, v) \<in> set args" using vs(1) by (auto dest: map_of_SomeD)
    with v dist show ?thesis by simp
  qed
  have bindings: "\<exists>o1 v. deps (source_task b) = Some o1 \<and> read_path o1 (path b) = Some v \<and>
      map_of args (argument b) = Some v" if "b \<in> set ?bs" for b
  proof -
    from that obtain i where i: "i < length ?bs" "b = ?bs ! i" by (metis in_set_conv_nth)
    with all obtain o1 where o1: "deps (source_task b) = Some o1" "read_path o1 (path b) = Some (vs ! i)"
      by (auto simp: list_all2_conv_all_nth)
    have "(argument b, vs ! i) \<in> set (zip (map argument ?bs) vs)"
      using i vs(2) by (auto simp: in_set_conv_nth intro!: exI [of _ i])
    then have "(argument b, vs ! i) \<in> set args" using vs(1) by simp
    with dist o1 show ?thesis by (auto dest: map_of_is_SomeI)
  qed
  have "keys args = keys ?ls \<union> argument ` set ?bs"
    using zip_keys [of vs "map argument ?bs"] vs by (auto simp: image_Un)
  with literal bindings fit show ?thesis by blast
qed

definition example_call :: tool_call where
  "example_call = \<lparr>call_id = ''c1'', tool_name_of = ''catalog'', operation_name = ''resolve_variant'',
     literals = [([109], JInt 1)],
     dependency_bindings = [\<lparr>argument = [121], source_task = ''t1'', path = [SKey [120], SIndex 0]\<rparr>]\<rparr>"

definition example_outputs :: "string \<Rightarrow> json option" where
  "example_outputs = [''t1'' \<mapsto> JObj [([120], JArr [JInt 7])]]"

lemma example_resolved:
  "resolve_tool_arguments example_call example_outputs = Inr [([109], JInt 1), ([121], JInt 7)]"
  by (simp add: resolve_tool_arguments_def example_call_def example_outputs_def validate_binding_path_def
      segment_ok_def PATH_SEGMENT_PATTERN_def path_first_def check_material_def check_size_def
      int_bytes_def nat_digits.simps ascii_string_def ascii_bytes_def MAX_BINDING_PATH_SEGMENTS_def
      MAX_BINDING_ARRAY_INDEX_def MAX_BINDING_PATH_SEGMENT_CHARS_def MAX_TOOL_VALUE_DEPTH_def
      MAX_TOOL_COLLECTION_ITEMS_def MAX_TOOL_INPUT_JSON_BYTES_def)

lemma resolved_payload_is_the_plan_witness:
  "map_of [([109], JInt 1), ([121], JInt 7)] [109] = Some (JInt 1)"
  using resolved_payload_is_the_plan [OF example_resolved] by (simp add: example_call_def)

end
