(* ===== verification/Swarm_Plan.thy ===== *)
theory Swarm_Plan
  imports Tool_Calls "HOL-Library.List_Lexorder"
begin

text \<open>
  The Swarm's plans: the contracts of \<open>engines/swarm_v2/contracts.py\<close> the firewall reads, the limits
  derived from the run's envelope (\<open>validation.py\<close>, \<open>feasibility.py\<close>), and \<open>PlanValidator\<close>, the
  deterministic firewall between the Commander's JSON and execution.

  Decoding JSON and the field-level checks of pydantic are not modelled; a plan is the decoded record.
  Of an output schema the plan keeps its canonical text, its \<open>required\<close> and \<open>properties\<close> names and
  whether the runtime validator supports it.  The registry of tools and the server's call rules are
  arguments: an operation is its input schema's names, its check of one literal against its
  sub-schema, and what it states about evidence.
\<close>

section \<open>Contracts\<close>

record task =
  task_id :: string
  goal :: string
  scope :: string
  dependencies :: "string list"
  tools :: "tool_call list"
  schema_text :: string
  schema_valid :: bool
  schema_required :: "string list"
  schema_properties :: "string list"
  minimum_sources :: int
  required_fields :: "string list"
  priority :: int
  recursion_depth :: int
  cost_units :: int
  required_outputs :: "string list"
  evidence_satisfied :: bool

record assignment =
  assigned :: string
  context_task_ids :: "string list"

record plan =
  graph_tasks :: "task list"
  assignments :: "assignment list"
  plan_replans :: int
  plan_cost :: int

text \<open>\<open>CommanderPlan.assignment_identity\<close>.\<close>

definition assignment_identity :: "plan \<Rightarrow> bool" where
  "assignment_identity p =
     (let ids = map task_id (graph_tasks p); got = map assigned (assignments p) in
      distinct ids \<and> distinct got \<and> set got = set ids \<and>
      list_all (\<lambda>a. set (context_task_ids a) \<subseteq> set ids) (assignments p))"

section \<open>Feasibility\<close>

definition MAX_WORKER_OUTPUT_MODEL_ATTEMPTS :: int where "MAX_WORKER_OUTPUT_MODEL_ATTEMPTS = 2"
definition MIN_CORRECTION_MODEL_CALLS :: int where "MIN_CORRECTION_MODEL_CALLS = 3"
definition MAX_CORRECTION_ROUNDS :: int where "MAX_CORRECTION_ROUNDS = 1"
definition MAX_COMMANDER_PLAN_REPAIRS :: int where "MAX_COMMANDER_PLAN_REPAIRS = 1"
definition MIN_VERIFIER_BATCHES :: int where "MIN_VERIFIER_BATCHES = 1"
definition MINIMUM_VIABLE_MODEL_CALLS :: int where "MINIMUM_VIABLE_MODEL_CALLS = 4"

record worst_case =
  model_calls :: int
  agent_steps :: int
  retries :: int
  provider_attempts :: int

definition plan_worst_case :: "int \<Rightarrow> int \<Rightarrow> int \<Rightarrow> int \<Rightarrow> worst_case" where
  "plan_worst_case pending_tasks replan_bound rate_limit_retries verifier_batches =
     (let pending = max 0 pending_tasks; replans = max 0 replan_bound;
          batches = max MIN_VERIFIER_BATCHES verifier_batches;
          worker_repairs = pending * (MAX_WORKER_OUTPUT_MODEL_ATTEMPTS - 1);
          calls = pending + worker_repairs + (replans + 1) + batches
                    + MIN_CORRECTION_MODEL_CALLS * MAX_CORRECTION_ROUNDS + MAX_COMMANDER_PLAN_REPAIRS
      in \<lparr>model_calls = calls, agent_steps = calls,
          retries = worker_repairs + MAX_COMMANDER_PLAN_REPAIRS,
          provider_attempts = calls * (1 + max 0 rate_limit_retries)\<rparr>)"

definition envelope_supports_a_run :: "int \<Rightarrow> int \<Rightarrow> int \<Rightarrow> bool" where
  "envelope_supports_a_run calls steps task_room =
     (MINIMUM_VIABLE_MODEL_CALLS \<le> calls \<and> MINIMUM_VIABLE_MODEL_CALLS \<le> steps \<and> 1 \<le> task_room)"

section \<open>Limits\<close>

record plan_limits =
  max_tasks :: int
  max_graph_depth :: int
  max_recursion_depth :: int
  max_replans :: int
  max_cost_units :: int
  max_tool_calls_per_task :: int
  max_tool_calls :: int

definition default_plan_limits :: plan_limits where
  "default_plan_limits = \<lparr>max_tasks = 64, max_graph_depth = 12, max_recursion_depth = 4, max_replans = 3,
     max_cost_units = 100000, max_tool_calls_per_task = MAX_TOOL_CALLS_PER_TASK, max_tool_calls = 100\<rparr>"

definition narrow :: "int \<Rightarrow> int option \<Rightarrow> int" where
  "narrow current requested = (case requested of None \<Rightarrow> current | Some r \<Rightarrow> min current r)"

text \<open>The largest plan whose worst case the budget pays for, floored at one task.\<close>

function shrink_tasks :: "int \<Rightarrow> int \<Rightarrow> int \<Rightarrow> int" where
  "shrink_tasks budget replan_bound n =
     (if n \<le> 1 then n
      else (let w = plan_worst_case n replan_bound 0 MIN_VERIFIER_BATCHES in
            if max (agent_steps w) (model_calls w) \<le> budget then n
            else shrink_tasks budget replan_bound (n - 1)))"
  by pat_completeness auto
termination by (relation "measure (\<lambda>(b, r, n). nat n)") auto

declare shrink_tasks.simps [simp del]

record envelope =
  e_agent_steps :: "int option"
  e_model_calls :: "int option"
  e_tool_calls :: "int option"
  e_tasks :: "int option"
  e_replans :: "int option"
  e_tool_calls_per_task :: "int option"
  e_graph_depth :: "int option"
  e_recursion_depth :: "int option"
  e_cost_units :: "int option"

definition shrink_for :: "int option \<Rightarrow> int \<Rightarrow> int \<Rightarrow> int" where
  "shrink_for budget replan_bound n =
     (case budget of None \<Rightarrow> n | Some b \<Rightarrow> shrink_tasks b replan_bound n)"

text \<open>None is the \<open>ValueError\<close> of \<open>__post_init__\<close> for a negative limit.\<close>

definition from_envelope :: "envelope \<Rightarrow> plan_limits \<Rightarrow> plan_limits option" where
  "from_envelope e reference =
     (let replans = narrow (max_replans reference) (e_replans e);
          l = \<lparr>max_tasks = shrink_for (e_model_calls e) replans
                  (shrink_for (e_agent_steps e) replans (narrow (max_tasks reference) (e_tasks e))),
               max_graph_depth = narrow (max_graph_depth reference) (e_graph_depth e),
               max_recursion_depth = narrow (max_recursion_depth reference) (e_recursion_depth e),
               max_replans = replans,
               max_cost_units = narrow (max_cost_units reference) (e_cost_units e),
               max_tool_calls_per_task = narrow (max_tool_calls_per_task reference) (e_tool_calls_per_task e),
               max_tool_calls = narrow (max_tool_calls reference) (e_tool_calls e)\<rparr>
      in if max_tasks l < 0 \<or> max_graph_depth l < 0 \<or> max_recursion_depth l < 0 \<or> max_replans l < 0
            \<or> max_cost_units l < 0 \<or> max_tool_calls_per_task l < 0 \<or> max_tool_calls l < 0
         then None else Some l)"

section \<open>One task\<close>

datatype plan_error =
    TASK_COUNT_LIMIT | REPLAN_LIMIT | COST_LIMIT | DUPLICATE_TASK_ID | DUPLICATE_TASK_SIGNATURE
  | RECURSION_LIMIT | EVIDENCE_COMPLETION_MISMATCH | OUTPUT_SCHEMA_NESTED_INVALID
  | REQUIRED_OUTPUT_NOT_IN_SCHEMA | TASK_TOOL_CALL_LIMIT | Call_reason tool_reason
  | TOOL_NOT_ALLOWLISTED | TOOL_OPERATION_UNKNOWN | Server_rule string
  | EVIDENCE_REQUIRES_EVIDENCE_TOOL | EVIDENCE_FIELD_NOT_PRODUCIBLE | AGGREGATE_TOOL_CALL_LIMIT
  | MISSING_DEPENDENCY | DEPENDENCY_CYCLE | GRAPH_DEPTH_LIMIT | ASSIGNMENT_CONTEXT_INCOMPLETE

record operation =
  op_properties :: "nat list list"
  op_required :: "nat list list"
  literal_fits :: "nat list \<Rightarrow> json \<Rightarrow> bool"
  produces_evidence :: "bool option"
  evidence_fields :: "string list option"

type_synonym registry = "string \<Rightarrow> (string \<Rightarrow> operation option) option"

text \<open>\<open>str.casefold\<close> for characters below 256.\<close>

definition casefold :: "string \<Rightarrow> string" where
  "casefold s = concat (map (\<lambda>c. if (of_char c :: nat) = 223 then ''ss'' else [lower_char c]) s)"

text \<open>Two documents have one canonical text exactly if they are equal up to the order of keys.\<close>

fun canonical :: "json \<Rightarrow> json" where
  "canonical (JArr xs) = JArr (map canonical xs)"
| "canonical (JObj kvs) = JObj (sort_key fst (map (\<lambda>(k, v). (k, canonical v)) kvs))"
| "canonical j = j"

type_synonym call_signature = "string \<times> string \<times> string \<times> json \<times> (nat list \<times> string \<times> segment list) list"

definition call_signature_of :: "tool_call \<Rightarrow> call_signature" where
  "call_signature_of c = (call_id c, tool_name_of c, operation_name c, canonical (JObj (literals c)),
     map (\<lambda>b. (argument b, source_task b, path b)) (dependency_bindings c))"

definition signature :: "task \<Rightarrow> string \<times> string \<times> call_signature list \<times> string" where
  "signature t = (normalize_spaces (casefold (goal t)), normalize_spaces (casefold (scope t)),
     map call_signature_of (tools t), schema_text t)"

fun check_bindings :: "task \<Rightarrow> tool_call \<Rightarrow> nat list set \<Rightarrow> binding list \<Rightarrow> tool_reason option" where
  "check_bindings t c bound [] = None"
| "check_bindings t c bound (b # bs) =
     (if argument b \<in> bound then Some TOOL_BINDING_DUPLICATE
      else if argument b \<in> keys (literals c) then Some TOOL_BINDING_CONFLICT
      else if source_task b \<notin> set (dependencies t) then Some TOOL_BINDING_UNKNOWN_DEPENDENCY
      else if \<not> validate_binding_path (path b) then Some TOOL_BINDING_PATH_INVALID
      else check_bindings t c (insert (argument b) bound) bs)"

definition validate_call_arguments :: "task \<Rightarrow> tool_call \<Rightarrow> operation \<Rightarrow> tool_reason option" where
  "validate_call_arguments t c oper =
     (if MAX_TOOL_ARGUMENT_KEYS < length (literals c) then Some TOOL_ARGUMENTS_TOO_LARGE
      else if \<not> check_material (JObj (literals c)) MAX_TOOL_INPUT_JSON_BYTES then Some TOOL_ARGUMENTS_TOO_LARGE
      else (case check_bindings t c {} (dependency_bindings c) of
              Some r \<Rightarrow> Some r
            | None \<Rightarrow>
                (let supplied = map fst (literals c) @ map argument (dependency_bindings c) in
                 if \<not> list_all (\<lambda>k. k \<in> set (op_properties oper)) supplied
                    \<or> \<not> list_all (\<lambda>k. k \<in> set supplied) (op_required oper)
                 then Some TOOL_ARGUMENTS_INVALID
                 else if \<not> list_all (\<lambda>(k, v). literal_fits oper k v) (literals c)
                 then Some TOOL_ARGUMENTS_INVALID
                 else None)))"

fun first_rule :: "(tool_call \<Rightarrow> string option) list \<Rightarrow> tool_call \<Rightarrow> string option" where
  "first_rule [] c = None"
| "first_rule (r # rs) c = (case r c of Some s \<Rightarrow> Some s | None \<Rightarrow> first_rule rs c)"

fun validate_tool_calls ::
  "registry \<Rightarrow> (tool_call \<Rightarrow> string option) list \<Rightarrow> task \<Rightarrow> string list \<Rightarrow> tool_call list \<Rightarrow> plan_error option" where
  "validate_tool_calls reg rules t seen [] = None"
| "validate_tool_calls reg rules t seen (c # cs) =
     (if call_id c \<in> set seen then Some (Call_reason DUPLICATE_TOOL_CALL_ID)
      else (case reg (tool_name_of c) of
              None \<Rightarrow> Some TOOL_NOT_ALLOWLISTED
            | Some operations \<Rightarrow>
                (case operations (operation_name c) of
                   None \<Rightarrow> Some TOOL_OPERATION_UNKNOWN
                 | Some oper \<Rightarrow>
                     (case validate_call_arguments t c oper of
                        Some r \<Rightarrow> Some (Call_reason r)
                      | None \<Rightarrow>
                          (case first_rule rules c of
                             Some s \<Rightarrow> Some (Server_rule s)
                           | None \<Rightarrow> validate_tool_calls reg rules t (call_id c # seen) cs)))))"

definition lookup_operation :: "registry \<Rightarrow> tool_call \<Rightarrow> operation option" where
  "lookup_operation reg c = Option.bind (reg (tool_name_of c)) (\<lambda>operations. operations (operation_name c))"

definition validate_evidence_tool :: "registry \<Rightarrow> task \<Rightarrow> plan_error option" where
  "validate_evidence_tool reg t =
     (if \<not> (0 < minimum_sources t \<or> required_fields t \<noteq> []) \<or> tools t = [] then None
      else if list_all (\<lambda>c. Option.bind (lookup_operation reg c) produces_evidence = Some False) (tools t)
      then Some EVIDENCE_REQUIRES_EVIDENCE_TOOL else None)"

text \<open>The fields the calls can evidence; None when some operation does not state them.\<close>

fun producible :: "registry \<Rightarrow> tool_call list \<Rightarrow> string list option" where
  "producible reg [] = Some []"
| "producible reg (c # cs) =
     (case lookup_operation reg c of
        None \<Rightarrow> None
      | Some oper \<Rightarrow>
          (case produces_evidence oper of
             None \<Rightarrow> None
           | Some False \<Rightarrow> producible reg cs
           | Some True \<Rightarrow>
               (case evidence_fields oper of
                  None \<Rightarrow> None
                | Some fs \<Rightarrow> map_option (\<lambda>gs. fs @ gs) (producible reg cs))))"

definition validate_evidence_fields :: "registry \<Rightarrow> task \<Rightarrow> plan_error option" where
  "validate_evidence_fields reg t =
     (if required_fields t = [] \<or> tools t = [] then None
      else (case producible reg (tools t) of
              None \<Rightarrow> None
            | Some fs \<Rightarrow>
                if fs \<noteq> [] \<and> \<not> list_all (\<lambda>f. f \<in> set fs) (required_fields t)
                then Some EVIDENCE_FIELD_NOT_PRODUCIBLE else None))"

definition validate_task ::
  "plan_limits \<Rightarrow> registry \<Rightarrow> (tool_call \<Rightarrow> string option) list \<Rightarrow> task \<Rightarrow> plan_error option" where
  "validate_task l reg rules t =
     (if max_recursion_depth l < recursion_depth t then Some RECURSION_LIMIT
      else if \<not> evidence_satisfied t \<and> (minimum_sources t \<noteq> 0 \<or> required_fields t \<noteq> [])
      then Some EVIDENCE_COMPLETION_MISMATCH
      else if \<not> schema_valid t then Some OUTPUT_SCHEMA_NESTED_INVALID
      else if list_ex (\<lambda>n. n \<notin> set (schema_required t) \<or> n \<notin> set (schema_properties t)) (required_outputs t)
      then Some REQUIRED_OUTPUT_NOT_IN_SCHEMA
      else if max_tool_calls_per_task l < int (length (tools t)) then Some TASK_TOOL_CALL_LIMIT
      else (case validate_tool_calls reg rules t [] (tools t) of
              Some e \<Rightarrow> Some e
            | None \<Rightarrow>
                (case validate_evidence_tool reg t of
                   Some e \<Rightarrow> Some e
                 | None \<Rightarrow> validate_evidence_fields reg t)))"

section \<open>The task graph\<close>

definition deps_of :: "task list \<Rightarrow> string \<Rightarrow> string list" where
  "deps_of ts t = (case find (\<lambda>k. task_id k = t) ts of None \<Rightarrow> [] | Some k \<Rightarrow> dependencies k)"

definition task_ids :: "task list \<Rightarrow> string list" where
  "task_ids ts = map task_id ts"

text \<open>The nested \<open>depth\<close> of \<open>_validate_plan\<close>: \<open>visiting\<close> is the recursion's path, \<open>memo\<close> the dictionary of
  depths; \<open>depths_of\<close> is the generator under \<open>max(..., default=0)\<close>.\<close>

lemma deps_of_unknown: "t \<notin> set (task_ids ts) \<Longrightarrow> deps_of ts t = []"
  by (auto simp: deps_of_def task_ids_def find_Some_iff split: option.split)

function depth_of :: "task list \<Rightarrow> string list \<Rightarrow> (string \<times> nat) list \<Rightarrow> string \<Rightarrow>
    plan_error + nat \<times> (string \<times> nat) list"
  and depths_of :: "task list \<Rightarrow> string list \<Rightarrow> (string \<times> nat) list \<Rightarrow> string list \<Rightarrow>
    plan_error + nat \<times> (string \<times> nat) list" where
  "depth_of ts visiting memo t =
     (if t \<in> set visiting then Inl DEPENDENCY_CYCLE
      else (case map_of memo t of
              Some d \<Rightarrow> Inr (d, memo)
            | None \<Rightarrow>
                (case depths_of ts (t # visiting) memo (deps_of ts t) of
                   Inl e \<Rightarrow> Inl e
                 | Inr (m, memo') \<Rightarrow> Inr (Suc m, (t, Suc m) # memo'))))"
| "depths_of ts visiting memo [] = Inr (0, memo)"
| "depths_of ts visiting memo (t # us) =
     (case depth_of ts visiting memo t of
        Inl e \<Rightarrow> Inl e
      | Inr (d, memo') \<Rightarrow>
          (case depths_of ts visiting memo' us of
             Inl e \<Rightarrow> Inl e
           | Inr (m, memo'') \<Rightarrow> Inr (max d m, memo'')))"
  by pat_completeness auto

definition unvisited :: "task list \<Rightarrow> string list \<Rightarrow> nat" where
  "unvisited ts visiting = card (set (task_ids ts) - set visiting)"

lemma unvisited_less: "t \<in> set (task_ids ts) \<Longrightarrow> t \<notin> set visiting \<Longrightarrow> unvisited ts (t # visiting) < unvisited ts visiting"
  unfolding unvisited_def by (rule psubset_card_mono) auto

lemma unvisited_le: "unvisited ts (t # visiting) \<le> unvisited ts visiting"
  unfolding unvisited_def by (rule card_mono) auto

definition pending_work :: "string list \<Rightarrow> nat" where
  "pending_work us = (if us = [] then 0 else Suc (length us))"

termination depth_of
proof (relation "measures [case_sum (\<lambda>(ts, visiting, memo, t). unvisited ts visiting)
      (\<lambda>(ts, visiting, memo, us). unvisited ts visiting),
    case_sum (\<lambda>(ts, visiting, memo, t). 1) (\<lambda>(ts, visiting, memo, us). pending_work us)]", goal_cases)
  case (2 ts visiting memo t)
  show ?case
  proof (cases "t \<in> set (task_ids ts)")
    case True
    with 2 show ?thesis by (simp add: unvisited_less)
  next
    case False
    then show ?thesis
      using unvisited_le [of ts t visiting] by (auto simp: deps_of_unknown pending_work_def)
  qed
qed (auto simp: pending_work_def)

declare depth_of.simps [simp del]

text \<open>\<open>_dependency_closure\<close>: \<open>pending.pop()\<close> takes the last element.\<close>

function dependency_closure :: "task list \<Rightarrow> string list \<Rightarrow> string list \<Rightarrow> string list" where
  "dependency_closure ts result pending =
     (if pending = [] then result
      else (let d = last pending; rest = butlast pending in
            if d \<in> set result then dependency_closure ts result rest
            else dependency_closure ts (d # result) (rest @ deps_of ts d)))"
  by pat_completeness auto
termination
proof (relation "measures [\<lambda>(ts, result, pending). unvisited ts result, \<lambda>(ts, result, pending). length pending]", goal_cases)
  case (3 ts result pending d rest)
  show ?case
  proof (cases "d \<in> set (task_ids ts)")
    case True
    with 3 show ?thesis by (simp add: unvisited_less)
  next
    case False
    with 3 show ?thesis using unvisited_le [of ts d result] by (auto simp: deps_of_unknown)
  qed
qed auto

declare dependency_closure.simps [simp del]

section \<open>The firewall\<close>

fun check_tasks ::
  "plan_limits \<Rightarrow> registry \<Rightarrow> (tool_call \<Rightarrow> string option) list \<Rightarrow> string list \<Rightarrow>
     (string \<times> string \<times> call_signature list \<times> string) list \<Rightarrow> task list \<Rightarrow> plan_error option" where
  "check_tasks l reg rules ids signatures [] = None"
| "check_tasks l reg rules ids signatures (t # ts) =
     (if task_id t \<in> set ids then Some DUPLICATE_TASK_ID
      else if signature t \<in> set signatures then Some DUPLICATE_TASK_SIGNATURE
      else (case validate_task l reg rules t of
              Some e \<Rightarrow> Some e
            | None \<Rightarrow> check_tasks l reg rules (task_id t # ids) (signature t # signatures) ts))"

fun check_dependencies :: "string list \<Rightarrow> task list \<Rightarrow> plan_error option" where
  "check_dependencies ids [] = None"
| "check_dependencies ids (t # ts) =
     (if \<not> list_all (\<lambda>d. d \<in> set ids) (dependencies t) then Some MISSING_DEPENDENCY
      else if task_id t \<in> set (dependencies t) then Some DEPENDENCY_CYCLE
      else check_dependencies ids ts)"

fun check_assignments :: "task list \<Rightarrow> assignment list \<Rightarrow> plan_error option" where
  "check_assignments ts [] = None"
| "check_assignments ts (a # as) =
     (if \<not> list_all (\<lambda>d. d \<in> set (context_task_ids a)) (dependency_closure ts [] (deps_of ts (assigned a)))
      then Some ASSIGNMENT_CONTEXT_INCOMPLETE
      else check_assignments ts as)"

definition validate_plan ::
  "plan_limits \<Rightarrow> registry \<Rightarrow> (tool_call \<Rightarrow> string option) list \<Rightarrow> plan \<Rightarrow> plan_error option" where
  "validate_plan l reg rules p =
     (let ts = graph_tasks p; calculated = (\<Sum>t\<leftarrow>ts. cost_units t) in
      if max_tasks l < int (length ts) then Some TASK_COUNT_LIMIT
      else if max_replans l < plan_replans p then Some REPLAN_LIMIT
      else if max_cost_units l < plan_cost p then Some COST_LIMIT
      else if max_cost_units l < calculated \<or> plan_cost p < calculated then Some COST_LIMIT
      else (case check_tasks l reg rules [] [] ts of
         Some e \<Rightarrow> Some e
       | None \<Rightarrow>
           if max_tool_calls l < (\<Sum>t\<leftarrow>ts. int (length (tools t))) then Some AGGREGATE_TOOL_CALL_LIMIT
           else (case check_dependencies (task_ids ts) ts of
              Some e \<Rightarrow> Some e
            | None \<Rightarrow>
                (case depths_of ts [] [] (task_ids ts) of
                   Inl e \<Rightarrow> Some e
                 | Inr (m, memo) \<Rightarrow>
                     if max_graph_depth l < int m then Some GRAPH_DEPTH_LIMIT
                     else check_assignments ts (assignments p)))))"

end
