(* ===== verification/Plan_Safety.thy ===== *)
theory Plan_Safety
  imports Swarm_Plan
begin

text \<open>
  What an accepted plan guarantees: the cycle check and the depth limit are exact, the context of an
  assignment holds the whole transitive closure, the plan's worst case fits the envelope, and a
  planned call can only fail at run time on the data it reads.
\<close>

section \<open>The dependency relation\<close>

definition depends :: "task list \<Rightarrow> (string \<times> string) set" where
  "depends ts = {(t, u). u \<in> set (deps_of ts t)}"

fun chain :: "task list \<Rightarrow> string list \<Rightarrow> bool" where
  "chain ts (t # u # us) = (u \<in> set (deps_of ts t) \<and> chain ts (u # us))"
| "chain ts _ = True"

text \<open>Depths that decrease along every dependency, each the length of some chain.\<close>

definition ranked :: "task list \<Rightarrow> (string \<times> nat) list \<Rightarrow> bool" where
  "ranked ts memo =
     (\<forall>t d. map_of memo t = Some d \<longrightarrow>
        0 < d \<and> (\<forall>u \<in> set (deps_of ts t). \<exists>e < d. map_of memo u = Some e) \<and>
        (\<exists>c. chain ts (t # c) \<and> length (t # c) = d))"

definition extends :: "string list \<Rightarrow> (string \<times> nat) list \<Rightarrow> (string \<times> nat) list \<Rightarrow> bool" where
  "extends visiting memo memo' =
     (map_of memo \<subseteq>\<^sub>m map_of memo' \<and> (\<forall>k \<in> dom (map_of memo') - dom (map_of memo). k \<notin> set visiting))"

lemma ranked_get: "ranked ts memo \<Longrightarrow> map_of memo t = Some d \<Longrightarrow> u \<in> set (deps_of ts t) \<Longrightarrow>
    \<exists>e < d. map_of memo u = Some e"
  by (auto simp: ranked_def)

lemma extends_refl [simp]: "extends v m m"
  by (simp add: extends_def)

lemma extends_get: "extends v m m' \<Longrightarrow> map_of m t = Some d \<Longrightarrow> map_of m' t = Some d"
  unfolding extends_def map_le_def by (metis domI)

lemma extends_trans: "extends v m m' \<Longrightarrow> extends v m' m'' \<Longrightarrow> extends v m m''"
  unfolding extends_def by (auto intro: map_le_trans) blast

lemma extends_Cons:
  assumes "extends (t # v) m m'" "map_of m t = None" "t \<notin> set v"
  shows "extends v m ((t, d) # m') \<and> map_of m' t = None"
proof -
  have t: "map_of m' t = None" using assms(1,2) by (fastforce simp: extends_def)
  with assms show ?thesis by (auto simp: extends_def map_le_def domIff)
qed

lemma ranked_Cons:
  assumes ranked: "ranked ts memo" and t: "map_of memo t = None"
    and below: "\<And>u. u \<in> set (deps_of ts t) \<Longrightarrow> \<exists>e \<le> m. map_of memo u = Some e"
    and wit: "m = 0 \<or> (\<exists>u \<in> set (deps_of ts t). map_of memo u = Some m)"
  shows "ranked ts ((t, Suc m) # memo)"
proof -
  have "\<exists>c. chain ts (t # c) \<and> length (t # c) = Suc m"
  proof (cases "m = 0")
    case False
    with wit obtain u where u: "u \<in> set (deps_of ts t)" "map_of memo u = Some m" by blast
    with ranked obtain c where "chain ts (u # c)" "length (u # c) = m" unfolding ranked_def by blast
    with u show ?thesis by (intro exI [of _ "u # c"]) simp
  qed (auto intro: exI [of _ "[]"])
  moreover have "\<exists>e < Suc m. map_of ((t, Suc m) # memo) u = Some e" if "u \<in> set (deps_of ts t)" for u
    using below [OF that] t by (cases "u = t") auto
  moreover have "\<exists>e < d. map_of ((t, Suc m) # memo) u = Some e"
    if "map_of memo s = Some d" "u \<in> set (deps_of ts s)" for s d u
    using ranked_get [OF ranked that] t by (cases "u = t") auto
  ultimately show ?thesis using ranked unfolding ranked_def by auto
qed

lemma depth_sound:
  "depth_of ts v memo t = Inr (d, memo') \<Longrightarrow> ranked ts memo \<Longrightarrow>
     ranked ts memo' \<and> extends v memo memo' \<and> map_of memo' t = Some d"
  "depths_of ts v memo us = Inr (m, memo') \<Longrightarrow> ranked ts memo \<Longrightarrow>
     ranked ts memo' \<and> extends v memo memo' \<and> (\<forall>u \<in> set us. \<exists>e \<le> m. map_of memo' u = Some e) \<and>
     (m = 0 \<or> (\<exists>u \<in> set us. map_of memo' u = Some m))"
proof (induction ts v memo t and ts v memo us arbitrary: d memo' and m memo' rule: depth_of_depths_of.induct)
  case (1 ts v memo t)
  note eq = 1(2) [unfolded depth_of.simps [of ts v memo t]]
  from eq have v: "t \<notin> set v" by (auto split: if_splits)
  show ?case
  proof (cases "map_of memo t")
    case (Some e)
    with eq v 1(3) show ?thesis by auto
  next
    case None
    with eq v obtain m m1 where sub: "depths_of ts (t # v) memo (deps_of ts t) = Inr (m, m1)"
      and r: "d = Suc m" "memo' = (t, Suc m) # m1" by (auto split: sum.splits)
    from 1(1) [OF v None sub 1(3)] have sub': "ranked ts m1" "extends (t # v) memo m1"
      "\<And>u. u \<in> set (deps_of ts t) \<Longrightarrow> \<exists>e \<le> m. map_of m1 u = Some e"
      "m = 0 \<or> (\<exists>u \<in> set (deps_of ts t). map_of m1 u = Some m)" by blast+
    from extends_Cons [OF sub'(2) None v] have e: "extends v memo ((t, Suc m) # m1)" "map_of m1 t = None" by auto
    from ranked_Cons [OF sub'(1) e(2) sub'(3,4)] e(1) show ?thesis by (simp add: r)
  qed
next
  case (2 ts v memo)
  then show ?case by simp
next
  case (3 ts v memo t us)
  from 3(3) obtain d1 m1 m2 where sub: "depth_of ts v memo t = Inr (d1, m1)" "depths_of ts v m1 us = Inr (m2, memo')"
    and m: "m = max d1 m2" by (auto split: sum.splits)
  from 3(1) [OF sub(1) 3(4)] have a: "ranked ts m1" "extends v memo m1" "map_of m1 t = Some d1" by auto
  from 3(2) [OF sub(1) refl sub(2) a(1)] have b: "ranked ts memo'" "extends v m1 memo'"
    "\<forall>u \<in> set us. \<exists>e \<le> m2. map_of memo' u = Some e" "m2 = 0 \<or> (\<exists>u \<in> set us. map_of memo' u = Some m2)" by blast+
  have t: "map_of memo' t = Some d1" by (rule extends_get [OF b(2) a(3)])
  have all: "\<exists>e \<le> m. map_of memo' u = Some e" if "u \<in> set (t # us)" for u
    using that t b(3) m by (auto simp: le_max_iff_disj)
  have "m = d1 \<or> m = m2" using m by auto
  then have "m = 0 \<or> (\<exists>u \<in> set (t # us). map_of memo' u = Some m)" using t b(4) by auto
  with all b(1) extends_trans [OF a(2) b(2)] show ?case by blast
qed

section \<open>Cycles\<close>

lemma ranked_decreases:
  assumes "ranked ts memo" "(t, u) \<in> (depends ts)\<^sup>+" "map_of memo t = Some d"
  shows "\<exists>e < d. map_of memo u = Some e"
  using assms(2)
proof (induction rule: trancl_induct)
  case (base u)
  then show ?case using ranked_get [OF assms(1,3)] by (simp add: depends_def)
next
  case (step u w)
  then obtain e where e: "e < d" "map_of memo u = Some e" by blast
  from ranked_get [OF assms(1) e(2)] step(2) obtain f where "f < e" "map_of memo w = Some f"
    by (auto simp: depends_def)
  with e(1) show ?case by auto
qed

lemma depends_source: "(t, u) \<in> (depends ts)\<^sup>+ \<Longrightarrow> t \<in> set (task_ids ts)"
  using deps_of_unknown by (fastforce simp: depends_def dest: tranclD)

lemma depths_acyclic:
  assumes "depths_of ts [] [] (task_ids ts) = Inr (m, memo)"
  shows "acyclic (depends ts)"
proof (rule acyclicI, intro allI notI)
  fix t assume cycle: "(t, t) \<in> (depends ts)\<^sup>+"
  have "ranked ts []" by (simp add: ranked_def)
  from depth_sound(2) [OF assms this] depends_source [OF cycle] obtain d where
    "ranked ts memo" "map_of memo t = Some d" by blast
  from ranked_decreases [OF this(1) cycle this(2)] this(2) show False by auto
qed

lemma depth_complete:
  "acyclic (depends ts) \<Longrightarrow> (\<And>a. a \<in> set v \<Longrightarrow> (a, t) \<in> (depends ts)\<^sup>+) \<Longrightarrow>
     \<exists>r. depth_of ts v memo t = Inr r"
  "acyclic (depends ts) \<Longrightarrow> (\<And>a u. a \<in> set v \<Longrightarrow> u \<in> set us \<Longrightarrow> (a, u) \<in> (depends ts)\<^sup>+) \<Longrightarrow>
     \<exists>r. depths_of ts v memo us = Inr r"
proof (induction ts v memo t and ts v memo us rule: depth_of_depths_of.induct)
  case (1 ts v memo t)
  have v: "t \<notin> set v" using 1(2,3) by (auto simp: acyclic_def)
  show ?case
  proof (cases "map_of memo t")
    case None
    have "(a, u) \<in> (depends ts)\<^sup>+" if "a \<in> set (t # v)" "u \<in> set (deps_of ts t)" for a u
      using that 1(3) [of a] by (auto simp: depends_def intro: trancl_into_trancl)
    from 1(1) [OF v None 1(2) this] obtain r where "depths_of ts (t # v) memo (deps_of ts t) = Inr r" by blast
    with None v show ?thesis by (cases r) (simp add: depth_of.simps [of ts v memo t])
  qed (simp add: v depth_of.simps [of ts v memo t])
next
  case (3 ts v memo t us)
  from 3(1) [OF 3(3)] 3(4) obtain d m1 where a: "depth_of ts v memo t = Inr (d, m1)" by fastforce
  from 3(2) [OF a refl 3(3)] 3(4) obtain r where "depths_of ts v m1 us = Inr r" by fastforce
  with a show ?case by (cases r) simp
qed simp

text \<open>The cycle check is exact: the depth walk of the firewall reports a cycle if and only if some task
  depends on itself, directly or through others, whatever the order of the tasks; the memo and the
  recursion path never hide a cycle nor invent one.\<close>

theorem cycle_check_is_exact:
  "(\<exists>e. depths_of ts [] [] (task_ids ts) = Inl e) \<longleftrightarrow> (\<exists>t. (t, t) \<in> (depends ts)\<^sup>+)"
proof (cases "depths_of ts [] [] (task_ids ts)")
  case (Inl e)
  then show ?thesis using depth_complete(2) [of ts "[]" "task_ids ts" "[]"] by (auto simp: acyclic_def)
next
  case (Inr r)
  then show ?thesis using depths_acyclic [of ts] by (cases r) (auto simp: acyclic_def)
qed

lemma ranked_chain:
  "ranked ts memo \<Longrightarrow> chain ts (t # c) \<Longrightarrow> map_of memo t = Some d \<Longrightarrow> length (t # c) \<le> d"
proof (induction c arbitrary: t d)
  case Nil
  then show ?case by (fastforce simp: ranked_def)
next
  case (Cons u c)
  from Cons.prems(2) have "u \<in> set (deps_of ts t)" "chain ts (u # c)" by auto
  with ranked_get [OF Cons.prems(1,3)] obtain e where "e < d" "map_of memo u = Some e" by blast
  with Cons.IH [OF Cons.prems(1) \<open>chain ts (u # c)\<close>] show ?case by fastforce
qed

lemma depth_is_longest_chain:
  assumes "depths_of ts [] [] (task_ids ts) = Inr (m, memo)"
  shows "(\<forall>c. chain ts c \<and> set c \<subseteq> set (task_ids ts) \<longrightarrow> length c \<le> m) \<and>
    (m = 0 \<or> (\<exists>c. chain ts c \<and> length c = m))"
proof -
  have "ranked ts []" by (simp add: ranked_def)
  from depth_sound(2) [OF assms this] have r: "ranked ts memo"
    "\<And>u. u \<in> set (task_ids ts) \<Longrightarrow> \<exists>e \<le> m. map_of memo u = Some e"
    "m = 0 \<or> (\<exists>u \<in> set (task_ids ts). map_of memo u = Some m)" by blast+
  have "length c \<le> m" if "chain ts c" "set c \<subseteq> set (task_ids ts)" for c
  proof (cases c)
    case (Cons t us)
    with that r(2) [of t] obtain e where "e \<le> m" "map_of memo t = Some e" by auto
    with ranked_chain [OF r(1), of t us e] that Cons show ?thesis by simp
  qed simp
  moreover have "\<exists>c. chain ts c \<and> length c = m" if "m \<noteq> 0"
    using r(1,3) that unfolding ranked_def by blast
  ultimately show ?thesis by blast
qed

section \<open>The closure\<close>

lemma closure_Nil: "dependency_closure ts result [] = result"
  by (simp add: dependency_closure.simps [of ts result "[]"])

lemma closure_sound:
  assumes "set result \<subseteq> reach" "set pending \<subseteq> reach" "deps \<subseteq> set result \<union> set pending"
    and "\<And>r. r \<in> set result \<Longrightarrow> set (deps_of ts r) \<subseteq> set result \<union> set pending"
    and "\<And>r. r \<in> reach \<Longrightarrow> set (deps_of ts r) \<subseteq> reach"
  shows "set (dependency_closure ts result pending) \<subseteq> reach \<and>
    deps \<subseteq> set (dependency_closure ts result pending) \<and>
    (\<forall>r \<in> set (dependency_closure ts result pending). set (deps_of ts r) \<subseteq> set (dependency_closure ts result pending))"
  using assms
proof (induction ts result pending rule: dependency_closure.induct)
  case (1 ts result pending)
  show ?case
  proof (cases "pending = []")
    case True
    with 1(3-7) show ?thesis by (simp add: closure_Nil)
  next
    case False
    let ?d = "last pending" and ?rest = "butlast pending"
    have p: "set pending = insert ?d (set ?rest)"
      using False by (metis append_butlast_last_id list.simps(15) rotate1.simps(2) set_rotate1)
    show ?thesis
    proof (cases "?d \<in> set result")
      case True
      have "set (dependency_closure ts result ?rest) \<subseteq> reach \<and> deps \<subseteq> set (dependency_closure ts result ?rest) \<and>
        (\<forall>r \<in> set (dependency_closure ts result ?rest). set (deps_of ts r) \<subseteq> set (dependency_closure ts result ?rest))"
      proof (rule 1(1) [OF False refl refl True])
        show "set ?rest \<subseteq> reach" using 1(4) p by auto
        show "deps \<subseteq> set result \<union> set ?rest" using 1(5) p True by auto
        show "set (deps_of ts r) \<subseteq> set result \<union> set ?rest" if "r \<in> set result" for r
          using 1(6) [OF that] p True by auto
      qed (rule 1(3), rule 1(7))
      with False True show ?thesis by (simp add: dependency_closure.simps [of ts result pending] Let_def)
    next
      case F: False
      let ?new = "dependency_closure ts (?d # result) (?rest @ deps_of ts ?d)"
      have "set ?new \<subseteq> reach \<and> deps \<subseteq> set ?new \<and> (\<forall>r \<in> set ?new. set (deps_of ts r) \<subseteq> set ?new)"
      proof (rule 1(2) [OF False refl refl F])
        have d: "?d \<in> reach" "set ?rest \<subseteq> reach" using 1(4) p by auto
        then show "set (?d # result) \<subseteq> reach" "set (?rest @ deps_of ts ?d) \<subseteq> reach"
          using 1(3) 1(7) [OF d(1)] by auto
        show "deps \<subseteq> set (?d # result) \<union> set (?rest @ deps_of ts ?d)" using 1(5) p by auto
        show "set (deps_of ts r) \<subseteq> set (?d # result) \<union> set (?rest @ deps_of ts ?d)"
          if "r \<in> set (?d # result)" for r
        proof (cases "r = ?d")
          case False
          with that have "r \<in> set result" by simp
          from 1(6) [OF this] p show ?thesis by auto
        qed auto
      qed (rule 1(7))
      with False F show ?thesis by (simp add: dependency_closure.simps [of ts result pending] Let_def)
    qed
  qed
qed

lemma closure_is_transitive:
  "set (dependency_closure ts [] (deps_of ts t)) = {u. (t, u) \<in> (depends ts)\<^sup>+}"
proof -
  let ?reach = "{u. (t, u) \<in> (depends ts)\<^sup>+}" and ?c = "dependency_closure ts [] (deps_of ts t)"
  have c: "set ?c \<subseteq> ?reach \<and> set (deps_of ts t) \<subseteq> set ?c \<and> (\<forall>r \<in> set ?c. set (deps_of ts r) \<subseteq> set ?c)"
    by (rule closure_sound) (auto simp: depends_def intro: trancl_into_trancl)
  have "u \<in> set ?c" if "(t, u) \<in> (depends ts)\<^sup>+" for u
    using that by (induction rule: trancl_induct) (use c in \<open>auto simp: depends_def\<close>)
  with c show ?thesis by blast
qed

section \<open>Accepted plans\<close>

lemma check_tasks_ok:
  assumes "check_tasks l reg rules ids sigs ts = None"
  shows "distinct (task_ids ts) \<and> set (task_ids ts) \<inter> set ids = {} \<and> distinct (map signature ts) \<and>
    (\<forall>t \<in> set ts. validate_task l reg rules t = None)"
proof -
  have "distinct (task_ids ts) \<and> set (task_ids ts) \<inter> set ids = {} \<and>
      distinct (map signature ts) \<and> set (map signature ts) \<inter> set sigs = {} \<and>
      (\<forall>t \<in> set ts. validate_task l reg rules t = None)"
    using assms
  proof (induction ts arbitrary: ids sigs)
    case (Cons t ts)
    then have "task_id t \<notin> set ids" "signature t \<notin> set sigs" "validate_task l reg rules t = None"
      "check_tasks l reg rules (task_id t # ids) (signature t # sigs) ts = None"
      by (auto split: if_splits option.splits)
    with Cons.IH [of "task_id t # ids" "signature t # sigs"] show ?case by (auto simp: task_ids_def)
  qed (simp add: task_ids_def)
  then show ?thesis by blast
qed

lemma check_dependencies_ok:
  "check_dependencies ids ts = None \<Longrightarrow> t \<in> set ts \<Longrightarrow> set (dependencies t) \<subseteq> set ids"
  by (induction ts) (auto simp: list_all_iff split: if_splits)

lemma check_assignments_ok:
  "check_assignments ts as = None \<Longrightarrow> a \<in> set as \<Longrightarrow>
   set (dependency_closure ts [] (deps_of ts (assigned a))) \<subseteq> set (context_task_ids a)"
  by (induction as) (auto simp: list_all_iff split: if_splits)

lemma validate_plan_ok:
  assumes "validate_plan l reg rules p = None"
  shows "int (length (graph_tasks p)) \<le> max_tasks l" "plan_replans p \<le> max_replans l"
    "(\<Sum>t\<leftarrow>graph_tasks p. cost_units t) \<le> min (max_cost_units l) (plan_cost p)"
    "check_tasks l reg rules [] [] (graph_tasks p) = None"
    "(\<Sum>t\<leftarrow>graph_tasks p. int (length (tools t))) \<le> max_tool_calls l"
    "check_dependencies (task_ids (graph_tasks p)) (graph_tasks p) = None"
    "\<exists>m memo. depths_of (graph_tasks p) [] [] (task_ids (graph_tasks p)) = Inr (m, memo) \<and> int m \<le> max_graph_depth l"
    "check_assignments (graph_tasks p) (assignments p) = None"
  using assms by (auto simp: validate_plan_def Let_def split: if_splits option.splits sum.splits)

lemma deps_of_task: "distinct (task_ids ts) \<Longrightarrow> t \<in> set ts \<Longrightarrow> deps_of ts (task_id t) = dependencies t"
  by (induction ts) (auto simp: deps_of_def task_ids_def)


definition example_task :: "string \<Rightarrow> string list \<Rightarrow> tool_call list \<Rightarrow> task" where
  "example_task n ds cs = \<lparr>task_id = n, goal = n, scope = ''register'', dependencies = ds, tools = cs,
     schema_text = [], schema_valid = True, schema_required = [''out''], schema_properties = [''out''],
     minimum_sources = 0, required_fields = [], priority = 1, recursion_depth = 0, cost_units = 1,
     required_outputs = [''out''], evidence_satisfied = True\<rparr>"

definition example_operation :: operation where
  "example_operation = \<lparr>op_properties = [[109], [121]], op_required = [[109]], literal_fits = (\<lambda>k v. True),
     produces_evidence = None, evidence_fields = None\<rparr>"

definition example_registry :: registry where
  "example_registry n = (if n = ''catalog'' then Some (\<lambda>m. Some example_operation) else None)"

definition example_plan :: plan where
  "example_plan = \<lparr>graph_tasks = [example_task ''t1'' [] [], example_task ''t2'' [''t1''] [example_call]],
     assignments = [\<lparr>assigned = ''t2'', context_task_ids = [''t1'']\<rparr>, \<lparr>assigned = ''t1'', context_task_ids = []\<rparr>],
     plan_replans = 1, plan_cost = 2\<rparr>"

lemma example_depths:
  "depths_of (graph_tasks example_plan) [] [] (task_ids (graph_tasks example_plan)) = Inr (2, [(''t2'', 2), (''t1'', 1)])"
  by (simp add: example_plan_def example_task_def task_ids_def depth_of.simps deps_of_def)

lemma example_closures:
  "dependency_closure (graph_tasks example_plan) [] [''t1''] = [''t1'']"
  by (simp add: dependency_closure.simps example_plan_def example_task_def deps_of_def)

lemma example_call_ok:
  "validate_call_arguments (example_task ''t2'' [''t1''] [example_call]) example_call example_operation = None"
  by (simp add: validate_call_arguments_def example_task_def example_call_def example_operation_def
      MAX_TOOL_ARGUMENT_KEYS_def check_material_def check_size_def int_bytes_def nat_digits.simps
      ascii_string_def ascii_bytes_def MAX_TOOL_VALUE_DEPTH_def MAX_TOOL_COLLECTION_ITEMS_def
      MAX_TOOL_INPUT_JSON_BYTES_def validate_binding_path_def segment_ok_def PATH_SEGMENT_PATTERN_def
      path_first_def MAX_BINDING_PATH_SEGMENTS_def MAX_BINDING_ARRAY_INDEX_def MAX_BINDING_PATH_SEGMENT_CHARS_def)

lemma example_fields [simp]:
  "dependencies (example_task n ds cs) = ds" "tools (example_task n ds cs) = cs"
  "recursion_depth (example_task n ds cs) = 0" "evidence_satisfied (example_task n ds cs)"
  "schema_valid (example_task n ds cs)" "schema_required (example_task n ds cs) = [''out'']"
  "schema_properties (example_task n ds cs) = [''out'']" "required_outputs (example_task n ds cs) = [''out'']"
  "minimum_sources (example_task n ds cs) = 0" "required_fields (example_task n ds cs) = []"
  "tool_name_of example_call = ''catalog''"
  "example_registry ''catalog'' = Some (\<lambda>m. Some example_operation)"
  by (simp_all add: example_task_def example_call_def example_registry_def)

lemma example_task_ok:
  "validate_task default_plan_limits example_registry [] (example_task n ds []) = None"
  "validate_task default_plan_limits example_registry [] (example_task ''t2'' [''t1''] [example_call]) = None"
  using example_call_ok
  by (simp_all add: validate_task_def validate_evidence_tool_def validate_evidence_fields_def
      default_plan_limits_def MAX_TOOL_CALLS_PER_TASK_def)

lemma example_signatures:
  "signature (example_task ''t2'' [''t1''] [example_call]) \<noteq> signature (example_task ''t1'' [] [])"
  by (simp add: signature_def example_task_def)

lemma example_plan_accepted: "validate_plan default_plan_limits example_registry [] example_plan = None"
proof -
  have "check_tasks default_plan_limits example_registry [] [] [] (graph_tasks example_plan) = None"
    using example_task_ok example_signatures by (simp add: example_plan_def) (simp add: example_task_def)
  moreover have "check_dependencies (task_ids (graph_tasks example_plan)) (graph_tasks example_plan) = None"
    by (simp add: example_plan_def example_task_def task_ids_def)
  moreover have "check_assignments (graph_tasks example_plan) (assignments example_plan) = None"
    using example_closures
    by (simp add: example_plan_def deps_of_def closure_Nil) (simp add: example_task_def closure_Nil)
  ultimately show ?thesis
    using example_depths
    by (simp add: validate_plan_def Let_def)
       (simp add: default_plan_limits_def example_plan_def example_task_def)
qed


section \<open>Approved calls at run time\<close>

lemma check_bindings_ok:
  assumes "check_bindings t c bound bs = None"
  shows "(\<forall>b \<in> set bs. argument b \<notin> keys (literals c) \<and> source_task b \<in> set (dependencies t) \<and>
      validate_binding_path (path b)) \<and> distinct (map argument bs) \<and> argument ` set bs \<inter> bound = {}"
  using assms by (induction t c bound bs rule: check_bindings.induct) (auto split: if_splits)

lemma validate_tool_calls_ok:
  assumes "validate_tool_calls reg rules t seen cs = None" "c \<in> set cs"
  shows "\<exists>oper. lookup_operation reg c = Some oper \<and> validate_call_arguments t c oper = None"
  using assms
proof (induction cs arbitrary: seen)
  case (Cons d cs)
  from Cons.prems(1) obtain operations oper where d: "reg (tool_name_of d) = Some operations"
    "operations (operation_name d) = Some oper" "validate_call_arguments t d oper = None"
    and rest: "validate_tool_calls reg rules t (call_id d # seen) cs = None"
    by (simp split: if_splits option.splits)
  show ?case
  proof (cases "c = d")
    case True
    with d show ?thesis by (simp add: lookup_operation_def)
  next
    case False
    with Cons.prems(2) Cons.IH [OF rest] show ?thesis by simp
  qed
qed simp

lemma call_arguments_ok:
  assumes "validate_call_arguments t c oper = None"
  shows "check_bindings t c {} (dependency_bindings c) = None"
proof (cases "check_bindings t c {} (dependency_bindings c)")
  case (Some r)
  with assms show ?thesis by (simp add: validate_call_arguments_def split: if_splits)
qed simp

lemma validate_task_calls:
  assumes "validate_task l reg rules t = None"
  shows "validate_tool_calls reg rules t [] (tools t) = None"
proof (cases "validate_tool_calls reg rules t [] (tools t)")
  case (Some e)
  with assms show ?thesis by (simp add: validate_task_def split: if_splits)
qed simp

lemma approved_bindings:
  assumes "validate_plan l reg rules p = None" "t \<in> set (graph_tasks p)" "c \<in> set (tools t)"
  shows "check_bindings t c {} (dependency_bindings c) = None"
  using check_tasks_ok [OF validate_plan_ok(4) [OF assms(1)]] assms(2,3)
    validate_tool_calls_ok [OF validate_task_calls] call_arguments_ok by metis

lemma bind_arguments_errors:
  assumes "\<forall>b \<in> set bs. argument b \<notin> keys args \<and> deps (source_task b) \<noteq> None \<and> validate_binding_path (path b)"
    and "distinct (map argument bs)" and "bind_arguments deps bs args = Inl e"
  shows "e = TOOL_BINDING_UNRESOLVED \<or> e = TOOL_ARGUMENTS_TOO_LARGE"
  using assms
proof (induction bs arbitrary: args)
  case (Cons b bs)
  obtain o1 where o1: "deps (source_task b) = Some o1" using Cons.prems(1) by auto
  show ?case
  proof (cases "\<exists>v. read_path o1 (path b) = Some v \<and> check_material v MAX_TOOL_INPUT_JSON_BYTES")
    case True
    then obtain v where "bind_arguments deps bs (args @ [(argument b, v)]) = Inl e"
      using Cons.prems o1 by (auto split: if_splits)
    moreover have "\<forall>ba \<in> set bs. argument ba \<notin> keys (args @ [(argument b, v)]) \<and> deps (source_task ba) \<noteq> None \<and>
        validate_binding_path (path ba)" using Cons.prems(1,2) by (auto simp: rev_image_eqI)
    moreover have "distinct (map argument bs)" using Cons.prems(2) by simp
    ultimately show ?thesis using Cons.IH by blast
  next
    case False
    with Cons.prems o1 show ?thesis by (auto split: if_splits option.splits)
  qed
qed simp

text \<open>The firewall settles at plan time what can be settled: when the executor hands a worker the outputs
  of all dependencies of its task, resolving an approved call either succeeds or fails on the data
  alone -- a path the output does not have, or too much material -- and never on a duplicate, an
  overwritten literal, an undeclared dependency or a malformed path.\<close>

theorem approved_calls_fail_only_on_data:
  assumes "validate_plan l reg rules p = None" and "t \<in> set (graph_tasks p)" "c \<in> set (tools t)"
    and "set (dependencies t) \<subseteq> dom deps" and "resolve_tool_arguments c deps = Inl e"
  shows "e = TOOL_BINDING_UNRESOLVED \<or> e = TOOL_ARGUMENTS_TOO_LARGE"
proof -
  note b = check_bindings_ok [OF approved_bindings [OF assms(1-3)]]
  show ?thesis
  proof (cases "bind_arguments deps (dependency_bindings c) (literals c)")
    case (Inl e')
    have "e' = TOOL_BINDING_UNRESOLVED \<or> e' = TOOL_ARGUMENTS_TOO_LARGE"
      by (rule bind_arguments_errors [OF _ _ Inl]) (use b assms(4) in auto)
    with Inl assms(5) show ?thesis by (simp add: resolve_tool_arguments_def)
  next
    case (Inr args)
    with assms(5) show ?thesis by (simp add: resolve_tool_arguments_def split: if_splits)
  qed
qed

definition missing_outputs :: "string \<Rightarrow> json option" where
  "missing_outputs = [''t1'' \<mapsto> JObj []]"

lemma approved_calls_fail_only_on_data_witness:
  "\<exists>e. resolve_tool_arguments example_call missing_outputs = Inl e \<and>
     (e = TOOL_BINDING_UNRESOLVED \<or> e = TOOL_ARGUMENTS_TOO_LARGE)"
proof -
  obtain e where e: "resolve_tool_arguments example_call missing_outputs = Inl e"
    by (simp add: resolve_tool_arguments_def example_call_def missing_outputs_def validate_binding_path_def
      segment_ok_def PATH_SEGMENT_PATTERN_def path_first_def MAX_BINDING_PATH_SEGMENTS_def
      MAX_BINDING_ARRAY_INDEX_def MAX_BINDING_PATH_SEGMENT_CHARS_def)
  have "e = TOOL_BINDING_UNRESOLVED \<or> e = TOOL_ARGUMENTS_TOO_LARGE"
    by (rule approved_calls_fail_only_on_data [OF example_plan_accepted _ _ _ e,
          where t = "example_task ''t2'' [''t1''] [example_call]"])
       (simp_all add: example_plan_def missing_outputs_def)
  with e show ?thesis by blast
qed

section \<open>The envelope\<close>

lemma plan_worst_case_mono:
  assumes "n \<le> n'" "r \<le> r'"
  shows "model_calls (plan_worst_case n r 0 b) \<le> model_calls (plan_worst_case n' r' 0 b)"
    and "agent_steps (plan_worst_case n r 0 b) \<le> agent_steps (plan_worst_case n' r' 0 b)"
  using assms by (simp_all add: plan_worst_case_def Let_def MAX_WORKER_OUTPUT_MODEL_ATTEMPTS_def)

lemma shrink_tasks_le: "shrink_tasks b r n \<le> n"
proof (induction b r n rule: shrink_tasks.induct)
  case (1 b r n)
  then show ?case by (fastforce simp: shrink_tasks.simps [of b r n] Let_def)
qed

lemma shrink_tasks_fits:
  "1 < shrink_tasks b r n \<Longrightarrow> max (agent_steps (plan_worst_case (shrink_tasks b r n) r 0 MIN_VERIFIER_BATCHES))
      (model_calls (plan_worst_case (shrink_tasks b r n) r 0 MIN_VERIFIER_BATCHES)) \<le> b"
proof (induction b r n rule: shrink_tasks.induct)
  case (1 b r n)
  show ?case
  proof (cases "n \<le> 1 \<or> max (agent_steps (plan_worst_case n r 0 MIN_VERIFIER_BATCHES))
      (model_calls (plan_worst_case n r 0 MIN_VERIFIER_BATCHES)) \<le> b")
    case True
    with 1(2) show ?thesis by (auto simp: shrink_tasks.simps [of b r n] Let_def)
  next
    case False
    then have "shrink_tasks b r n = shrink_tasks b r (n - 1)"
      by (subst shrink_tasks.simps) (simp only: Let_def if_False de_Morgan_disj)
    with 1 False show ?thesis by auto
  qed
qed

lemma shrink_for_le: "shrink_for b r n \<le> n"
  by (auto simp: shrink_for_def shrink_tasks_le split: option.split)

lemma narrow_le: "narrow a r \<le> a" "r = Some x \<Longrightarrow> narrow a r \<le> x"
  by (auto simp: narrow_def split: option.split)

lemma from_envelope_fields:
  assumes "from_envelope e ref = Some l"
  shows "max_replans l = narrow (max_replans ref) (e_replans e)"
    "max_tasks l = shrink_for (e_model_calls e) (max_replans l)
       (shrink_for (e_agent_steps e) (max_replans l) (narrow (max_tasks ref) (e_tasks e)))"
    "max_graph_depth l = narrow (max_graph_depth ref) (e_graph_depth e)"
    "max_recursion_depth l = narrow (max_recursion_depth ref) (e_recursion_depth e)"
    "max_cost_units l = narrow (max_cost_units ref) (e_cost_units e)"
    "max_tool_calls_per_task l = narrow (max_tool_calls_per_task ref) (e_tool_calls_per_task e)"
    "max_tool_calls l = narrow (max_tool_calls ref) (e_tool_calls e)"
  using assms by (auto simp: from_envelope_def Let_def split: if_splits)

lemma envelope_fits:
  assumes "from_envelope e ref = Some l" "1 < max_tasks l"
  shows "e_model_calls e = Some b \<Longrightarrow> model_calls (plan_worst_case (max_tasks l) (max_replans l) 0 1) \<le> b"
    and "e_agent_steps e = Some b \<Longrightarrow> agent_steps (plan_worst_case (max_tasks l) (max_replans l) 0 1) \<le> b"
proof -
  let ?n = "shrink_for (e_agent_steps e) (max_replans l) (narrow (max_tasks ref) (e_tasks e))"
  have l: "max_tasks l = shrink_for (e_model_calls e) (max_replans l) ?n" by (rule from_envelope_fields(2) [OF assms(1)])
  show "model_calls (plan_worst_case (max_tasks l) (max_replans l) 0 1) \<le> b" if "e_model_calls e = Some b"
    using shrink_tasks_fits [of b "max_replans l" ?n] l assms(2) that
    by (simp add: shrink_for_def MIN_VERIFIER_BATCHES_def)
  show "agent_steps (plan_worst_case (max_tasks l) (max_replans l) 0 1) \<le> b" if "e_agent_steps e = Some b"
  proof -
    have le: "max_tasks l \<le> ?n" using l shrink_for_le by metis
    have "agent_steps (plan_worst_case ?n (max_replans l) 0 1) \<le> b"
      using shrink_tasks_fits [of b "max_replans l" "narrow (max_tasks ref) (e_tasks e)"] le assms(2) that
      by (simp add: shrink_for_def MIN_VERIFIER_BATCHES_def)
    with plan_worst_case_mono(2) [OF le order_refl] show ?thesis by (meson order_trans)
  qed
qed

text \<open>An accepted plan can be paid for: under limits derived from the run's envelope, no limit is wider
  than the reviewed one, and whenever more than one task is allowed, the worst case of every accepted
  plan -- each worker call and its repair, every Commander decision, a verifier batch, the correction
  round -- is within the model calls and the agent steps the envelope grants.\<close>

theorem accepted_plan_fits_the_envelope:
  assumes "from_envelope e ref = Some l" and "validate_plan l reg rules p = None"
    and "e_model_calls e = Some calls" "e_agent_steps e = Some steps"
  shows "max_tasks l \<le> max_tasks ref \<and> max_replans l \<le> max_replans ref \<and> max_tool_calls l \<le> max_tool_calls ref \<and>
    max_graph_depth l \<le> max_graph_depth ref \<and>
    (1 < max_tasks l \<longrightarrow>
       model_calls (plan_worst_case (int (length (graph_tasks p))) (plan_replans p) 0 1) \<le> calls \<and>
       agent_steps (plan_worst_case (int (length (graph_tasks p))) (plan_replans p) 0 1) \<le> steps)"
proof -
  note f = from_envelope_fields [OF assms(1)]
  note ok = validate_plan_ok(1,2) [OF assms(2)]
  have "max_tasks l \<le> max_tasks ref"
    using shrink_for_le narrow_le(1) unfolding f(2) by (meson order_trans)
  then show ?thesis
    using narrow_le(1) envelope_fits [OF assms(1)] assms(3,4) plan_worst_case_mono [OF ok, of 1]
    unfolding f(1,3,7) by (auto intro: order_trans)
qed

definition example_envelope :: envelope where
  "example_envelope = \<lparr>e_agent_steps = Some 56, e_model_calls = Some 60, e_tool_calls = Some 24, e_tasks = Some 12,
     e_replans = Some 1, e_tool_calls_per_task = None, e_graph_depth = None, e_recursion_depth = None,
     e_cost_units = None\<rparr>"

definition narrowed_limits :: plan_limits where
  "narrowed_limits = default_plan_limits\<lparr>max_tasks := 12, max_replans := 1, max_tool_calls := 24\<rparr>"

lemma example_limits: "from_envelope example_envelope default_plan_limits = Some narrowed_limits"
  by (simp add: from_envelope_def example_envelope_def default_plan_limits_def narrow_def shrink_for_def Let_def
      shrink_tasks.simps plan_worst_case_def MAX_WORKER_OUTPUT_MODEL_ATTEMPTS_def MIN_CORRECTION_MODEL_CALLS_def
      MAX_CORRECTION_ROUNDS_def MAX_COMMANDER_PLAN_REPAIRS_def MIN_VERIFIER_BATCHES_def
      MAX_TOOL_CALLS_PER_TASK_def narrowed_limits_def)

lemma narrowed_accepts: "validate_plan narrowed_limits example_registry [] example_plan = None"
proof -
  have same: "validate_task narrowed_limits = validate_task default_plan_limits"
    by (intro ext) (simp add: validate_task_def narrowed_limits_def)
  have "check_tasks narrowed_limits reg rules ids sigs ts = check_tasks default_plan_limits reg rules ids sigs ts"
    for reg rules ids sigs ts
    by (induction ts arbitrary: ids sigs) (simp_all add: same split: option.split)
  then have "check_tasks narrowed_limits example_registry [] [] [] (graph_tasks example_plan) = None"
    using validate_plan_ok(4) [OF example_plan_accepted] by simp
  then show ?thesis
    using validate_plan_ok(6,8) [OF example_plan_accepted] example_depths
    by (simp add: validate_plan_def Let_def)
       (simp add: narrowed_limits_def default_plan_limits_def example_plan_def example_task_def)
qed

lemma accepted_plan_fits_the_envelope_witness:
  "model_calls (plan_worst_case 2 1 0 1) \<le> 60 \<and> agent_steps (plan_worst_case 2 1 0 1) \<le> 56"
  using accepted_plan_fits_the_envelope [OF example_limits narrowed_accepts, of 60 56]
  by (simp add: example_envelope_def narrowed_limits_def example_plan_def)

end
