(* ===== verification/Task_Executor.thy ===== *)
theory Task_Executor
  imports Plan_Safety "HOL-Library.Product_Lexorder" "HOL-Library.Char_ord"
begin

text \<open>
  \<open>BoundedTaskExecutor\<close> of \<open>engines/swarm_v2/executor.py\<close>: the loop that starts ready tasks on a bounded
  pool of threads and collects their results.

  The loop's own variables are the state.  What the code leaves open is given to each pass: the order
  in which Python iterates the set \<open>remaining\<close>, the futures \<open>wait\<close> reports as done (possibly none,
  after its timeout), what the worker of a task returns or raises, and the cancellation flag.  A
  pool thread runs a submitted task at once, since never more tasks are submitted than it has threads.
\<close>

datatype task_status = COMPLETED | FAILED | BLOCKED

record task_result =
  status :: task_status
  task_output :: json

datatype exec_event = Ev_ready string | Ev_started string | Ev_completed string | Ev_failed string

datatype exec_error =
    Bad_worker_count
  | Incompatible_resume
  | Cyclic_or_missing
  | Worker_raised nat
  | Cancelled_run

record exec_state =
  results :: "string \<Rightarrow> task_result option"
  remaining :: "string list"
  running_tasks :: "string list"
  exec_events :: "exec_event list"

section \<open>The bound\<close>

datatype limit_error = Not_an_integer | Out_of_range | Capacity_not_positive

definition configured_limit :: "string option \<Rightarrow> int option \<Rightarrow> limit_error + int" where
  "configured_limit raw provider_capacity =
     (case py_int (case raw of None \<Rightarrow> ''4'' | Some s \<Rightarrow> s) of
        None \<Rightarrow> Inl Not_an_integer
      | Some n \<Rightarrow>
          if \<not> (1 \<le> n \<and> n \<le> 32) then Inl Out_of_range
          else (case provider_capacity of
                  None \<Rightarrow> Inr n
                | Some k \<Rightarrow> if k < 1 then Inl Capacity_not_positive else Inr (min n k)))"

section \<open>One pass\<close>

definition task_priority :: "task list \<Rightarrow> string \<Rightarrow> int" where
  "task_priority ts t = (case find (\<lambda>k. task_id k = t) ts of None \<Rightarrow> 0 | Some k \<Rightarrow> priority k)"

definition dependencies_in :: "task list \<Rightarrow> (string \<Rightarrow> task_result option) \<Rightarrow> string \<Rightarrow> bool" where
  "dependencies_in ts res t = list_all (\<lambda>d. res d \<noteq> None) (deps_of ts t)"

definition dependencies_completed :: "task list \<Rightarrow> (string \<Rightarrow> task_result option) \<Rightarrow> string \<Rightarrow> bool" where
  "dependencies_completed ts res t =
     list_all (\<lambda>d. case res d of None \<Rightarrow> False | Some r \<Rightarrow> status r = COMPLETED) (deps_of ts t)"

definition blocked_result :: task_result where
  "blocked_result = \<lparr>status = BLOCKED, task_output = JNull\<rparr>"

text \<open>The \<open>for\<close> over \<open>remaining\<close>, in the order Python iterates it: a task with a failed dependency is
  blocked at once, one whose dependencies are all completed is ready.\<close>

fun scan ::
  "task list \<Rightarrow> string list \<Rightarrow> (string \<Rightarrow> task_result option) \<Rightarrow> string list \<Rightarrow> string list \<Rightarrow>
     (string \<Rightarrow> task_result option) \<times> string list \<times> string list" where
  "scan ts [] res left ready = (res, left, ready)"
| "scan ts (t # order) res left ready =
     (if \<not> dependencies_in ts res t then scan ts order res left ready
      else if \<not> dependencies_completed ts res t
      then scan ts order (res(t \<mapsto> blocked_result)) (remove1 t left) ready
      else scan ts order res left (ready @ [t]))"

text \<open>The heap pops by highest priority, then by name.\<close>

definition start_order :: "task list \<Rightarrow> string list \<Rightarrow> string list" where
  "start_order ts ready = map snd (sort (map (\<lambda>t. (- task_priority ts t, t)) ready))"

fun start_tasks :: "nat \<Rightarrow> string list \<Rightarrow> exec_state \<Rightarrow> exec_state" where
  "start_tasks limit [] s = s"
| "start_tasks limit (t # ready) s =
     (if length (running_tasks s) < limit
      then start_tasks limit ready
             (if t \<in> set (remaining s)
              then s\<lparr>remaining := remove1 t (remaining s), running_tasks := running_tasks s @ [t],
                     exec_events := exec_events s @ [Ev_ready t, Ev_started t]\<rparr>
              else s)
      else s)"

definition schedule :: "task list \<Rightarrow> nat \<Rightarrow> string list \<Rightarrow> exec_state \<Rightarrow> exec_state" where
  "schedule ts limit order s =
     (let (res, left, ready) = scan ts order (results s) (remaining s) []
      in start_tasks limit (start_order ts ready) (s\<lparr>results := res, remaining := left\<rparr>))"

text \<open>What a worker is given, and the collection of the finished ones.\<close>

type_synonym worker = "string \<Rightarrow> (string \<times> json) list \<Rightarrow> nat + task_result"

definition dependency_outputs :: "task list \<Rightarrow> exec_state \<Rightarrow> string \<Rightarrow> (string \<times> json) list" where
  "dependency_outputs ts s t =
     map (\<lambda>d. (d, case results s d of None \<Rightarrow> JNull | Some r \<Rightarrow> task_output r)) (deps_of ts t)"

fun collect_done :: "task list \<Rightarrow> worker \<Rightarrow> string list \<Rightarrow> exec_state \<Rightarrow> (exec_error + unit) \<times> exec_state" where
  "collect_done ts work [] s = (Inr (), s)"
| "collect_done ts work (t # done) s =
     (let s1 = s\<lparr>running_tasks := remove1 t (running_tasks s)\<rparr> in
      case work t (dependency_outputs ts s t) of
        Inl i \<Rightarrow> (Inl (Worker_raised i), s1)
      | Inr r \<Rightarrow> collect_done ts work done
          (s1\<lparr>results := (results s1)(t \<mapsto> r),
              exec_events := exec_events s1 @ [if status r = COMPLETED then Ev_completed t else Ev_failed t]\<rparr>))"

datatype pass_result =
    Continue exec_state
  | Return exec_state
  | Raise exec_error exec_state

text \<open>One turn of \<open>while remaining or running\<close>.\<close>

definition loop_pass ::
  "task list \<Rightarrow> nat \<Rightarrow> worker \<Rightarrow> bool \<Rightarrow> string list \<Rightarrow> string list \<Rightarrow> exec_state \<Rightarrow> pass_result" where
  "loop_pass ts limit work cancelled order done s =
     (if remaining s = [] \<and> running_tasks s = [] then Return s
      else if cancelled then Raise Cancelled_run s
      else (let s1 = schedule ts limit order s in
            if running_tasks s1 = []
            then (if remaining s1 \<noteq> [] then Raise Cyclic_or_missing s1 else Return s1)
            else (case collect_done ts work done s1 of
                    (Inl e, s2) \<Rightarrow> Raise e s2
                  | (Inr u, s2) \<Rightarrow> Continue s2)))"

text \<open>Before the loop: results of an earlier run must be completed tasks of this graph.\<close>

definition start_state :: "task list \<Rightarrow> (string \<times> task_result) list \<Rightarrow> exec_error + exec_state" where
  "start_state ts resumed =
     (if \<not> list_all (\<lambda>(t, r). t \<in> set (task_ids ts) \<and> status r = COMPLETED) resumed
      then Inl Incompatible_resume
      else Inr \<lparr>results = map_of resumed,
                remaining = filter (\<lambda>t. t \<notin> keys resumed) (task_ids ts),
                running_tasks = [], exec_events = []\<rparr>)"

text \<open>The constructor refuses a bound below one.\<close>

definition begin_execution :: "int \<Rightarrow> task list \<Rightarrow> (string \<times> task_result) list \<Rightarrow> exec_error + exec_state" where
  "begin_execution limit ts resumed = (if limit < 1 then Inl Bad_worker_count else start_state ts resumed)"

section \<open>All runs\<close>

text \<open>The order is some permutation of the set; the futures done are some of those running.\<close>

definition allowed_pass :: "task list \<Rightarrow> nat \<Rightarrow> string list \<Rightarrow> string list \<Rightarrow> exec_state \<Rightarrow> bool" where
  "allowed_pass ts limit order done s =
     (set order = set (remaining s) \<and> distinct order \<and> distinct done \<and>
      set done \<subseteq> set (running_tasks (schedule ts limit order s)))"

inductive exec_step :: "task list \<Rightarrow> nat \<Rightarrow> worker \<Rightarrow> exec_state \<Rightarrow> exec_state \<Rightarrow> bool"
  for ts limit work where
  Pass: "allowed_pass ts limit order done s \<Longrightarrow> loop_pass ts limit work c order done s = Continue s' \<Longrightarrow>
    exec_step ts limit work s s'"

inductive exec_ends :: "task list \<Rightarrow> nat \<Rightarrow> worker \<Rightarrow> exec_state \<Rightarrow> exec_error + exec_state \<Rightarrow> bool"
  for ts limit work where
  Returns: "allowed_pass ts limit order done s \<Longrightarrow> loop_pass ts limit work c order done s = Return s' \<Longrightarrow>
    exec_ends ts limit work s (Inr s')"
| Raises: "allowed_pass ts limit order done s \<Longrightarrow> loop_pass ts limit work c order done s = Raise e s' \<Longrightarrow>
    exec_ends ts limit work s (Inl e)"

inductive_cases exec_stepE: "exec_step ts limit work s s'"
inductive_cases exec_returnsE: "exec_ends ts limit work s (Inr s')"
inductive_cases exec_raisesE: "exec_ends ts limit work s (Inl e)"

definition execution :: "task list \<Rightarrow> nat \<Rightarrow> worker \<Rightarrow> exec_state \<Rightarrow> exec_state \<Rightarrow> bool" where
  "execution ts limit work = (exec_step ts limit work)\<^sup>*\<^sup>*"

end
