(* ===== verification/Executor_Safety.thy ===== *)
theory Executor_Safety
  imports Task_Executor
begin

text \<open>
  Every run of the executor, under any interleaving of its workers: the bound on running tasks, the
  order of dependencies, one start per task, an account of every task at the end, and progress.
\<close>

section \<open>The scan\<close>

definition unfinished_dependency :: "task list \<Rightarrow> (string \<Rightarrow> task_result option) \<Rightarrow> string \<Rightarrow> bool" where
  "unfinished_dependency ts res t = (\<exists>d \<in> set (deps_of ts t). \<exists>r. res d = Some r \<and> status r \<noteq> COMPLETED)"

definition keeps_results :: "(string \<Rightarrow> task_result option) \<Rightarrow> (string \<Rightarrow> task_result option) \<Rightarrow> bool" where
  "keeps_results res res' = (\<forall>t r. res t = Some r \<longrightarrow> res' t = Some r)"

lemma keeps_refl [simp]: "keeps_results res res"
  by (simp add: keeps_results_def)

lemma keeps_trans: "keeps_results a b \<Longrightarrow> keeps_results b c \<Longrightarrow> keeps_results a c"
  by (simp add: keeps_results_def)

lemma keeps_upd: "res t = None \<Longrightarrow> keeps_results res (res(t \<mapsto> r))"
  by (simp add: keeps_results_def)

lemma completed_keeps: "keeps_results res res' \<Longrightarrow> dependencies_completed ts res t \<Longrightarrow> dependencies_completed ts res' t"
  by (auto simp: dependencies_completed_def keeps_results_def list_all_iff split: option.splits)

lemma unfinished_keeps: "keeps_results res res' \<Longrightarrow> unfinished_dependency ts res t \<Longrightarrow> unfinished_dependency ts res' t"
  unfolding unfinished_dependency_def keeps_results_def by blast

lemma not_completed_unfinished:
  "dependencies_in ts res t \<Longrightarrow> \<not> dependencies_completed ts res t \<Longrightarrow> unfinished_dependency ts res t"
  by (fastforce simp: dependencies_in_def dependencies_completed_def unfinished_dependency_def list_all_iff
      split: option.splits)

definition scan_ok ::
  "task list \<Rightarrow> (string \<Rightarrow> task_result option) \<Rightarrow> string list \<Rightarrow> string list \<Rightarrow>
     (string \<Rightarrow> task_result option) \<Rightarrow> string list \<Rightarrow> string list \<Rightarrow> bool" where
  "scan_ok ts res left ready res' left' ready' =
     (keeps_results res res' \<and> distinct left' \<and> set left' \<subseteq> set left \<and>
      (\<forall>t. t \<notin> set left \<or> t \<in> set left' \<longrightarrow> res' t = res t) \<and>
      (\<forall>t \<in> set left - set left'. res' t = Some blocked_result \<and> unfinished_dependency ts res' t) \<and>
      (\<forall>t \<in> set ready' - set ready. t \<in> set left' \<and> dependencies_completed ts res' t) \<and>
      set ready \<subseteq> set ready' \<and> distinct ready')"

lemma scan_sound:
  assumes "scan ts order res left ready = (res', left', ready')"
    and "distinct left" "distinct order" "set order \<subseteq> set left" "\<forall>t \<in> set left. res t = None"
    and "distinct ready" "set ready \<inter> set order = {}"
  shows "scan_ok ts res left ready res' left' ready'"
  using assms
proof (induction ts order res left ready rule: scan.induct)
  case (1 ts res left ready)
  then show ?case by (simp add: scan_ok_def)
next
  case (2 ts t order res left ready)
  consider (skip) "\<not> dependencies_in ts res t"
    | (blocked) "dependencies_in ts res t" "\<not> dependencies_completed ts res t"
    | (ready) "dependencies_in ts res t" "dependencies_completed ts res t" by blast
  then show ?case
  proof cases
    case skip
    with 2(4) have "scan ts order res left ready = (res', left', ready')" by simp
    from 2(1) [OF skip this] 2(5-10) show ?thesis by simp
  next
    case blocked
    with 2(4) have s: "scan ts order (res(t \<mapsto> blocked_result)) (remove1 t left) ready = (res', left', ready')" by simp
    have t: "t \<in> set left" "res t = None" using 2(7,8) by auto
    have sub: "scan_ok ts (res(t \<mapsto> blocked_result)) (remove1 t left) ready res' left' ready'"
    proof (rule 2(2) [OF _ blocked(2) s])
      show "\<not> \<not> dependencies_in ts res t" using blocked(1) by simp
      show "set order \<subseteq> set (remove1 t left)" "\<forall>u \<in> set (remove1 t left). (res(t \<mapsto> blocked_result)) u = None"
        using 2(5-8) by auto
    qed (use 2(5,6,9,10) in auto)
    have keep: "keeps_results res (res(t \<mapsto> blocked_result))" using t(2) by (simp add: keeps_upd)
    have un: "unfinished_dependency ts res' t"
      using unfinished_keeps [OF _ not_completed_unfinished [OF blocked], of res'] keeps_trans [OF keep] sub
      by (simp add: scan_ok_def)
    show ?thesis
      using sub un keep keeps_trans t 2(5) unfolding scan_ok_def by (auto simp: keeps_results_def)
  next
    case ready
    with 2(4) have s: "scan ts order res left (ready @ [t]) = (res', left', ready')" by simp
    have sub: "scan_ok ts res left (ready @ [t]) res' left' ready'"
      by (rule 2(3) [OF _ _ s]) (use ready 2(5-10) in auto)
    have t: "t \<in> set left" using 2(7) by auto
    show ?thesis
    proof (cases "t \<in> set left'")
      case True
      then show ?thesis
        using sub completed_keeps [OF _ ready(2)] unfolding scan_ok_def by auto
    next
      case False
      with sub t have "unfinished_dependency ts res' t" "keeps_results res res'" by (auto simp: scan_ok_def)
      then show ?thesis using completed_keeps [OF _ ready(2)]
        by (fastforce simp: unfinished_dependency_def dependencies_completed_def list_all_iff)
    qed
  qed
qed

section \<open>The invariant\<close>

fun started_in :: "exec_event list \<Rightarrow> string list" where
  "started_in [] = []"
| "started_in (e # es) = (case e of Ev_started t \<Rightarrow> t # started_in es | _ \<Rightarrow> started_in es)"

definition started :: "exec_state \<Rightarrow> string list" where
  "started s = started_in (exec_events s)"

lemma started_in_append [simp]: "started_in (xs @ ys) = started_in xs @ started_in ys"
  by (induction xs) (auto split: exec_event.split)

definition exec_ok :: "task list \<Rightarrow> string set \<Rightarrow> nat \<Rightarrow> exec_state \<Rightarrow> bool" where
  "exec_ok ts R limit s =
     (distinct (remaining s) \<and> distinct (running_tasks s) \<and> set (remaining s) \<inter> set (running_tasks s) = {} \<and>
      (\<forall>t \<in> set (remaining s) \<union> set (running_tasks s). t \<in> set (task_ids ts) \<and> results s t = None) \<and>
      (\<forall>t \<in> set (task_ids ts). t \<in> set (remaining s) \<union> set (running_tasks s) \<or> results s t \<noteq> None) \<and>
      length (running_tasks s) \<le> limit \<and>
      distinct (started s) \<and> set (started s) \<inter> set (remaining s) = {} \<and>
      set (running_tasks s) \<subseteq> set (started s) \<and>
      (\<forall>t \<in> set (started s). dependencies_completed ts (results s) t) \<and>
      (\<forall>t r. results s t = Some r \<longrightarrow> t \<in> R \<or> t \<in> set (started s) \<or>
         r = blocked_result \<and> unfinished_dependency ts (results s) t))"

lemma started_fields [simp]:
  "started (s\<lparr>results := x\<rparr>) = started s" "started (s\<lparr>remaining := y\<rparr>) = started s"
  "started (s\<lparr>running_tasks := z\<rparr>) = started s"
  by (simp_all add: started_def)

lemma exec_ok_scan:
  assumes ok: "exec_ok ts R limit s" and order: "set order = set (remaining s)" "distinct order"
    and sc: "scan ts order (results s) (remaining s) [] = (res, left, ready)"
  shows "exec_ok ts R limit (s\<lparr>results := res, remaining := left\<rparr>) \<and> distinct ready \<and>
    (\<forall>t \<in> set ready. t \<in> set left \<and> dependencies_completed ts res t) \<and> keeps_results (results s) res"
proof -
  have sub: "scan_ok ts (results s) (remaining s) [] res left ready"
    by (rule scan_sound [OF sc]) (use ok order in \<open>auto simp: exec_ok_def\<close>)
  then have keep: "keeps_results (results s) res" by (simp add: scan_ok_def)
  have res: "t \<in> R \<or> t \<in> set (started s) \<or> r = blocked_result \<and> unfinished_dependency ts res t"
    if r: "res t = Some r" for t r
  proof (cases "t \<in> set (remaining s) - set left")
    case True
    with sub r show ?thesis by (auto simp: scan_ok_def)
  next
    case False
    then have "results s t = Some r" using sub r by (auto simp: scan_ok_def)
    with ok unfinished_keeps [OF keep] show ?thesis unfolding exec_ok_def by blast
  qed
  have "exec_ok ts R limit (s\<lparr>results := res, remaining := left\<rparr>)"
    unfolding exec_ok_def
  proof (intro conjI ballI allI impI)
    fix t assume "t \<in> set (started (s\<lparr>results := res, remaining := left\<rparr>))"
    then show "dependencies_completed ts (results (s\<lparr>results := res, remaining := left\<rparr>)) t"
      using ok completed_keeps [OF keep] by (simp add: exec_ok_def)
  next
    fix t r assume "results (s\<lparr>results := res, remaining := left\<rparr>) t = Some r"
    with res show "t \<in> R \<or> t \<in> set (started (s\<lparr>results := res, remaining := left\<rparr>)) \<or>
        r = blocked_result \<and> unfinished_dependency ts (results (s\<lparr>results := res, remaining := left\<rparr>)) t"
      by simp
  next
    fix t assume t: "t \<in> set (task_ids ts)"
    show "t \<in> set (remaining (s\<lparr>results := res, remaining := left\<rparr>)) \<union>
        set (running_tasks (s\<lparr>results := res, remaining := left\<rparr>)) \<or>
        results (s\<lparr>results := res, remaining := left\<rparr>) t \<noteq> None"
      using ok t sub keep unfolding exec_ok_def scan_ok_def keeps_results_def by (cases "t \<in> set left") auto
  next
    fix t assume "t \<in> set (remaining (s\<lparr>results := res, remaining := left\<rparr>)) \<union>
        set (running_tasks (s\<lparr>results := res, remaining := left\<rparr>))"
    then show "t \<in> set (task_ids ts)" "results (s\<lparr>results := res, remaining := left\<rparr>) t = None"
      using ok sub by (auto simp: exec_ok_def scan_ok_def)
  qed (use ok sub in \<open>auto simp: exec_ok_def scan_ok_def\<close>)
  with sub keep show ?thesis by (auto simp: scan_ok_def)
qed

lemma exec_ok_start_one:
  assumes "exec_ok ts R limit s" "length (running_tasks s) < limit" "t \<in> set (remaining s)"
    "dependencies_completed ts (results s) t"
  shows "exec_ok ts R limit (s\<lparr>remaining := remove1 t (remaining s), running_tasks := running_tasks s @ [t],
       exec_events := exec_events s @ [Ev_ready t, Ev_started t]\<rparr>)"
  using assms unfolding exec_ok_def
  by (auto simp: started_def)

lemma exec_ok_start:
  assumes "exec_ok ts R limit s" "\<forall>t \<in> set ready. dependencies_completed ts (results s) t"
  shows "exec_ok ts R limit (start_tasks limit ready s) \<and> results (start_tasks limit ready s) = results s"
  using assms
proof (induction limit ready s rule: start_tasks.induct)
  case (2 limit t ready s)
  then show ?case
    using exec_ok_start_one [of ts R limit s t] by (auto simp: Let_def)
qed simp

lemma set_start_order: "set (start_order ts ready) = set ready"
  by (auto simp: start_order_def image_image)

lemma exec_ok_schedule:
  assumes "exec_ok ts R limit s" "set order = set (remaining s)" "distinct order"
  shows "exec_ok ts R limit (schedule ts limit order s) \<and>
    keeps_results (results s) (results (schedule ts limit order s))"
proof -
  obtain res left ready where sc: "scan ts order (results s) (remaining s) [] = (res, left, ready)"
    using prod_cases3 by blast
  note ok = exec_ok_scan [OF assms sc]
  have "exec_ok ts R limit (start_tasks limit (start_order ts ready) (s\<lparr>results := res, remaining := left\<rparr>)) \<and>
    results (start_tasks limit (start_order ts ready) (s\<lparr>results := res, remaining := left\<rparr>)) = res"
    using exec_ok_start [of ts R limit "s\<lparr>results := res, remaining := left\<rparr>" "start_order ts ready"] ok
    by (simp add: set_start_order)
  with ok sc show ?thesis by (simp add: schedule_def)
qed

definition unresolved :: "exec_state \<Rightarrow> nat" where
  "unresolved s = length (remaining s) + length (running_tasks s)"

lemma exec_ok_collect_one:
  assumes "exec_ok ts R limit s" "t \<in> set (running_tasks s)"
  shows "exec_ok ts R limit (s\<lparr>running_tasks := remove1 t (running_tasks s), results := (results s)(t \<mapsto> r),
      exec_events := exec_events s @ [if status r = COMPLETED then Ev_completed t else Ev_failed t]\<rparr>)"
proof -
  have keep: "keeps_results (results s) ((results s)(t \<mapsto> r))"
    using assms by (simp add: keeps_upd exec_ok_def)
  have st: "t \<in> set (started s)" using assms by (auto simp: exec_ok_def)
  let ?res = "(results s)(t \<mapsto> r)"
  have "\<forall>u \<in> set (started s). dependencies_completed ts ?res u"
    using assms(1) completed_keeps [OF keep] by (auto simp: exec_ok_def)
  moreover have "u \<in> R \<or> u \<in> set (started s) \<or> x = blocked_result \<and> unfinished_dependency ts ?res u"
    if "?res u = Some x" for u x
  proof (cases "u = t")
    case False
    with that have "results s u = Some x" by simp
    with assms(1) have "u \<in> R \<or> u \<in> set (started s) \<or> x = blocked_result \<and> unfinished_dependency ts (results s) u"
      unfolding exec_ok_def by blast
    with unfinished_keeps [OF keep] show ?thesis by blast
  qed (simp add: st)
  ultimately show ?thesis
    using assms st unfolding exec_ok_def by (auto simp: started_def length_remove1)
qed

lemma collect_ok:
  assumes "exec_ok ts R limit s" "set done \<subseteq> set (running_tasks s)" "distinct done"
    and "collect_done ts work done s = (Inr u, s')"
  shows "exec_ok ts R limit s' \<and> keeps_results (results s) (results s') \<and> unresolved s' + length done = unresolved s"
  using assms
proof (induction ts work "done" s rule: collect_done.induct)
  case (2 ts work t "done" s)
  let ?s = "\<lambda>r. s\<lparr>running_tasks := remove1 t (running_tasks s), results := (results s)(t \<mapsto> r),
      exec_events := exec_events s @ [if status r = COMPLETED then Ev_completed t else Ev_failed t]\<rparr>"
  from 2(5) obtain r where r: "work t (dependency_outputs ts s t) = Inr r"
    and rest: "collect_done ts work done (?s r) = (Inr u, s')"
    by (auto simp: Let_def split: sum.splits)
  have t: "t \<in> set (running_tasks s)" using 2(3) by simp
  have ok: "exec_ok ts R limit (?s r)" by (rule exec_ok_collect_one [OF 2(2) t])
  have "set (remove1 t (running_tasks s)) = set (running_tasks s) - {t}"
    using 2(2) by (simp add: exec_ok_def set_remove1_eq)
  then have sub: "set done \<subseteq> set (running_tasks (?s r))" using 2(3,4) by auto
  have "distinct done" using 2(4) by simp
  with 2(1) [OF refl r] rest ok sub
  have "exec_ok ts R limit s' \<and> keeps_results (results (?s r)) (results s') \<and> unresolved s' + length done = unresolved (?s r)"
    by (simp add: fun_upd_def)
  moreover have "results s t = None" "0 < length (running_tasks s)" using 2(2) t by (auto simp: exec_ok_def)
  moreover from this(1) have "keeps_results (results s) (results (?s r))" by (simp add: keeps_upd)
  ultimately show ?case
    using t keeps_trans by (auto simp: unresolved_def length_remove1)
qed simp

section \<open>Runs\<close>

lemma start_state_ok:
  assumes "start_state ts resumed = Inr s" "distinct (task_ids ts)"
  shows "exec_ok ts (keys resumed) limit s" "started s = []"
  using assms
  by (auto simp: start_state_def exec_ok_def started_def map_of_eq_None_iff split: if_splits
      dest!: map_of_SomeD intro: rev_image_eqI)

lemma pass_continues:
  assumes ok: "exec_ok ts R limit s" and pass: "allowed_pass ts limit order done s"
    and run: "loop_pass ts limit work c order done s = Continue s'"
  shows "exec_ok ts R limit s' \<and> keeps_results (results s) (results s') \<and>
    unresolved s' + length done = unresolved (schedule ts limit order s)"
proof -
  let ?s1 = "schedule ts limit order s"
  have s1: "exec_ok ts R limit ?s1" "keeps_results (results s) (results ?s1)"
    using exec_ok_schedule [OF ok] pass by (auto simp: allowed_pass_def)
  from run obtain u where "collect_done ts work done ?s1 = (Inr u, s')"
    by (auto simp: loop_pass_def Let_def split: if_splits prod.splits sum.splits)
  from collect_ok [OF s1(1) _ _ this] pass s1(2) keeps_trans show ?thesis
    by (auto simp: allowed_pass_def)
qed

lemma unresolved_card:
  assumes "exec_ok ts R limit s"
  shows "unresolved s = card {t \<in> set (task_ids ts). results s t = None}"
proof -
  have "{t \<in> set (task_ids ts). results s t = None} = set (remaining s) \<union> set (running_tasks s)"
    using assms by (auto simp: exec_ok_def)
  moreover have "card (set (remaining s) \<union> set (running_tasks s)) = length (remaining s) + length (running_tasks s)"
    using assms by (simp add: exec_ok_def card_Un_disjoint distinct_card)
  ultimately show ?thesis by (simp add: unresolved_def)
qed

lemma unresolved_le:
  assumes "exec_ok ts R limit s" "exec_ok ts R limit s'" "keeps_results (results s) (results s')"
  shows "unresolved s' \<le> unresolved s"
proof -
  have "{t \<in> set (task_ids ts). results s' t = None} \<subseteq> {t \<in> set (task_ids ts). results s t = None}"
    using assms(3) by (auto simp: keeps_results_def) (metis option.exhaust option.simps(3))
  then show ?thesis
    unfolding unresolved_card [OF assms(1)] unresolved_card [OF assms(2)] by (intro card_mono) auto
qed

lemma pass_progress:
  assumes "exec_ok ts R limit s" "allowed_pass ts limit order done s"
    and "loop_pass ts limit work c order done s = Continue s'"
  shows "unresolved s' + length done \<le> unresolved s"
proof -
  have s1: "exec_ok ts R limit (schedule ts limit order s)" "keeps_results (results s) (results (schedule ts limit order s))"
    using exec_ok_schedule [OF assms(1)] assms(2) by (auto simp: allowed_pass_def)
  from pass_continues [OF assms] unresolved_le [OF assms(1) s1] show ?thesis by simp
qed

lemma exec_step_ok: "exec_step ts limit work s s' \<Longrightarrow> exec_ok ts R limit s \<Longrightarrow> exec_ok ts R limit s'"
  by (erule exec_stepE) (use pass_continues in blast)

lemma execution_ok:
  assumes "execution ts limit work s s'" "exec_ok ts R limit s"
  shows "exec_ok ts R limit s'"
  using assms unfolding execution_def by (induction rule: rtranclp_induct) (auto intro: exec_step_ok)

lemma accepted_graph:
  assumes "validate_plan l reg rules p = None"
  shows "distinct (task_ids (graph_tasks p))" "acyclic (depends (graph_tasks p))"
    "t \<in> set (task_ids (graph_tasks p)) \<Longrightarrow> set (deps_of (graph_tasks p) t) \<subseteq> set (task_ids (graph_tasks p))"
proof -
  note ok = validate_plan_ok [OF assms]
  show d: "distinct (task_ids (graph_tasks p))" using check_tasks_ok [OF ok(4)] by blast
  show "acyclic (depends (graph_tasks p))" using ok(7) depths_acyclic by blast
  show "set (deps_of (graph_tasks p) t) \<subseteq> set (task_ids (graph_tasks p))" if "t \<in> set (task_ids (graph_tasks p))"
  proof -
    from that obtain k where "k \<in> set (graph_tasks p)" "t = task_id k" by (auto simp: task_ids_def)
    with check_dependencies_ok [OF ok(6)] deps_of_task [OF d] show ?thesis by metis
  qed
qed

section \<open>What can look like a cycle\<close>

lemma scan_all_completed:
  assumes "\<forall>t r. res t = Some r \<longrightarrow> status r = COMPLETED"
  shows "scan ts order res left ready = (res, left, ready @ filter (dependencies_in ts res) order)"
  using assms
proof (induction order arbitrary: ready)
  case (Cons t order)
  have "dependencies_completed ts res t" if "dependencies_in ts res t"
    using that Cons.prems by (auto simp: dependencies_in_def dependencies_completed_def list_all_iff split: option.split)
  with Cons show ?case by simp
qed simp

lemma start_tasks_grow: "length (running_tasks s) \<le> length (running_tasks (start_tasks limit ready s))"
proof (induction limit ready s rule: start_tasks.induct)
  case (2 limit t ready s)
  show ?case
  proof (cases "length (running_tasks s) < limit")
    case True
    with 2 [OF True] show ?thesis by (cases "t \<in> set (remaining s)") auto
  qed simp
qed simp

lemma start_tasks_some:
  assumes "1 \<le> limit" "ready \<noteq> []" "set ready \<subseteq> set (remaining s)"
  shows "running_tasks (start_tasks limit ready s) \<noteq> []"
proof (cases ready)
  case (Cons t rest)
  show ?thesis
  proof (cases "length (running_tasks s) < limit")
    case True
    let ?s = "s\<lparr>remaining := remove1 t (remaining s), running_tasks := running_tasks s @ [t],
                     exec_events := exec_events s @ [Ev_ready t, Ev_started t]\<rparr>"
    have "start_tasks limit ready s = start_tasks limit rest ?s" using True Cons assms(3) by simp
    with start_tasks_grow [of ?s limit rest] show ?thesis by auto
  next
    case False
    with assms(1) Cons show ?thesis by auto
  qed
qed (use assms in simp)

lemma no_stuck_scan:
  assumes ok: "exec_ok ts R limit s" and order: "set order = set (remaining s)" and "1 \<le> limit"
    and graph: "acyclic (depends ts)" "\<And>t. t \<in> set (task_ids ts) \<Longrightarrow> set (deps_of ts t) \<subseteq> set (task_ids ts)"
    and all: "\<forall>t r. results s t = Some r \<longrightarrow> status r = COMPLETED"
    and idle: "running_tasks (schedule ts limit order s) = []"
  shows "remaining s = []"
proof (rule ccontr)
  assume left: "remaining s \<noteq> []"
  have sched: "schedule ts limit order s =
      start_tasks limit (start_order ts (filter (dependencies_in ts (results s)) order)) s"
    by (simp add: schedule_def scan_all_completed [OF all])
  have idle0: "running_tasks s = []"
    using start_tasks_grow [of s limit "start_order ts (filter (dependencies_in ts (results s)) order)"] idle
    unfolding sched by simp
  have "depends ts \<subseteq> set (task_ids ts) \<times> set (task_ids ts)"
  proof clarify
    fix t u assume tu: "(t, u) \<in> depends ts"
    then have "t \<in> set (task_ids ts)" by (blast intro: depends_source)
    with tu graph(2) show "t \<in> set (task_ids ts) \<and> u \<in> set (task_ids ts)" by (auto simp: depends_def)
  qed
  then have "finite (depends ts)" by (rule finite_subset) simp
  then have "wf ((depends ts)\<inverse>)" using graph(1) by (rule finite_acyclic_wf_converse)
  then obtain t where t: "t \<in> set (remaining s)" "\<And>d. (t, d) \<in> depends ts \<Longrightarrow> d \<notin> set (remaining s)"
    using left by (metis converse_iff list.set_intros(1) neq_Nil_conv wfE_min)
  have "results s d \<noteq> None" if d: "d \<in> set (deps_of ts t)" for d
  proof -
    have "t \<in> set (task_ids ts)" using t(1) ok by (auto simp: exec_ok_def)
    with graph(2) d have "d \<in> set (task_ids ts)" by blast
    moreover have "d \<notin> set (remaining s)" using t(2) d by (simp add: depends_def)
    ultimately show ?thesis using ok idle0 unfolding exec_ok_def by fastforce
  qed
  then have "t \<in> set (filter (dependencies_in ts (results s)) order)"
    using t(1) order by (auto simp: dependencies_in_def list_all_iff)
  then have "start_order ts (filter (dependencies_in ts (results s)) order) \<noteq> []"
    by (metis empty_iff list.set(1) set_start_order)
  moreover have "set (start_order ts (filter (dependencies_in ts (results s)) order)) \<subseteq> set (remaining s)"
    using order by (auto simp: set_start_order)
  ultimately show False using start_tasks_some [OF assms(3)] idle unfolding sched by blast
qed

section \<open>A small run\<close>

text \<open>The accepted plan of \<open>Plan_Safety\<close>: \<open>t2\<close> depends on \<open>t1\<close>.  A worker that completes everything,
  and one whose \<open>t1\<close> fails.\<close>

abbreviation example_graph :: "task list" where
  "example_graph \<equiv> graph_tasks example_plan"

definition good_work :: worker where
  "good_work t outputs = Inr \<lparr>status = COMPLETED, task_output = JNull\<rparr>"

definition bad_work :: worker where
  "bad_work t outputs = Inr \<lparr>status = FAILED, task_output = JNull\<rparr>"

definition example_start :: exec_state where
  "example_start = \<lparr>results = Map.empty, remaining = [''t1'', ''t2''], running_tasks = [], exec_events = []\<rparr>"

definition example_after :: "task_result \<Rightarrow> exec_event \<Rightarrow> exec_state" where
  "example_after r e = \<lparr>results = [''t1'' \<mapsto> r], remaining = [''t2''], running_tasks = [],
     exec_events = [Ev_ready ''t1'', Ev_started ''t1'', e]\<rparr>"

lemma example_graph_facts [simp]:
  "deps_of example_graph ''t1'' = []" "deps_of example_graph ''t2'' = [''t1'']"
  "task_ids example_graph = [''t1'', ''t2'']" "length example_graph = 2"
  by (simp_all add: example_plan_def example_task_def deps_of_def task_ids_def)

lemma start_order_one [simp]: "start_order ts [t] = [t]"
  by (simp add: start_order_def)

lemma example_starts: "start_state example_graph [] = Inr example_start"
  by (simp add: start_state_def example_start_def)

lemma example_first_schedule:
  "schedule example_graph 1 [''t2'', ''t1''] example_start =
     example_start\<lparr>remaining := [''t2''], running_tasks := [''t1''], exec_events := [Ev_ready ''t1'', Ev_started ''t1'']\<rparr>"
  by (simp add: schedule_def example_start_def dependencies_in_def dependencies_completed_def)

lemma example_first_pass:
  "allowed_pass example_graph 1 [''t2'', ''t1''] [''t1''] example_start"
  "loop_pass example_graph 1 good_work False [''t2'', ''t1''] [''t1''] example_start =
     Continue (example_after \<lparr>status = COMPLETED, task_output = JNull\<rparr> (Ev_completed ''t1''))"
  "loop_pass example_graph 1 bad_work False [''t2'', ''t1''] [''t1''] example_start =
     Continue (example_after \<lparr>status = FAILED, task_output = JNull\<rparr> (Ev_failed ''t1''))"
  unfolding allowed_pass_def loop_pass_def example_first_schedule Let_def
  by (auto simp: example_start_def good_work_def bad_work_def example_after_def Let_def)

lemma example_execution:
  "execution example_graph 1 good_work example_start
     (example_after \<lparr>status = COMPLETED, task_output = JNull\<rparr> (Ev_completed ''t1''))"
  "execution example_graph 1 bad_work example_start
     (example_after \<lparr>status = FAILED, task_output = JNull\<rparr> (Ev_failed ''t1''))"
  unfolding execution_def
  by (rule r_into_rtranclp, rule Pass, rule example_first_pass, rule example_first_pass)+

lemma example_blocked_end:
  "exec_ends example_graph 1 bad_work (example_after \<lparr>status = FAILED, task_output = JNull\<rparr> (Ev_failed ''t1''))
     (Inr ((example_after \<lparr>status = FAILED, task_output = JNull\<rparr> (Ev_failed ''t1''))
        \<lparr>remaining := [], results := [''t1'' \<mapsto> \<lparr>status = FAILED, task_output = JNull\<rparr>, ''t2'' \<mapsto> blocked_result]\<rparr>))"
proof -
  let ?s = "example_after \<lparr>status = FAILED, task_output = JNull\<rparr> (Ev_failed ''t1'')"
  have sch: "schedule example_graph 1 [''t2''] ?s = ?s\<lparr>remaining := [],
      results := [''t1'' \<mapsto> \<lparr>status = FAILED, task_output = JNull\<rparr>, ''t2'' \<mapsto> blocked_result]\<rparr>"
    by (simp add: schedule_def example_after_def dependencies_in_def dependencies_completed_def start_order_def)
  have a: "allowed_pass example_graph 1 [''t2''] [] ?s" by (simp add: allowed_pass_def example_after_def)
  have "loop_pass example_graph 1 bad_work False [''t2''] [] ?s = Return (?s\<lparr>remaining := [],
      results := [''t1'' \<mapsto> \<lparr>status = FAILED, task_output = JNull\<rparr>, ''t2'' \<mapsto> blocked_result]\<rparr>)"
    unfolding loop_pass_def sch Let_def by (simp add: example_after_def)
  with a show ?thesis by (rule Returns)
qed

section \<open>A failed task before a chain\<close>

text \<open>Three tasks in a row, the first of which fails.\<close>

definition chain_plan :: plan where
  "chain_plan = \<lparr>graph_tasks = [example_task ''t1'' [] [], example_task ''t2'' [''t1''] [], example_task ''t3'' [''t2''] []],
     assignments = [\<lparr>assigned = ''t2'', context_task_ids = [''t1'']\<rparr>, \<lparr>assigned = ''t1'', context_task_ids = []\<rparr>,
       \<lparr>assigned = ''t3'', context_task_ids = [''t2'', ''t1'']\<rparr>],
     plan_replans = 1, plan_cost = 3\<rparr>"

abbreviation chain_graph :: "task list" where
  "chain_graph \<equiv> graph_tasks chain_plan"

definition chain_start :: exec_state where
  "chain_start = \<lparr>results = Map.empty, remaining = [''t1'', ''t2'', ''t3''], running_tasks = [], exec_events = []\<rparr>"

definition chain_failed :: exec_state where
  "chain_failed = \<lparr>results = [''t1'' \<mapsto> \<lparr>status = FAILED, task_output = JNull\<rparr>], remaining = [''t2'', ''t3''],
     running_tasks = [], exec_events = [Ev_ready ''t1'', Ev_started ''t1'', Ev_failed ''t1'']\<rparr>"

lemma chain_graph_facts [simp]:
  "deps_of chain_graph ''t1'' = []" "deps_of chain_graph ''t2'' = [''t1'']" "deps_of chain_graph ''t3'' = [''t2'']"
  "task_ids chain_graph = [''t1'', ''t2'', ''t3'']" "length chain_graph = 3"
  by (simp_all add: chain_plan_def example_task_def deps_of_def task_ids_def)

lemma chain_goals:
  "normalize_spaces (casefold ''t1'') = ''t1''" "normalize_spaces (casefold ''t2'') = ''t2''"
  "normalize_spaces (casefold ''t3'') = ''t3''"
  by code_simp+

lemma chain_signatures:
  "signature (example_task ''t3'' [''t2''] []) \<noteq> signature (example_task ''t2'' [''t1''] [])"
  "signature (example_task ''t3'' [''t2''] []) \<noteq> signature (example_task ''t1'' [] [])"
  "signature (example_task ''t2'' [''t1''] []) \<noteq> signature (example_task ''t1'' [] [])"
  by (simp_all add: signature_def example_task_def chain_goals)

lemma chain_plan_accepted: "validate_plan default_plan_limits example_registry [] chain_plan = None"
proof -
  have "check_tasks default_plan_limits example_registry [] [] [] chain_graph = None"
    using example_task_ok(1) chain_signatures by (simp add: chain_plan_def) (simp add: example_task_def)
  moreover have "check_dependencies (task_ids chain_graph) chain_graph = None"
    by (simp add: chain_plan_def example_task_def task_ids_def)
  moreover have "dependency_closure chain_graph [] [''t1''] = [''t1'']"
    "dependency_closure chain_graph [] [''t2''] = [''t1'', ''t2'']"
    by (simp_all add: dependency_closure.simps)
  then have "check_assignments chain_graph (assignments chain_plan) = None"
    by (simp add: chain_plan_def deps_of_def closure_Nil) (simp add: example_task_def closure_Nil)
  moreover have "depths_of chain_graph [] [] (task_ids chain_graph) = Inr (3, [(''t3'', 3), (''t2'', 2), (''t1'', 1)])"
    by (simp add: depth_of.simps)
  ultimately show ?thesis
    by (simp add: validate_plan_def Let_def)
       (simp add: default_plan_limits_def chain_plan_def example_task_def)
qed

lemma chain_starts: "start_state chain_graph [] = Inr chain_start"
  by (simp add: start_state_def chain_start_def)

lemma chain_first_schedule:
  "schedule chain_graph 1 [''t1'', ''t2'', ''t3''] chain_start =
     chain_start\<lparr>remaining := [''t2'', ''t3''], running_tasks := [''t1''], exec_events := [Ev_ready ''t1'', Ev_started ''t1'']\<rparr>"
  by (simp add: schedule_def chain_start_def dependencies_in_def dependencies_completed_def)

lemma chain_execution: "execution chain_graph 1 bad_work chain_start chain_failed"
proof -
  have "allowed_pass chain_graph 1 [''t1'', ''t2'', ''t3''] [''t1''] chain_start"
    unfolding allowed_pass_def chain_first_schedule by (simp add: chain_start_def)
  moreover have "loop_pass chain_graph 1 bad_work False [''t1'', ''t2'', ''t3''] [''t1''] chain_start = Continue chain_failed"
    unfolding loop_pass_def chain_first_schedule Let_def
    by (simp add: chain_start_def bad_work_def chain_failed_def Let_def)
  ultimately have "exec_step chain_graph 1 bad_work chain_start chain_failed" by (rule Pass)
  then show ?thesis unfolding execution_def by (rule r_into_rtranclp)
qed

lemma chain_orders:
  "allowed_pass chain_graph 1 [''t2'', ''t3''] [] chain_failed"
  "allowed_pass chain_graph 1 [''t3'', ''t2''] [] chain_failed"
  by (auto simp: allowed_pass_def chain_failed_def)

lemma chain_ends:
  "\<exists>s. loop_pass chain_graph 1 bad_work False [''t2'', ''t3''] [] chain_failed = Return s \<and>
     map (\<lambda>t. map_option status (results s t)) (task_ids chain_graph) = [Some FAILED, Some BLOCKED, Some BLOCKED]"
  "\<exists>s. loop_pass chain_graph 1 bad_work False [''t3'', ''t2''] [] chain_failed = Raise Cyclic_or_missing s"
  by (simp_all add: loop_pass_def schedule_def chain_failed_def dependencies_in_def dependencies_completed_def
      blocked_result_def start_order_def)

section \<open>What the executor promises\<close>

text \<open>C30. The executor respects its bound and the dependencies: at any moment of any run, however the workers
  interleave, at most \<open>limit\<close> tasks run, no task has been started twice, and every task ever started
  had all its dependencies completed.\<close>

theorem executor_respects_bound_and_order:
  assumes "start_state ts resumed = Inr s0" "distinct (task_ids ts)" "execution ts limit work s0 s"
  shows "length (running_tasks s) \<le> limit \<and> distinct (running_tasks s) \<and> distinct (started s) \<and>
    set (running_tasks s) \<subseteq> set (started s) \<and>
    (\<forall>t \<in> set (started s). dependencies_completed ts (results s) t)"
  using execution_ok [OF assms(3) start_state_ok(1) [OF assms(1,2)]] by (auto simp: exec_ok_def)

lemma executor_respects_bound_and_order_witness:
  "length (running_tasks (example_after \<lparr>status = COMPLETED, task_output = JNull\<rparr> (Ev_completed ''t1''))) \<le> 1"
  using executor_respects_bound_and_order [OF example_starts _ example_execution(1)] by simp

text \<open>A finished execution accounts for every task: when \<open>execute\<close> returns, each task of the graph has a
  result; a task that was neither resumed nor started was blocked, and then some dependency of it did
  not complete.\<close>

theorem finished_execution_accounts_for_every_task:
  assumes "start_state ts resumed = Inr s0" "distinct (task_ids ts)" "execution ts limit work s0 s"
    and "exec_ends ts limit work s (Inr s')" and "t \<in> set (task_ids ts)"
  shows "\<exists>r. results s' t = Some r \<and>
    (t \<in> keys resumed \<or> t \<in> set (started s') \<or>
     status r = BLOCKED \<and> unfinished_dependency ts (results s') t)"
proof -
  let ?R = "keys resumed"
  have ok: "exec_ok ts ?R limit s" by (rule execution_ok [OF assms(3) start_state_ok(1) [OF assms(1,2)]])
  from assms(4) obtain order "done" c where pass: "allowed_pass ts limit order done s"
    "loop_pass ts limit work c order done s = Return s'" by (rule exec_returnsE) auto
  have "exec_ok ts ?R limit (schedule ts limit order s)"
    using exec_ok_schedule [OF ok] pass(1) by (auto simp: allowed_pass_def)
  with ok pass(2) have "exec_ok ts ?R limit s' \<and> remaining s' = [] \<and> running_tasks s' = []"
    by (auto simp: loop_pass_def Let_def split: if_splits prod.splits sum.splits)
  with assms(5) show ?thesis unfolding exec_ok_def blocked_result_def by fastforce
qed

lemma finished_execution_accounts_for_every_task_witness:
  "\<exists>r. results ((example_after \<lparr>status = FAILED, task_output = JNull\<rparr> (Ev_failed ''t1''))
      \<lparr>remaining := [], results := [''t1'' \<mapsto> \<lparr>status = FAILED, task_output = JNull\<rparr>, ''t2'' \<mapsto> blocked_result]\<rparr>)
      ''t2'' = Some r \<and> status r = BLOCKED"
  using finished_execution_accounts_for_every_task [OF example_starts _ example_execution(2) example_blocked_end,
      where t = "''t2''"]
  by (simp add: example_after_def started_def blocked_result_def)

text \<open>An accepted plan looks cyclic only after a failure: as long as every result is a completed task, no
  pass of the executor over an accepted plan reports "cyclic or has missing dependencies".\<close>

theorem only_a_failure_looks_cyclic:
  assumes "validate_plan l reg rules p = None" "start_state (graph_tasks p) resumed = Inr s0" "1 \<le> limit"
    and "execution (graph_tasks p) limit work s0 s"
    and "exec_ends (graph_tasks p) limit work s (Inl Cyclic_or_missing)"
  shows "\<exists>t r. results s t = Some r \<and> status r \<noteq> COMPLETED"
proof (rule ccontr)
  assume "\<nexists>t r. results s t = Some r \<and> status r \<noteq> COMPLETED"
  then have all: "\<forall>t r. results s t = Some r \<longrightarrow> status r = COMPLETED" by blast
  let ?ts = "graph_tasks p"
  note g = accepted_graph [OF assms(1)]
  have ok: "exec_ok ?ts (keys resumed) limit s" by (rule execution_ok [OF assms(4) start_state_ok(1) [OF assms(2) g(1)]])
  from assms(5) obtain order "done" c s' where pass: "allowed_pass ?ts limit order done s"
    "loop_pass ?ts limit work c order done s = Raise Cyclic_or_missing s'" by (rule exec_raisesE) auto
  have "collect_done ts work xs s1 \<noteq> (Inl Cyclic_or_missing, s2)" for ts xs s1 s2
    by (induction ts work xs s1 rule: collect_done.induct) (auto simp: Let_def split: sum.splits)
  with pass(2) have idle: "running_tasks (schedule ?ts limit order s) = []"
    "remaining (schedule ?ts limit order s) \<noteq> []"
    by (auto simp: loop_pass_def Let_def split: if_splits prod.splits sum.splits)
  have order: "set order = set (remaining s)" using pass(1) by (simp add: allowed_pass_def)
  have "remaining s = []" by (rule no_stuck_scan [OF ok order assms(3) g(2,3) all idle(1)])
  with order have "schedule ?ts limit order s = s" by (simp add: schedule_def start_order_def)
  with idle(2) \<open>remaining s = []\<close> show False by simp
qed

text \<open>A pass that collects at least one finished future.\<close>

definition collecting_step :: "task list \<Rightarrow> nat \<Rightarrow> worker \<Rightarrow> exec_state \<Rightarrow> exec_state \<Rightarrow> bool" where
  "collecting_step ts limit work s s' =
     (\<exists>order done c. allowed_pass ts limit order done s \<and> done \<noteq> [] \<and>
        loop_pass ts limit work c order done s = Continue s')"

lemma collecting_steps:
  assumes "(collecting_step ts limit work ^^ n) s s'" "exec_ok ts R limit s"
  shows "n + unresolved s' \<le> unresolved s \<and> exec_ok ts R limit s'"
  using assms
proof (induction n arbitrary: s')
  case (Suc n)
  from Suc.prems(1) obtain u where u: "(collecting_step ts limit work ^^ n) s u" "collecting_step ts limit work u s'"
    by auto
  from Suc.IH [OF u(1) Suc.prems(2)] have ih: "n + unresolved u \<le> unresolved s" "exec_ok ts R limit u" by auto
  from u(2) obtain order "done" c where pass: "allowed_pass ts limit order done u" "done \<noteq> []"
    "loop_pass ts limit work c order done u = Continue s'" unfolding collecting_step_def by blast
  have "unresolved s' + length done \<le> unresolved u" by (rule pass_progress [OF ih(2) pass(1,3)])
  moreover have "1 \<le> length done" using pass(2) by (simp add: Suc_le_eq)
  ultimately show ?case using ih pass_continues [OF ih(2) pass(1,3)] by simp
qed simp

lemma only_a_failure_looks_cyclic_witness:
  "\<exists>t r. results chain_failed t = Some r \<and> status r \<noteq> COMPLETED"
proof -
  obtain s where "loop_pass chain_graph 1 bad_work False [''t3'', ''t2''] [] chain_failed = Raise Cyclic_or_missing s"
    using chain_ends(2) by blast
  with chain_orders(2) have "exec_ends chain_graph 1 bad_work chain_failed (Inl Cyclic_or_missing)" by (rule Raises)
  from only_a_failure_looks_cyclic [OF chain_plan_accepted chain_starts _ chain_execution this]
  show ?thesis by simp
qed

text \<open>What a failure looks like depends on the iteration order of a Python set: for the accepted plan of three
  tasks in a row whose first task fails, one order blocks the other two and returns all three results,
  the other order raises "task graph is cyclic or has missing dependencies" for a graph that is neither.\<close>

theorem failure_chain_may_look_cyclic:
  "validate_plan default_plan_limits example_registry [] chain_plan = None \<and>
   start_state chain_graph [] = Inr chain_start \<and> execution chain_graph 1 bad_work chain_start chain_failed \<and>
   (\<exists>s. exec_ends chain_graph 1 bad_work chain_failed (Inr s) \<and>
      map (\<lambda>t. map_option status (results s t)) [''t1'', ''t2'', ''t3''] = [Some FAILED, Some BLOCKED, Some BLOCKED]) \<and>
   exec_ends chain_graph 1 bad_work chain_failed (Inl Cyclic_or_missing)"
proof (intro conjI)
  show "\<exists>s. exec_ends chain_graph 1 bad_work chain_failed (Inr s) \<and>
      map (\<lambda>t. map_option status (results s t)) [''t1'', ''t2'', ''t3''] = [Some FAILED, Some BLOCKED, Some BLOCKED]"
    using chain_ends(1) Returns [OF chain_orders(1)] by fastforce
  show "exec_ends chain_graph 1 bad_work chain_failed (Inl Cyclic_or_missing)"
    using chain_ends(2) Raises [OF chain_orders(2)] by blast
qed (fact chain_plan_accepted chain_starts chain_execution)+

text \<open>Executions make progress: every pass that collects a finished future resolves a task for good, so a run
  whose passes each collect one has at most as many passes as the graph has tasks.\<close>

theorem collecting_passes_are_bounded:
  assumes "start_state ts resumed = Inr s0" "distinct (task_ids ts)"
    and "(collecting_step ts limit work ^^ n) s0 s"
  shows "n \<le> length ts"
proof -
  have ok: "exec_ok ts (keys resumed) limit s0" by (rule start_state_ok(1) [OF assms(1,2)])
  have "unresolved s0 \<le> card (set (task_ids ts))"
    unfolding unresolved_card [OF ok] by (intro card_mono) auto
  also have "\<dots> \<le> length ts" using card_length [of "task_ids ts"] by (simp add: task_ids_def)
  finally show ?thesis using collecting_steps [OF assms(3) ok] by simp
qed

lemma collecting_passes_are_bounded_witness: "1 \<le> length example_graph"
proof (rule collecting_passes_are_bounded [OF example_starts])
  show "(collecting_step example_graph 1 good_work ^^ 1) example_start
      (example_after \<lparr>status = COMPLETED, task_output = JNull\<rparr> (Ev_completed ''t1''))"
    using example_first_pass(1,2) unfolding collecting_step_def by fastforce
qed simp

section \<open>Liveness\<close>

definition never_fails :: "worker \<Rightarrow> bool" where
  "never_fails work = (\<forall>t outputs. \<exists>r. work t outputs = Inr r \<and> status r = COMPLETED)"

definition all_completed :: "exec_state \<Rightarrow> bool" where
  "all_completed s = (\<forall>t r. results s t = Some r \<longrightarrow> status r = COMPLETED)"

lemma start_tasks_results [simp]: "results (start_tasks limit ready s) = results s"
proof (induction limit ready s rule: start_tasks.induct)
  case (2 limit t ready s)
  then show ?case by (cases "length (running_tasks s) < limit"; cases "t \<in> set (remaining s)") simp_all
qed simp

lemma schedule_completed: "all_completed s \<Longrightarrow> results (schedule ts limit order s) = results s"
  by (simp add: schedule_def scan_all_completed all_completed_def)

lemma collect_completed:
  assumes "never_fails work" "all_completed s"
  shows "\<exists>s'. collect_done ts work xs s = (Inr (), s') \<and> all_completed s'"
  using assms(2)
proof (induction xs arbitrary: s)
  case (Cons t xs)
  obtain r where "work t (dependency_outputs ts s t) = Inr r" "status r = COMPLETED"
    using assms(1) by (auto simp: never_fails_def)
  with Cons show ?case by (auto simp: Let_def all_completed_def)
qed simp

text \<open>From a state in which nothing has failed, a pass that collects every running task resolves one more.\<close>

lemma completing_pass:
  assumes ok: "exec_ok ts R limit s" and "1 \<le> limit"
    and graph: "acyclic (depends ts)" "\<And>t. t \<in> set (task_ids ts) \<Longrightarrow> set (deps_of ts t) \<subseteq> set (task_ids ts)"
    and work: "never_fails work" "all_completed s" and busy: "\<not> (remaining s = [] \<and> running_tasks s = [])"
  shows "\<exists>s'. exec_step ts limit work s s' \<and> all_completed s' \<and> unresolved s' < unresolved s"
proof -
  let ?s1 = "schedule ts limit (remaining s) s"
  have d: "distinct (remaining s)" using ok by (simp add: exec_ok_def)
  have some: "running_tasks ?s1 \<noteq> []"
  proof
    assume idle: "running_tasks ?s1 = []"
    have "remaining s = []"
      by (rule no_stuck_scan [OF ok refl assms(2) graph work(2) [unfolded all_completed_def] idle])
    with idle busy show False by (simp add: schedule_def start_order_def)
  qed
  have "all_completed ?s1" using work(2) schedule_completed [OF work(2)] by (simp add: all_completed_def)
  then obtain s' where s': "collect_done ts work (running_tasks ?s1) ?s1 = (Inr (), s')" "all_completed s'"
    using collect_completed [OF work(1)] by blast
  have "exec_ok ts R limit ?s1" using exec_ok_schedule [OF ok refl d] by simp
  then have pass: "allowed_pass ts limit (remaining s) (running_tasks ?s1) s"
    using d by (simp add: allowed_pass_def exec_ok_def)
  have run: "loop_pass ts limit work False (remaining s) (running_tasks ?s1) s = Continue s'"
    using busy some s'(1) by (simp add: loop_pass_def Let_def)
  have "unresolved s' + length (running_tasks ?s1) \<le> unresolved s" by (rule pass_progress [OF ok pass run])
  moreover have "0 < length (running_tasks ?s1)" using some by simp
  ultimately have "unresolved s' < unresolved s" by linarith
  with s'(2) Pass [OF pass run] show ?thesis by blast
qed

lemma completing_run:
  assumes "1 \<le> limit"
    and "acyclic (depends ts)" "\<And>t. t \<in> set (task_ids ts) \<Longrightarrow> set (deps_of ts t) \<subseteq> set (task_ids ts)"
    and "never_fails work" "exec_ok ts R limit s" "all_completed s"
  shows "\<exists>s'. execution ts limit work s s' \<and> all_completed s' \<and> remaining s' = [] \<and> running_tasks s' = []"
  using assms(5,6)
proof (induction "unresolved s" arbitrary: s rule: less_induct)
  case less
  show ?case
  proof (cases "remaining s = [] \<and> running_tasks s = []")
    case True
    with less.prems show ?thesis unfolding execution_def by blast
  next
    case False
    obtain u where u: "exec_step ts limit work s u" "all_completed u" "unresolved u < unresolved s"
      using completing_pass [OF less.prems(1) assms(1-4) less.prems(2) False] by blast
    from less.hyps [OF u(3) exec_step_ok [OF u(1) less.prems(1)] u(2)]
    obtain s' where "execution ts limit work u s'" "all_completed s'" "remaining s' = []" "running_tasks s' = []"
      by blast
    with u(1) show ?thesis unfolding execution_def by (meson converse_rtranclp_into_rtranclp)
  qed
qed

text \<open>A run of \<open>never_fails\<close> workers keeps every result completed.\<close>

lemma step_completed: "exec_step ts limit work s s' \<Longrightarrow> never_fails work \<Longrightarrow> all_completed s \<Longrightarrow> all_completed s'"
proof (erule exec_stepE)
  fix order xs c
  assume w: "never_fails work" "all_completed s" and run: "loop_pass ts limit work c order xs s = Continue s'"
  from w(2) schedule_completed [OF w(2)] have "all_completed (schedule ts limit order s)" by (simp add: all_completed_def)
  then obtain u where "collect_done ts work xs (schedule ts limit order s) = (Inr (), u)" "all_completed u"
    using collect_completed [OF w(1)] by blast
  with run show "all_completed s'" by (simp add: loop_pass_def Let_def split: if_splits)
qed

lemma execution_completed:
  assumes "execution ts limit work s s'" "never_fails work" "all_completed s"
  shows "all_completed s'"
  using assms unfolding execution_def by (induction rule: rtranclp_induct) (auto intro: step_completed)

text \<open>C31. An accepted plan can always be finished: whatever interleaving has led to a moment of a run, as long
  as the workers complete their tasks, some continuation returns, and it returns with every task of the
  plan completed.\<close>

theorem accepted_plan_can_finish:
  assumes "validate_plan l reg rules p = None" "start_state (graph_tasks p) resumed = Inr s0" "1 \<le> limit"
    and "never_fails work" "execution (graph_tasks p) limit work s0 s"
  shows "\<exists>s'. execution (graph_tasks p) limit work s s' \<and> exec_ends (graph_tasks p) limit work s' (Inr s') \<and>
    (\<forall>t \<in> set (task_ids (graph_tasks p)). \<exists>r. results s' t = Some r \<and> status r = COMPLETED)"
proof -
  let ?ts = "graph_tasks p"
  note g = accepted_graph [OF assms(1)]
  have ok: "exec_ok ?ts (keys resumed) limit s" by (rule execution_ok [OF assms(5) start_state_ok(1) [OF assms(2) g(1)]])
  have "all_completed s0" using assms(2)
    by (auto simp: start_state_def all_completed_def list_all_iff dest!: map_of_SomeD split: if_splits)
  then have "all_completed s" by (rule execution_completed [OF assms(5,4)])
  with completing_run [OF assms(3) g(2,3) assms(4) ok]
  obtain s' where s': "execution ?ts limit work s s'" "all_completed s'" "remaining s' = []" "running_tasks s' = []"
    by blast
  have "exec_ok ?ts (keys resumed) limit s'" by (rule execution_ok [OF s'(1) ok])
  with s'(2-4) have "\<forall>t \<in> set (task_ids ?ts). \<exists>r. results s' t = Some r \<and> status r = COMPLETED"
    by (fastforce simp: exec_ok_def all_completed_def)
  moreover have "allowed_pass ?ts limit [] [] s'" using s'(3) by (simp add: allowed_pass_def)
  then have "exec_ends ?ts limit work s' (Inr s')"
    by (rule Returns [where c = False]) (simp add: loop_pass_def s'(3,4))
  ultimately show ?thesis using s'(1) by blast
qed

lemma accepted_plan_can_finish_witness:
  "\<exists>s'. exec_ends example_graph 1 good_work s' (Inr s') \<and> (\<exists>r. results s' ''t2'' = Some r \<and> status r = COMPLETED)"
proof -
  have "never_fails good_work" by (simp add: never_fails_def good_work_def)
  from accepted_plan_can_finish [OF example_plan_accepted example_starts _ this example_execution(1)]
  show ?thesis by auto
qed

end
