(* ===== verification/Run_Row.thy ===== *)
theory Run_Row
  imports Prelude
begin

text \<open>
  The life of a run: the states and transitions of \<open>backend/runtime.py\<close>, the row of \<open>public.runs\<close> as the
  repository (\<open>repository/supabase.py\<close>) and its database functions (\<open>supabase/migrations\<close>) read and
  write it, and the launch protocol of \<open>main.py\<close>.

  One SQL statement is one atomic step on the row under the database clock.  A repository method that
  first reads the row and then writes it gets the status it read as an argument of its own: what
  happens in between is what other processes do.  Columns no guard reads (usage, heartbeat and start
  times, reasons) are left out; a document is its text.
\<close>

section \<open>States and transitions\<close>

datatype run_status =
    Queued | Launching | Starting | Running | Waiting | Completed | Partial_success | Failed
  | Cancellation_requested | Cancelled | Timed_out | Budget_exhausted | Legacy string

definition RUN_STATES :: "run_status list" where
  "RUN_STATES = [Queued, Launching, Starting, Running, Waiting, Completed, Partial_success,
     Failed, Cancellation_requested, Cancelled, Timed_out, Budget_exhausted]"

definition TERMINAL_STATES :: "run_status list" where
  "TERMINAL_STATES = [Completed, Partial_success, Failed, Cancelled, Timed_out, Budget_exhausted]"

fun VALID_TRANSITIONS :: "run_status \<Rightarrow> run_status list" where
  "VALID_TRANSITIONS Queued = [Launching, Starting, Cancellation_requested, Failed]"
| "VALID_TRANSITIONS Launching = [Queued, Starting, Running, Cancellation_requested, Failed]"
| "VALID_TRANSITIONS Starting =
     [Running, Waiting, Completed, Partial_success, Cancellation_requested, Failed, Timed_out]"
| "VALID_TRANSITIONS Running =
     [Waiting, Completed, Partial_success, Failed, Cancellation_requested, Timed_out, Budget_exhausted]"
| "VALID_TRANSITIONS Waiting = [Running, Failed, Cancellation_requested, Timed_out, Budget_exhausted]"
| "VALID_TRANSITIONS Cancellation_requested = [Cancelled, Failed]"
| "VALID_TRANSITIONS s = []"

datatype transition_error = Unknown_run_state | Invalid_transition

definition validate_transition :: "run_status \<Rightarrow> run_status \<Rightarrow> transition_error option" where
  "validate_transition current new =
     (if current \<notin> set RUN_STATES \<or> new \<notin> set RUN_STATES then Some Unknown_run_state
      else if new \<notin> set (VALID_TRANSITIONS current) then Some Invalid_transition
      else None)"

definition CLAIMED_RUN_STATES :: "run_status list" where
  "CLAIMED_RUN_STATES = [Starting, Running, Waiting]"

datatype launch_state = L_none | L_pending | L_launching | L_launched | L_launch_failed | L_launch_unknown

definition UNRESOLVED_LAUNCH_STATES :: "launch_state list" where
  "UNRESOLVED_LAUNCH_STATES = [L_launching, L_launch_unknown]"

datatype cancel_refusal = RUN_LAUNCH_UNRESOLVED | RUN_NOT_LAUNCHED

definition cancellation_refusal :: "run_status \<Rightarrow> launch_state \<Rightarrow> cancel_refusal option" where
  "cancellation_refusal s launch =
     (if s \<in> set CLAIMED_RUN_STATES \<or> s \<notin> {Queued, Launching} then None
      else if launch = L_launched then None
      else if launch \<in> set UNRESOLVED_LAUNCH_STATES then Some RUN_LAUNCH_UNRESOLVED
      else Some RUN_NOT_LAUNCHED)"

section \<open>The row\<close>

record run_row =
  row_status :: run_status
  row_launch :: launch_state
  row_identity :: bool
  row_worker :: "string option"
  row_attempt :: int
  row_token :: "string option"
  row_expires :: "int option"
  row_output :: "string option"
  row_error :: "string option"
  row_events :: "(string \<times> string) list"

text \<open>What a worker passes with its writes: its name, its attempt and its token.\<close>

record lease =
  lease_worker :: string
  lease_attempt :: "int option"
  lease_tok :: "string option"

datatype db_error = Canonical_finalizer_required | Stale_worker_write | Run_finalization_invalid | Check_violation

definition lapsed :: "int \<Rightarrow> run_row \<Rightarrow> bool" where
  "lapsed now r = (case row_expires r of None \<Rightarrow> True | Some e \<Rightarrow> e < now)"

definition unexpired :: "int \<Rightarrow> run_row \<Rightarrow> bool" where
  "unexpired now r = (case row_expires r of None \<Rightarrow> False | Some e \<Rightarrow> now < e)"

text \<open>\<open>claim_run_lease\<close>: a fresh token each time; the attempt counts the takeovers.\<close>

definition claimable :: "int \<Rightarrow> string \<Rightarrow> run_row \<Rightarrow> bool" where
  "claimable now w r =
     (row_identity r \<and>
      ((row_status r \<in> {Queued, Launching, Waiting, Cancellation_requested} \<and>
          (row_worker r = None \<or> row_worker r = Some w \<or> lapsed now r)) \<or>
       (row_status r \<in> {Starting, Running} \<and> (row_worker r = Some w \<or> lapsed now r))))"

definition claim_run_lease :: "int \<Rightarrow> string \<Rightarrow> string \<Rightarrow> int \<Rightarrow> run_row \<Rightarrow> run_row option" where
  "claim_run_lease now w tok seconds r =
     (if claimable now w r
      then Some (r\<lparr>row_status := (if row_status r = Cancellation_requested then Cancellation_requested else Starting),
               row_attempt := row_attempt r +
                 (if row_worker r \<noteq> None \<and> row_worker r \<noteq> Some w \<and> row_expires r \<noteq> None \<and> lapsed now r then 1 else 0),
               row_worker := Some w, row_token := Some tok, row_expires := Some (now + seconds)\<rparr>)
      else None)"

text \<open>The guards of the other functions (the check constraint on the status column applies to every update): a null attempt or token is not compared by \<open>heartbeat\<close> and
  \<open>finalize\<close>, and never matches in \<open>transition\<close>.\<close>

definition holds_lease :: "int \<Rightarrow> lease \<Rightarrow> run_row \<Rightarrow> bool" where
  "holds_lease now l r =
     (row_worker r = Some (lease_worker l) \<and>
      (lease_attempt l = None \<or> lease_attempt l = Some (row_attempt r)) \<and>
      (lease_tok l = None \<or> lease_tok l = row_token r) \<and> unexpired now r)"

definition heartbeat_run_guarded :: "int \<Rightarrow> lease \<Rightarrow> int \<Rightarrow> run_row \<Rightarrow> db_error + run_row" where
  "heartbeat_run_guarded now l seconds r =
     (if holds_lease now l r \<and> row_status r \<in> {Starting, Running, Cancellation_requested}
      then Inr (r\<lparr>row_expires := Some (now + max 1 seconds)\<rparr>)
      else Inl Stale_worker_write)"

definition transition_run_worker_guarded ::
  "int \<Rightarrow> lease \<Rightarrow> run_status \<Rightarrow> run_status option \<Rightarrow> run_row \<Rightarrow> db_error + run_row" where
  "transition_run_worker_guarded now l new expected r =
     (if new \<in> set TERMINAL_STATES then Inl Canonical_finalizer_required
      else if holds_lease now l r \<and> lease_attempt l \<noteq> None \<and> lease_tok l \<noteq> None
           \<and> (case expected of None \<Rightarrow> True | Some s \<Rightarrow> row_status r = s)
      then (if new \<in> set RUN_STATES then Inr (r\<lparr>row_status := new\<rparr>) else Inl Check_violation)
      else Inl Stale_worker_write)"

text \<open>The finalizer always passes the \<open>error\<close> field, so the error column is replaced or cleared.\<close>

definition finalize_run_guarded ::
  "int \<Rightarrow> lease \<Rightarrow> run_status \<Rightarrow> run_status \<Rightarrow> string option \<Rightarrow> string option \<Rightarrow> (string \<times> string) option \<Rightarrow>
     run_row \<Rightarrow> db_error + run_row" where
  "finalize_run_guarded now l new expected output err event r =
     (if new \<notin> set TERMINAL_STATES then Inl Run_finalization_invalid
      else if holds_lease now l r \<and> row_status r = expected
      then Inr (r\<lparr>row_status := new,
                  row_output := (if output = None then row_output r else output),
                  row_error := err,
                  row_events := row_events r @ (case event of None \<Rightarrow> [] | Some e \<Rightarrow> [e])\<rparr>)
      else Inl Stale_worker_write)"

section \<open>The repository\<close>

datatype repo_error =
    CANONICAL_FINALIZER_REQUIRED
  | INVALID_RUN_TRANSITION
  | RUN_TRANSITION_CONFLICT
  | RUN_LEASE_LOST
  | RUN_ALREADY_CLAIMED
  | RUN_NOT_FOUND
  | REPOSITORY_ERROR
  | Cancel_refused cancel_refusal

definition guarded_rpc :: "db_error + run_row \<Rightarrow> repo_error + run_row" where
  "guarded_rpc r = (case r of
       Inl Stale_worker_write \<Rightarrow> Inl RUN_LEASE_LOST
     | Inl _ \<Rightarrow> Inl REPOSITORY_ERROR
     | Inr row \<Rightarrow> Inr row)"

text \<open>\<open>seen\<close> is the status that was read. Without a lease the write is the service path's own update.\<close>

definition transition_run ::
  "run_status \<Rightarrow> run_status \<Rightarrow> lease option \<Rightarrow> int \<Rightarrow> run_row \<Rightarrow> repo_error + run_row" where
  "transition_run seen new holder now r =
     (if new \<in> set TERMINAL_STATES then Inl CANONICAL_FINALIZER_REQUIRED
      else (let transitioning = (new \<noteq> seen \<and> seen \<in> set RUN_STATES) in
            if transitioning \<and> validate_transition seen new \<noteq> None then Inl INVALID_RUN_TRANSITION
            else (case holder of
                    Some l \<Rightarrow> guarded_rpc (transition_run_worker_guarded now l new
                                (if transitioning then Some seen else None) r)
                  | None \<Rightarrow> if \<not> (\<not> transitioning \<or> row_status r = seen) then Inl RUN_TRANSITION_CONFLICT
                            else if new \<notin> set RUN_STATES then Inl REPOSITORY_ERROR
                            else Inr (r\<lparr>row_status := new\<rparr>))))"

definition finalize_run ::
  "run_status \<Rightarrow> run_status \<Rightarrow> (string \<times> string) option \<Rightarrow> lease \<Rightarrow> string option \<Rightarrow> string option \<Rightarrow> int \<Rightarrow>
     run_row \<Rightarrow> repo_error + run_row" where
  "finalize_run new expected event l output err now r =
     (if new \<notin> set TERMINAL_STATES then Inl INVALID_RUN_TRANSITION
      else if expected \<in> set RUN_STATES \<and> validate_transition expected new \<noteq> None then Inl INVALID_RUN_TRANSITION
      else guarded_rpc (finalize_run_guarded now l new expected output err event r))"

definition claim_run :: "int \<Rightarrow> string \<Rightarrow> string \<Rightarrow> int \<Rightarrow> run_row \<Rightarrow> repo_error + run_row" where
  "claim_run now w tok seconds r =
     (case claim_run_lease now w tok seconds r of None \<Rightarrow> Inl RUN_ALREADY_CLAIMED | Some r' \<Rightarrow> Inr r')"

definition heartbeat :: "int \<Rightarrow> lease \<Rightarrow> int \<Rightarrow> run_row \<Rightarrow> repo_error + run_row" where
  "heartbeat now l seconds r = guarded_rpc (heartbeat_run_guarded now l seconds r)"

definition request_cancellation :: "run_status \<Rightarrow> launch_state \<Rightarrow> run_row \<Rightarrow> repo_error + run_row" where
  "request_cancellation seen seen_launch r =
     (case cancellation_refusal seen seen_launch of
        Some x \<Rightarrow> Inl (Cancel_refused x)
      | None \<Rightarrow>
          if validate_transition seen Cancellation_requested \<noteq> None then Inl INVALID_RUN_TRANSITION
          else if row_status r = seen \<and> (seen \<in> set CLAIMED_RUN_STATES \<or> row_launch r = L_launched)
          then Inr (r\<lparr>row_status := Cancellation_requested\<rparr>)
          else Inl RUN_TRANSITION_CONFLICT)"

section \<open>Launching\<close>

definition try_acquire_launch :: "run_row \<Rightarrow> run_row option" where
  "try_acquire_launch r =
     (if row_status r = Queued \<and> row_launch r \<in> {L_pending, L_launch_failed}
      then Some (r\<lparr>row_launch := L_launching\<rparr>) else None)"

definition set_launch_state :: "launch_state \<Rightarrow> run_row \<Rightarrow> run_row" where
  "set_launch_state s r = r\<lparr>row_launch := s\<rparr>"

text \<open>What \<open>JobLauncher.launch\<close> does: it answers, its outcome is unknown, or it definitely failed.\<close>

datatype launch_reply = Execution_started | Launch_uncertain | Launch_refused

text \<open>The last part of \<open>_create_run\<close>: the row it holds must be queued and not parked; only the caller that
  takes the launch from the row launches.\<close>

definition launch_gate :: "run_row \<Rightarrow> bool" where
  "launch_gate r = (row_status r = Queued \<and> row_launch r \<noteq> L_launch_unknown)"

definition launch_result_state :: "launch_reply \<Rightarrow> launch_state" where
  "launch_result_state reply = (case reply of
       Launch_uncertain \<Rightarrow> L_launch_unknown
     | Launch_refused \<Rightarrow> L_launch_failed
     | Execution_started \<Rightarrow> L_launched)"

definition new_row :: "bool \<Rightarrow> launch_state \<Rightarrow> run_row" where
  "new_row identity launch = \<lparr>row_status = Queued, row_launch = launch, row_identity = identity, row_worker = None,
     row_attempt = 1, row_token = None, row_expires = None, row_output = None, row_error = None, row_events = []\<rparr>"

section \<open>Any number of processes and one row\<close>

datatype launcher_phase = Acquired | Replied launch_reply

datatype trail_event = Claimed_with string | Wrote_with string

record world =
  db_now :: int
  the_row :: run_row
  launchers :: "launcher_phase list"
  launch_calls :: "launch_reply list"
  issued :: "string list"
  trail :: "trail_event list"

text \<open>
  \<open>refresh\<close> says whether writes of a status equal to the one read, or over a legacy status, are among the
  steps: \<open>transition_run\<close> makes them without comparing the row's status.
\<close>

definition compared :: "run_status \<Rightarrow> run_status \<Rightarrow> bool" where
  "compared seen new = (new \<noteq> seen \<and> seen \<in> set RUN_STATES)"

inductive run_step :: "bool \<Rightarrow> world \<Rightarrow> world \<Rightarrow> bool" for refresh where
  Tick: "db_now w \<le> n \<Longrightarrow> run_step refresh w (w\<lparr>db_now := n\<rparr>)"
| Acquire: "launch_gate seen \<Longrightarrow> try_acquire_launch (the_row w) = Some r \<Longrightarrow>
    run_step refresh w (w\<lparr>the_row := r, launchers := launchers w @ [Acquired]\<rparr>)"
| Call_launch: "launchers w = xs @ Acquired # ys \<Longrightarrow>
    run_step refresh w (w\<lparr>launchers := xs @ Replied reply # ys, launch_calls := launch_calls w @ [reply]\<rparr>)"
| Record_launch: "launchers w = xs @ Replied reply # ys \<Longrightarrow>
    run_step refresh w (w\<lparr>launchers := xs @ ys,
      the_row := set_launch_state (launch_result_state reply) (the_row w)\<rparr>)"
| Lose_launcher: "launchers w = xs @ p # ys \<Longrightarrow> run_step refresh w (w\<lparr>launchers := xs @ ys\<rparr>)"
| Cancel: "request_cancellation seen seen_launch (the_row w) = Inr r \<Longrightarrow>
    run_step refresh w (w\<lparr>the_row := r\<rparr>)"
| Claim: "tok \<notin> set (issued w) \<Longrightarrow> claim_run (db_now w) name tok seconds (the_row w) = Inr r \<Longrightarrow>
    run_step refresh w (w\<lparr>the_row := r, issued := tok # issued w, trail := trail w @ [Claimed_with tok]\<rparr>)"
| Beat: "lease_tok l = Some tok \<Longrightarrow> heartbeat (db_now w) l seconds (the_row w) = Inr r \<Longrightarrow>
    run_step refresh w (w\<lparr>the_row := r, trail := trail w @ [Wrote_with tok]\<rparr>)"
| Move: "lease_tok l = Some tok \<Longrightarrow> refresh \<or> compared seen new \<Longrightarrow>
    transition_run seen new (Some l) (db_now w) (the_row w) = Inr r \<Longrightarrow>
    run_step refresh w (w\<lparr>the_row := r, trail := trail w @ [Wrote_with tok]\<rparr>)"
| End: "lease_tok l = Some tok \<Longrightarrow>
    finalize_run new expected event l out err (db_now w) (the_row w) = Inr r \<Longrightarrow>
    run_step refresh w (w\<lparr>the_row := r, trail := trail w @ [Wrote_with tok]\<rparr>)"

inductive_cases run_stepE: "run_step refresh w w'"

abbreviation run_steps :: "bool \<Rightarrow> world \<Rightarrow> world \<Rightarrow> bool" where
  "run_steps refresh \<equiv> (run_step refresh)\<^sup>*\<^sup>*"

definition fresh_world :: "int \<Rightarrow> bool \<Rightarrow> launch_state \<Rightarrow> world" where
  "fresh_world now identity launch = \<lparr>db_now = now, the_row = new_row identity launch, launchers = [],
     launch_calls = [], issued = [], trail = []\<rparr>"

end
