(* ===== verification/Python_Documents.thy ===== *)
theory Python_Documents
  imports Standalone_Search "HOL-Library.Char_ord" "HOL-Library.List_Lexorder"
begin

text \<open>
  Untyped Python documents, as run outputs and event payloads are: what their readers test
  (\<open>isinstance\<close>, \<open>get\<close>, truth, \<open>int\<close>) and how \<open>json.dumps\<close> writes them.  A dictionary is the list of
  its items in insertion order; keys are text.
\<close>

datatype pydoc =
    PyNone
  | PyBool bool
  | PyInt int
  | PyFloat pyfloat
  | PyStr string
  | PyList "pydoc list"
  | PyTuple "pydoc list"
  | PyDict "(string \<times> pydoc) list"

type_synonym pydict = "(string \<times> pydoc) list"

definition dict_get :: "pydict \<Rightarrow> string \<Rightarrow> pydoc" where
  "dict_get d k = (case map_of d k of None \<Rightarrow> PyNone | Some v \<Rightarrow> v)"

definition is_dict :: "pydoc \<Rightarrow> bool" where
  "is_dict v = (case v of PyDict d \<Rightarrow> True | _ \<Rightarrow> False)"

definition items_of :: "pydoc \<Rightarrow> pydict" where
  "items_of v = (case v of PyDict d \<Rightarrow> d | _ \<Rightarrow> [])"

definition elements_of :: "pydoc \<Rightarrow> pydoc list" where
  "elements_of v = (case v of PyList vs \<Rightarrow> vs | PyTuple vs \<Rightarrow> vs | _ \<Rightarrow> [])"

definition truth :: "pydoc \<Rightarrow> bool" where
  "truth v = (case v of
       PyNone \<Rightarrow> False | PyBool b \<Rightarrow> b | PyInt n \<Rightarrow> n \<noteq> 0 | PyFloat x \<Rightarrow> x \<noteq> Finite 0 | PyStr s \<Rightarrow> s \<noteq> []
     | PyList vs \<Rightarrow> vs \<noteq> [] | PyTuple vs \<Rightarrow> vs \<noteq> [] | PyDict d \<Rightarrow> d \<noteq> [])"

text \<open>\<open>v == text\<close> for a constant text, and \<open>v in a set of texts\<close> for a hashable \<open>v\<close>.\<close>

definition text_in :: "pydoc \<Rightarrow> string list \<Rightarrow> bool" where
  "text_in v ts = (case v of PyStr s \<Rightarrow> s \<in> set ts | _ \<Rightarrow> False)"

fun hashable :: "pydoc \<Rightarrow> bool" where
  "hashable (PyList vs) = False"
| "hashable (PyDict d) = False"
| "hashable (PyTuple vs) = list_all hashable vs"
| "hashable v = True"

text \<open>A dictionary with the same items, in any order, as one whose values are texts.\<close>

definition same_items :: "pydict \<Rightarrow> pydict \<Rightarrow> bool" where
  "same_items d e = (length d = length e \<and> list_all (\<lambda>(k, v). map_of d k = Some v) e)"

datatype int_error = Int_type | Int_value | Int_overflow

text \<open>\<open>int(v or n)\<close>.\<close>

definition int_or :: "int \<Rightarrow> pydoc \<Rightarrow> int_error + int" where
  "int_or n v =
     (if \<not> truth v then Inr n
      else (case v of
              PyBool b \<Rightarrow> Inr 1
            | PyInt k \<Rightarrow> Inr k
            | PyFloat (Finite r) \<Rightarrow> Inr (trunc_rat r)
            | PyFloat NaN \<Rightarrow> Inl Int_value
            | PyFloat _ \<Rightarrow> Inl Int_overflow
            | PyStr s \<Rightarrow> (case py_int s of None \<Rightarrow> Inl Int_value | Some k \<Rightarrow> Inr k)
            | _ \<Rightarrow> Inl Int_type))"

section \<open>json.dumps with sorted keys and no blanks\<close>

text \<open>\<open>show_float\<close> is Python's \<open>repr\<close> of a float.\<close>

definition signed_decimal :: "int \<Rightarrow> string" where
  "signed_decimal n = (if n < 0 then CHR ''-'' # decimal (nat (- n)) else decimal (nat n))"

fun compact_dumps :: "(pyfloat \<Rightarrow> string) \<Rightarrow> pydoc \<Rightarrow> string" where
  "compact_dumps show_float PyNone = ''null''"
| "compact_dumps show_float (PyBool b) = (if b then ''true'' else ''false'')"
| "compact_dumps show_float (PyInt n) = signed_decimal n"
| "compact_dumps show_float (PyFloat x) = show_float x"
| "compact_dumps show_float (PyStr s) = quoted s"
| "compact_dumps show_float (PyList vs) = ''['' @ join_with '','' (map (compact_dumps show_float) vs) @ '']''"
| "compact_dumps show_float (PyTuple vs) = ''['' @ join_with '','' (map (compact_dumps show_float) vs) @ '']''"
| "compact_dumps show_float (PyDict d) =
     ''{'' @ join_with '','' (map (\<lambda>(k, t). quoted k @ '':'' @ t)
       (sort_key fst (map (\<lambda>(k, v). (k, compact_dumps show_float v)) d))) @ ''}''"

text \<open>A code point below 128 is one byte of UTF-8, one below 256 two.\<close>

definition utf8_length :: "string \<Rightarrow> nat" where
  "utf8_length s = (\<Sum>c\<leftarrow>s. if (of_char c :: nat) < 128 then 1 else 2)"

section \<open>Facts\<close>

text \<open>A chain of guards that raise.\<close>

lemma guard_Inr: "(if b then Inl e else x) = Inr y \<longleftrightarrow> \<not> b \<and> x = Inr y"
  by simp

lemma dict_get_simps [simp]:
  "dict_get [] k = PyNone"
  "dict_get ((k', v) # d) k = (if k = k' then v else dict_get d k)"
  by (simp_all add: dict_get_def)

lemma dict_get_update [simp]: "dict_get (AList.update k v d) k' = (if k' = k then v else dict_get d k')"
  by (simp add: dict_get_def update_conv')

lemma is_dict_simps [simp]: "is_dict (PyDict d)" "\<not> is_dict PyNone" "\<not> is_dict (PyStr s)" "\<not> is_dict (PyList vs)"
  by (simp_all add: is_dict_def)

lemma is_dictE: "is_dict v \<Longrightarrow> (\<And>d. v = PyDict d \<Longrightarrow> P) \<Longrightarrow> P"
  by (auto simp: is_dict_def split: pydoc.splits)

lemma items_of_simps [simp]: "items_of (PyDict d) = d" "items_of PyNone = []"
  by (simp_all add: items_of_def)

lemma elements_of_simps [simp]: "elements_of (PyList vs) = vs" "elements_of (PyTuple vs) = vs" "elements_of PyNone = []"
  by (simp_all add: elements_of_def)

lemma text_in_simps [simp]: "text_in (PyStr s) ts = (s \<in> set ts)" "\<not> text_in PyNone ts"
  by (simp_all add: text_in_def)

lemma same_items_refl: "distinct (map fst d) \<Longrightarrow> same_items d d"
  by (auto simp: same_items_def list_all_iff)

end
