(* ===== verification/Swarm_Outcome.thy ===== *)
theory Swarm_Outcome
  imports Python_Documents
begin

text \<open>
  The product outcome contract of the second engine, \<open>engines/swarm_v2/outcome.py\<close>: the decision from
  fields, outstanding items and a trusted negative, the payload it is rendered as, the validator the
  worker calls on that payload, and the addition of a degraded step to a finished payload.
\<close>

section \<open>Vocabulary\<close>

definition PRODUCT_STATUSES :: "string list" where
  "PRODUCT_STATUSES = [''complete'', ''partial_success'']"

definition RESULT_KINDS :: "string list" where
  "RESULT_KINDS = [''usable_result'', ''partial_result'', ''no_usable_result'', ''not_found'']"

definition ALLOWED_OUTCOMES :: "(string \<times> string) list" where
  "ALLOWED_OUTCOMES = [(''complete'', ''usable_result''), (''complete'', ''not_found''),
     (''partial_success'', ''partial_result''), (''partial_success'', ''no_usable_result'')]"

definition DURABLE_RUN_STATUS :: "(string \<times> string) list" where
  "DURABLE_RUN_STATUS = [(''complete'', ''completed''), (''partial_success'', ''partial_success'')]"

definition USEFUL_TERMINAL_OUTCOMES :: "(string \<times> string) list" where
  "USEFUL_TERMINAL_OUTCOMES = [(''completed'', ''usable_result''), (''completed'', ''not_found''),
     (''partial_success'', ''usable_result''), (''partial_success'', ''partial_result'')]"

definition is_useful_outcome :: "string \<Rightarrow> string \<Rightarrow> bool" where
  "is_useful_outcome s kind = ((s, kind) \<in> set USEFUL_TERMINAL_OUTCOMES)"

definition NO_USABLE_RESULT_CODE :: string where "NO_USABLE_RESULT_CODE = ''NO_USABLE_RESULT''"

definition CANDIDATE_OUTCOMES :: "string list" where
  "CANDIDATE_OUTCOMES = [''resolved'', ''unresolved_ambiguous'', ''unresolved_not_found'']"

definition DEGRADED_STEP_CODES :: "(string \<times> string) list" where
  "DEGRADED_STEP_CODES =
     [(''COMMANDER_REPLAN_REJECTED'', ''commander_replan''), (''COVERAGE_CHECK_FAILED'', ''coverage_check''),
      (''CONFLICT_DETECTION_FAILED'', ''conflict_detection''), (''VERIFIER_FAILED'', ''verification''),
      (''VERIFICATION_BUDGET_INSUFFICIENT'', ''verification''),
      (''CANDIDATE_OUTCOMES_FAILED'', ''candidate_outcomes''), (''ASSEMBLER_FAILED'', ''catalog_assembly''),
      (''FINAL_BUILD_DEGRADED'', ''final_build''), (''CATALOG_PROMOTION_FAILED'', ''catalog_promotion'')]"

datatype outcome_error =
    Unknown_degraded_code
  | Untrusted_negative
  | Not_a_mapping
  | Vocabulary_not_text
  | Vocabulary_unknown
  | Status_contradicts_kind
  | Structurally_invalid
  | Kind_contradicts_fields
  | Complete_with_review
  | Marker_missing
  | Marker_contradicts_kind
  | Candidates_invalid

definition degraded_review_item :: "string \<Rightarrow> outcome_error + pydict" where
  "degraded_review_item code = (case map_of DEGRADED_STEP_CODES code of
       None \<Rightarrow> Inl Unknown_degraded_code
     | Some step \<Rightarrow> Inr [(''task_id'', PyStr step), (''code'', PyStr code)])"

section \<open>The decision\<close>

text \<open>A decided outcome is its status and its result kind.\<close>

record v2_outcome =
  v2_status :: string
  v2_kind :: string

text \<open>A negative signal is the typed one, whose code the contract fixes, or anything else.\<close>

datatype negative_signal = Trusted_negative | Lookalike

definition usable_entry :: "pydoc \<Rightarrow> bool" where
  "usable_entry v = (elements_of v \<noteq> [])"

definition usable_field_count :: "pydict \<Rightarrow> nat" where
  "usable_field_count flds = length (filter (\<lambda>(k, v). usable_entry v) flds)"

definition decide_outcome :: "bool \<Rightarrow> bool \<Rightarrow> negative_signal option \<Rightarrow> outcome_error + v2_outcome" where
  "decide_outcome usable_fields has_blocking_items trusted_negative =
     (if usable_fields
      then Inr (if has_blocking_items then \<lparr>v2_status = ''partial_success'', v2_kind = ''partial_result''\<rparr>
                else \<lparr>v2_status = ''complete'', v2_kind = ''usable_result''\<rparr>)
      else if trusted_negative \<noteq> None \<and> \<not> has_blocking_items
      then (if trusted_negative = Some Lookalike then Inl Untrusted_negative
            else Inr \<lparr>v2_status = ''complete'', v2_kind = ''not_found''\<rparr>)
      else Inr \<lparr>v2_status = ''partial_success'', v2_kind = ''no_usable_result''\<rparr>)"

definition is_marker :: "pydoc \<Rightarrow> bool" where
  "is_marker item = (is_dict item \<and> dict_get (items_of item) ''code'' = PyStr NO_USABLE_RESULT_CODE)"

definition marker :: pydoc where "marker = PyDict [(''code'', PyStr NO_USABLE_RESULT_CODE)]"

definition with_marker :: "pydoc list \<Rightarrow> pydoc list" where
  "with_marker review = filter (\<lambda>item. \<not> is_marker item) review @ [marker]"

definition finalize_product_outcome ::
  "pydict \<Rightarrow> pydoc list \<Rightarrow> pydoc list \<Rightarrow> pydoc list \<Rightarrow> string list \<Rightarrow> string list \<Rightarrow> negative_signal option \<Rightarrow>
     pydict list \<Rightarrow> outcome_error + pydict" where
  "finalize_product_outcome flds verdict_review task_failures coverage_gaps conflict_claim_ids
     unverified_claim_ids trusted_negative candidate_outcomes =
     (let review = verdict_review @ task_failures @ coverage_gaps;
          has_blocking_items = (review \<noteq> [] \<or> conflict_claim_ids \<noteq> [] \<or> unverified_claim_ids \<noteq> [])
      in res_bind (decide_outcome (0 < usable_field_count flds) has_blocking_items trusted_negative)
           (\<lambda>out. Inr ([(''status'', PyStr (v2_status out)), (''result_kind'', PyStr (v2_kind out)),
                        (''fields'', PyDict flds),
                        (''needs_review'', PyList (if v2_kind out = ''no_usable_result'' then with_marker review else review))]
                       @ (if candidate_outcomes = [] then []
                          else [(''candidate_outcomes'', PyList (map PyDict candidate_outcomes))]))))"

section \<open>The validator\<close>

definition marker_positions :: "pydoc list \<Rightarrow> nat list" where
  "marker_positions review = filter (\<lambda>i. is_marker (review ! i)) [0..<length review]"

definition candidates_ok :: "pydict \<Rightarrow> bool" where
  "candidates_ok result = (case map_of result ''candidate_outcomes'' of
       None \<Rightarrow> True
     | Some (PyList vs) \<Rightarrow> vs \<noteq> [] \<and>
         list_all (\<lambda>v. is_dict v \<and> text_in (dict_get (items_of v) ''outcome'') CANDIDATE_OUTCOMES) vs
     | Some _ \<Rightarrow> False)"

definition check_outcome :: "string \<Rightarrow> string \<Rightarrow> pydict \<Rightarrow> pydoc list \<Rightarrow> pydict \<Rightarrow> outcome_error + v2_outcome" where
  "check_outcome s kind flds review result =
     (if \<not> list_all is_dict review then Inl Structurally_invalid
      else if (0 < usable_field_count flds) \<noteq> (kind \<in> {''usable_result'', ''partial_result''})
      then Inl Kind_contradicts_fields
      else if s = ''complete'' \<and> review \<noteq> [] then Inl Complete_with_review
      else if kind = ''no_usable_result'' \<and>
          (review = [] \<or> marker_positions review \<noteq> [length review - 1] \<or> last review \<noteq> marker)
      then Inl Marker_missing
      else if kind \<noteq> ''no_usable_result'' \<and> marker_positions review \<noteq> [] then Inl Marker_contradicts_kind
      else if \<not> candidates_ok result then Inl Candidates_invalid
      else Inr \<lparr>v2_status = s, v2_kind = kind\<rparr>)"

definition check_parts :: "string \<Rightarrow> string \<Rightarrow> pydict \<Rightarrow> outcome_error + v2_outcome" where
  "check_parts s kind result =
     (if s \<notin> set PRODUCT_STATUSES \<or> kind \<notin> set RESULT_KINDS then Inl Vocabulary_unknown
      else if (s, kind) \<notin> set ALLOWED_OUTCOMES then Inl Status_contradicts_kind
      else (case dict_get result ''fields'' of
              PyDict flds \<Rightarrow> (case dict_get result ''needs_review'' of
                  PyList review \<Rightarrow> check_outcome s kind flds review result
                | _ \<Rightarrow> Inl Structurally_invalid)
            | _ \<Rightarrow> Inl Structurally_invalid))"

definition validate_product_outcome :: "pydoc \<Rightarrow> outcome_error + v2_outcome" where
  "validate_product_outcome value =
     (case value of
        PyDict result \<Rightarrow> (case dict_get result ''status'' of
            PyStr s \<Rightarrow> (case dict_get result ''result_kind'' of
                PyStr kind \<Rightarrow> check_parts s kind result
              | _ \<Rightarrow> Inl Vocabulary_not_text)
          | _ \<Rightarrow> Inl Vocabulary_not_text)
      | _ \<Rightarrow> Inl Not_a_mapping)"

definition durable_run_status :: "pydoc \<Rightarrow> outcome_error + string" where
  "durable_run_status value =
     res_bind (validate_product_outcome value) (\<lambda>out. Inr (the (map_of DURABLE_RUN_STATUS (v2_status out))))"

section \<open>A step that degraded after the payload was built\<close>

definition has_item :: "pydict \<Rightarrow> pydoc list \<Rightarrow> bool" where
  "has_item item review = list_ex (\<lambda>v. is_dict v \<and> same_items (items_of v) item) review"

definition degraded_review :: "pydict \<Rightarrow> pydoc list \<Rightarrow> pydoc list" where
  "degraded_review item review =
     (let kept = filter (\<lambda>v. \<not> is_marker v) review in if has_item item kept then kept else kept @ [PyDict item])"

definition with_degraded_review :: "pydict \<Rightarrow> string \<Rightarrow> outcome_error + pydict" where
  "with_degraded_review result code =
     res_bind (validate_product_outcome (PyDict result)) (\<lambda>_.
     res_bind (degraded_review_item code) (\<lambda>item.
       let review = degraded_review item (elements_of (dict_get result ''needs_review''))
       in res_bind (decide_outcome (0 < usable_field_count (items_of (dict_get result ''fields''))) True None) (\<lambda>out.
          let degraded = AList.update ''needs_review''
                (PyList (if v2_kind out = ''no_usable_result'' then with_marker review else review))
                (AList.update ''result_kind'' (PyStr (v2_kind out)) (AList.update ''status'' (PyStr (v2_status out)) result))
          in res_bind (validate_product_outcome (PyDict degraded)) (\<lambda>_. Inr degraded))))"

section \<open>Facts\<close>

lemmas vocabulary = PRODUCT_STATUSES_def RESULT_KINDS_def ALLOWED_OUTCOMES_def NO_USABLE_RESULT_CODE_def

lemma marker_positions_Nil: "marker_positions review = [] \<longleftrightarrow> \<not> list_ex is_marker review"
  by (auto simp: marker_positions_def filter_empty_conv list_ex_length)

lemma is_marker_marker [simp]: "is_marker marker" "is_dict marker"
  by (simp_all add: is_marker_def marker_def)

lemma with_marker_positions: "marker_positions (with_marker review) = [length (with_marker review) - 1]"
proof -
  let ?kept = "filter (\<lambda>item. \<not> is_marker item) review"
  have "[0..<length (with_marker review)] = [0..<length ?kept] @ [length ?kept]"
    by (simp add: with_marker_def)
  moreover have "filter (\<lambda>i. is_marker (with_marker review ! i)) [0..<length ?kept] = []"
    using nth_mem [of _ ?kept] by (auto simp: filter_empty_conv with_marker_def nth_append)
  ultimately show ?thesis by (simp add: marker_positions_def with_marker_def)
qed

lemma with_marker_simps [simp]:
  "with_marker review \<noteq> []" "last (with_marker review) = marker"
  "with_marker (with_marker review) = with_marker review"
  by (simp_all add: with_marker_def)

lemma with_marker_dicts: "list_all is_dict review \<Longrightarrow> list_all is_dict (with_marker review)"
  by (auto simp: with_marker_def list_all_iff)

text \<open>What a payload must satisfy to be valid, and what its outcome then is.\<close>

definition consistent :: "v2_outcome \<Rightarrow> pydict \<Rightarrow> pydoc list \<Rightarrow> bool" where
  "consistent out flds review =
     ((v2_status out, v2_kind out) \<in> set ALLOWED_OUTCOMES \<and> list_all is_dict review \<and>
      (0 < usable_field_count flds) = (v2_kind out \<in> {''usable_result'', ''partial_result''}) \<and>
      (v2_status out = ''complete'' \<longrightarrow> review = []) \<and>
      (if v2_kind out = ''no_usable_result''
       then review \<noteq> [] \<and> marker_positions review = [length review - 1] \<and> last review = marker
       else marker_positions review = []))"

lemma allowed_vocabulary: "(s, k) \<in> set ALLOWED_OUTCOMES \<Longrightarrow> s \<in> set PRODUCT_STATUSES \<and> k \<in> set RESULT_KINDS"
  by (auto simp: vocabulary)

lemma checks_Inr:
  "((if \<not> a then Inl e1 else if b \<noteq> c then Inl e2 else if d \<and> r then Inl e3
     else if k \<and> (x \<or> y \<or> z) then Inl e4 else if \<not> k \<and> m then Inl e5 else if \<not> n then Inl e6 else Inr o1) =
    Inr o2) =
   (a \<and> b = c \<and> (d \<longrightarrow> \<not> r) \<and> (if k then \<not> x \<and> \<not> y \<and> \<not> z else \<not> m) \<and> n \<and> o2 = o1)"
  by auto

lemma check_outcome_iff:
  "check_outcome s kind flds review result = Inr out \<and> (s, kind) \<in> set ALLOWED_OUTCOMES \<longleftrightarrow>
     out = \<lparr>v2_status = s, v2_kind = kind\<rparr> \<and> consistent out flds review \<and> candidates_ok result"
proof (cases "out = \<lparr>v2_status = s, v2_kind = kind\<rparr>")
  case True
  then have parts: "v2_status out = s" "v2_kind out = kind" by simp_all
  show ?thesis
    unfolding consistent_def parts check_outcome_def checks_Inr not_not using True by argo
next
  case False
  then show ?thesis unfolding check_outcome_def checks_Inr by argo
qed

lemma check_parts_iff:
  "check_parts s kind result = Inr out \<longleftrightarrow>
     (\<exists>flds review. dict_get result ''fields'' = PyDict flds \<and> dict_get result ''needs_review'' = PyList review \<and>
        check_outcome s kind flds review result = Inr out \<and> (s, kind) \<in> set ALLOWED_OUTCOMES)"
  unfolding check_parts_def using allowed_vocabulary [of s kind] by (auto split: pydoc.split)

lemma validate_iff:
  "validate_product_outcome (PyDict result) = Inr out \<longleftrightarrow>
     (\<exists>flds review. dict_get result ''status'' = PyStr (v2_status out) \<and>
        dict_get result ''result_kind'' = PyStr (v2_kind out) \<and>
        dict_get result ''fields'' = PyDict flds \<and> dict_get result ''needs_review'' = PyList review \<and>
        consistent out flds review \<and> candidates_ok result)"
proof -
  have "validate_product_outcome (PyDict result) = Inr out \<longleftrightarrow>
      (\<exists>s kind. dict_get result ''status'' = PyStr s \<and> dict_get result ''result_kind'' = PyStr kind \<and>
         check_parts s kind result = Inr out)"
    unfolding validate_product_outcome_def by (auto split: pydoc.split)
  then show ?thesis unfolding check_parts_iff check_outcome_iff by auto
qed

end
