(* ===== verification/Product_Outcome.thy ===== *)
theory Product_Outcome
  imports Swarm_Outcome
begin

text \<open>
  The one product outcome both engines are read through, \<open>backend/product_outcome.py\<close>: the value
  objects, the derivation from the final payload of either engine, the demotion by facts a payload does
  not carry, the acceptance gate, and the recorded form with its fail-closed reader.

  \<open>show_float\<close> is Python's \<open>repr\<close> of a float and \<open>sha256\<close> the hexadecimal digest of a text's UTF-8
  bytes; only the identity of digests is used.
\<close>

section \<open>Vocabulary\<close>

datatype semantic = Complete | Partial | Unusable | Refused | Not_produced

datatype usability_class = Usable_result | Partial_result | Unusable_result | Refused_result | No_result

fun semantic_text :: "semantic \<Rightarrow> string" where
  "semantic_text Complete = ''complete''"
| "semantic_text Partial = ''partial''"
| "semantic_text Unusable = ''unusable''"
| "semantic_text Refused = ''refused''"
| "semantic_text Not_produced = ''not_produced''"

fun usability_text :: "usability_class \<Rightarrow> string" where
  "usability_text Usable_result = ''usable''"
| "usability_text Partial_result = ''partial''"
| "usability_text Unusable_result = ''unusable''"
| "usability_text Refused_result = ''refused''"
| "usability_text No_result = ''none''"

definition SEMANTIC_STATUSES :: "semantic list" where
  "SEMANTIC_STATUSES = [Complete, Partial, Unusable, Refused, Not_produced]"

definition semantic_of_text :: "string \<Rightarrow> semantic option" where
  "semantic_of_text s = find (\<lambda>x. semantic_text x = s) SEMANTIC_STATUSES"

fun usability_of :: "semantic \<Rightarrow> usability_class" where
  "usability_of Complete = Usable_result"
| "usability_of Partial = Partial_result"
| "usability_of Unusable = Unusable_result"
| "usability_of Refused = Refused_result"
| "usability_of Not_produced = No_result"

definition ACCEPTABLE_USABILITY :: "usability_class list" where
  "ACCEPTABLE_USABILITY = [Usable_result, Partial_result]"

definition BLOCKING_CODES :: "string list" where
  "BLOCKING_CODES = [''OUTSTANDING_REVIEW_ITEMS'', ''TASK_FAILURES'', ''COVERAGE_GAPS'', ''UNVERIFIED_CLAIMS'',
     ''CONFLICTING_CLAIMS'', ''REJECTED_ITEMS'', ''FAILED_AGENTS'', ''DEGRADED_VERIFICATION'',
     ''DEGRADED_ENRICHMENT'', ''NO_USABLE_RESULT'', ''NO_PRODUCT_PAYLOAD'', ''OUTCOME_CONTRACT_VIOLATION'',
     ''ENGINE_REPORTED_FAILURE'', ''REFUSED_BEFORE_EXECUTION'', ''RUN_NOT_PRODUCED'']"

definition V1_COMPLETE_CLAIMS :: "string list" where "V1_COMPLETE_CLAIMS = [''complete'', ''success'']"
definition V1_FAILURE_CLAIMS :: "string list" where "V1_FAILURE_CLAIMS = [''failed'']"
definition V1_UNSETTLED_VERDICTS :: "string list" where "V1_UNSETTLED_VERDICTS = [''partial'', ''needs_review'']"
definition V1_REJECTED_VERDICT :: string where "V1_REJECTED_VERDICT = ''rejected''"
definition V1_DEGRADED_STAGE :: "string list" where
  "V1_DEGRADED_STAGE = [''partial'', ''failed'', ''needs_review'', ''rejected'']"

definition MAX_ENGINE_NAME_CHARS :: nat where "MAX_ENGINE_NAME_CHARS = 64"
definition MAX_SHAPE_KEYS :: nat where "MAX_SHAPE_KEYS = 24"
definition MAX_SHAPE_KEY_CHARS :: nat where "MAX_SHAPE_KEY_CHARS = 48"

text \<open>A \<open>ProductOutcomeError\<close> with its reason, or an exception the module does not make one of.\<close>

datatype product_error =
    Negative_coverage
  | Blocking_code_unknown
  | Blocking_count_not_positive
  | Blocking_code_repeated
  | Record_not_mapping
  | Record_semantic_unknown
  | Record_coverage_not_countable
  | Record_item_not_object
  | Record_code_unknown
  | Record_count_not_integer
  | Escaped int_error
  | Unhashable_verdict

section \<open>Value objects\<close>

record coverage =
  produced :: int
  outstanding :: int

definition make_coverage :: "int \<Rightarrow> int \<Rightarrow> product_error + coverage" where
  "make_coverage p n = (if p < 0 \<or> n < 0 then Inl Negative_coverage else Inr \<lparr>produced = p, outstanding = n\<rparr>)"

definition coverage_total :: "coverage \<Rightarrow> int" where
  "coverage_total c = produced c + outstanding c"

definition coverage_ratio :: "coverage \<Rightarrow> rat option" where
  "coverage_ratio c = (if coverage_total c = 0 then None
     else Some (py_round 6 (of_int (produced c) / of_int (coverage_total c))))"

type_synonym blocking_item = "string \<times> int"

definition make_item :: "string \<Rightarrow> int \<Rightarrow> product_error + blocking_item" where
  "make_item code n = (if code \<notin> set BLOCKING_CODES then Inl Blocking_code_unknown
     else if n < 1 then Inl Blocking_count_not_positive else Inr (code, n))"

record payload_reference =
  present :: bool
  digest :: string
  byte_size :: int
  shape :: "string list"

definition ABSENT_PAYLOAD :: payload_reference where
  "ABSENT_PAYLOAD = \<lparr>present = False, digest = [], byte_size = 0, shape = []\<rparr>"

definition name_char :: "char \<Rightarrow> bool" where
  "name_char c = (let n = (of_char c :: nat) in
     (48 \<le> n \<and> n \<le> 57) \<or> (65 \<le> n \<and> n \<le> 90) \<or> (97 \<le> n \<and> n \<le> 122) \<or> n = 95)"

definition payload_shape :: "pydoc \<Rightarrow> string list" where
  "payload_shape payload = (case payload of
       PyDict d \<Rightarrow> take MAX_SHAPE_KEYS (filter (\<lambda>k. k \<noteq> [])
                    (sort (map (\<lambda>(k, v). take MAX_SHAPE_KEY_CHARS (filter name_char k)) d)))
     | _ \<Rightarrow> [])"

definition safe_payload_reference ::
  "(pyfloat \<Rightarrow> string) \<Rightarrow> (string \<Rightarrow> string) \<Rightarrow> pydoc \<Rightarrow> payload_reference" where
  "safe_payload_reference show_float sha256 payload =
     (if payload = PyNone then ABSENT_PAYLOAD
      else (let encoded = compact_dumps show_float payload in
            \<lparr>present = True, digest = sha256 encoded, byte_size = int (utf8_length encoded),
             shape = payload_shape payload\<rparr>))"

record outcome =
  engine_name :: string
  semantic_status :: semantic
  coverage_of :: coverage
  blocking :: "blocking_item list"
  payload_ref :: payload_reference
  result_kind :: "string option"

definition make_outcome ::
  "string \<Rightarrow> semantic \<Rightarrow> coverage \<Rightarrow> blocking_item list \<Rightarrow> payload_reference \<Rightarrow> string option \<Rightarrow>
     product_error + outcome" where
  "make_outcome name s c items reference kind =
     (if \<not> distinct (map fst items) then Inl Blocking_code_repeated
      else Inr \<lparr>engine_name = name, semantic_status = s, coverage_of = c, blocking = items, payload_ref = reference,
                result_kind = kind\<rparr>)"

definition outcome_usability :: "outcome \<Rightarrow> usability_class" where
  "outcome_usability o1 = usability_of (semantic_status o1)"

definition is_usable :: "outcome \<Rightarrow> bool" where
  "is_usable o1 = (outcome_usability o1 \<in> set ACCEPTABLE_USABILITY)"

fun durable_product_status :: "semantic \<Rightarrow> string" where
  "durable_product_status Complete = ''completed''"
| "durable_product_status Partial = ''partial_success''"
| "durable_product_status Unusable = ''partial_success''"
| "durable_product_status Refused = ''failed''"
| "durable_product_status Not_produced = ''failed''"

text \<open>\<open>_blocking\<close>: the positive counts in the order of their codes.\<close>

definition blocking_of :: "(string \<times> int) list \<Rightarrow> product_error + blocking_item list" where
  "blocking_of counts = foldr (\<lambda>(code, n) acc.
       res_bind (make_item code n) (\<lambda>i. res_bind acc (\<lambda>is. Inr (i # is))))
     (filter (\<lambda>(code, n). 0 < n) (sort_key fst counts)) (Inr [])"

section \<open>Demotion\<close>

fun merge_counts :: "(string \<times> int) list \<Rightarrow> bool \<Rightarrow> (string \<times> int) list \<Rightarrow> product_error + (string \<times> int) list \<times> bool" where
  "merge_counts merged changed [] = Inr (merged, changed)"
| "merge_counts merged changed ((code, n) # counts) =
     (if n \<le> 0 then merge_counts merged changed counts
      else if code \<notin> set BLOCKING_CODES then Inl Blocking_code_unknown
      else if (case map_of merged code of None \<Rightarrow> 0 | Some k \<Rightarrow> k) < n
      then merge_counts (AList.update code n merged) True counts
      else merge_counts merged changed counts)"

definition demoted_with :: "outcome \<Rightarrow> (string \<times> int) list \<Rightarrow> product_error + outcome" where
  "demoted_with o1 counts =
     res_bind (merge_counts (blocking o1) False counts) (\<lambda>(merged, changed).
       if \<not> changed then Inr o1
       else res_bind (make_coverage (produced (coverage_of o1)) (max (outstanding (coverage_of o1)) (\<Sum>p\<leftarrow>merged. snd p))) (\<lambda>c.
            res_bind (blocking_of merged) (\<lambda>items.
              make_outcome (engine_name o1)
                (if semantic_status o1 = Complete then Partial else semantic_status o1) c items (payload_ref o1)
                (if semantic_status o1 = Complete then Some ''partial_result'' else result_kind o1))))"

section \<open>The acceptance gate\<close>

datatype problem = Not_usable semantic | Not_complete semantic | No_payload_recorded | Blocked_by string int

definition REFUSING_CODES :: "string list" where
  "REFUSING_CODES = [''OUTCOME_CONTRACT_VIOLATION'', ''NO_PRODUCT_PAYLOAD'', ''ENGINE_REPORTED_FAILURE'',
     ''REFUSED_BEFORE_EXECUTION'', ''RUN_NOT_PRODUCED'']"

definition acceptance_problems :: "bool \<Rightarrow> outcome \<Rightarrow> problem list" where
  "acceptance_problems require_complete o1 =
     (if \<not> is_usable o1 then [Not_usable (semantic_status o1)]
      else if require_complete \<and> semantic_status o1 \<noteq> Complete then [Not_complete (semantic_status o1)] else []) @
     (if is_usable o1 \<and> \<not> present (payload_ref o1) then [No_payload_recorded] else []) @
     map (\<lambda>(code, n). Blocked_by code n) (filter (\<lambda>(code, n). code \<in> set REFUSING_CODES) (blocking o1))"

section \<open>Outcomes without a product\<close>

definition clean_name :: "string option \<Rightarrow> string" where
  "clean_name engine = (let name = take MAX_ENGINE_NAME_CHARS
       (filter name_char (py_strip (case engine of None \<Rightarrow> [] | Some e \<Rightarrow> e)))
     in if name = [] then ''unknown'' else name)"

definition NO_COVERAGE :: coverage where "NO_COVERAGE = \<lparr>produced = 0, outstanding = 0\<rparr>"

definition refused_outcome :: "string \<Rightarrow> string \<Rightarrow> payload_reference \<Rightarrow> outcome" where
  "refused_outcome engine code reference =
     \<lparr>engine_name = clean_name (Some engine), semantic_status = Refused, coverage_of = NO_COVERAGE,
      blocking = [(if code \<in> set BLOCKING_CODES then code else ''REFUSED_BEFORE_EXECUTION'', 1)],
      payload_ref = reference, result_kind = None\<rparr>"

definition not_produced_outcome :: "string \<Rightarrow> outcome" where
  "not_produced_outcome engine =
     \<lparr>engine_name = clean_name (Some engine), semantic_status = Not_produced, coverage_of = NO_COVERAGE,
      blocking = [(''RUN_NOT_PRODUCED'', 1)], payload_ref = ABSENT_PAYLOAD, result_kind = None\<rparr>"

section \<open>Swarm V2\<close>

text \<open>The two derivations build an outcome from counts that are positive where they are recorded.\<close>

definition build_outcome ::
  "string \<Rightarrow> semantic \<Rightarrow> int \<Rightarrow> int \<Rightarrow> (string \<times> int) list \<Rightarrow> payload_reference \<Rightarrow> string option \<Rightarrow>
     product_error + outcome" where
  "build_outcome name s p n counts reference kind =
     res_bind (make_coverage p n) (\<lambda>c. res_bind (blocking_of counts) (\<lambda>items. make_outcome name s c items reference kind))"

definition derive_swarm_v2_outcome :: "payload_reference \<Rightarrow> pydoc \<Rightarrow> product_error + outcome" where
  "derive_swarm_v2_outcome reference output =
     (case validate_product_outcome output of
        Inl _ \<Rightarrow> build_outcome ''swarm_v2'' Refused 0 0 [(''OUTCOME_CONTRACT_VIOLATION'', 1)] reference None
      | Inr validated \<Rightarrow>
          (let flds = items_of (dict_get (items_of output) ''fields'');
               review = elements_of (dict_get (items_of output) ''needs_review'');
               p = (\<Sum>(k, v)\<leftarrow>flds. int (length (elements_of v)));
               n = int (length (filter (\<lambda>v. \<not> is_marker v) review))
           in build_outcome ''swarm_v2''
                (if v2_kind validated = ''no_usable_result'' then Unusable
                 else if v2_kind validated = ''partial_result'' then Partial else Complete)
                p n ((''OUTSTANDING_REVIEW_ITEMS'', n) #
                     (if v2_kind validated = ''no_usable_result'' then [(''NO_USABLE_RESULT'', 1)] else []))
                reference (Some (v2_kind validated))))"

section \<open>The vehicle catalog engine\<close>

definition is_catalog_document :: "pydict \<Rightarrow> bool" where
  "is_catalog_document final =
     ((case dict_get final ''models'' of PyList _ \<Rightarrow> True | _ \<Rightarrow> False) \<and> is_dict (dict_get final ''pipeline_quality''))"

text \<open>Settled, unsettled and rejected models; a list where the verdict should be text cannot be hashed.\<close>

fun count_models :: "pydoc list \<Rightarrow> product_error + int \<times> int \<times> int" where
  "count_models [] = Inr (0, 0, 0)"
| "count_models (m # ms) =
     (let verdict = dict_get (items_of m) ''verification_status'' in
      if \<not> text_in verdict [V1_REJECTED_VERDICT] \<and> \<not> hashable verdict then Inl Unhashable_verdict
      else res_bind (count_models ms) (\<lambda>(settled, unsettled, rejected). Inr
             (if text_in verdict [V1_REJECTED_VERDICT] then (settled, unsettled, rejected + 1)
              else if text_in verdict V1_UNSETTLED_VERDICTS then (settled, unsettled + 1, rejected)
              else (settled + 1, unsettled, rejected))))"

definition count_of_view :: "pydict \<Rightarrow> string \<Rightarrow> int" where
  "count_of_view final k = int (length (elements_of (dict_get final k)))"

definition degraded_stage :: "pydict \<Rightarrow> string \<Rightarrow> int" where
  "degraded_stage final k =
     (if text_in (dict_get (items_of (dict_get final ''pipeline_quality'')) k) V1_DEGRADED_STAGE then 1 else 0)"

definition derive_catalog_document ::
  "string \<Rightarrow> payload_reference \<Rightarrow> string \<Rightarrow> pydict \<Rightarrow> product_error + outcome" where
  "derive_catalog_document name reference declared final =
     res_bind (count_models (elements_of (dict_get final ''models''))) (\<lambda>(settled, unsettled, rejected).
       let review_count = max unsettled (count_of_view final ''needs_review'');
           rejected_count = max rejected (count_of_view final ''rejected'');
           failed_agents = count_of_view final ''failed_agents'';
           counts = filter (\<lambda>(code, n). n \<noteq> 0)
             [(''OUTSTANDING_REVIEW_ITEMS'', review_count), (''REJECTED_ITEMS'', rejected_count),
              (''FAILED_AGENTS'', failed_agents), (''DEGRADED_VERIFICATION'', degraded_stage final ''verifier''),
              (''DEGRADED_ENRICHMENT'', degraded_stage final ''technical_enrichment'')];
           owed = review_count + rejected_count + failed_agents;
           complete = (counts = [] \<and> declared \<in> set V1_COMPLETE_CLAIMS \<and>
                       text_in (dict_get final ''status'') V1_COMPLETE_CLAIMS)
       in if settled = 0
          then build_outcome name Unusable 0 owed (counts @ [(''NO_USABLE_RESULT'', 1)]) reference (Some ''no_usable_result'')
          else build_outcome name (if complete then Complete else Partial) settled owed counts reference
                 (Some (if complete then ''usable_result'' else ''partial_result'')))"

definition derive_vehicle_catalog_v1_outcome ::
  "string \<Rightarrow> payload_reference \<Rightarrow> pydoc \<Rightarrow> product_error + outcome" where
  "derive_vehicle_catalog_v1_outcome name reference value =
     (case value of
        PyDict result \<Rightarrow>
          (let declared = (case dict_get result ''status'' of PyStr s \<Rightarrow> s | _ \<Rightarrow> []);
               inner = dict_get result ''result'';
               final = (if \<not> is_dict inner \<and> (map_of result ''models'' \<noteq> None \<or> map_of result ''pipeline_quality'' \<noteq> None)
                        then PyDict result else inner)
           in if declared \<in> set V1_FAILURE_CLAIMS \<or> \<not> is_dict final
              then build_outcome name Not_produced 0 0
                     [(if declared \<in> set V1_FAILURE_CLAIMS then ''ENGINE_REPORTED_FAILURE'' else ''NO_PRODUCT_PAYLOAD'', 1)]
                     reference None
              else if \<not> is_catalog_document (items_of final)
              then (if declared \<in> set V1_COMPLETE_CLAIMS
                    then build_outcome name Complete 1 0 [] reference (Some ''usable_result'')
                    else build_outcome name Partial 1 1 [(''OUTSTANDING_REVIEW_ITEMS'', 1)] reference (Some ''partial_result''))
              else derive_catalog_document name reference declared (items_of final))
      | _ \<Rightarrow> build_outcome name Not_produced 0 0 [(''NO_PRODUCT_PAYLOAD'', 1)] reference None)"

definition derive_product_outcome ::
  "(pyfloat \<Rightarrow> string) \<Rightarrow> (string \<Rightarrow> string) \<Rightarrow> string \<Rightarrow> pydoc \<Rightarrow> product_error + outcome" where
  "derive_product_outcome show_float sha256 engine output =
     (let name = clean_name (Some engine); reference = safe_payload_reference show_float sha256 output
      in if name = ''swarm_v2'' then derive_swarm_v2_outcome reference output
         else derive_vehicle_catalog_v1_outcome name reference output)"

section \<open>The recorded form\<close>

definition optional_text :: "string option \<Rightarrow> pydoc" where
  "optional_text t = (case t of None \<Rightarrow> PyNone | Some s \<Rightarrow> PyStr s)"

definition coverage_record :: "coverage \<Rightarrow> pydict" where
  "coverage_record c = [(''produced'', PyInt (produced c)), (''outstanding'', PyInt (outstanding c)),
     (''ratio'', case coverage_ratio c of None \<Rightarrow> PyNone | Some r \<Rightarrow> PyFloat (Finite r))]"

definition item_record :: "blocking_item \<Rightarrow> pydict" where
  "item_record i = [(''code'', PyStr (fst i)), (''count'', PyInt (snd i))]"

definition payload_record :: "payload_reference \<Rightarrow> pydict" where
  "payload_record r = [(''present'', PyBool (present r)), (''digest'', PyStr (digest r)),
     (''byte_size'', PyInt (byte_size r)), (''shape'', PyList (map PyStr (shape r)))]"

definition as_record :: "outcome \<Rightarrow> pydict" where
  "as_record o1 = [(''engine'', PyStr (engine_name o1)), (''semantic_status'', PyStr (semantic_text (semantic_status o1))),
     (''usability'', PyStr (usability_text (outcome_usability o1))), (''result_kind'', optional_text (result_kind o1)),
     (''coverage'', PyDict (coverage_record (coverage_of o1))),
     (''blocking'', PyList (map (\<lambda>i. PyDict (item_record i)) (blocking o1))),
     (''payload'', PyDict (payload_record (payload_ref o1)))]"

text \<open>\<open>show\<close> is Python's \<open>str\<close> of a value that is not text.\<close>

definition text_or_empty :: "(pydoc \<Rightarrow> string) \<Rightarrow> pydoc \<Rightarrow> string" where
  "text_or_empty show v = (if \<not> truth v then [] else case v of PyStr s \<Rightarrow> s | _ \<Rightarrow> show v)"

definition iterate :: "pydoc \<Rightarrow> product_error + pydoc list" where
  "iterate v = (if \<not> truth v then Inr [] else (case v of
       PyList vs \<Rightarrow> Inr vs | PyTuple vs \<Rightarrow> Inr vs
     | PyStr s \<Rightarrow> Inr (map (\<lambda>c. PyStr [c]) s) | PyDict d \<Rightarrow> Inr (map (\<lambda>p. PyStr (fst p)) d)
     | _ \<Rightarrow> Inl (Escaped Int_type)))"

text \<open>\<open>except (TypeError, ValueError)\<close> around a conversion: an \<open>OverflowError\<close> goes through.\<close>

definition caught :: "product_error \<Rightarrow> int_error + 'a \<Rightarrow> product_error + 'a" where
  "caught e r = (case r of Inr n \<Rightarrow> Inr n | Inl Int_overflow \<Rightarrow> Inl (Escaped Int_overflow) | Inl _ \<Rightarrow> Inl e)"

definition read_coverage :: "pydict \<Rightarrow> product_error + coverage" where
  "read_coverage d =
     res_bind (caught Record_coverage_not_countable (int_or 0 (dict_get d ''produced''))) (\<lambda>p.
     res_bind (caught Record_coverage_not_countable (int_or 0 (dict_get d ''outstanding''))) (\<lambda>n.
       case make_coverage p n of Inl _ \<Rightarrow> Inl Record_coverage_not_countable | Inr c \<Rightarrow> Inr c))"

definition read_item :: "pydoc \<Rightarrow> product_error + blocking_item" where
  "read_item v = (case v of
       PyDict d \<Rightarrow> (case dict_get d ''code'' of
           PyStr code \<Rightarrow> if code \<notin> set BLOCKING_CODES then Inl Record_code_unknown
             else res_bind (caught Record_count_not_integer (int_or 1 (dict_get d ''count''))) (\<lambda>n.
               case make_item code n of Inl _ \<Rightarrow> Inl Record_count_not_integer | Inr i \<Rightarrow> Inr i)
         | _ \<Rightarrow> Inl Record_code_unknown)
     | _ \<Rightarrow> Inl Record_item_not_object)"

fun read_items :: "pydoc list \<Rightarrow> product_error + blocking_item list" where
  "read_items [] = Inr []"
| "read_items (v # vs) = res_bind (read_item v) (\<lambda>i. res_bind (read_items vs) (\<lambda>is. Inr (i # is)))"

definition read_payload :: "(pydoc \<Rightarrow> string) \<Rightarrow> pydict \<Rightarrow> product_error + payload_reference" where
  "read_payload show d =
     (case int_or 0 (dict_get d ''byte_size'') of
        Inl e \<Rightarrow> Inl (Escaped e)
      | Inr n \<Rightarrow> Inr \<lparr>present = truth (dict_get d ''present''), digest = text_or_empty show (dict_get d ''digest''),
          byte_size = n,
          shape = map (\<lambda>v. case v of PyStr s \<Rightarrow> s | _ \<Rightarrow> show v) (elements_of (dict_get d ''shape''))\<rparr>)"

definition outcome_from_record :: "(pydoc \<Rightarrow> string) \<Rightarrow> pydoc \<Rightarrow> product_error + outcome" where
  "outcome_from_record show value =
     (case value of
        PyDict r \<Rightarrow>
          (case (case dict_get r ''semantic_status'' of PyStr t \<Rightarrow> semantic_of_text t | _ \<Rightarrow> None) of
             None \<Rightarrow> Inl Record_semantic_unknown
           | Some s \<Rightarrow>
               res_bind (read_coverage (items_of (dict_get r ''coverage''))) (\<lambda>c.
               res_bind (res_bind (iterate (dict_get r ''blocking'')) read_items) (\<lambda>items.
               res_bind (read_payload show (items_of (dict_get r ''payload''))) (\<lambda>reference.
                 make_outcome (clean_name (Some (text_or_empty show (dict_get r ''engine'')))) s c items reference
                   (case dict_get r ''result_kind'' of PyStr k \<Rightarrow> Some k | _ \<Rightarrow> None)))))
      | _ \<Rightarrow> Inl Record_not_mapping)"

end
