(* ===== verification/Finalization.thy ===== *)
theory Finalization
  imports Run_Row Product_Outcome
begin

text \<open>
  The one way a run becomes terminal, \<open>backend/finalization.py\<close>: claims about how a run ended, their
  authority, and the finalizer that decides between them and commits the decision with its event.

  The finalizer's lock makes its operations sequential.  What other processes do to the row is a
  parameter: \<open>others n\<close> acts on the row before the finalizer's \<open>n\<close>-th call of the repository, a read
  may fail, and a write's request or answer may be lost.  Usage, finish time, messages and the observer
  callback (which is told of durable events and cannot alter a decision) are left out.
\<close>

section \<open>Claims\<close>

fun TERMINAL_AUTHORITY :: "run_status \<Rightarrow> int option" where
  "TERMINAL_AUTHORITY Cancelled = Some 50"
| "TERMINAL_AUTHORITY Timed_out = Some 40"
| "TERMINAL_AUTHORITY Budget_exhausted = Some 40"
| "TERMINAL_AUTHORITY Failed = Some 30"
| "TERMINAL_AUTHORITY Partial_success = Some 20"
| "TERMINAL_AUTHORITY Completed = Some 10"
| "TERMINAL_AUTHORITY s = None"

fun TERMINAL_EVENT :: "run_status \<Rightarrow> string option" where
  "TERMINAL_EVENT Completed = Some ''run_completed''"
| "TERMINAL_EVENT Partial_success = Some ''run_partial_success''"
| "TERMINAL_EVENT Failed = Some ''run_failed''"
| "TERMINAL_EVENT Cancelled = Some ''run_cancelled''"
| "TERMINAL_EVENT s = None"

datatype claim_reason = Product_claim | Control_success | Cancel_claim | Budget_claim | Failure_claim | Refusal_claim

record claim =
  reason :: claim_reason
  claim_outcome :: outcome
  claim_output :: pydoc
  claim_error :: "(string \<times> string) option"
  stop_status :: "run_status option"
  event_emitted :: bool
  event_payload :: pydict

definition status_named :: "string \<Rightarrow> run_status" where
  "status_named s = (if s = ''completed'' then Completed else if s = ''partial_success'' then Partial_success
     else if s = ''failed'' then Failed else Legacy s)"

text \<open>\<open>TerminalClaim.__post_init__\<close>: the stop a budget claim names must be terminal.\<close>

definition claim_ok :: "claim \<Rightarrow> bool" where
  "claim_ok c = (reason c = Budget_claim \<longrightarrow> (case stop_status c of None \<Rightarrow> False | Some s \<Rightarrow> TERMINAL_AUTHORITY s \<noteq> None))"

definition durable_status :: "claim \<Rightarrow> run_status" where
  "durable_status c = (case reason c of
       Budget_claim \<Rightarrow> the (stop_status c)
     | Product_claim \<Rightarrow> status_named (durable_product_status (semantic_status (claim_outcome c)))
     | Control_success \<Rightarrow> Completed
     | Cancel_claim \<Rightarrow> Cancelled
     | Failure_claim \<Rightarrow> Failed
     | Refusal_claim \<Rightarrow> Failed)"

definition authority :: "claim \<Rightarrow> int" where
  "authority c = the (TERMINAL_AUTHORITY (durable_status c))"

definition claim_identity :: "claim \<Rightarrow> claim_reason \<times> run_status \<times> string option \<times> semantic \<times> string" where
  "claim_identity c = (reason c, durable_status c, map_option fst (claim_error c),
     semantic_status (claim_outcome c), digest (payload_ref (claim_outcome c)))"

definition product_claim :: "outcome \<Rightarrow> pydoc \<Rightarrow> pydict \<Rightarrow> claim" where
  "product_claim out output payload = \<lparr>reason = Product_claim, claim_outcome = out, claim_output = output, claim_error = None,
     stop_status = None, event_emitted = False, event_payload = payload\<rparr>"

text \<open>The constructors of the other reasons; \<open>product\<close> derives its outcome and folds in what the caller knows.\<close>

definition product ::
  "(pyfloat \<Rightarrow> string) \<Rightarrow> (string \<Rightarrow> string) \<Rightarrow> string \<Rightarrow> pydoc \<Rightarrow> (string \<times> int) list \<Rightarrow> pydict \<Rightarrow> product_error + claim" where
  "product show_float sha256 engine output extra_blocking payload =
     res_bind (derive_product_outcome show_float sha256 engine output) (\<lambda>o1.
     res_bind (if extra_blocking = [] then Inr o1 else demoted_with o1 extra_blocking) (\<lambda>o2.
       Inr (product_claim o2 output payload)))"

definition control_success :: "string \<Rightarrow> pydoc \<Rightarrow> claim" where
  "control_success engine output = \<lparr>reason = Control_success, claim_outcome = not_produced_outcome engine,
     claim_output = output, claim_error = None, stop_status = None, event_emitted = False, event_payload = []\<rparr>"

definition cancelled ::
  "(pyfloat \<Rightarrow> string) \<Rightarrow> (string \<Rightarrow> string) \<Rightarrow> string \<Rightarrow> string \<Rightarrow> string \<Rightarrow> pydoc \<Rightarrow> product_error + claim" where
  "cancelled show_float sha256 engine code message output =
     res_bind (if output \<noteq> PyNone then derive_product_outcome show_float sha256 engine output
               else Inr (not_produced_outcome engine)) (\<lambda>o1.
       Inr \<lparr>reason = Cancel_claim, claim_outcome = o1, claim_output = output, claim_error = Some (code, message),
          stop_status = None, event_emitted = False, event_payload = []\<rparr>)"

definition budget_stop :: "string \<Rightarrow> string \<Rightarrow> string \<Rightarrow> run_status \<Rightarrow> claim" where
  "budget_stop engine code message stop = \<lparr>reason = Budget_claim, claim_outcome = not_produced_outcome engine,
     claim_output = PyNone, claim_error = Some (code, message), stop_status = Some stop, event_emitted = True, event_payload = []\<rparr>"

definition failure :: "string \<Rightarrow> string \<Rightarrow> string \<Rightarrow> pydict \<Rightarrow> claim" where
  "failure engine code message payload = \<lparr>reason = Failure_claim,
     claim_outcome = refused_outcome engine ''ENGINE_REPORTED_FAILURE'' ABSENT_PAYLOAD, claim_output = PyNone,
     claim_error = Some (code, message), stop_status = None, event_emitted = False, event_payload = payload\<rparr>"

definition refusal :: "string \<Rightarrow> string \<Rightarrow> string \<Rightarrow> pydict \<Rightarrow> claim" where
  "refusal engine code message payload = \<lparr>reason = Refusal_claim,
     claim_outcome = refused_outcome engine ''REFUSED_BEFORE_EXECUTION'' ABSENT_PAYLOAD, claim_output = PyNone,
     claim_error = Some (code, message), stop_status = None, event_emitted = False, event_payload = payload\<rparr>"

section \<open>The repository as the finalizer meets it\<close>

datatype fault = No_fault | Lost_request | Lost_answer

record surroundings =
  others :: "nat \<Rightarrow> run_row \<Rightarrow> run_row"
  unreadable :: "nat \<Rightarrow> bool"
  fault_at :: "nat \<Rightarrow> fault"
  now_at :: "nat \<Rightarrow> int"
  shown :: "pyfloat \<Rightarrow> string"
  own_lease :: lease

record repo =
  stored :: run_row
  calls :: nat

datatype fin_error = From_repository repo_error | Finalization_unavailable

definition observed_status :: "surroundings \<Rightarrow> repo \<Rightarrow> run_status option \<times> repo" where
  "observed_status e r =
     (let row = others e (calls r) (stored r)
      in (if unreadable e (calls r) then None else Some (row_status row), \<lparr>stored = row, calls = calls r + 1\<rparr>))"

definition terminal_event :: "claim \<Rightarrow> run_status \<Rightarrow> (string \<times> pydict) option" where
  "terminal_event c s = (case TERMINAL_EVENT s of
       None \<Rightarrow> None
     | Some event_type \<Rightarrow>
         if event_emitted c then None
         else Some (event_type,
           AList.updates (map fst (event_payload c)) (map snd (event_payload c))
             ((if reason c = Product_claim
               then (''product_outcome'', PyDict (as_record (claim_outcome c))) #
                    (case result_kind (claim_outcome c) of None \<Rightarrow> [] | Some k \<Rightarrow> [(''result_kind'', PyStr k)])
               else []) @
              (case claim_error c of None \<Rightarrow> [] | Some (code, message) \<Rightarrow> [(''code'', PyStr code)]))))"

definition output_text :: "surroundings \<Rightarrow> claim \<Rightarrow> string option" where
  "output_text e c = (if claim_output c = PyNone then None else Some (compact_dumps (shown e) (claim_output c)))"

definition error_text :: "surroundings \<Rightarrow> claim \<Rightarrow> string option" where
  "error_text e c = map_option (\<lambda>(code, message).
     compact_dumps (shown e) (PyDict [(''code'', PyStr code), (''message'', PyStr message)])) (claim_error c)"

definition event_row :: "surroundings \<Rightarrow> claim \<Rightarrow> run_status \<Rightarrow> (string \<times> string) option" where
  "event_row e c s = map_option (\<lambda>(t, payload). (t, compact_dumps (shown e) (PyDict payload))) (terminal_event c s)"

definition atomic_write :: "surroundings \<Rightarrow> claim \<Rightarrow> run_status \<Rightarrow> run_status \<Rightarrow> repo \<Rightarrow> (repo_error + unit) \<times> repo" where
  "atomic_write e c s expected r =
     (let row = others e (calls r) (stored r); r0 = \<lparr>stored = row, calls = calls r + 1\<rparr> in
      if fault_at e (calls r) = Lost_request then (Inl REPOSITORY_ERROR, r0)
      else (case finalize_run s expected (event_row e c s) (own_lease e) (output_text e c) (error_text e c) (now_at e (calls r)) row of
              Inl x \<Rightarrow> (Inl x, r0)
            | Inr row' \<Rightarrow> (if fault_at e (calls r) = Lost_answer then Inl REPOSITORY_ERROR else Inr (), r0\<lparr>stored := row'\<rparr>)))"

definition persist :: "surroundings \<Rightarrow> claim \<Rightarrow> run_status \<Rightarrow> run_status option \<Rightarrow> repo \<Rightarrow> (fin_error + unit) \<times> repo" where
  "persist e c s observed r =
     (let (expected, r1) = (case observed of Some x \<Rightarrow> (Some x, r) | None \<Rightarrow> observed_status e r)
      in case expected of
           None \<Rightarrow> (Inl Finalization_unavailable, r1)
         | Some x \<Rightarrow> (case atomic_write e c s x r1 of
               (Inl err, r2) \<Rightarrow> (Inl (From_repository err), r2)
             | (Inr u, r2) \<Rightarrow> (Inr u, r2)))"

section \<open>The finalizer\<close>

record fin_result =
  final_status :: run_status
  final_claim :: "claim option"
  wrote :: bool
  duplicate :: bool
  superseded :: bool
  already_terminal :: bool

record finalizer =
  decision :: "claim option"
  decided :: "fin_result option"
  pending :: "claim list"
  sources :: "(unit \<Rightarrow> claim option) list"

definition new_finalizer :: finalizer where
  "new_finalizer = \<lparr>decision = None, decided = None, pending = [], sources = []\<rparr>"

definition note_claim :: "claim \<Rightarrow> finalizer \<Rightarrow> finalizer" where
  "note_claim c f = (if decided f = None then f\<lparr>pending := pending f @ [c]\<rparr> else f)"

text \<open>A source that raises counts as one that has no claim.\<close>

definition add_claim_source :: "(unit \<Rightarrow> claim option) \<Rightarrow> finalizer \<Rightarrow> finalizer" where
  "add_claim_source s f = f\<lparr>sources := sources f @ [s]\<rparr>"

definition known_claims :: "finalizer \<Rightarrow> claim list" where
  "known_claims f = pending f @ List.map_filter (\<lambda>s. s ()) (sources f)"

fun strongest :: "claim \<Rightarrow> claim list \<Rightarrow> claim" where
  "strongest winner [] = winner"
| "strongest winner (c # cs) = strongest (if authority winner < authority c then c else winner) cs"

definition winner :: "claim \<Rightarrow> finalizer \<Rightarrow> claim" where
  "winner c f = strongest c (known_claims f)"

definition adopt :: "run_status option \<Rightarrow> finalizer \<Rightarrow> (fin_result \<times> finalizer) option" where
  "adopt observed f = (case observed of
       None \<Rightarrow> None
     | Some s \<Rightarrow> if s \<in> set TERMINAL_STATES
         then (let res = \<lparr>final_status = s, final_claim = None, wrote = False, duplicate = False, superseded = False,
                          already_terminal = True\<rparr>
               in Some (res, f\<lparr>decided := Some res\<rparr>))
         else None)"

definition legalize :: "claim \<Rightarrow> run_status option \<Rightarrow> claim" where
  "legalize c observed =
     (if observed \<noteq> Some Cancellation_requested then c
      else if durable_status c \<in> {Cancelled, Failed} then c
      else \<lparr>reason = Cancel_claim, claim_outcome = claim_outcome c, claim_output = claim_output c,
             claim_error = Some (''RUN_CANCELLED_AFTER_RESULT'',
               ''Run cancelled; the result produced before cancellation is preserved''),
             stop_status = None, event_emitted = False, event_payload = []\<rparr>)"

definition RACE_CODES :: "repo_error list" where
  "RACE_CODES = [INVALID_RUN_TRANSITION, RUN_TRANSITION_CONFLICT, RUN_LEASE_LOST, RUN_NOT_FOUND]"

fun commit ::
  "nat \<Rightarrow> surroundings \<Rightarrow> claim \<Rightarrow> run_status option \<Rightarrow> finalizer \<Rightarrow> repo \<Rightarrow> (fin_error + fin_result) \<times> finalizer \<times> repo" where
  "commit left e c observed f r =
     (case persist e c (durable_status c) observed r of
        (Inr u, r1) \<Rightarrow>
          (let res = \<lparr>final_status = durable_status c, final_claim = Some c, wrote = True, duplicate = False,
                      superseded = False, already_terminal = False\<rparr>
           in (Inr res, f\<lparr>decision := Some c, decided := Some res\<rparr>, r1))
      | (Inl err, r1) \<Rightarrow>
          (if (case err of From_repository x \<Rightarrow> x \<notin> set RACE_CODES | _ \<Rightarrow> True) then (Inl err, f, r1)
           else (let (current, r2) = observed_status e r1 in
                 case adopt current f of
                   Some (res, f') \<Rightarrow> (Inr res, f', r2)
                 | None \<Rightarrow>
                     (case left of
                        0 \<Rightarrow> (Inl err, f, r2)
                      | Suc m \<Rightarrow> if current \<noteq> None \<and> current \<noteq> observed
                                 then commit m e (legalize c current) current f r2
                                 else (Inl err, f, r2)))))"

declare commit.simps [simp del]

definition repeat_result :: "claim \<Rightarrow> fin_result \<Rightarrow> finalizer \<Rightarrow> fin_result" where
  "repeat_result c res f =
     (let same = (case decision f of None \<Rightarrow> False | Some d \<Rightarrow> claim_identity d = claim_identity c)
      in \<lparr>final_status = final_status res, final_claim = decision f, wrote = False, duplicate = same, superseded = \<not> same,
          already_terminal = already_terminal res\<rparr>)"

definition finalize ::
  "surroundings \<Rightarrow> claim \<Rightarrow> finalizer \<Rightarrow> repo \<Rightarrow> (fin_error + fin_result) \<times> finalizer \<times> repo" where
  "finalize e c f r =
     (case decided f of
        Some res \<Rightarrow> (Inr (repeat_result c res f), f, r)
      | None \<Rightarrow>
          (let w = winner c f; (observed, r1) = observed_status e r in
           case adopt observed f of
             Some (res, f') \<Rightarrow> (Inr res, f', r1)
           | None \<Rightarrow> commit 1 e (legalize w observed) observed f r1))"

end
