(* ===== verification/Run_Safety.thy ===== *)
theory Run_Safety
  imports Run_Row
begin

text \<open>
  One run row under any interleaving of launchers, workers, cancellations and the clock: terminal is
  final, a worker that lost its lease never writes, a run is launched once unless the launch
  definitely failed, and every run can still be brought to an end.
\<close>

section \<open>What each operation does to the row\<close>

lemmas state_lists = RUN_STATES_def TERMINAL_STATES_def CLAIMED_RUN_STATES_def UNRESOLVED_LAUNCH_STATES_def

lemma known_states: "s \<in> set RUN_STATES \<longleftrightarrow> (\<forall>x. s \<noteq> Legacy x)"
  by (cases s) (auto simp: RUN_STATES_def)

lemma terminal_no_successor: "s \<in> set TERMINAL_STATES \<Longrightarrow> VALID_TRANSITIONS s = []"
  by (auto simp: TERMINAL_STATES_def)

lemma terminal_known: "s \<in> set TERMINAL_STATES \<Longrightarrow> s \<in> set RUN_STATES"
  by (auto simp: TERMINAL_STATES_def RUN_STATES_def)

lemma valid_transition_iff:
  "validate_transition s t = None \<longleftrightarrow> s \<in> set RUN_STATES \<and> t \<in> set (VALID_TRANSITIONS s)"
proof -
  have "t \<in> set RUN_STATES" if "t \<in> set (VALID_TRANSITIONS s)"
    using that by (cases s) (auto simp: RUN_STATES_def)
  then show ?thesis by (auto simp: validate_transition_def)
qed

lemma guarded_rpc_ok: "guarded_rpc x = Inr r \<longleftrightarrow> x = Inr r"
  by (auto simp: guarded_rpc_def split: sum.splits db_error.splits)

lemma claim_ok:
  assumes "claim_run now w tok seconds r = Inr r'"
  shows "claimable now w r" "row_worker r' = Some w" "row_token r' = Some tok" "row_launch r' = row_launch r"
    "row_identity r' = row_identity r"
    "row_status r' = (if row_status r = Cancellation_requested then Cancellation_requested else Starting)"
    "row_output r' = row_output r" "row_error r' = row_error r" "row_events r' = row_events r"
    "row_expires r' = Some (now + seconds)"
  using assms by (auto simp: claim_run_def claim_run_lease_def split: if_splits option.splits)

lemma claim_not_terminal: "claim_run now w tok seconds r = Inr r' \<Longrightarrow> row_status r \<notin> set TERMINAL_STATES"
  using claim_ok(1) by (fastforce simp: claimable_def TERMINAL_STATES_def)

lemma heartbeat_ok:
  assumes "heartbeat now l seconds r = Inr r'"
  shows "holds_lease now l r" "row_status r \<in> {Starting, Running, Cancellation_requested}"
    "r' = r\<lparr>row_expires := Some (now + max 1 seconds)\<rparr>"
  using assms by (auto simp: heartbeat_def guarded_rpc_ok heartbeat_run_guarded_def split: if_splits)

lemma transition_ok:
  assumes "transition_run seen new (Some l) now r = Inr r'"
  shows "holds_lease now l r" "r' = r\<lparr>row_status := new\<rparr>" "new \<in> set RUN_STATES" "new \<notin> set TERMINAL_STATES"
    "compared seen new \<Longrightarrow> row_status r = seen \<and> new \<in> set (VALID_TRANSITIONS seen)"
  using assms
  by (auto simp: transition_run_def Let_def guarded_rpc_ok transition_run_worker_guarded_def compared_def
      valid_transition_iff split: if_splits)

lemma finalize_ok:
  assumes "finalize_run new expected event l output err now r = Inr r'"
  shows "holds_lease now l r" "row_status r = expected" "new \<in> set TERMINAL_STATES"
    "expected \<in> set RUN_STATES \<Longrightarrow> new \<in> set (VALID_TRANSITIONS expected)"
    "row_status r' = new" "row_worker r' = row_worker r" "row_token r' = row_token r" "row_launch r' = row_launch r"
    "row_events r' = row_events r @ (case event of None \<Rightarrow> [] | Some e \<Rightarrow> [e])" "row_error r' = err"
    "row_output r' = (if output = None then row_output r else output)"
    "row_identity r' = row_identity r" "row_expires r' = row_expires r"
  using assms
  by (auto simp: finalize_run_def guarded_rpc_ok finalize_run_guarded_def valid_transition_iff split: if_splits)

lemma cancellation_ok:
  assumes "request_cancellation seen launch r = Inr r'"
  shows "row_status r = seen" "seen \<in> set RUN_STATES" "Cancellation_requested \<in> set (VALID_TRANSITIONS seen)"
    "seen \<in> set CLAIMED_RUN_STATES \<or> row_launch r = L_launched" "r' = r\<lparr>row_status := Cancellation_requested\<rparr>"
  using assms
  by (auto simp: request_cancellation_def valid_transition_iff split: if_splits option.splits)

lemma acquire_ok:
  assumes "try_acquire_launch r = Some r'"
  shows "row_status r = Queued" "row_launch r \<in> {L_pending, L_launch_failed}" "r' = r\<lparr>row_launch := L_launching\<rparr>"
  using assms by (auto simp: try_acquire_launch_def split: if_splits)

section \<open>Terminal is final\<close>

text \<open>The changes a step may make to the status: a transition of the table, a worker's claim, or any
  way out of a legacy status.\<close>

definition restarted :: "run_status \<Rightarrow> run_status \<Rightarrow> bool" where
  "restarted s t = (s \<in> {Queued, Launching, Starting, Running, Waiting} \<and> t = Starting)"

definition allowed_change :: "run_status \<Rightarrow> run_status \<Rightarrow> bool" where
  "allowed_change s t = (s = t \<or> t \<in> set (VALID_TRANSITIONS s) \<or> restarted s t \<or> s \<notin> set RUN_STATES)"

lemma step_change:
  assumes "run_step False w w'"
  shows "allowed_change (row_status (the_row w)) (row_status (the_row w'))"
  using assms
proof cases
  case (Cancel seen seen_launch r)
  from cancellation_ok [OF Cancel(2)] Cancel(1) show ?thesis by (auto simp: allowed_change_def)
next
  case (Claim tok name seconds r)
  from claim_ok(1,6) [OF Claim(3)] Claim(1) show ?thesis
    by (auto simp: allowed_change_def restarted_def claimable_def)
next
  case (Move l tok seen new r)
  from transition_ok(2,5) [OF Move(4)] Move(1,3) show ?thesis by (simp add: allowed_change_def)
next
  case (End l tok new expected event out err r)
  from finalize_ok(2,4,5) [OF End(3)] End(1) show ?thesis by (auto simp: allowed_change_def)
qed (auto simp: allowed_change_def set_launch_state_def dest: acquire_ok heartbeat_ok)

text \<open>What a terminal row keeps: all but its launch state.\<close>

definition ended_same :: "run_row \<Rightarrow> run_row \<Rightarrow> bool" where
  "ended_same r r' = (row_status r' = row_status r \<and> row_output r' = row_output r \<and> row_error r' = row_error r \<and>
     row_events r' = row_events r \<and> row_worker r' = row_worker r \<and> row_token r' = row_token r)"

lemma step_terminal:
  assumes "run_step False w w'" "row_status (the_row w) \<in> set TERMINAL_STATES"
  shows "ended_same (the_row w) (the_row w')"
  using assms(1)
proof cases
  case (Cancel seen seen_launch r)
  from cancellation_ok(1,3) [OF Cancel(2)] assms(2) terminal_no_successor show ?thesis by auto
next
  case (Claim tok name seconds r)
  from claim_not_terminal [OF Claim(3)] assms(2) show ?thesis by simp
next
  case (Beat l tok seconds r)
  from heartbeat_ok(2) [OF Beat(3)] assms(2) show ?thesis by (auto simp: TERMINAL_STATES_def)
next
  case (Move l tok seen new r)
  from transition_ok(5) [OF Move(4)] Move(3) assms(2) terminal_no_successor show ?thesis by auto
next
  case (End l tok new expected event out err r)
  from finalize_ok(2,4) [OF End(3)] assms(2) terminal_no_successor terminal_known show ?thesis by auto
qed (auto simp: ended_same_def set_launch_state_def dest: acquire_ok)

lemma steps_terminal:
  assumes "run_steps False w w'" "row_status (the_row w) \<in> set TERMINAL_STATES"
  shows "ended_same (the_row w) (the_row w')"
  using assms(1)
proof (induction rule: rtranclp_induct)
  case (step u v)
  then have "row_status (the_row u) \<in> set TERMINAL_STATES" using assms(2) by (simp add: ended_same_def)
  from step_terminal [OF step(2) this] step.IH show ?case by (simp add: ended_same_def)
qed (simp add: ended_same_def)

section \<open>Leases\<close>

fun last_claim :: "trail_event list \<Rightarrow> string option" where
  "last_claim [] = None"
| "last_claim (e # es) = (case last_claim es of Some t \<Rightarrow> Some t
     | None \<Rightarrow> (case e of Claimed_with t \<Rightarrow> Some t | Wrote_with t \<Rightarrow> None))"

lemma last_claim_snoc [simp]:
  "last_claim (es @ [Claimed_with t]) = Some t" "last_claim (es @ [Wrote_with t]) = last_claim es"
  by (induction es) (auto split: option.splits trail_event.splits)

definition fenced :: "world \<Rightarrow> bool" where
  "fenced w = (row_token (the_row w) = last_claim (trail w) \<and>
     (\<forall>pre post t. trail w = pre @ Wrote_with t # post \<longrightarrow> last_claim pre = Some t))"

lemma fenced_write:
  assumes "fenced w" "holds_lease now l (the_row w)" "lease_tok l = Some t" "row_token r = row_token (the_row w)"
  shows "fenced (w\<lparr>the_row := r, trail := trail w @ [Wrote_with t]\<rparr>)"
proof -
  have cur: "last_claim (trail w) = Some t" using assms by (auto simp: fenced_def holds_lease_def)
  have "last_claim pre = Some u" if "trail w @ [Wrote_with t] = pre @ Wrote_with u # post" for pre post u
  proof (cases post rule: rev_cases)
    case Nil
    with that cur show ?thesis by simp
  next
    case (snoc post' e)
    with that have "trail w = pre @ Wrote_with u # post'" by simp
    with assms(1) show ?thesis by (simp add: fenced_def)
  qed
  with cur assms(1,4) show ?thesis by (simp add: fenced_def)
qed

lemma fenced_claim:
  assumes "fenced w" "row_token r = Some t"
  shows "fenced (w\<lparr>the_row := r, issued := is, trail := trail w @ [Claimed_with t]\<rparr>)"
proof -
  have "last_claim pre = Some u" if "trail w @ [Claimed_with t] = pre @ Wrote_with u # post" for pre post u
  proof (cases post rule: rev_cases)
    case (snoc post' e)
    with that have "trail w = pre @ Wrote_with u # post'" by simp
    with assms(1) show ?thesis by (simp add: fenced_def)
  qed (use that in simp)
  with assms show ?thesis by (simp add: fenced_def)
qed

lemma step_fenced:
  assumes "run_step b w w'" "fenced w"
  shows "fenced w'"
  using assms(1)
proof cases
  case (Claim tok name seconds r)
  from fenced_claim [OF assms(2) claim_ok(3) [OF Claim(3)]] Claim(1) show ?thesis by simp
next
  case (Beat l tok seconds r)
  from fenced_write [OF assms(2) heartbeat_ok(1) [OF Beat(3)] Beat(2)] heartbeat_ok(3) [OF Beat(3)] Beat(1)
  show ?thesis by simp
next
  case (Move l tok seen new r)
  from fenced_write [OF assms(2) transition_ok(1) [OF Move(4)] Move(2)] transition_ok(2) [OF Move(4)] Move(1)
  show ?thesis by simp
next
  case (End l tok new expected event out err r)
  from fenced_write [OF assms(2) finalize_ok(1) [OF End(3)] End(2)] finalize_ok(7) [OF End(3)] End(1)
  show ?thesis by simp
qed (use assms(2) in \<open>auto simp: fenced_def set_launch_state_def dest: acquire_ok cancellation_ok\<close>)

lemma steps_fenced: "run_steps b w w' \<Longrightarrow> fenced w \<Longrightarrow> fenced w'"
  by (induction rule: rtranclp_induct) (auto intro: step_fenced)

text \<open>The tokens in the trail are exactly the issued ones, each claimed once.\<close>

fun claims_of :: "trail_event list \<Rightarrow> string list" where
  "claims_of [] = []"
| "claims_of (e # es) = (case e of Claimed_with t \<Rightarrow> t # claims_of es | Wrote_with t \<Rightarrow> claims_of es)"

lemma claims_of_append [simp]: "claims_of (xs @ ys) = claims_of xs @ claims_of ys"
  by (induction xs) (auto split: trail_event.split)

definition claimed_once :: "world \<Rightarrow> bool" where
  "claimed_once w = (distinct (claims_of (trail w)) \<and> set (claims_of (trail w)) = set (issued w))"

lemma steps_claimed_once: "run_steps b w w' \<Longrightarrow> claimed_once w \<Longrightarrow> claimed_once w'"
proof (induction rule: rtranclp_induct)
  case (step u v)
  from step(2) step.IH step.prems show ?case by cases (auto simp: claimed_once_def)
qed simp

section \<open>Launches\<close>

definition started_calls :: "launch_reply list \<Rightarrow> launch_reply list" where
  "started_calls = filter (\<lambda>c. c \<noteq> Launch_refused)"

lemma started_calls_append [simp]: "started_calls (xs @ ys) = started_calls xs @ started_calls ys"
  "started_calls [] = []" "started_calls [c] = (if c = Launch_refused then [] else [c])"
  by (simp_all add: started_calls_def)

definition launch_ok :: "world \<Rightarrow> bool" where
  "launch_ok w = (length (launchers w) \<le> 1 \<and>
     (launchers w \<noteq> [] \<longrightarrow> row_launch (the_row w) = L_launching) \<and>
     length (started_calls (launch_calls w)) \<le> 1 \<and>
     (started_calls (launch_calls w) \<noteq> [] \<longrightarrow>
        row_launch (the_row w) \<notin> {L_pending, L_launch_failed} \<and>
        (\<forall>p \<in> set (launchers w). \<exists>c. p = Replied c \<and> c \<noteq> Launch_refused)))"

lemma launch_ok_cong:
  "launch_ok w \<Longrightarrow> launchers w' = launchers w \<Longrightarrow> launch_calls w' = launch_calls w \<Longrightarrow>
     row_launch (the_row w') = row_launch (the_row w) \<Longrightarrow> launch_ok w'"
  by (simp add: launch_ok_def)

lemma step_launch_ok:
  assumes "run_step b w w'" "launch_ok w"
  shows "launch_ok w'"
  using assms(1)
proof cases
  case (Acquire seen r)
  have idle: "launchers w = []" using acquire_ok(2) [OF Acquire(3)] assms(2) by (auto simp: launch_ok_def)
  have "started_calls (launch_calls w) = []" using acquire_ok(2) [OF Acquire(3)] assms(2) by (auto simp: launch_ok_def)
  with idle acquire_ok(3) [OF Acquire(3)] Acquire(1) show ?thesis by (simp add: launch_ok_def)
next
  case (Call_launch xs ys reply)
  with assms(2) have "xs = []" "ys = []" "started_calls (launch_calls w) = []"
    by (auto simp: launch_ok_def)
  with Call_launch assms(2) show ?thesis by (simp add: launch_ok_def)
next
  case (Record_launch xs reply ys)
  with assms(2) have "xs = []" "ys = []" by (auto simp: launch_ok_def)
  with Record_launch assms(2) show ?thesis
    by (cases reply) (auto simp: launch_ok_def set_launch_state_def launch_result_state_def)
next
  case (Lose_launcher xs p ys)
  with assms(2) have "xs = []" "ys = []" by (auto simp: launch_ok_def)
  with Lose_launcher assms(2) show ?thesis by (simp add: launch_ok_def)
qed (auto intro!: launch_ok_cong [OF assms(2)] dest: claim_ok cancellation_ok heartbeat_ok transition_ok finalize_ok)

lemma steps_launch_ok: "run_steps b w w' \<Longrightarrow> launch_ok w \<Longrightarrow> launch_ok w'"
  by (induction rule: rtranclp_induct) (auto intro: step_launch_ok)

section \<open>A cancellation always has someone to finish it\<close>

definition attended :: "world \<Rightarrow> bool" where
  "attended w = ((row_status (the_row w) \<in> set CLAIMED_RUN_STATES \<longrightarrow> row_worker (the_row w) \<noteq> None) \<and>
     (row_status (the_row w) = Cancellation_requested \<longrightarrow>
        row_worker (the_row w) \<noteq> None \<or> row_launch (the_row w) = L_launched))"

lemma attended_held: "row_worker (the_row w) \<noteq> None \<Longrightarrow> attended w"
  by (simp add: attended_def)

lemma step_attended:
  assumes "run_step b w w'" "attended w" "launch_ok w"
  shows "attended w'"
  using assms(1)
proof cases
  case (Acquire seen r)
  with assms(2) acquire_ok [OF Acquire(3)] show ?thesis by (auto simp: attended_def state_lists)
next
  case (Record_launch xs reply ys)
  with assms(2,3) show ?thesis by (auto simp: attended_def launch_ok_def set_launch_state_def)
next
  case (Cancel seen seen_launch r)
  with assms(2) cancellation_ok [OF Cancel(2)] show ?thesis by (auto simp: attended_def state_lists)
next
  case (Claim tok name seconds r)
  with claim_ok(2) [OF Claim(3)] show ?thesis by (simp add: attended_held)
next
  case (Beat l tok seconds r)
  with heartbeat_ok [OF Beat(3)] show ?thesis by (intro attended_held) (auto simp: holds_lease_def)
next
  case (Move l tok seen new r)
  with transition_ok [OF Move(4)] show ?thesis by (intro attended_held) (auto simp: holds_lease_def)
next
  case (End l tok new expected event out err r)
  with finalize_ok [OF End(3)] show ?thesis by (intro attended_held) (auto simp: holds_lease_def)
qed (use assms(2) in \<open>simp_all add: attended_def\<close>)

lemma fresh_ok: "launch_ok (fresh_world now identity launch)" "attended (fresh_world now identity launch)"
  "fenced (fresh_world now identity launch)" "claimed_once (fresh_world now identity launch)"
  by (simp_all add: launch_ok_def attended_def fenced_def claimed_once_def fresh_world_def new_row_def state_lists)

lemma steps_attended:
  assumes "run_steps b w w'" "attended w" "launch_ok w"
  shows "attended w'"
  using assms
proof (induction rule: rtranclp_induct)
  case (step u v)
  then show ?case using step_attended steps_launch_ok by blast
qed simp

section \<open>Well-formed rows\<close>

definition row_wf :: "run_row \<Rightarrow> bool" where
  "row_wf r = (row_status r \<in> set RUN_STATES \<and> 1 \<le> row_attempt r \<and>
     (row_worker r = None \<longleftrightarrow> row_token r = None) \<and> (row_worker r = None \<longleftrightarrow> row_expires r = None) \<and>
     (row_status r \<in> set CLAIMED_RUN_STATES \<union> set TERMINAL_STATES \<longrightarrow> row_worker r \<noteq> None))"

lemma claim_attempt: "claim_run now w tok seconds r = Inr r' \<Longrightarrow> row_attempt r \<le> row_attempt r'"
  by (auto simp: claim_run_def claim_run_lease_def split: if_splits option.splits)

lemma row_wfD:
  assumes "row_wf r"
  shows "row_status r \<in> set RUN_STATES" "1 \<le> row_attempt r" "row_worker r = None \<longleftrightarrow> row_token r = None"
    "row_worker r = None \<longleftrightarrow> row_expires r = None"
    "row_status r \<in> set CLAIMED_RUN_STATES \<or> row_status r \<in> set TERMINAL_STATES \<Longrightarrow> row_worker r \<noteq> None"
  using assms unfolding row_wf_def by blast+

text \<open>A change of the status alone keeps the row well formed when the new status needs no worker or there is one.\<close>

lemma row_wf_status:
  assumes "row_wf r" "s \<in> set RUN_STATES"
    "s \<in> set CLAIMED_RUN_STATES \<or> s \<in> set TERMINAL_STATES \<Longrightarrow> row_worker r \<noteq> None"
  shows "row_wf (r\<lparr>row_status := s\<rparr>)"
  unfolding row_wf_def using row_wfD [OF assms(1)] assms(2,3) by simp

lemma row_wf_launch: "row_wf (r\<lparr>row_launch := s\<rparr>) = row_wf r"
  by (simp add: row_wf_def)

lemma step_wf:
  assumes "run_step b w w'" "row_wf (the_row w)"
  shows "row_wf (the_row w')"
  using assms(1)
proof cases
  case (Acquire seen r)
  with assms(2) show ?thesis by (simp add: acquire_ok [OF Acquire(3)] row_wf_launch)
next
  case (Cancel seen seen_launch r)
  have "row_wf ((the_row w)\<lparr>row_status := Cancellation_requested\<rparr>)"
    by (rule row_wf_status [OF assms(2)]) (simp_all add: state_lists)
  with Cancel(1) cancellation_ok(5) [OF Cancel(2)] show ?thesis by simp
next
  case (Claim tok name seconds r)
  with assms(2) claim_ok [OF Claim(3)] claim_attempt [OF Claim(3)] show ?thesis
    by (auto simp: row_wf_def state_lists)
next
  case (Beat l tok seconds r)
  with assms(2) heartbeat_ok [OF Beat(3)] show ?thesis by (auto simp: row_wf_def holds_lease_def)
next
  case (Move l tok seen new r)
  with assms(2) transition_ok [OF Move(4)] show ?thesis by (auto simp: row_wf_def holds_lease_def)
next
  case (End l tok new expected event out err r)
  have "row_attempt r = row_attempt (the_row w)"
    using End(3) by (auto simp: finalize_run_def guarded_rpc_ok finalize_run_guarded_def split: if_splits)
  with End assms(2) finalize_ok [OF End(3)] show ?thesis
    by (auto simp: row_wf_def holds_lease_def intro: terminal_known)
qed (use assms(2) in \<open>simp_all add: set_launch_state_def row_wf_launch\<close>)

lemma fresh_wf: "row_wf (the_row (fresh_world now identity launch))"
  by (simp add: row_wf_def fresh_world_def new_row_def state_lists)

lemma steps_wf: "run_steps b w w' \<Longrightarrow> row_wf (the_row w) \<Longrightarrow> row_wf (the_row w')"
  by (induction rule: rtranclp_induct) (auto intro: step_wf)

lemma step_identity: "run_step b w w' \<Longrightarrow> row_identity (the_row w') = row_identity (the_row w)"
  by (cases rule: run_step.cases)
     (auto simp: set_launch_state_def dest: acquire_ok cancellation_ok claim_ok heartbeat_ok transition_ok finalize_ok)

lemma steps_identity: "run_steps b w w' \<Longrightarrow> row_identity (the_row w') = row_identity (the_row w)"
  by (induction rule: rtranclp_induct) (auto dest: step_identity)

section \<open>Every run can end\<close>

lemma fresh_token: "\<exists>t::string. t \<notin> set used"
  by (rule ex_new_if_finite) (simp_all add: infinite_UNIV_listI)

definition end_of :: "run_status \<Rightarrow> run_status" where
  "end_of s = (if s = Cancellation_requested then Cancelled else Failed)"

lemma takeover:
  assumes "row_identity (the_row w)" "row_status (the_row w) \<in> set RUN_STATES"
    "row_status (the_row w) \<notin> set TERMINAL_STATES"
  shows "\<exists>w'. run_steps False w w' \<and> row_status (the_row w') = end_of (row_status (the_row w))"
proof -
  let ?r = "the_row w"
  define n where "n = max (db_now w) (case row_expires ?r of None \<Rightarrow> 0 | Some e \<Rightarrow> e + 1)"
  have lapsed: "lapsed n ?r" by (auto simp: lapsed_def n_def split: option.split)
  obtain t where t: "t \<notin> set (issued w)" using fresh_token by blast
  let ?w1 = "w\<lparr>db_now := n\<rparr>"
  have s1: "run_step False w ?w1" by (rule Tick) (simp add: n_def)
  have "claimable n ''w'' ?r" using assms lapsed by (auto simp: claimable_def state_lists)
  then obtain r2 where r2: "claim_run n ''w'' t 1 ?r = Inr r2" by (simp add: claim_run_def claim_run_lease_def)
  let ?w2 = "?w1\<lparr>the_row := r2, issued := t # issued ?w1, trail := trail ?w1 @ [Claimed_with t]\<rparr>"
  have s2: "run_step False ?w1 ?w2" by (rule Claim) (use t r2 in simp_all)
  let ?l = "\<lparr>lease_worker = ''w'', lease_attempt = None, lease_tok = Some t\<rparr>"
  have "holds_lease n ?l r2" using claim_ok [OF r2] by (simp add: holds_lease_def unexpired_def)
  moreover have "end_of (row_status ?r) \<in> set (VALID_TRANSITIONS (row_status r2))" "row_status r2 \<in> set RUN_STATES"
    "end_of (row_status ?r) \<in> set TERMINAL_STATES"
    using claim_ok(6) [OF r2] by (auto simp: end_of_def state_lists)
  ultimately obtain r3 where r3: "finalize_run (end_of (row_status ?r)) (row_status r2) None ?l None None n r2 = Inr r3"
    by (auto simp: finalize_run_def finalize_run_guarded_def guarded_rpc_def valid_transition_iff)
  have "run_step False ?w2 (?w2\<lparr>the_row := r3, trail := trail ?w2 @ [Wrote_with t]\<rparr>)"
    by (rule End [where l = ?l]) (use r3 in simp_all)
  with s1 s2 finalize_ok(5) [OF r3] show ?thesis
    by (intro exI [of _ "?w2\<lparr>the_row := r3, trail := trail ?w2 @ [Wrote_with t]\<rparr>"])
       (auto intro: converse_rtranclp_into_rtranclp)
qed

section \<open>An example\<close>

definition example_lease :: lease where
  "example_lease = \<lparr>lease_worker = ''w1'', lease_attempt = Some 1, lease_tok = Some ''t1''\<rparr>"

definition example_row :: "run_status \<Rightarrow> run_row" where
  "example_row s = (new_row True L_pending)\<lparr>row_status := s, row_worker := Some ''w1'', row_token := Some ''t1'',
     row_expires := Some 300\<rparr>"

definition example_world :: "run_status \<Rightarrow> trail_event list \<Rightarrow> world" where
  "example_world s tr = \<lparr>db_now = 0, the_row = example_row s, launchers = [], launch_calls = [], issued = [''t1''],
     trail = Claimed_with ''t1'' # tr\<rparr>"

lemma example_claimed: "run_step b (fresh_world 0 True L_pending) (example_world Starting [])"
proof -
  have "run_step b (fresh_world 0 True L_pending)
      ((fresh_world 0 True L_pending)\<lparr>the_row := example_row Starting, issued := ''t1'' # issued (fresh_world 0 True L_pending),
        trail := trail (fresh_world 0 True L_pending) @ [Claimed_with ''t1'']\<rparr>)"
    by (rule Claim [where name = "''w1''" and seconds = 300])
       (simp_all add: fresh_world_def new_row_def claim_run_def claim_run_lease_def claimable_def example_row_def)
  then show ?thesis by (simp add: example_world_def fresh_world_def)
qed

lemma example_moved: "run_step b (example_world Starting []) (example_world Running [Wrote_with ''t1''])"
proof -
  have "run_step b (example_world Starting [])
      ((example_world Starting [])\<lparr>the_row := example_row Running, trail := trail (example_world Starting []) @ [Wrote_with ''t1'']\<rparr>)"
    by (rule Move [where l = example_lease and seen = Starting and new = Running])
       (simp_all add: example_lease_def compared_def state_lists transition_run_def validate_transition_def
         transition_run_worker_guarded_def holds_lease_def example_world_def example_row_def new_row_def
         unexpired_def guarded_rpc_def)
  then show ?thesis by (simp add: example_world_def)
qed

definition ended_world :: world where
  "ended_world = (example_world Running [Wrote_with ''t1'', Wrote_with ''t1''])
     \<lparr>the_row := (example_row Completed)\<lparr>row_events := [(''run_completed'', ''{}'')]\<rparr>\<rparr>"

lemma example_ended: "run_step b (example_world Running [Wrote_with ''t1'']) ended_world"
proof -
  have "run_step b (example_world Running [Wrote_with ''t1''])
      ((example_world Running [Wrote_with ''t1''])
         \<lparr>the_row := (example_row Completed)\<lparr>row_events := [(''run_completed'', ''{}'')]\<rparr>,
          trail := trail (example_world Running [Wrote_with ''t1'']) @ [Wrote_with ''t1'']\<rparr>)"
    by (rule End [where l = example_lease and new = Completed and expected = Running
          and out = None and err = None and event = "Some (''run_completed'', ''{}'')"])
       (simp_all add: example_lease_def state_lists finalize_run_def validate_transition_def
         finalize_run_guarded_def holds_lease_def example_world_def example_row_def new_row_def
         unexpired_def guarded_rpc_def)
  then show ?thesis by (simp add: example_world_def ended_world_def)
qed

lemma example_revived:
  "run_step True ended_world
     (ended_world\<lparr>the_row := (the_row ended_world)\<lparr>row_status := Running\<rparr>, trail := trail ended_world @ [Wrote_with ''t1'']\<rparr>)"
  by (rule Move [where l = example_lease and seen = Running and new = Running])
     (simp_all add: example_lease_def compared_def state_lists transition_run_def
       transition_run_worker_guarded_def holds_lease_def ended_world_def example_world_def example_row_def new_row_def
       unexpired_def guarded_rpc_def)

lemma example_runs:
  "run_steps b (fresh_world 0 True L_pending) (example_world Running [Wrote_with ''t1''])"
  "run_steps b (fresh_world 0 True L_pending) ended_world"
  using example_claimed example_moved example_ended by (meson r_into_rtranclp rtranclp.rtrancl_into_rtrancl)+

section \<open>What holds of every run\<close>



text \<open>Every status change is a transition of the table, or a worker's claim bringing an unfinished run back to
  \<open>starting\<close>, whatever stale status the writer had read.\<close>

theorem status_changes_are_in_the_table:
  assumes "run_steps False (fresh_world now identity launch) w" "run_step False w w'"
  shows "row_status (the_row w') = row_status (the_row w) \<or>
    validate_transition (row_status (the_row w)) (row_status (the_row w')) = None \<or>
    row_status (the_row w) \<in> {Queued, Launching, Starting, Running, Waiting} \<and> row_status (the_row w') = Starting"
  using step_change [OF assms(2)] steps_wf [OF assms(1) fresh_wf]
  by (auto simp: allowed_change_def restarted_def valid_transition_iff row_wf_def)

lemma status_changes_are_in_the_table_witness:
  "validate_transition Running Completed = None"
  using status_changes_are_in_the_table [OF example_runs(1) example_ended]
  by (simp add: ended_world_def example_world_def example_row_def)



text \<open>C3. A worker that lost its lease never writes: each successful heartbeat, transition or finalization carries
  the token of the latest claim before it, and no token is claimed twice.\<close>

theorem stale_workers_never_write:
  assumes "run_steps refresh (fresh_world now identity launch) w" "trail w = pre @ Wrote_with t # post"
  shows "\<exists>p q. pre = p @ Claimed_with t # q \<and> claims_of q = [] \<and> t \<notin> set (claims_of (p @ q @ post))"
proof -
  have last: "last_claim pre = Some t"
    using steps_fenced [OF assms(1) fresh_ok(3)] assms(2) by (auto simp: fenced_def)
  have "\<exists>p q. es = p @ Claimed_with u # q \<and> claims_of q = []" if "last_claim es = Some u" for es u
    using that
  proof (induction es rule: rev_induct)
    case (snoc e es)
    show ?case
    proof (cases e)
      case (Claimed_with v)
      with snoc.prems have "v = u" by simp
      with Claimed_with show ?thesis by (intro exI [of _ es] exI [of _ "[]"]) simp
    next
      case (Wrote_with v)
      with snoc obtain p q where "es = p @ Claimed_with u # q" "claims_of q = []" by auto
      with Wrote_with show ?thesis by (intro exI [of _ p] exI [of _ "q @ [e]"]) simp
    qed
  qed simp
  from this [OF last] obtain p q where pq: "pre = p @ Claimed_with t # q" "claims_of q = []" by blast
  have "distinct (claims_of (trail w))"
    using steps_claimed_once [OF assms(1) fresh_ok(4)] by (simp add: claimed_once_def)
  with pq assms(2) show ?thesis by auto
qed

lemma stale_workers_never_write_witness:
  "\<exists>p q. [Claimed_with ''t1'', Wrote_with ''t1''] = p @ Claimed_with ''t1'' # q \<and> claims_of q = []"
  using stale_workers_never_write [OF example_runs(2) [where b = False], of "[Claimed_with ''t1'', Wrote_with ''t1'']" "''t1''" "[]"]
  by (auto simp: ended_world_def example_world_def)



text \<open>C6. A requested cancellation has someone to finish it: a worker has claimed the run, or its launch is recorded
  as having started one.\<close>

theorem cancellation_has_a_finisher:
  assumes "run_steps refresh (fresh_world now identity launch) w" "row_status (the_row w) = Cancellation_requested"
  shows "row_worker (the_row w) \<noteq> None \<or> row_launch (the_row w) = L_launched"
  using steps_attended [OF assms(1) fresh_ok(2,1)] assms(2) by (simp add: attended_def)

lemma example_cancelled:
  "run_steps b (fresh_world 0 True L_pending)
     ((example_world Running [Wrote_with ''t1''])\<lparr>the_row := example_row Cancellation_requested\<rparr>)"
proof -
  have "run_step b (example_world Running [Wrote_with ''t1''])
      ((example_world Running [Wrote_with ''t1''])\<lparr>the_row := example_row Cancellation_requested\<rparr>)"
    by (rule Cancel [where seen = Running and seen_launch = L_pending])
       (simp add: request_cancellation_def cancellation_refusal_def state_lists validate_transition_def
         example_world_def example_row_def)
  with example_runs(1) show ?thesis by (rule rtranclp.rtrancl_into_rtrancl)
qed

lemma cancellation_has_a_finisher_witness:
  "case row_worker (example_row Cancellation_requested) of
     None \<Rightarrow> row_launch (example_row Cancellation_requested) = L_launched | Some k \<Rightarrow> True"
  using cancellation_has_a_finisher [OF example_cancelled] by (simp add: example_row_def new_row_def split: option.split)

text \<open>C5. No run is stuck: from every reachable moment of an unfinished run with an identity, the lease can lapse, a
  worker can take it over and end it, and a requested cancellation can be honoured.\<close>

theorem every_run_can_end:
  assumes "run_steps refresh (fresh_world now True launch) w" "row_status (the_row w) \<notin> set TERMINAL_STATES"
  shows "\<exists>w'. run_steps False w w' \<and> row_status (the_row w') \<in> set TERMINAL_STATES \<and>
    (row_status (the_row w) = Cancellation_requested \<longrightarrow> row_status (the_row w') = Cancelled)"
proof -
  have "row_identity (the_row w)" using steps_identity [OF assms(1)] by (simp add: fresh_world_def new_row_def)
  moreover have "row_status (the_row w) \<in> set RUN_STATES"
    using steps_wf [OF assms(1) fresh_wf] by (simp add: row_wf_def)
  ultimately obtain w' where "run_steps False w w'" "row_status (the_row w') = end_of (row_status (the_row w))"
    using takeover assms(2) by blast
  then show ?thesis by (intro exI [of _ w']) (simp add: end_of_def TERMINAL_STATES_def)
qed

lemma every_run_can_end_witness:
  "\<exists>w'. run_steps False ((example_world Running [Wrote_with ''t1''])\<lparr>the_row := example_row Cancellation_requested\<rparr>) w' \<and>
     row_status (the_row w') = Cancelled"
  using every_run_can_end [OF example_cancelled] by (auto simp: example_row_def TERMINAL_STATES_def)

text \<open>A write of the status it has read is not compared with the row: a worker thread that read \<open>running\<close> and
  writes \<open>running\<close> after another thread of the same lease finalized the run brings the completed run
  back to \<open>running\<close>, its terminal event already recorded.\<close>

theorem same_status_write_revives_a_run:
  "\<exists>w w'. run_steps False (fresh_world 0 True L_pending) w \<and> row_status (the_row w) = Completed \<and>
     run_step True w w' \<and> row_status (the_row w') = Running \<and> row_events (the_row w') \<noteq> []"
proof (intro exI conjI)
  show "run_steps False (fresh_world 0 True L_pending) ended_world" by (rule example_runs(2))
  show "run_step True ended_world (ended_world\<lparr>the_row := (the_row ended_world)\<lparr>row_status := Running\<rparr>,
    trail := trail ended_world @ [Wrote_with ''t1'']\<rparr>)" by (rule example_revived)
qed (simp_all add: ended_world_def example_row_def)

end
