(* ===== verification/Outcome_Safety.thy ===== *)
theory Outcome_Safety
  imports Product_Outcome
begin

text \<open>
  The product outcome is never better than its evidence: what the contract of the second engine
  accepts, what a complete outcome proves, that demotion is a floor independent of order, the
  acceptance gate, and the recorded form.
\<close>

section \<open>Building outcomes\<close>

lemma blocking_fold:
  assumes "\<forall>p\<in>set xs. 0 < snd p"
  shows "foldr (\<lambda>(code, n) acc. res_bind (make_item code n) (\<lambda>i. res_bind acc (\<lambda>is. Inr (i # is)))) xs (Inr [])
     = Inr items \<longleftrightarrow> items = xs \<and> fst ` set xs \<subseteq> set BLOCKING_CODES"
  using assms
proof (induction xs arbitrary: items)
  case (Cons p xs)
  obtain code n where p: "p = (code, n)" by force
  with Cons show ?case by (auto simp: make_item_def res_bind_Inr)
qed auto

lemma blocking_of_Inr:
  "blocking_of counts = Inr items \<longleftrightarrow>
     items = filter (\<lambda>p. 0 < snd p) (sort_key fst counts) \<and>
     fst ` set (filter (\<lambda>p. 0 < snd p) counts) \<subseteq> set BLOCKING_CODES"
proof -
  have f: "(\<lambda>(code, n). 0 < n) = (\<lambda>p::string \<times> int. 0 < snd p)" by auto
  show ?thesis unfolding blocking_of_def f by (subst blocking_fold) auto
qed

lemma build_outcome_Inr:
  "build_outcome name s p n counts reference kind = Inr o1 \<longleftrightarrow>
     0 \<le> p \<and> 0 \<le> n \<and> fst ` set (filter (\<lambda>p. 0 < snd p) counts) \<subseteq> set BLOCKING_CODES \<and>
     distinct (map fst (filter (\<lambda>p. 0 < snd p) (sort_key fst counts))) \<and>
     o1 = \<lparr>engine_name = name, semantic_status = s, coverage_of = \<lparr>produced = p, outstanding = n\<rparr>,
       blocking = filter (\<lambda>p. 0 < snd p) (sort_key fst counts), payload_ref = reference, result_kind = kind\<rparr>"
  by (auto simp: build_outcome_def make_coverage_def make_outcome_def res_bind_Inr blocking_of_Inr)

lemma build_complete:
  assumes "build_outcome name s p n counts reference kind = Inr o1"
  shows "semantic_status o1 = s" "coverage_of o1 = \<lparr>produced = p, outstanding = n\<rparr>" "payload_ref o1 = reference"
    "result_kind o1 = kind" "set (blocking o1) = {q \<in> set counts. 0 < snd q}" "engine_name o1 = name"
  using assms by (auto simp: build_outcome_Inr)

section \<open>Well-formed outcomes\<close>

definition outcome_wf :: "outcome \<Rightarrow> bool" where
  "outcome_wf o1 = (0 \<le> produced (coverage_of o1) \<and> 0 \<le> outstanding (coverage_of o1) \<and>
     distinct (map fst (blocking o1)) \<and> fst ` set (blocking o1) \<subseteq> set BLOCKING_CODES \<and>
     (\<forall>p\<in>set (blocking o1). 0 < snd p))"

lemma build_wf: "build_outcome name s p n counts reference kind = Inr o1 \<Longrightarrow> outcome_wf o1"
  by (auto simp: build_outcome_Inr outcome_wf_def)

section \<open>Demotion\<close>

text \<open>A dictionary of counts as the count of every code, absent ones zero.\<close>

definition level :: "(string \<times> int) list \<Rightarrow> string \<Rightarrow> int" where
  "level d c = (case map_of d c of None \<Rightarrow> 0 | Some n \<Rightarrow> n)"

fun highest :: "(string \<times> int) list \<Rightarrow> string \<Rightarrow> int" where
  "highest [] c = 0"
| "highest ((c', n) # cs) c = max (if c = c' then n else 0) (highest cs c)"

definition counts_wf :: "(string \<times> int) list \<Rightarrow> bool" where
  "counts_wf d = (distinct (map fst d) \<and> (\<forall>p\<in>set d. 0 < snd p))"

definition known_counts :: "(string \<times> int) list \<Rightarrow> bool" where
  "known_counts cs = (\<forall>(c, n)\<in>set cs. 0 < n \<longrightarrow> c \<in> set BLOCKING_CODES)"

lemma highest_nonneg [simp]: "0 \<le> highest cs c"
  by (induction cs c rule: highest.induct) auto

lemma highest_append: "highest (cs @ ds) c = max (highest cs c) (highest ds c)"
  by (induction cs c rule: highest.induct) (auto simp: max.assoc)

lemma level_update: "level (AList.update c n d) c' = (if c' = c then n else level d c')"
  by (simp add: level_def update_conv')

lemma counts_wf_update: "counts_wf d \<Longrightarrow> 0 < n \<Longrightarrow> counts_wf (AList.update c n d)"
proof -
  assume wf: "counts_wf d" and n: "0 < n"
  have "snd ` set (AList.update c n d) \<subseteq> insert n (snd ` set d)"
    by (induction d) auto
  then have "\<forall>p\<in>set (AList.update c n d). snd p = n \<or> (\<exists>q\<in>set d. snd p = snd q)" by fastforce
  with wf n show ?thesis by (metis counts_wf_def distinct_update)
qed

lemma level_pos: "counts_wf d \<Longrightarrow> 0 < level d c \<longleftrightarrow> c \<in> fst ` set d"
  by (auto simp: level_def counts_wf_def split: option.splits dest: map_of_SomeD) (force dest: map_of_SomeD simp: map_of_eq_None_iff)+

lemma keys_update: "fst ` set (AList.update c n d) \<subseteq> insert c (fst ` set d)"
  by (induction d) auto

lemma level_nonneg: "counts_wf d \<Longrightarrow> 0 \<le> level d c"
  by (auto simp: level_def counts_wf_def split: option.split dest!: map_of_SomeD)

lemma merge_spec:
  assumes "merge_counts m ch cs = Inr (m', ch')" "counts_wf m"
  shows "counts_wf m' \<and> (\<forall>c. level m' c = max (level m c) (highest cs c)) \<and> known_counts cs \<and>
    (ch' \<longleftrightarrow> ch \<or> (\<exists>c. level m c < highest cs c)) \<and> (\<not> ch' \<longrightarrow> m' = m) \<and>
    fst ` set m' \<subseteq> fst ` set m \<union> set BLOCKING_CODES"
  using assms
proof (induction m ch cs rule: merge_counts.induct)
  case (1 m ch)
  have "max (level m c) 0 = level m c" "\<not> level m c < 0" for c
    using level_nonneg [OF 1(2), of c] by (auto simp: max_def)
  with 1 show ?case by (simp add: known_counts_def)
next
  case (2 m ch code n cs)
  have "n \<le> 0 \<or> code \<in> set BLOCKING_CODES" using 2(4) by (simp split: if_splits)
  then consider (skip) "n \<le> 0" | (raise) "0 < n" "level m code < n" "code \<in> set BLOCKING_CODES"
    | (keep) "0 < n" "n \<le> level m code" "code \<in> set BLOCKING_CODES" by linarith
  then show ?case
  proof cases
    case skip
    with 2 have IH: "counts_wf m' \<and> (\<forall>c. level m' c = max (level m c) (highest cs c)) \<and> known_counts cs \<and>
      (ch' \<longleftrightarrow> ch \<or> (\<exists>c. level m c < highest cs c)) \<and> (\<not> ch' \<longrightarrow> m' = m) \<and>
      fst ` set m' \<subseteq> fst ` set m \<union> set BLOCKING_CODES" by simp
    have "n \<le> highest cs code" using skip by (rule order_trans) simp
    then have "highest ((code, n) # cs) c = highest cs c" for c by (simp add: max_absorb2)
    with IH skip show ?thesis by (simp add: known_counts_def)
  next
    case raise
    let ?m = "AList.update code n m"
    have wf: "counts_wf ?m" using counts_wf_update [OF 2(5)] raise by blast
    have "merge_counts ?m True cs = Inr (m', ch')" using 2(4) raise by (simp add: level_def [symmetric])
    with 2(2) raise wf have IH: "counts_wf m' \<and> (\<forall>c. level m' c = max (level ?m c) (highest cs c)) \<and> known_counts cs \<and> ch' \<and>
      fst ` set m' \<subseteq> fst ` set ?m \<union> set BLOCKING_CODES" by (simp add: level_def [symmetric])
    have "level m' c = max (level m c) (highest ((code, n) # cs) c)" for c
      using IH raise by (auto simp: level_update)
    moreover have "level m code < highest ((code, n) # cs) code" using raise by simp
    moreover have "fst ` set m' \<subseteq> fst ` set m \<union> set BLOCKING_CODES"
      using IH keys_update [of code n m] raise by blast
    ultimately show ?thesis using IH raise by (auto simp: known_counts_def)
  next
    case keep
    with 2 have IH: "counts_wf m' \<and> (\<forall>c. level m' c = max (level m c) (highest cs c)) \<and> known_counts cs \<and>
      (ch' \<longleftrightarrow> ch \<or> (\<exists>c. level m c < highest cs c)) \<and> (\<not> ch' \<longrightarrow> m' = m) \<and>
      fst ` set m' \<subseteq> fst ` set m \<union> set BLOCKING_CODES" by (simp add: level_def [symmetric])
    have "max (level m c) (highest ((code, n) # cs) c) = max (level m c) (highest cs c)" for c
      using keep by auto
    moreover have "level m c < highest ((code, n) # cs) c \<longleftrightarrow> level m c < highest cs c" for c
      using keep by auto
    ultimately show ?thesis using IH keep by (simp add: known_counts_def)
  qed
qed

lemma merge_total: "known_counts cs \<Longrightarrow> \<exists>r. merge_counts m ch cs = Inr r"
  by (induction m ch cs rule: merge_counts.induct) (auto simp: known_counts_def)

text \<open>A sorted dictionary is determined by its counts.\<close>

lemma sorted_items_unique:
  assumes "counts_wf d" "counts_wf e" "\<And>c. level d c = level e c"
  shows "sort_key fst d = sort_key fst e"
proof -
  have keys: "fst ` set d = fst ` set e"
    using level_pos [OF assms(1)] level_pos [OF assms(2)] assms(3) by (metis subsetI subset_antisym)
  have mem: "p \<in> set x \<longleftrightarrow> fst p \<in> fst ` set x \<and> level x (fst p) = snd p" if "counts_wf x" for x p
  proof
    assume "p \<in> set x"
    with that have "map_of x (fst p) = Some (snd p)" by (simp add: counts_wf_def)
    with \<open>p \<in> set x\<close> show "fst p \<in> fst ` set x \<and> level x (fst p) = snd p" by (simp add: level_def)
  next
    assume p: "fst p \<in> fst ` set x \<and> level x (fst p) = snd p"
    then obtain n where n: "map_of x (fst p) = Some n" by (metis map_of_eq_None_iff not_Some_eq)
    with p have "map_of x (fst p) = Some (snd p)" by (simp add: level_def)
    then show "p \<in> set x" by (metis map_of_SomeD prod.collapse)
  qed
  have "set d = set e"
    by (rule set_eqI) (simp only: mem [OF assms(1)] mem [OF assms(2)] keys assms(3))
  then show ?thesis
    using assms(1,2) unfolding counts_wf_def
    by (intro map_sorted_distinct_set_unique [where f = fst]) (auto simp: distinct_map)
qed

text \<open>The demotion by the counts \<open>t\<close> of every code.\<close>

definition lowered :: "outcome \<Rightarrow> (string \<times> int) list \<Rightarrow> outcome" where
  "lowered o1 m = o1\<lparr>semantic_status := (if semantic_status o1 = Complete then Partial else semantic_status o1),
     coverage_of := (coverage_of o1)\<lparr>outstanding := max (outstanding (coverage_of o1)) (\<Sum>p\<leftarrow>m. snd p)\<rparr>,
     blocking := sort_key fst m,
     result_kind := (if semantic_status o1 = Complete then Some ''partial_result'' else result_kind o1)\<rparr>"

lemma wf_counts: "outcome_wf o1 \<Longrightarrow> counts_wf (blocking o1)"
  by (simp add: outcome_wf_def counts_wf_def)

lemma sum_items_nonneg: "counts_wf m \<Longrightarrow> 0 \<le> (\<Sum>p\<leftarrow>m. snd p)"
  by (intro sum_list_nonneg) (auto simp: counts_wf_def)

lemma demoted_cases:
  assumes "outcome_wf o1" "demoted_with o1 counts = Inr o2"
  obtains (same) "o2 = o1" "\<And>c. highest counts c \<le> level (blocking o1) c" "known_counts counts"
  | (lower) m c where "counts_wf m" "\<And>c. level m c = max (level (blocking o1) c) (highest counts c)" "known_counts counts"
      "fst ` set m \<subseteq> set BLOCKING_CODES" "o2 = lowered o1 m" "level (blocking o1) c < highest counts c"
proof -
  from assms(2) obtain m ch where mc: "merge_counts (blocking o1) False counts = Inr (m, ch)"
    by (auto simp: demoted_with_def res_bind_Inr)
  note spec = merge_spec [OF mc wf_counts [OF assms(1)]]
  show thesis
  proof (cases ch)
    case False
    with spec mc assms(2) same show thesis by (auto simp: demoted_with_def not_less)
  next
    case True
    have codes: "fst ` set m \<subseteq> set BLOCKING_CODES" using spec assms(1) unfolding outcome_wf_def by blast
    have pos: "filter (\<lambda>p. 0 < snd p) (sort_key fst m) = sort_key fst m"
      using spec by (auto simp: counts_wf_def filter_id_conv)
    from True mc assms(2) have "o2 = lowered o1 m"
      by (auto simp: demoted_with_def res_bind_Inr make_coverage_def blocking_of_Inr make_outcome_def pos lowered_def
          split: if_splits)
    with True spec codes lower show thesis by blast
  qed
qed

lemma demoted_total:
  assumes "outcome_wf o1" "known_counts counts"
  shows "\<exists>o2. demoted_with o1 counts = Inr o2"
proof -
  obtain m ch where mc: "merge_counts (blocking o1) False counts = Inr (m, ch)"
    using merge_total [OF assms(2)] by (metis surj_pair)
  note spec = merge_spec [OF mc wf_counts [OF assms(1)]]
  have codes: "fst ` set m \<subseteq> set BLOCKING_CODES" using spec assms(1) unfolding outcome_wf_def by blast
  have pos: "filter (\<lambda>p. 0 < snd p) (sort_key fst m) = sort_key fst m"
    using spec by (auto simp: counts_wf_def filter_id_conv)
  have d: "distinct (map fst (sort_key fst m))" using spec by (simp add: counts_wf_def distinct_map)
  show ?thesis
  proof (cases ch)
    case False
    with mc show ?thesis by (simp add: demoted_with_def)
  next
    case True
    have "blocking_of m = Inr (sort_key fst m)" using codes pos by (auto simp: blocking_of_Inr)
    with True mc assms(1) d sum_items_nonneg spec show ?thesis
      by (auto simp: demoted_with_def make_coverage_def make_outcome_def outcome_wf_def)
  qed
qed

lemma lowered_wf:
  assumes "outcome_wf o1" "counts_wf m" "fst ` set m \<subseteq> set BLOCKING_CODES"
  shows "outcome_wf (lowered o1 m)"
  using assms by (auto simp: outcome_wf_def lowered_def counts_wf_def distinct_map)

lemma lowered_level: "counts_wf m \<Longrightarrow> level (blocking (lowered o1 m)) c = level m c"
proof -
  assume "counts_wf m"
  then have "map_of (sort_key fst m) = map_of m"
    by (intro map_of_inject_set [THEN iffD2]) (simp_all add: counts_wf_def distinct_map)
  then show ?thesis by (simp add: lowered_def level_def)
qed

lemma sum_items_mono:
  assumes "counts_wf d" "counts_wf e" "\<And>c. level d c \<le> level e c"
  shows "(\<Sum>p\<leftarrow>d. snd p) \<le> (\<Sum>p\<leftarrow>e. snd p)"
proof -
  have sum: "(\<Sum>p\<leftarrow>x. snd p) = (\<Sum>c\<in>fst ` set x. level x c)" if "counts_wf x" for x
  proof -
    have "(\<Sum>p\<leftarrow>x. snd p) = sum snd (set x)"
      using that by (intro sum_list_distinct_conv_sum_set) (simp add: counts_wf_def distinct_map)
    also have "\<dots> = (\<Sum>p\<in>set x. level x (fst p))"
      using that by (intro sum.cong) (auto simp: counts_wf_def level_def)
    also have "\<dots> = (\<Sum>c\<in>fst ` set x. level x c)"
      using that by (subst sum.reindex) (simp_all add: counts_wf_def distinct_map)
    finally show ?thesis .
  qed
  have sub: "fst ` set d \<subseteq> fst ` set e"
    using level_pos [OF assms(1)] level_pos [OF assms(2)] assms(3) by (meson less_le_trans subsetI)
  have "(\<Sum>c\<in>fst ` set d. level d c) \<le> (\<Sum>c\<in>fst ` set d. level e c)" using assms(3) by (simp add: sum_mono)
  also have "\<dots> \<le> (\<Sum>c\<in>fst ` set e. level e c)"
    using sub level_nonneg [OF assms(2)] by (intro sum_mono2) simp_all
  finally show ?thesis using sum assms(1,2) by simp
qed

lemma lowered_twice:
  assumes "counts_wf m" "counts_wf m'" "\<And>c. level m c \<le> level m' c"
  shows "lowered (lowered o1 m) m' = lowered o1 m'"
  using sum_items_mono [OF assms] by (simp add: lowered_def max.assoc max_absorb2)

lemma lowered_cong:
  assumes "counts_wf m" "counts_wf m'" "\<And>c. level m c = level m' c"
  shows "lowered o1 m = lowered o1 m'"
proof -
  have "(\<Sum>p\<leftarrow>m. snd p) = (\<Sum>p\<leftarrow>m'. snd p)"
    by (intro antisym sum_items_mono) (use assms in simp_all)
  with sorted_items_unique [OF assms] show ?thesis by (simp add: lowered_def)
qed

lemma demoted_wf: "outcome_wf o1 \<Longrightarrow> demoted_with o1 counts = Inr o2 \<Longrightarrow> outcome_wf o2"
  by (rule demoted_cases) (auto intro: lowered_wf)

lemma demoted_known: "outcome_wf o1 \<Longrightarrow> demoted_with o1 counts = Inr o2 \<Longrightarrow> known_counts counts"
  by (rule demoted_cases)

lemma demoted_same:
  assumes "outcome_wf o1" "known_counts counts" "\<And>c. highest counts c \<le> level (blocking o1) c"
  shows "demoted_with o1 counts = Inr o1"
proof -
  obtain o2 where o2: "demoted_with o1 counts = Inr o2" using demoted_total [OF assms(1,2)] by blast
  from assms(1) o2 show ?thesis
  proof (cases rule: demoted_cases)
    case (lower m c)
    with assms(3) [of c] show ?thesis by simp
  qed (use o2 in simp)
qed

lemma demoted_lower:
  assumes "outcome_wf o1" "known_counts counts" "counts_wf m"
    "\<And>c. level m c = max (level (blocking o1) c) (highest counts c)" "level (blocking o1) c < highest counts c"
  shows "demoted_with o1 counts = Inr (lowered o1 m)"
proof -
  obtain o2 where o2: "demoted_with o1 counts = Inr o2" using demoted_total [OF assms(1,2)] by blast
  from assms(1) o2 show ?thesis
  proof (cases rule: demoted_cases)
    case same
    with assms(5) show ?thesis by (metis not_less)
  next
    case (lower m' c')
    then have "lowered o1 m = lowered o1 m'" by (intro lowered_cong assms(3)) (simp_all add: assms(4))
    with lower o2 show ?thesis by simp
  qed
qed

lemma demoted_append:
  assumes wf: "outcome_wf o1" and xs: "demoted_with o1 xs = Inr o2" and ys: "demoted_with o2 ys = Inr o3"
  shows "demoted_with o1 (xs @ ys) = Inr o3"
proof -
  have known: "known_counts (xs @ ys)" "known_counts ys"
    using demoted_known [OF wf xs] demoted_known [OF demoted_wf [OF wf xs] ys] by (auto simp: known_counts_def)
  from wf xs show ?thesis
  proof (cases rule: demoted_cases)
    case s1: same
    from wf ys show ?thesis unfolding s1(1)
    proof (cases rule: demoted_cases)
      case same
      with s1 show ?thesis by (intro demoted_same [OF wf known(1), THEN trans]) (simp_all add: highest_append)
    next
      case (lower m c)
      have "demoted_with o1 (xs @ ys) = Inr (lowered o1 m)"
      proof (rule demoted_lower [OF wf known(1) lower(1)])
        show "level m c = max (level (blocking o1) c) (highest (xs @ ys) c)" for c
          using lower(2) [of c] s1(2) [of c] by (simp add: highest_append)
        show "level (blocking o1) c < highest (xs @ ys) c" using lower(6) by (simp add: highest_append)
      qed
      with lower show ?thesis by simp
    qed
  next
    case l1: (lower m1 c1)
    note lev = lowered_level [OF l1(1), of o1]
    have wf2: "outcome_wf o2" by (rule demoted_wf [OF wf xs])
    have c1: "level (blocking o1) c1 < highest (xs @ ys) c1" using l1(6) by (simp add: highest_append)
    from wf2 ys show ?thesis
    proof (cases rule: demoted_cases)
      case same
      have "level m1 c = max (level (blocking o1) c) (highest (xs @ ys) c)" for c
        using l1(2) [of c] same(2) [of c] by (simp add: l1(5) lev highest_append)
      then have "demoted_with o1 (xs @ ys) = Inr (lowered o1 m1)"
        by (rule demoted_lower [OF wf known(1) l1(1) _ c1])
      with same l1 show ?thesis by simp
    next
      case (lower m2 c2)
      have l: "level m2 c = max (level m1 c) (highest ys c)" for c using lower(2) [of c] by (simp add: l1(5) lev)
      then have "level m2 c = max (level (blocking o1) c) (highest (xs @ ys) c)" for c
        using l1(2) [of c] by (simp add: highest_append max.assoc)
      then have "demoted_with o1 (xs @ ys) = Inr (lowered o1 m2)"
        by (rule demoted_lower [OF wf known(1) lower(1) _ c1])
      moreover have "lowered o2 m2 = lowered o1 m2"
        using lowered_twice [OF l1(1) lower(1)] l by (simp add: l1(5))
      ultimately show ?thesis using lower by simp
    qed
  qed
qed

lemma highest_swap: "highest (xs @ ys) c = highest (ys @ xs) c"
  by (simp add: highest_append max.commute)

lemma demoted_swap:
  assumes "outcome_wf o1" "known_counts (xs @ ys)"
  shows "demoted_with o1 (xs @ ys) = demoted_with o1 (ys @ xs)"
proof -
  have known: "known_counts (ys @ xs)" using assms(2) by (auto simp: known_counts_def)
  obtain o2 where o2: "demoted_with o1 (xs @ ys) = Inr o2" using demoted_total [OF assms] by blast
  from assms(1) o2 show ?thesis
  proof (cases rule: demoted_cases)
    case same
    then show ?thesis using o2 demoted_same [OF assms(1) known] by (simp add: highest_swap)
  next
    case (lower m c)
    then show ?thesis using o2 demoted_lower [OF assms(1) known lower(1), of c] by (simp add: highest_swap)
  qed
qed

lemma demoted_unknown: "\<not> known_counts counts \<Longrightarrow> demoted_with o1 counts = Inl Blocking_code_unknown"
proof -
  have "\<not> known_counts cs \<Longrightarrow> merge_counts m ch cs = Inl Blocking_code_unknown" for m ch cs
    by (induction m ch cs rule: merge_counts.induct) (auto simp: known_counts_def)
  then show "\<not> known_counts counts \<Longrightarrow> ?thesis" by (simp add: demoted_with_def)
qed

section \<open>What a derived outcome says\<close>

definition truthful :: "outcome \<Rightarrow> bool" where
  "truthful o1 = (outcome_wf o1 \<and>
     (semantic_status o1 = Complete \<longrightarrow> blocking o1 = [] \<and> outstanding (coverage_of o1) = 0 \<and>
        (0 < produced (coverage_of o1) \<or> result_kind o1 = Some ''not_found'')) \<and>
     (semantic_status o1 \<in> {Refused, Not_produced} \<longleftrightarrow> (\<exists>i\<in>set (blocking o1). fst i \<in> set REFUSING_CODES)) \<and>
     (case semantic_status o1 of
        Complete \<Rightarrow> result_kind o1 \<in> {Some ''usable_result'', Some ''not_found''}
      | Partial \<Rightarrow> result_kind o1 = Some ''partial_result''
      | Unusable \<Rightarrow> result_kind o1 = Some ''no_usable_result''
      | _ \<Rightarrow> result_kind o1 = None))"

lemma build_truthful:
  assumes "build_outcome name s p n counts reference kind = Inr o1"
    "s = Complete \<Longrightarrow> (\<forall>q\<in>set counts. snd q \<le> 0) \<and> n = 0 \<and> (0 < p \<or> kind = Some ''not_found'')"
    "s \<in> {Refused, Not_produced} \<longleftrightarrow> (\<exists>q\<in>set counts. 0 < snd q \<and> fst q \<in> set REFUSING_CODES)"
    "case s of Complete \<Rightarrow> kind \<in> {Some ''usable_result'', Some ''not_found''} | Partial \<Rightarrow> kind = Some ''partial_result''
      | Unusable \<Rightarrow> kind = Some ''no_usable_result'' | _ \<Rightarrow> kind = None"
  shows "truthful o1"
proof -
  note facts = build_complete [OF assms(1)]
  have "blocking o1 = []" if "s = Complete"
    using facts(5) assms(2) [OF that] by (metis (no_types, lifting) empty_Collect_eq not_less set_empty)
  moreover have "(\<exists>i\<in>set (blocking o1). fst i \<in> set REFUSING_CODES) \<longleftrightarrow>
      (\<exists>q\<in>set counts. 0 < snd q \<and> fst q \<in> set REFUSING_CODES)"
    unfolding facts(5) by blast
  ultimately show ?thesis
    unfolding truthful_def facts(1,2,4) using build_wf [OF assms(1)] assms(2-4) by auto
qed

lemma count_models_nonneg: "count_models ms = Inr (a, b, c) \<Longrightarrow> 0 \<le> a \<and> 0 \<le> b \<and> 0 \<le> c"
  by (induction ms arbitrary: a b c) (auto simp: Let_def res_bind_Inr split: if_splits)

lemma catalog_truthful:
  assumes "derive_catalog_document name reference declared final = Inr o1"
  shows "truthful o1"
proof -
  from assms obtain settled unsettled rejected where m:
    "count_models (elements_of (dict_get final ''models'')) = Inr (settled, unsettled, rejected)"
    by (auto simp: derive_catalog_document_def res_bind_Inr)
  define n1 where "n1 = max unsettled (count_of_view final ''needs_review'')"
  define n2 where "n2 = max rejected (count_of_view final ''rejected'')"
  define n3 where "n3 = count_of_view final ''failed_agents''"
  define counts where "counts = filter (\<lambda>(code, n). n \<noteq> 0)
     [(''OUTSTANDING_REVIEW_ITEMS'', n1), (''REJECTED_ITEMS'', n2), (''FAILED_AGENTS'', n3),
      (''DEGRADED_VERIFICATION'', degraded_stage final ''verifier''),
      (''DEGRADED_ENRICHMENT'', degraded_stage final ''technical_enrichment'')]"
  define complete where "complete = (counts = [] \<and> declared \<in> set V1_COMPLETE_CLAIMS \<and>
     text_in (dict_get final ''status'') V1_COMPLETE_CLAIMS)"
  have clean: "\<not> (\<exists>q\<in>set counts. 0 < snd q \<and> fst q \<in> set REFUSING_CODES)"
    by (auto simp: counts_def REFUSING_CODES_def)
  have none: "n1 + n2 + n3 = 0" if "counts = []"
    using that by (simp add: counts_def split: if_splits)
  have pos: "0 \<le> settled" using count_models_nonneg [OF m] by simp
  have o1: "(if settled = 0
       then build_outcome name Unusable 0 (n1 + n2 + n3) (counts @ [(''NO_USABLE_RESULT'', 1)]) reference (Some ''no_usable_result'')
       else build_outcome name (if complete then Complete else Partial) settled (n1 + n2 + n3) counts reference
              (Some (if complete then ''usable_result'' else ''partial_result''))) = Inr o1"
    using assms unfolding derive_catalog_document_def m res_bind_simps Let_def prod.case
    by (simp only: n1_def n2_def n3_def counts_def complete_def)
  show ?thesis
  proof (cases "settled = 0")
    case True
    with o1 have "build_outcome name Unusable 0 (n1 + n2 + n3) (counts @ [(''NO_USABLE_RESULT'', 1)]) reference
      (Some ''no_usable_result'') = Inr o1" by simp
    then show ?thesis by (rule build_truthful) (use clean in \<open>auto simp: REFUSING_CODES_def\<close>)
  next
    case False
    with o1 have "build_outcome name (if complete then Complete else Partial) settled (n1 + n2 + n3) counts reference
      (Some (if complete then ''usable_result'' else ''partial_result'')) = Inr o1" by simp
    then show ?thesis
    proof (rule build_truthful)
      assume "(if complete then Complete else Partial) = Complete"
      then have "counts = []" by (simp add: complete_def split: if_splits)
      with none pos False show "(\<forall>q\<in>set counts. snd q \<le> 0) \<and> n1 + n2 + n3 = 0 \<and>
        (0 < settled \<or> Some (if complete then ''usable_result'' else ''partial_result'') = Some ''not_found'')" by simp
    qed (use clean in \<open>simp_all\<close>)
  qed
qed

lemma usable_sum:
  assumes "0 < usable_field_count flds"
  shows "0 < (\<Sum>(k, v)\<leftarrow>flds. int (length (elements_of v)))"
  using assms
proof (induction flds)
  case (Cons p flds)
  obtain k v where p: "p = (k, v)" by force
  have "0 \<le> (\<Sum>(k, v)\<leftarrow>flds. int (length (elements_of v)))" by (rule sum_list_nonneg) auto
  then show ?case
    using Cons p by (cases "usable_entry v")
      (simp_all add: usable_field_count_def usable_entry_def add_pos_nonneg add_nonneg_pos)
qed (simp add: usable_field_count_def)

lemma swarm_truthful:
  assumes "derive_swarm_v2_outcome reference output = Inr o1"
  shows "truthful o1"
proof (cases "validate_product_outcome output")
  case (Inl e)
  with assms have "build_outcome ''swarm_v2'' Refused 0 0 [(''OUTCOME_CONTRACT_VIOLATION'', 1)] reference None = Inr o1"
    by (simp add: derive_swarm_v2_outcome_def)
  then show ?thesis by (rule build_truthful) (simp_all add: REFUSING_CODES_def)
next
  case (Inr out)
  then obtain result where result: "output = PyDict result"
    by (auto simp: validate_product_outcome_def split: pydoc.splits)
  from Inr [unfolded result validate_iff] obtain flds review where v:
    "dict_get result ''fields'' = PyDict flds" "dict_get result ''needs_review'' = PyList review" "consistent out flds review"
    by blast
  define p where "p = (\<Sum>(k, v)\<leftarrow>flds. int (length (elements_of v)))"
  define n where "n = int (length (filter (\<lambda>v. \<not> is_marker v) review))"
  define s where "s = (if v2_kind out = ''no_usable_result'' then Unusable
     else if v2_kind out = ''partial_result'' then Partial else Complete)"
  define counts where "counts = (''OUTSTANDING_REVIEW_ITEMS'', n) #
     (if v2_kind out = ''no_usable_result'' then [(''NO_USABLE_RESULT'', 1)] else [])"
  have built: "build_outcome ''swarm_v2'' s p n counts reference (Some (v2_kind out)) = Inr o1"
    using assms unfolding derive_swarm_v2_outcome_def result Inr [unfolded result] sum.case Let_def items_of_simps v(1,2) elements_of_simps
    by (simp only: p_def n_def s_def counts_def)
  have allowed: "(v2_status out, v2_kind out) \<in> set ALLOWED_OUTCOMES" using v(3) by (simp add: consistent_def)
  have complete: "v2_status out = ''complete'' \<and> v2_kind out \<in> {''usable_result'', ''not_found''}" if "s = Complete"
    using that allowed by (auto simp: s_def ALLOWED_OUTCOMES_def split: if_splits)
  from built show ?thesis
  proof (rule build_truthful)
    assume c: "s = Complete"
    have "review = []" using complete [OF c] v(3) by (simp add: consistent_def)
    moreover have "0 < p" if "v2_kind out \<noteq> ''not_found''"
      using that complete [OF c] v(3) usable_sum [of flds] by (simp add: consistent_def p_def)
    moreover have "v2_kind out \<noteq> ''no_usable_result''" using c by (auto simp: s_def)
    ultimately show "(\<forall>q\<in>set counts. snd q \<le> 0) \<and> n = 0 \<and> (0 < p \<or> Some (v2_kind out) = Some ''not_found'')"
      by (auto simp: counts_def n_def)
  next
    show "s \<in> {Refused, Not_produced} \<longleftrightarrow> (\<exists>q\<in>set counts. 0 < snd q \<and> fst q \<in> set REFUSING_CODES)"
      by (auto simp: s_def counts_def REFUSING_CODES_def)
  next
    show "case s of Complete \<Rightarrow> Some (v2_kind out) \<in> {Some ''usable_result'', Some ''not_found''}
      | Partial \<Rightarrow> Some (v2_kind out) = Some ''partial_result'' | Unusable \<Rightarrow> Some (v2_kind out) = Some ''no_usable_result''
      | _ \<Rightarrow> Some (v2_kind out) = None"
      using complete by (cases s) (simp_all add: s_def split: if_splits)
  qed
qed

lemma v1_cases:
  assumes "derive_vehicle_catalog_v1_outcome name reference v = Inr o1"
  obtains (failed) c where "c \<in> set REFUSING_CODES" "build_outcome name Not_produced 0 0 [(c, 1)] reference None = Inr o1"
  | (claimed) "v \<noteq> PyNone" "build_outcome name Complete 1 0 [] reference (Some ''usable_result'') = Inr o1"
  | (unknown) "v \<noteq> PyNone"
      "build_outcome name Partial 1 1 [(''OUTSTANDING_REVIEW_ITEMS'', 1)] reference (Some ''partial_result'') = Inr o1"
  | (document) declared final where "v \<noteq> PyNone" "derive_catalog_document name reference declared final = Inr o1"
proof (cases "\<exists>result. v = PyDict result")
  case False
  with assms have "build_outcome name Not_produced 0 0 [(''NO_PRODUCT_PAYLOAD'', 1)] reference None = Inr o1"
    by (auto simp: derive_vehicle_catalog_v1_outcome_def split: pydoc.splits)
  then show thesis by (intro failed [of "''NO_PRODUCT_PAYLOAD''"]) (simp_all add: REFUSING_CODES_def)
next
  case True
  then obtain result where v: "v = PyDict result" by blast
  define declared where "declared = (case dict_get result ''status'' of PyStr s \<Rightarrow> s | _ \<Rightarrow> [])"
  define final where "final = (if \<not> is_dict (dict_get result ''result'') \<and>
      (map_of result ''models'' \<noteq> None \<or> map_of result ''pipeline_quality'' \<noteq> None)
    then PyDict result else dict_get result ''result'')"
  have o1: "(if declared \<in> set V1_FAILURE_CLAIMS \<or> \<not> is_dict final
      then build_outcome name Not_produced 0 0
        [(if declared \<in> set V1_FAILURE_CLAIMS then ''ENGINE_REPORTED_FAILURE'' else ''NO_PRODUCT_PAYLOAD'', 1)] reference None
      else if \<not> is_catalog_document (items_of final)
      then (if declared \<in> set V1_COMPLETE_CLAIMS then build_outcome name Complete 1 0 [] reference (Some ''usable_result'')
            else build_outcome name Partial 1 1 [(''OUTSTANDING_REVIEW_ITEMS'', 1)] reference (Some ''partial_result''))
      else derive_catalog_document name reference declared (items_of final)) = Inr o1"
    using assms unfolding derive_vehicle_catalog_v1_outcome_def v pydoc.case Let_def
    by (simp only: declared_def final_def)
  have dict: "v \<noteq> PyNone" by (simp add: v)
  show thesis
  proof (cases "declared \<in> set V1_FAILURE_CLAIMS \<or> \<not> is_dict final")
    case True
    then show thesis using o1
      by (intro failed [of "if declared \<in> set V1_FAILURE_CLAIMS then ''ENGINE_REPORTED_FAILURE'' else ''NO_PRODUCT_PAYLOAD''"])
        (simp_all add: REFUSING_CODES_def)
  next
    case False
    with o1 show thesis using claimed [OF dict] unknown [OF dict] document [OF dict] by (simp split: if_splits)
  qed
qed

lemma v1_truthful:
  assumes "derive_vehicle_catalog_v1_outcome name reference v = Inr o1"
  shows "truthful o1"
  using assms
proof (cases rule: v1_cases)
  case (failed c)
  from failed(2) show ?thesis by (rule build_truthful) (use failed(1) in simp_all)
next
  case claimed
  from claimed(2) show ?thesis by (rule build_truthful) simp_all
next
  case unknown
  from unknown(2) show ?thesis by (rule build_truthful) (simp_all add: REFUSING_CODES_def)
next
  case (document declared final)
  then show ?thesis by (intro catalog_truthful)
qed

lemma derived_truthful: "derive_product_outcome show_float sha256 engine output = Inr o1 \<Longrightarrow> truthful o1"
  by (auto simp: derive_product_outcome_def Let_def split: if_splits intro: swarm_truthful v1_truthful)

section \<open>The engine's own contract\<close>

definition review_ok :: "pydict \<Rightarrow> pydoc list \<Rightarrow> bool" where
  "review_ok flds review = (list_all is_dict review \<and> (0 < usable_field_count flds \<longrightarrow> \<not> list_ex is_marker review))"

lemma decided_consistent:
  assumes "decide_outcome (0 < usable_field_count flds) blocked trusted = Inr out" "review_ok flds review"
    "review \<noteq> [] \<longrightarrow> blocked"
  shows "consistent out flds (if v2_kind out = ''no_usable_result'' then with_marker review else review)"
proof (cases "0 < usable_field_count flds")
  case True
  with assms show ?thesis
    by (cases blocked) (auto simp: decide_outcome_def consistent_def review_ok_def ALLOWED_OUTCOMES_def marker_positions_Nil)
next
  case False
  with assms show ?thesis
    by (auto simp: decide_outcome_def consistent_def review_ok_def ALLOWED_OUTCOMES_def marker_positions_Nil
        with_marker_positions with_marker_dicts split: if_splits)
qed

lemma update_same: "map_of d k = Some v \<Longrightarrow> AList.update k v d = d"
  by (induction d) auto

lemma degraded_item_facts:
  assumes "degraded_review_item code = Inr item"
  shows "\<not> is_marker (PyDict item)" "distinct (map fst item)"
proof -
  have "code \<noteq> NO_USABLE_RESULT_CODE"
    using assms by (auto simp: degraded_review_item_def DEGRADED_STEP_CODES_def NO_USABLE_RESULT_CODE_def split: option.splits if_splits)
  with assms show "\<not> is_marker (PyDict item)" "distinct (map fst item)"
    by (auto simp: degraded_review_item_def is_marker_def split: option.splits)
qed

lemma degraded_review_facts:
  assumes "degraded_review_item code = Inr item"
  shows "has_item item (degraded_review item review)" "\<not> list_ex is_marker (degraded_review item review)"
    "list_all is_dict review \<Longrightarrow> list_all is_dict (degraded_review item review)" "degraded_review item review \<noteq> []"
proof -
  note item = degraded_item_facts [OF assms]
  show *: "has_item item (degraded_review item review)"
    using same_items_refl [OF item(2)] by (auto simp: degraded_review_def Let_def has_item_def)
  show "\<not> list_ex is_marker (degraded_review item review)"
    using item(1) by (auto simp: degraded_review_def Let_def list_ex_iff)
  show "list_all is_dict review \<Longrightarrow> list_all is_dict (degraded_review item review)"
    by (auto simp: degraded_review_def Let_def list_all_iff)
  from * show "degraded_review item review \<noteq> []" by (auto simp: has_item_def)
qed

lemma degraded_review_again:
  assumes "degraded_review_item code = Inr item"
  shows "degraded_review item (degraded_review item review) = degraded_review item review"
    "degraded_review item (with_marker (degraded_review item review)) = degraded_review item review"
proof -
  note facts = degraded_review_facts [OF assms, of review]
  have "filter (\<lambda>v. \<not> is_marker v) (degraded_review item review) = degraded_review item review"
    using facts(2) by (auto simp: filter_id_conv list_ex_iff)
  moreover have "degraded_review item zs = kept" if "filter (\<lambda>v. \<not> is_marker v) zs = kept" "has_item item kept" for zs kept
    using that by (simp add: degraded_review_def)
  ultimately show "degraded_review item (degraded_review item review) = degraded_review item review"
    "degraded_review item (with_marker (degraded_review item review)) = degraded_review item review"
    using facts(1) by (simp_all add: with_marker_def)
qed

lemma degraded_payload:
  assumes "validate_product_outcome (PyDict result) = Inr out" "degraded_review_item code = Inr item"
  obtains d flds review kind where "with_degraded_review result code = Inr d"
    "validate_product_outcome (PyDict d) = Inr \<lparr>v2_status = ''partial_success'', v2_kind = kind\<rparr>"
    "dict_get result ''fields'' = PyDict flds" "dict_get result ''needs_review'' = PyList review"
    "kind = (if 0 < usable_field_count flds then ''partial_result'' else ''no_usable_result'')"
    "d = AList.update ''needs_review'' (PyList (if kind = ''no_usable_result'' then with_marker (degraded_review item review)
            else degraded_review item review))
          (AList.update ''result_kind'' (PyStr kind) (AList.update ''status'' (PyStr ''partial_success'') result))"
proof -
  from assms(1)[unfolded validate_iff] obtain flds review where v:
    "dict_get result ''fields'' = PyDict flds" "dict_get result ''needs_review'' = PyList review" "consistent out flds review"
    "candidates_ok result" by blast
  define kind where "kind = (if 0 < usable_field_count flds then ''partial_result'' else ''no_usable_result'')"
  let ?out = "\<lparr>v2_status = ''partial_success'', v2_kind = kind\<rparr>"
  let ?review = "if kind = ''no_usable_result'' then with_marker (degraded_review item review) else degraded_review item review"
  define d where "d = AList.update ''needs_review'' (PyList ?review)
    (AList.update ''result_kind'' (PyStr kind) (AList.update ''status'' (PyStr ''partial_success'') result))"
  note facts = degraded_review_facts [OF assms(2), of review]
  have dec: "decide_outcome (0 < usable_field_count flds) True None = Inr ?out"
    by (simp add: decide_outcome_def kind_def)
  have "review_ok flds (degraded_review item review)"
    using facts(2,3) v(3) by (simp add: review_ok_def consistent_def)
  then have "consistent ?out flds ?review" using decided_consistent [OF dec] by simp
  moreover have "candidates_ok d"
    using v(4) by (simp add: candidates_ok_def d_def update_conv')
  ultimately have valid: "validate_product_outcome (PyDict d) = Inr ?out"
    using v(1) by (intro validate_iff [THEN iffD2] exI [of _ flds] exI [of _ ?review]) (simp add: d_def)
  have "with_degraded_review result code = Inr d"
    using valid unfolding with_degraded_review_def assms res_bind_simps Let_def v(1,2) items_of_simps elements_of_simps
      dec v2_outcome.simps d_def by simp
  then show thesis using valid v(1,2) kind_def d_def by (rule that)
qed

section \<open>The recorded form reads back\<close>

lemma name_char_not_space: "name_char c \<Longrightarrow> \<not> is_space c"
  by (auto simp: name_char_def is_space_def Let_def)

lemma strip_name: "list_all name_char s \<Longrightarrow> py_strip s = s"
proof -
  have d: "dropWhile is_space t = t" if "list_all name_char t" for t
    using that name_char_not_space by (cases t) auto
  assume s: "list_all name_char s"
  then have "list_all name_char (rev s)" by (simp add: list_all_iff)
  with s show ?thesis by (simp add: py_strip_def d)
qed

lemma clean_name_again: "clean_name (Some (clean_name e)) = clean_name e"
proof -
  have unk: "list_all name_char ''unknown''" by (simp add: name_char_def Let_def)
  have good: "list_all name_char (clean_name e)" "clean_name e \<noteq> []" "length (clean_name e) \<le> MAX_ENGINE_NAME_CHARS"
    using unk by (auto simp: clean_name_def Let_def list_all_iff MAX_ENGINE_NAME_CHARS_def dest: in_set_takeD)
  have "filter name_char (clean_name e) = clean_name e" using good(1) by (simp add: list_all_iff filter_id_conv)
  then show ?thesis using good(2,3) strip_name [OF good(1)] by (simp add: clean_name_def [of "Some (clean_name e)"] Let_def)
qed

lemma semantic_of_text_text: "semantic_of_text (semantic_text s) = Some s"
  by (cases s) (simp_all add: semantic_of_text_def SEMANTIC_STATUSES_def)

lemma read_items_record:
  "\<forall>i\<in>set items. fst i \<in> set BLOCKING_CODES \<and> 0 < snd i \<Longrightarrow> read_items (map (\<lambda>i. PyDict (item_record i)) items) = Inr items"
proof (induction items)
  case (Cons i items)
  then have "read_item (PyDict (item_record i)) = Inr i"
    by (simp add: read_item_def item_record_def int_or_def truth_def caught_def make_item_def)
  with Cons show ?case by simp
qed simp

lemma record_reads_back:
  assumes "outcome_wf o1" "clean_name (Some (engine_name o1)) = engine_name o1"
  shows "outcome_from_record show (PyDict (as_record o1)) = Inr o1"
proof -
  have i: "int_or 0 (PyInt n) = Inr n" for n by (simp add: int_or_def truth_def)
  have cov: "read_coverage (coverage_record (coverage_of o1)) = Inr (coverage_of o1)"
    using assms(1) by (simp add: read_coverage_def coverage_record_def i caught_def make_coverage_def outcome_wf_def)
  have items: "res_bind (iterate (PyList (map (\<lambda>i. PyDict (item_record i)) (blocking o1)))) read_items = Inr (blocking o1)"
    using assms(1) read_items_record [of "blocking o1"] by (auto simp: iterate_def truth_def outcome_wf_def image_subset_iff)
  have pay: "read_payload show (payload_record (payload_ref o1)) = Inr (payload_ref o1)"
    by (simp add: read_payload_def payload_record_def i truth_def text_or_empty_def comp_def)
  have kind: "(case optional_text (result_kind o1) of PyStr k \<Rightarrow> Some k | _ \<Rightarrow> None) = result_kind o1"
    by (simp add: optional_text_def split: option.split)
  have name: "clean_name (Some (text_or_empty show (PyStr (engine_name o1)))) = engine_name o1"
  proof -
    have "text_or_empty show (PyStr t) = t" for t by (cases t) (simp_all add: text_or_empty_def truth_def)
    with assms(2) show ?thesis by simp
  qed
  show ?thesis
    using assms(1) by (simp add: outcome_from_record_def as_record_def semantic_of_text_text cov items pay kind name
        make_outcome_def outcome_wf_def)
qed

lemma derived_built:
  assumes "derive_product_outcome show_float sha256 engine output = Inr o1"
  shows "payload_ref o1 = safe_payload_reference show_float sha256 output" "engine_name o1 = clean_name (Some engine)"
    "output = PyNone \<Longrightarrow> semantic_status o1 \<in> {Refused, Not_produced}"
proof -
  have cat: "payload_ref o2 = reference \<and> engine_name o2 = name" if "derive_catalog_document name reference declared final = Inr o2"
    for name reference declared final o2
  proof -
    from that obtain settled unsettled rejected where
      m: "count_models (elements_of (dict_get final ''models'')) = Inr (settled, unsettled, rejected)"
      by (auto simp: derive_catalog_document_def res_bind_Inr)
    with that have "\<exists>s p n counts kind. build_outcome name s p n counts reference kind = Inr o2"
      unfolding derive_catalog_document_def m res_bind_simps prod.case Let_def by (meson)
    then show ?thesis by (auto simp: build_complete)
  qed
  have v1: "payload_ref o2 = reference \<and> engine_name o2 = name" if "derive_vehicle_catalog_v1_outcome name reference v = Inr o2"
    for name reference v o2
    using that by (cases rule: v1_cases) (auto simp: build_complete dest: cat)
  have v2: "payload_ref o2 = reference \<and> engine_name o2 = ''swarm_v2''" if "derive_swarm_v2_outcome reference v = Inr o2"
    for reference v o2
    using that by (auto simp: derive_swarm_v2_outcome_def Let_def build_complete split: sum.splits)
  show "payload_ref o1 = safe_payload_reference show_float sha256 output" "engine_name o1 = clean_name (Some engine)"
    using assms by (auto simp: derive_product_outcome_def Let_def split: if_splits dest: v1 v2)
  show "semantic_status o1 \<in> {Refused, Not_produced}" if "output = PyNone"
    using assms that
    by (auto simp: derive_product_outcome_def Let_def derive_swarm_v2_outcome_def validate_product_outcome_def
        derive_vehicle_catalog_v1_outcome_def build_complete split: if_splits)
qed

section \<open>Examples\<close>

definition example_payload :: pydict where
  "example_payload = [(''status'', PyStr ''complete''), (''result_kind'', PyStr ''usable_result''),
     (''fields'', PyDict [(''engine'', PyList [PyStr ''1.6''])]), (''needs_review'', PyList [])]"

definition example_document :: "string \<Rightarrow> pydict" where
  "example_document verdict = [(''status'', PyStr ''complete''),
     (''result'', PyDict [(''status'', PyStr ''complete''),
        (''models'', PyList [PyDict [(''verification_status'', PyStr verdict)]]), (''pipeline_quality'', PyDict [])])]"

lemma example_valid: "validate_product_outcome (PyDict example_payload) = Inr \<lparr>v2_status = ''complete'', v2_kind = ''usable_result''\<rparr>"
  by (simp add: example_payload_def validate_product_outcome_def check_parts_def check_outcome_def vocabulary
      usable_field_count_def usable_entry_def marker_positions_def candidates_ok_def)

lemma example_derived:
  "\<exists>o1. derive_product_outcome show_float sha256 ''swarm_v2'' (PyDict example_payload) = Inr o1 \<and> semantic_status o1 = Complete"
proof -
  have name: "clean_name (Some ''swarm_v2'') = ''swarm_v2''" by code_simp
  have "derive_swarm_v2_outcome reference (PyDict example_payload) = build_outcome ''swarm_v2'' Complete 1 0
      [(''OUTSTANDING_REVIEW_ITEMS'', 0)] reference (Some ''usable_result'')" for reference
    unfolding derive_swarm_v2_outcome_def example_valid by (simp add: example_payload_def)
  then show ?thesis
    by (simp add: derive_product_outcome_def name build_outcome_def make_coverage_def blocking_of_def make_outcome_def)
qed

section \<open>What holds of every outcome\<close>

text \<open>C10. Semantic success is never inferred: an outcome derived as complete, from the payload of either engine, has
  nothing blocking and nothing outstanding, a payload, and something produced or a proof that there is nothing.\<close>

theorem complete_is_earned:
  assumes "derive_product_outcome show_float sha256 engine output = Inr o1" "semantic_status o1 = Complete"
  shows "blocking o1 = [] \<and> outstanding (coverage_of o1) = 0 \<and> output \<noteq> PyNone \<and>
    (0 < produced (coverage_of o1) \<or> result_kind o1 = Some ''not_found'')"
  using derived_truthful [OF assms(1)] derived_built(3) [OF assms(1)] assms(2) by (auto simp: truthful_def)

lemma complete_is_earned_witness:
  "\<exists>o1. derive_product_outcome (\<lambda>_. ''0.0'') (\<lambda>s. s) ''swarm_v2'' (PyDict example_payload) = Inr o1 \<and> blocking o1 = []"
  using example_derived [of "\<lambda>_. ''0.0''" "\<lambda>s. s"] complete_is_earned by blast

text \<open>C16. Demotion by facts a payload does not carry is a floor: what was produced and whether the outcome is usable
  stay, everything outstanding and every blocking count can only grow to what is known, and an outcome that
  changed is not complete.\<close>

theorem demotion_is_a_floor:
  assumes "outcome_wf o1" "demoted_with o1 counts = Inr o2"
  shows "outcome_wf o2 \<and> produced (coverage_of o2) = produced (coverage_of o1) \<and> is_usable o2 = is_usable o1 \<and>
    outstanding (coverage_of o1) \<le> outstanding (coverage_of o2) \<and>
    (\<forall>c. level (blocking o2) c = max (level (blocking o1) c) (highest counts c)) \<and>
    (o2 = o1 \<or> semantic_status o2 \<noteq> Complete)"
proof -
  have wf: "outcome_wf o2" by (rule demoted_wf [OF assms])
  from assms show ?thesis
  proof (cases rule: demoted_cases)
    case same
    with wf show ?thesis by (simp add: max_absorb1)
  next
    case (lower m c)
    then have "\<forall>c. level (blocking o2) c = max (level (blocking o1) c) (highest counts c)"
      by (simp add: lowered_level)
    moreover have "produced (coverage_of o2) = produced (coverage_of o1)" "is_usable o2 = is_usable o1"
      "outstanding (coverage_of o1) \<le> outstanding (coverage_of o2)" "semantic_status o2 \<noteq> Complete"
      by (simp_all add: lower(5) lowered_def is_usable_def outcome_usability_def ACCEPTABLE_USABILITY_def)
    ultimately show ?thesis using wf by blast
  qed
qed

definition example_outcome :: outcome where
  "example_outcome = \<lparr>engine_name = ''vehicle_catalog_v1'', semantic_status = Complete,
     coverage_of = \<lparr>produced = 3, outstanding = 0\<rparr>, blocking = [], payload_ref = ABSENT_PAYLOAD,
     result_kind = Some ''usable_result''\<rparr>"

lemma example_outcome_wf: "outcome_wf example_outcome"
  by (simp add: outcome_wf_def example_outcome_def)

lemma example_demoted: "demoted_with example_outcome [(''FAILED_AGENTS'', 2)] = Inr
  (example_outcome\<lparr>semantic_status := Partial, coverage_of := \<lparr>produced = 3, outstanding = 2\<rparr>,
     blocking := [(''FAILED_AGENTS'', 2)], result_kind := Some ''partial_result''\<rparr>)"
  by (simp add: demoted_with_def example_outcome_def BLOCKING_CODES_def make_coverage_def blocking_of_def make_item_def make_outcome_def)

lemma demotion_is_a_floor_witness: "highest [(''FAILED_AGENTS'', 2)] ''FAILED_AGENTS'' = 2 \<and>
    level (blocking (example_outcome\<lparr>semantic_status := Partial, coverage_of := \<lparr>produced = 3, outstanding = 2\<rparr>,
     blocking := [(''FAILED_AGENTS'', 2)], result_kind := Some ''partial_result''\<rparr>)) ''FAILED_AGENTS'' =
    max (level (blocking example_outcome) ''FAILED_AGENTS'') 2"
  using demotion_is_a_floor [OF example_outcome_wf example_demoted] by simp

text \<open>The order in which blocking facts are folded in does not matter, and folding them in again changes nothing
  more: demoting by one collection and then another is the same as the other way around.\<close>

theorem demotion_order_is_irrelevant:
  assumes "outcome_wf o1"
  shows "res_bind (demoted_with o1 xs) (\<lambda>o2. demoted_with o2 ys) = res_bind (demoted_with o1 ys) (\<lambda>o2. demoted_with o2 xs)"
proof -
  have join: "res_bind (demoted_with o1 us) (\<lambda>o2. demoted_with o2 vs) = demoted_with o1 (us @ vs)" if "known_counts (us @ vs)" for us vs
  proof -
    from that have k: "known_counts us" "known_counts vs" by (auto simp: known_counts_def)
    obtain o2 where o2: "demoted_with o1 us = Inr o2" using demoted_total [OF assms k(1)] by blast
    moreover obtain o3 where "demoted_with o2 vs = Inr o3" using demoted_total [OF demoted_wf [OF assms o2] k(2)] by blast
    ultimately show ?thesis using demoted_append [OF assms o2] by simp
  qed
  show ?thesis
  proof (cases "known_counts (xs @ ys)")
    case True
    then have "known_counts (ys @ xs)" by (auto simp: known_counts_def)
    with True show ?thesis using join demoted_swap [OF assms True] by simp
  next
    case False
    then consider "\<not> known_counts xs" | "\<not> known_counts ys" by (auto simp: known_counts_def)
    then have "res_bind (demoted_with o1 us) (\<lambda>o2. demoted_with o2 vs) = Inl Blocking_code_unknown"
      if "us = xs \<and> vs = ys \<or> us = ys \<and> vs = xs" for us vs
      using that demoted_unknown demoted_total [OF assms, of us] by cases (force simp: res_bind_def split: sum.split)+
    then show ?thesis by metis
  qed
qed

lemma demotion_order_is_irrelevant_witness:
  "res_bind (demoted_with example_outcome [(''FAILED_AGENTS'', 2)]) (\<lambda>o2. demoted_with o2 [(''TASK_FAILURES'', 1)]) =
   res_bind (demoted_with example_outcome [(''TASK_FAILURES'', 1)]) (\<lambda>o2. demoted_with o2 [(''FAILED_AGENTS'', 2)])"
  by (rule demotion_order_is_irrelevant [OF example_outcome_wf])

text \<open>The acceptance gate and the table of useful outcomes agree with the derivation: the gate accepts exactly the
  usable outcomes, and only complete ones where it requires completeness; the durable status with the result kind
  is in the table exactly when the outcome is usable.\<close>

theorem gate_matches_the_outcome:
  assumes "derive_product_outcome show_float sha256 engine output = Inr o1"
  shows "(acceptance_problems strict o1 = [] \<longleftrightarrow>
      semantic_status o1 = Complete \<or> \<not> strict \<and> semantic_status o1 = Partial) \<and>
    is_useful_outcome (durable_product_status (semantic_status o1)) (case result_kind o1 of None \<Rightarrow> ''None'' | Some k \<Rightarrow> k) =
      is_usable o1"
proof -
  note truthful = derived_truthful [OF assms, unfolded truthful_def]
  have present: "present (payload_ref o1)" if "semantic_status o1 \<in> {Complete, Partial}"
    using derived_built [OF assms] that by (auto simp: safe_payload_reference_def Let_def)
  have clean: "filter (\<lambda>(code, n). code \<in> set REFUSING_CODES) (blocking o1) = []" if "semantic_status o1 \<in> {Complete, Partial}"
    using truthful that by (fastforce simp: filter_empty_conv)
  have "acceptance_problems strict o1 = [] \<longleftrightarrow> semantic_status o1 = Complete \<or> \<not> strict \<and> semantic_status o1 = Partial"
    using present clean
    by (cases "semantic_status o1") (simp_all add: acceptance_problems_def is_usable_def outcome_usability_def ACCEPTABLE_USABILITY_def)
  moreover have "is_useful_outcome (durable_product_status (semantic_status o1)) (case result_kind o1 of None \<Rightarrow> ''None'' | Some k \<Rightarrow> k) =
      is_usable o1"
    using truthful
    by (cases "semantic_status o1")
      (auto simp: is_useful_outcome_def USEFUL_TERMINAL_OUTCOMES_def is_usable_def outcome_usability_def ACCEPTABLE_USABILITY_def)
  ultimately show ?thesis by blast
qed

lemma gate_matches_the_outcome_witness:
  "\<exists>o1. derive_product_outcome (\<lambda>_. ''0.0'') (\<lambda>s. s) ''swarm_v2'' (PyDict example_payload) = Inr o1 \<and> acceptance_problems True o1 = []"
  using example_derived [of "\<lambda>_. ''0.0''" "\<lambda>s. s"] gate_matches_the_outcome [where strict = True] by blast

text \<open>C17. The recorded form loses nothing: the reader rebuilds exactly the outcome that was recorded, of either engine
  and after any demotion.\<close>

theorem recorded_outcomes_read_back:
  assumes "derive_product_outcome show_float sha256 engine output = Inr o1" "demoted_with o1 counts = Inr o2"
  shows "outcome_from_record show (PyDict (as_record o2)) = Inr o2"
proof (rule record_reads_back)
  have wf: "outcome_wf o1" using derived_truthful [OF assms(1)] by (simp add: truthful_def)
  then show "outcome_wf o2" using assms(2) by (rule demoted_wf)
  have "engine_name o2 = engine_name o1"
    using wf assms(2) by (cases rule: demoted_cases) (simp_all add: lowered_def)
  then show "clean_name (Some (engine_name o2)) = engine_name o2"
    using derived_built(2) [OF assms(1)] by (simp add: clean_name_again)
qed

lemma recorded_outcomes_read_back_witness:
  "\<exists>o1. derive_product_outcome (\<lambda>_. ''0.0'') (\<lambda>s. s) ''swarm_v2'' (PyDict example_payload) = Inr o1 \<and>
     outcome_from_record (\<lambda>_. []) (PyDict (as_record o1)) = Inr o1"
proof -
  obtain o1 where o1: "derive_product_outcome (\<lambda>_. ''0.0'') (\<lambda>s. s) ''swarm_v2'' (PyDict example_payload) = Inr o1"
    using example_derived by blast
  have "demoted_with o1 [] = Inr o1" by (simp add: demoted_with_def)
  from recorded_outcomes_read_back [OF o1 this] o1 show ?thesis by blast
qed

text \<open>Whatever the engine finalizes is what the worker's validator accepts, with the status and kind of the
  decision table, as long as no collaborator supplies the empty-result marker itself next to usable fields.\<close>

theorem finalized_payload_is_valid:
  assumes "finalize_product_outcome flds verdicts failures gaps conflicts unverified trusted candidates = Inr d"
    "list_all is_dict (verdicts @ failures @ gaps)"
    "0 < usable_field_count flds \<longrightarrow> \<not> list_ex is_marker (verdicts @ failures @ gaps)"
    "list_all (\<lambda>c. text_in (dict_get c ''outcome'') CANDIDATE_OUTCOMES) candidates"
  shows "\<exists>out. validate_product_outcome (PyDict d) = Inr out \<and>
    decide_outcome (0 < usable_field_count flds) (verdicts @ failures @ gaps \<noteq> [] \<or> conflicts \<noteq> [] \<or> unverified \<noteq> []) trusted = Inr out"
proof -
  let ?review = "verdicts @ failures @ gaps"
  let ?blocked = "?review \<noteq> [] \<or> conflicts \<noteq> [] \<or> unverified \<noteq> []"
  from assms(1) obtain out where out: "decide_outcome (0 < usable_field_count flds) ?blocked trusted = Inr out"
    unfolding finalize_product_outcome_def Let_def res_bind_Inr by blast
  define review where "review = (if v2_kind out = ''no_usable_result'' then with_marker ?review else ?review)"
  have d: "d = [(''status'', PyStr (v2_status out)), (''result_kind'', PyStr (v2_kind out)), (''fields'', PyDict flds),
      (''needs_review'', PyList review)] @
      (if candidates = [] then [] else [(''candidate_outcomes'', PyList (map PyDict candidates))])"
    using assms(1) unfolding finalize_product_outcome_def Let_def out res_bind_simps review_def by simp
  have "review_ok flds ?review" using assms(2,3) by (simp add: review_ok_def)
  then have "consistent out flds review" using decided_consistent [OF out] unfolding review_def by blast
  moreover have "candidates_ok d"
    using assms(4) by (auto simp: candidates_ok_def d list_all_iff)
  ultimately have "validate_product_outcome (PyDict d) = Inr out"
    by (intro validate_iff [THEN iffD2] exI [of _ flds] exI [of _ review]) (simp add: d)
  with out show ?thesis by blast
qed

lemma finalized_payload_is_valid_witness:
  "\<exists>d. finalize_product_outcome [(''engine'', PyList [PyStr ''1.6''])] [] [] [] [''c1''] [] None [] = Inr d \<and>
     (\<exists>out. validate_product_outcome (PyDict d) = Inr out \<and> v2_kind out = ''partial_result'')"
proof -
  let ?flds = "[(''engine'', PyList [PyStr ''1.6''])]"
  have dec: "decide_outcome (0 < usable_field_count ?flds) True None = Inr \<lparr>v2_status = ''partial_success'', v2_kind = ''partial_result''\<rparr>"
    by (simp add: decide_outcome_def usable_field_count_def usable_entry_def)
  then obtain d where d: "finalize_product_outcome ?flds [] [] [] [''c1''] [] None [] = Inr d"
    by (simp add: finalize_product_outcome_def)
  from finalized_payload_is_valid [OF d] dec obtain out where "validate_product_outcome (PyDict d) = Inr out"
    "out = \<lparr>v2_status = ''partial_success'', v2_kind = ''partial_result''\<rparr>" by auto
  with d show ?thesis by auto
qed

text \<open>A step that degrades after the payload was built never loses it: the payload stays valid with the same fields,
  is never complete again, carries the step's review item, and adding the same item again changes nothing.\<close>

theorem degraded_payload_stays_valid:
  assumes "validate_product_outcome (PyDict result) = Inr out" "degraded_review_item code = Inr item"
  shows "\<exists>d. with_degraded_review result code = Inr d \<and>
    (\<exists>out'. validate_product_outcome (PyDict d) = Inr out' \<and> v2_status out' = ''partial_success'') \<and>
    dict_get d ''fields'' = dict_get result ''fields'' \<and>
    has_item item (elements_of (dict_get d ''needs_review'')) \<and> with_degraded_review d code = Inr d"
proof -
  from assms obtain d flds review kind where first: "with_degraded_review result code = Inr d"
    "validate_product_outcome (PyDict d) = Inr \<lparr>v2_status = ''partial_success'', v2_kind = kind\<rparr>"
    "dict_get result ''fields'' = PyDict flds" "dict_get result ''needs_review'' = PyList review"
    "kind = (if 0 < usable_field_count flds then ''partial_result'' else ''no_usable_result'')"
    "d = AList.update ''needs_review'' (PyList (if kind = ''no_usable_result'' then with_marker (degraded_review item review)
            else degraded_review item review))
          (AList.update ''result_kind'' (PyStr kind) (AList.update ''status'' (PyStr ''partial_success'') result))"
    by (rule degraded_payload)
  define review' where "review' = (if kind = ''no_usable_result'' then with_marker (degraded_review item review)
    else degraded_review item review)"
  note facts = degraded_review_facts [OF assms(2), of review]
  have again: "degraded_review item review' = degraded_review item review"
    using degraded_review_again [OF assms(2)] by (simp add: review'_def)
  have look: "dict_get d ''fields'' = PyDict flds" "dict_get d ''needs_review'' = PyList review'"
    using first(3) by (simp_all add: first(6) review'_def)
  have keys: "map_of d ''status'' = Some (PyStr ''partial_success'')" "map_of d ''result_kind'' = Some (PyStr kind)"
    "map_of d ''needs_review'' = Some (PyList review')"
    by (simp_all add: first(6) review'_def update_conv')
  from first(2) assms(2) obtain d2 flds2 review2 kind2 where second: "with_degraded_review d code = Inr d2"
    "dict_get d ''fields'' = PyDict flds2" "dict_get d ''needs_review'' = PyList review2"
    "kind2 = (if 0 < usable_field_count flds2 then ''partial_result'' else ''no_usable_result'')"
    "d2 = AList.update ''needs_review'' (PyList (if kind2 = ''no_usable_result'' then with_marker (degraded_review item review2)
            else degraded_review item review2))
          (AList.update ''result_kind'' (PyStr kind2) (AList.update ''status'' (PyStr ''partial_success'') d))"
    by (rule degraded_payload)
  have same: "flds2 = flds" "review2 = review'" "kind2 = kind" using look second first(5) by simp_all
  have "d2 = d"
    unfolding second(5) same again review'_def [symmetric] using keys by (simp add: update_same)
  moreover have "filter (\<lambda>v. \<not> is_marker v) (degraded_review item review) = degraded_review item review"
    using facts(2) by (auto simp: filter_id_conv list_ex_iff)
  then have "has_item item review'" using facts(1) by (simp add: review'_def with_marker_def has_item_def)
  ultimately show ?thesis using first(1-3) look second(1) by auto
qed

lemma degraded_payload_stays_valid_witness:
  "\<exists>d out. with_degraded_review example_payload ''VERIFIER_FAILED'' = Inr d \<and>
     validate_product_outcome (PyDict d) = Inr out \<and> v2_status out = ''partial_success''"
proof -
  have "degraded_review_item ''VERIFIER_FAILED'' = Inr [(''task_id'', PyStr ''verification''), (''code'', PyStr ''VERIFIER_FAILED'')]"
    by (simp add: degraded_review_item_def DEGRADED_STEP_CODES_def)
  from degraded_payload_stays_valid [OF example_valid this] show ?thesis by blast
qed

section \<open>Where the code and its comments part\<close>

text \<open>A collaborator's review item that carries the marker next to usable fields passes the finalizer and is refused by
  the validator, although the two "cannot drift apart".\<close>

lemma supplied_marker_is_refused:
  "\<exists>d. finalize_product_outcome [(''engine'', PyList [PyStr ''1.6''])] [marker] [] [] [] [] None [] = Inr d \<and>
     validate_product_outcome (PyDict d) = Inl Marker_contradicts_kind"
  by (simp add: finalize_product_outcome_def decide_outcome_def usable_field_count_def usable_entry_def
      validate_product_outcome_def check_parts_def check_outcome_def vocabulary marker_positions_def marker_def is_marker_def)

text \<open>A model whose verdict is none of the known ones counts as settled, and the document can be complete.\<close>

lemma unknown_verdict_counts_as_settled:
  "\<exists>o1. derive_vehicle_catalog_v1_outcome ''vehicle_catalog_v1'' reference (PyDict (example_document ''unverified'')) = Inr o1 \<and>
     semantic_status o1 = Complete"
  by (simp add: derive_vehicle_catalog_v1_outcome_def example_document_def is_catalog_document_def derive_catalog_document_def
      V1_FAILURE_CLAIMS_def V1_REJECTED_VERDICT_def V1_UNSETTLED_VERDICTS_def V1_COMPLETE_CLAIMS_def V1_DEGRADED_STAGE_def
      count_of_view_def degraded_stage_def build_outcome_def make_coverage_def blocking_of_def make_outcome_def)

text \<open>A record whose byte size is not a number is not refused with the module's own error: \<open>int\<close> raises through.\<close>

lemma byte_size_escapes:
  "outcome_from_record show (PyDict [(''semantic_status'', PyStr ''complete''),
     (''payload'', PyDict [(''byte_size'', PyStr ''x'')])]) = Inl (Escaped Int_value)"
proof -
  have "semantic_of_text ''complete'' = Some Complete" by (simp add: semantic_of_text_def SEMANTIC_STATUSES_def)
  moreover have "py_int ''x'' = None" by (simp add: py_int_def py_strip_def is_space_def digit_value_def)
  ultimately show ?thesis
    by (simp add: outcome_from_record_def read_coverage_def int_or_def truth_def caught_def make_coverage_def iterate_def read_payload_def)
qed

end
