(* ===== verification/Finalization_Safety.thy ===== *)
theory Finalization_Safety
  imports Finalization Run_Safety Outcome_Safety
begin

text \<open>
  One decision per run: the strongest claim wins, what is reported is what is durable, the terminal
  event is recorded exactly with the write, and a cancellation that arrives in between is honoured.
\<close>

section \<open>Authority\<close>

lemma authority_of_terminal: "TERMINAL_AUTHORITY s \<noteq> None \<longleftrightarrow> s \<in> set TERMINAL_STATES"
  by (cases s) (simp_all add: TERMINAL_STATES_def)

lemma durable_terminal: "claim_ok c \<Longrightarrow> durable_status c \<in> set TERMINAL_STATES"
proof (cases "reason c")
  case Budget_claim
  then show "claim_ok c \<Longrightarrow> ?thesis"
    unfolding authority_of_terminal [symmetric] by (auto simp: durable_status_def claim_ok_def split: option.splits)
next
  case Product_claim
  then show ?thesis
    by (cases "semantic_status (claim_outcome c)") (simp_all add: durable_status_def status_named_def TERMINAL_STATES_def)
qed (simp_all add: durable_status_def TERMINAL_STATES_def)

lemma authority_le_50: "claim_ok c \<Longrightarrow> authority c \<le> 50"
  using durable_terminal [of c] by (auto simp: authority_def TERMINAL_STATES_def)

lemma strongest_member: "strongest w cs \<in> set (w # cs)"
  by (induction w cs rule: strongest.induct) (auto split: if_splits)

lemma strongest_authority: "x \<in> set (w # cs) \<Longrightarrow> authority x \<le> authority (strongest w cs)"
proof (induction w cs arbitrary: x rule: strongest.induct)
  case (2 w c cs)
  have "authority (if authority w < authority c then c else w) \<le> authority (strongest w (c # cs))"
    using 2 by simp
  moreover have "authority w \<le> authority (if authority w < authority c then c else w)"
    "authority c \<le> authority (if authority w < authority c then c else w)" by auto
  moreover have "authority y \<le> authority (strongest w (c # cs))" if "y \<in> set cs" for y
    using 2(1) [of y] that by simp
  ultimately show ?case using 2(2) by auto
qed simp

lemma legalize_status: "durable_status (legalize c s) = (if s = Some Cancellation_requested \<and> durable_status c \<notin> {Cancelled, Failed} then Cancelled else durable_status c)"
  by (auto simp: legalize_def durable_status_def)

lemma legalize_ok: "claim_ok c \<Longrightarrow> claim_ok (legalize c s)"
  by (auto simp: legalize_def claim_ok_def)

lemma legalize_authority: "claim_ok c \<Longrightarrow> authority c \<le> authority (legalize c s)"
  using authority_le_50 [of c] by (simp add: authority_def legalize_status)

section \<open>One write\<close>

lemma write_ok:
  assumes "atomic_write e c s x r = (Inr u, r')"
  shows "\<exists>row. row = others e (calls r) (stored r) \<and> calls r' = calls r + 1 \<and>
    finalize_run s x (event_row e c s) (own_lease e) (output_text e c) (error_text e c) (now_at e (calls r)) row = Inr (stored r')"
  using assms by (auto simp: atomic_write_def Let_def split: if_splits sum.splits)

lemma write_not_ok:
  assumes "atomic_write e c s x r = (Inl err, r')" "fault_at e (calls r) \<noteq> Lost_answer"
  shows "stored r' = others e (calls r) (stored r)"
  using assms by (auto simp: atomic_write_def Let_def split: if_splits sum.splits)

lemma read_row: "observed_status e r = (s, r') \<Longrightarrow> stored r' = others e (calls r) (stored r) \<and> calls r' = calls r + 1 \<and>
    (s = None \<or> s = Some (row_status (stored r')))"
  by (auto simp: observed_status_def Let_def split: if_splits)

lemma persist_ok:
  assumes "persist e c s observed r = (Inr u, r')"
  obtains x r1 where "atomic_write e c s x r1 = (Inr u, r')"
    "r1 = r \<or> r1 = snd (observed_status e r)"
  using assms by (auto simp: persist_def Let_def split: option.splits prod.splits sum.splits)

lemma persist_row:
  assumes "persist e c s observed r = (Inr u, r')"
  shows "row_status (stored r') = s" "s \<in> set TERMINAL_STATES"
proof -
  from assms obtain x r1 where w: "atomic_write e c s x r1 = (Inr u, r')" by (rule persist_ok)
  from write_ok [OF w] show "row_status (stored r') = s" "s \<in> set TERMINAL_STATES"
    by (auto dest: finalize_ok)
qed

lemma adopt_result:
  assumes "adopt observed f = Some (res, f')"
  shows "observed = Some (final_status res)" "final_status res \<in> set TERMINAL_STATES" "\<not> wrote res" "already_terminal res"
    "decided f' = Some res" "final_claim res = None"
  using assms by (auto simp: adopt_def Let_def split: option.splits if_splits)

section \<open>What a commit reports\<close>

lemma commit_cases:
  assumes "commit left e c observed f r = (out, f', r')"
  obtains (written) u where "persist e c (durable_status c) observed r = (Inr u, r')"
      "out = Inr \<lparr>final_status = durable_status c, final_claim = Some c, wrote = True, duplicate = False,
         superseded = False, already_terminal = False\<rparr>"
      "f' = f\<lparr>decision := Some c, decided := Some \<lparr>final_status = durable_status c, final_claim = Some c, wrote = True,
         duplicate = False, superseded = False, already_terminal = False\<rparr>\<rparr>"
  | (refused) err where "persist e c (durable_status c) observed r = (Inl err, r')" "out = Inl err" "f' = f"
  | (adopted) err r1 current res where "persist e c (durable_status c) observed r = (Inl err, r1)"
      "observed_status e r1 = (current, r')" "adopt current f = Some (res, f')" "out = Inr res"
  | (again) err r1 current r2 m where "left = Suc m" "persist e c (durable_status c) observed r = (Inl err, r1)"
      "observed_status e r1 = (current, r2)" "adopt current f = None" "current \<noteq> observed" "current \<noteq> None"
      "commit m e (legalize c current) current f r2 = (out, f', r')"
  | (lost) err r1 current where "persist e c (durable_status c) observed r = (Inl err, r1)"
      "observed_status e r1 = (current, r')" "out = Inl err" "f' = f"
proof -
  obtain a r1 where p: "persist e c (durable_status c) observed r = (a, r1)" by force
  show thesis
  proof (cases a)
    case (Inr u)
    with p assms written [of u] show thesis by (subst (asm) commit.simps) (simp add: Let_def)
  next
    case (Inl err)
    obtain current r2 where o: "observed_status e r1 = (current, r2)" by force
    have *: "commit left e c observed f r =
      (if (case err of From_repository x \<Rightarrow> x \<notin> set RACE_CODES | _ \<Rightarrow> True) then (Inl err, f, r1)
       else case adopt current f of Some (res, f') \<Rightarrow> (Inr res, f', r2)
         | None \<Rightarrow> (case left of 0 \<Rightarrow> (Inl err, f, r2)
             | Suc m \<Rightarrow> if current \<noteq> None \<and> current \<noteq> observed then commit m e (legalize c current) current f r2
                        else (Inl err, f, r2)))"
      by (subst commit.simps) (simp add: p Inl o)
    show thesis
    proof (cases "adopt current f")
      case (Some q)
      with * assms p Inl o show thesis by (cases q) (auto split: if_splits intro: adopted refused)
    next
      case None
      with * assms p Inl o show thesis
        by (auto split: if_splits nat.splits fin_error.splits intro: refused lost again)
    qed
  qed
qed

text \<open>Either a claim at least as strong was written, or a terminal status was adopted; the row has that status.\<close>

definition reported :: "claim \<Rightarrow> fin_result \<Rightarrow> finalizer \<Rightarrow> repo \<Rightarrow> bool" where
  "reported c res f' r' = (row_status (stored r') = final_status res \<and> final_status res \<in> set TERMINAL_STATES \<and>
     decided f' = Some res \<and>
     (if wrote res
      then \<exists>d. final_claim res = Some d \<and> final_status res = durable_status d \<and> authority c \<le> authority d \<and> claim_ok d
      else final_claim res = None \<and> already_terminal res))"

lemma adopted_reported:
  assumes "adopt s f = Some (res, f')" "observed_status e r = (s, r')"
  shows "reported c res f' r'"
  using adopt_result [OF assms(1)] read_row [OF assms(2)] by (auto simp: reported_def)

lemma commit_reports:
  assumes "commit left e c observed f r = (Inr res, f', r')" "claim_ok c"
  shows "reported c res f' r'"
  using assms
proof (induction left arbitrary: c observed r rule: less_induct)
  case (less left)
  from less(2) show ?case
  proof (cases rule: commit_cases)
    case (written u)
    with persist_row [OF written(1)] less(3) show ?thesis by (auto simp: reported_def)
  next
    case (adopted err r1 current res')
    then show ?thesis by (auto intro: adopted_reported)
  next
    case (again err r1 current r2 m)
    from less(1) [OF _ again(7) legalize_ok [OF less(3)]] again(1) legalize_authority [OF less(3), of current]
    show ?thesis by (auto simp: reported_def split: if_splits intro: order_trans)
  qed simp_all
qed

section \<open>Finalizing\<close>

lemma finalize_cases:
  assumes "finalize e c f r = (out, f', r')"
  obtains (repeated) res where "decided f = Some res" "out = Inr (repeat_result c res f)" "f' = f" "r' = r"
  | (adopted) s res where "decided f = None" "observed_status e r = (s, r')" "adopt s f = Some (res, f')" "out = Inr res"
  | (commits) s r1 where "decided f = None" "observed_status e r = (s, r1)" "adopt s f = None"
      "commit 1 e (legalize (winner c f) s) s f r1 = (out, f', r')"
proof (cases "decided f")
  case (Some res)
  show thesis by (rule repeated [OF Some]) (use assms Some in \<open>auto simp: finalize_def\<close>)
next
  case None
  obtain s r1 where o: "observed_status e r = (s, r1)" by force
  show thesis
  proof (cases "adopt s f")
    case (Some q)
    obtain res f'' where q: "q = (res, f'')" by force
    have "finalize e c f r = (Inr res, f'', r1)" by (simp add: finalize_def Let_def None o Some q)
    with assms Some q have "r' = r1" "out = Inr res" "adopt s f = Some (res, f')" by simp_all
    with o show thesis by (intro adopted [OF None]) simp_all
  next
    case no: None
    have "finalize e c f r = commit 1 e (legalize (winner c f) s) s f r1" by (simp add: finalize_def Let_def None o no)
    with assms show thesis by (intro commits [OF None o no]) simp
  qed
qed

lemma winner_ok: "\<forall>x\<in>set (c # known_claims f). claim_ok x \<Longrightarrow> claim_ok (winner c f)"
  using strongest_member [of c "known_claims f"] unfolding winner_def by blast

lemma finalize_reports:
  assumes "finalize e c f r = (Inr res, f', r')" "decided f = None" "\<forall>x\<in>set (c # known_claims f). claim_ok x"
  shows "\<exists>d. reported d res f' r' \<and> claim_ok d \<and> (\<forall>x\<in>set (c # known_claims f). authority x \<le> authority d)"
proof -
  have strong: "authority x \<le> authority (legalize (winner c f) s)" if "x \<in> set (c # known_claims f)" for x s
    using strongest_authority [OF that] legalize_authority [OF winner_ok [OF assms(3)], of s] by (simp add: winner_def)
  from assms(1) show ?thesis
  proof (cases rule: finalize_cases)
    case (adopted s res')
    then have "reported (winner c f) res f' r'" by (auto intro: adopted_reported)
    moreover have "authority x \<le> authority (winner c f)" if "x \<in> set (c # known_claims f)" for x
      using strongest_authority [OF that] by (simp add: winner_def)
    ultimately show ?thesis using winner_ok [OF assms(3)] by blast
  next
    case (commits s r1)
    have ok: "claim_ok (legalize (winner c f) s)" by (rule legalize_ok [OF winner_ok [OF assms(3)]])
    from commit_reports [OF commits(4) ok] ok strong show ?thesis by blast
  qed (use assms(2) in simp)
qed

section \<open>Events and terminal rows\<close>

definition quiet :: "surroundings \<Rightarrow> bool" where
  "quiet e = (\<forall>n x. row_events (others e n x) = row_events x \<and> fault_at e n \<noteq> Lost_answer)"

definition event_list :: "'a option \<Rightarrow> 'a list" where
  "event_list x = (case x of None \<Rightarrow> [] | Some y \<Rightarrow> [y])"

definition recorded :: "surroundings \<Rightarrow> fin_error + fin_result \<Rightarrow> (string \<times> string) list" where
  "recorded e out = (case out of
       Inl _ \<Rightarrow> []
     | Inr res \<Rightarrow> (if wrote res then event_list (event_row e (the (final_claim res)) (final_status res)) else []))"

lemma read_events: "quiet e \<Longrightarrow> observed_status e r = (s, r') \<Longrightarrow> row_events (stored r') = row_events (stored r)"
  using read_row [of e r s r'] by (simp add: quiet_def)

lemma write_events:
  assumes "quiet e" "atomic_write e c s x r = (a, r')"
  shows "row_events (stored r') = row_events (stored r) @ (case a of Inl _ \<Rightarrow> [] | Inr _ \<Rightarrow> event_list (event_row e c s))"
proof (cases a)
  case (Inl err)
  with assms write_not_ok [of e c s x r err r'] show ?thesis by (simp add: quiet_def)
next
  case (Inr u)
  with assms(2) have w: "atomic_write e c s x r = (Inr u, r')" by simp
  from write_ok [OF w] obtain row where row: "row = others e (calls r) (stored r)"
    "finalize_run s x (event_row e c s) (own_lease e) (output_text e c) (error_text e c) (now_at e (calls r)) row = Inr (stored r')"
    by blast
  from finalize_ok(9) [OF row(2)] row(1) assms(1) Inr show ?thesis by (simp add: quiet_def event_list_def)
qed

lemma persist_events:
  assumes "quiet e" "persist e c s observed r = (a, r')"
  shows "row_events (stored r') = row_events (stored r) @ (case a of Inl _ \<Rightarrow> [] | Inr _ \<Rightarrow> event_list (event_row e c s))"
proof -
  obtain expected r1 where x: "(case observed of Some x \<Rightarrow> (Some x, r) | None \<Rightarrow> observed_status e r) = (expected, r1)"
    by force
  then have r1: "row_events (stored r1) = row_events (stored r)"
    using read_events [OF assms(1)] by (auto split: option.splits)
  show ?thesis
  proof (cases expected)
    case None
    with assms(2) x r1 show ?thesis by (auto simp: persist_def)
  next
    case (Some y)
    obtain w r2 where w: "atomic_write e c s y r1 = (w, r2)" by force
    from write_events [OF assms(1) w] r1 assms(2) x Some w show ?thesis
      by (auto simp: persist_def split: sum.splits)
  qed
qed

lemma commit_events:
  assumes "quiet e" "commit left e c observed f r = (out, f', r')"
  shows "row_events (stored r') = row_events (stored r) @ recorded e out"
  using assms(2)
proof (induction left arbitrary: c observed r rule: less_induct)
  case (less left)
  note ev = persist_events [OF assms(1)]
  note rd = read_events [OF assms(1)]
  from less(2) show ?case
  proof (cases rule: commit_cases)
    case (written u)
    with ev [OF written(1)] show ?thesis by (simp add: recorded_def)
  next
    case (refused err)
    with ev [OF refused(1)] show ?thesis by (simp add: recorded_def)
  next
    case (adopted err r1 current res)
    with ev [OF adopted(1)] rd [OF adopted(2)] adopt_result(3) [OF adopted(3)] show ?thesis by (simp add: recorded_def)
  next
    case (again err r1 current r2 m)
    with less(1) [OF _ again(7)] ev [OF again(2)] rd [OF again(3)] show ?thesis by simp
  next
    case (lost err r1 current)
    with ev [OF lost(1)] rd [OF lost(2)] show ?thesis by (simp add: recorded_def)
  qed
qed

text \<open>What other processes leave alone once a run ended (\<open>Run_Safety.ended_runs_stay_ended\<close>).\<close>

definition terminal_final :: "surroundings \<Rightarrow> bool" where
  "terminal_final e = (\<forall>n x. row_status x \<in> set TERMINAL_STATES \<longrightarrow> others e n x = x)"

lemma write_terminal:
  assumes "terminal_final e" "row_status (stored r) \<in> set TERMINAL_STATES" "atomic_write e c s x r = (a, r')"
  shows "stored r' = stored r"
proof -
  have row: "others e (calls r) (stored r) = stored r" using assms(1,2) by (simp add: terminal_final_def)
  have "finalize_run s x ev l out err now (stored r) \<noteq> Inr row'" for ev l out err now row'
  proof
    assume fin: "finalize_run s x ev l out err now (stored r) = Inr row'"
    then have "s \<in> set (VALID_TRANSITIONS (row_status (stored r)))"
      using finalize_ok(2,4) [OF fin] terminal_known [OF assms(2)] by simp
    then show False using terminal_no_successor [OF assms(2)] by simp
  qed
  with assms(3) row show ?thesis by (auto simp: atomic_write_def Let_def split: if_splits sum.splits)
qed

lemma read_terminal:
  "terminal_final e \<Longrightarrow> row_status (stored r) \<in> set TERMINAL_STATES \<Longrightarrow> observed_status e r = (s, r') \<Longrightarrow> stored r' = stored r"
  using read_row [of e r s r'] by (simp add: terminal_final_def)

lemma persist_terminal:
  assumes "terminal_final e" "row_status (stored r) \<in> set TERMINAL_STATES" "persist e c s observed r = (a, r')"
  shows "stored r' = stored r"
proof -
  obtain expected r1 where x: "(case observed of Some x \<Rightarrow> (Some x, r) | None \<Rightarrow> observed_status e r) = (expected, r1)"
    by force
  then have r1: "stored r1 = stored r"
    using read_terminal [OF assms(1,2)] by (auto split: option.splits)
  show ?thesis
  proof (cases expected)
    case None
    with assms(3) x r1 show ?thesis by (auto simp: persist_def)
  next
    case (Some y)
    obtain w r2 where w: "atomic_write e c s y r1 = (w, r2)" by force
    from write_terminal [OF assms(1) _ w] r1 assms(2,3) x Some w show ?thesis
      by (auto simp: persist_def split: sum.splits)
  qed
qed

lemma commit_terminal:
  assumes "terminal_final e" "row_status (stored r) \<in> set TERMINAL_STATES" "commit left e c observed f r = (out, f', r')"
  shows "stored r' = stored r"
  using assms(2,3)
proof (induction left arbitrary: c observed r rule: less_induct)
  case (less left)
  note p = persist_terminal [OF assms(1) less(2)]
  from less(3) show ?case
  proof (cases rule: commit_cases)
    case (adopted err r1 current res)
    with p read_terminal [OF assms(1), of r1] less(2) show ?thesis by metis
  next
    case (again err r1 current r2 m)
    have "stored r1 = stored r" "stored r2 = stored r1"
      using p [OF again(2)] read_terminal [OF assms(1) _ again(3)] less(2) by simp_all
    with less(1) [OF _ _ again(7)] again(1) less(2) show ?thesis by simp
  next
    case (lost err r1 current)
    with p read_terminal [OF assms(1), of r1] less(2) show ?thesis by metis
  qed (use p in blast)+
qed

section \<open>Undisturbed and raced finalizations\<close>

definition faultless :: "surroundings \<Rightarrow> bool" where
  "faultless e = (\<forall>n. \<not> unreadable e n \<and> fault_at e n = No_fault)"

definition final_row :: "surroundings \<Rightarrow> claim \<Rightarrow> run_row \<Rightarrow> run_row" where
  "final_row e c x = x\<lparr>row_status := durable_status c,
     row_output := (if claim_output c = PyNone then row_output x else output_text e c),
     row_error := error_text e c, row_events := row_events x @ event_list (event_row e c (durable_status c))\<rparr>"

lemma faultless_read:
  "faultless e \<Longrightarrow> others e (calls r) (stored r) = x \<Longrightarrow> observed_status e r = (Some (row_status x), \<lparr>stored = x, calls = calls r + 1\<rparr>)"
  by (simp add: observed_status_def faultless_def)

lemma persist_seen: "persist e c s (Some x) r = (case atomic_write e c s x r of
    (Inl err, r2) \<Rightarrow> (Inl (From_repository err), r2) | (Inr u, r2) \<Rightarrow> (Inr u, r2))"
  by (simp add: persist_def)

lemma legal_write:
  assumes "faultless e" "others e (calls r) (stored r) = x" "holds_lease (now_at e (calls r)) (own_lease e) x"
    "row_status x \<in> set RUN_STATES" "durable_status c \<in> set (VALID_TRANSITIONS (row_status x))" "claim_ok c"
  shows "atomic_write e c (durable_status c) (row_status x) r = (Inr (), \<lparr>stored = final_row e c x, calls = calls r + 1\<rparr>)"
proof -
  have "validate_transition (row_status x) (durable_status c) = None" using assms(4,5) by (simp add: valid_transition_iff)
  moreover have "output_text e c = None \<longleftrightarrow> claim_output c = PyNone" by (simp add: output_text_def)
  ultimately have "finalize_run (durable_status c) (row_status x) (event_row e c (durable_status c)) (own_lease e) (output_text e c)
      (error_text e c) (now_at e (calls r)) x = Inr (final_row e c x)"
    using assms(3,4) durable_terminal [OF assms(6)]
    by (simp add: finalize_run_def finalize_run_guarded_def guarded_rpc_def final_row_def event_list_def)
  with assms(1,2) show ?thesis by (simp add: atomic_write_def faultless_def)
qed

lemma commit_writes:
  assumes "faultless e" "others e (calls r) (stored r) = x" "holds_lease (now_at e (calls r)) (own_lease e) x"
    "row_status x \<in> set RUN_STATES" "durable_status c \<in> set (VALID_TRANSITIONS (row_status x))" "claim_ok c"
  obtains res f' r' where "commit left e c (Some (row_status x)) f r = (Inr res, f', r')" "wrote res"
    "final_claim res = Some c" "final_status res = durable_status c" "stored r' = final_row e c x"
proof -
  let ?res = "\<lparr>final_status = durable_status c, final_claim = Some c, wrote = True, duplicate = False, superseded = False,
    already_terminal = False\<rparr>"
  have "commit left e c (Some (row_status x)) f r =
      (Inr ?res, f\<lparr>decision := Some c, decided := Some ?res\<rparr>, \<lparr>stored = final_row e c x, calls = calls r + 1\<rparr>)"
    by (subst commit.simps) (simp add: persist_seen legal_write [OF assms] Let_def)
  then show thesis by (rule that) simp_all
qed

lemma stale_write:
  assumes "faultless e" "others e (calls r) (stored r) = y" "row_status y \<noteq> x" "claim_ok c" "x \<in> set RUN_STATES"
  obtains err where "atomic_write e c (durable_status c) x r = (Inl err, \<lparr>stored = y, calls = calls r + 1\<rparr>)" "err \<in> set RACE_CODES"
proof -
  have "finalize_run (durable_status c) x (event_row e c (durable_status c)) (own_lease e) (output_text e c)
      (error_text e c) (now_at e (calls r)) y =
    Inl (if validate_transition x (durable_status c) \<noteq> None then INVALID_RUN_TRANSITION else RUN_LEASE_LOST)"
    using assms(3,5) durable_terminal [OF assms(4)]
    by (simp add: finalize_run_def finalize_run_guarded_def guarded_rpc_def)
  with assms(1,2) show thesis
    by (intro that [of "if validate_transition x (durable_status c) \<noteq> None then INVALID_RUN_TRANSITION else RUN_LEASE_LOST"])
       (simp_all add: atomic_write_def faultless_def RACE_CODES_def)
qed

lemma cancelled_legal:
  "claim_ok c \<Longrightarrow> durable_status (legalize c (Some Cancellation_requested)) \<in> set (VALID_TRANSITIONS Cancellation_requested)"
  by (simp add: legalize_status)

section \<open>Examples\<close>

definition example_surroundings :: "(nat \<Rightarrow> run_row \<Rightarrow> run_row) \<Rightarrow> surroundings" where
  "example_surroundings act = \<lparr>others = act, unreadable = (\<lambda>n. False), fault_at = (\<lambda>n. No_fault), now_at = (\<lambda>n. 0),
     shown = (\<lambda>x. ''0.0''), own_lease = example_lease\<rparr>"

definition example_repo :: "run_status \<Rightarrow> repo" where
  "example_repo s = \<lparr>stored = example_row s, calls = 0\<rparr>"

definition example_failure :: claim where
  "example_failure = failure ''swarm_v2'' ''ENGINE_FAILED'' ''failed'' []"

definition example_stop :: "run_status \<Rightarrow> claim" where
  "example_stop s = budget_stop ''swarm_v2'' ''RUN_TIMEOUT'' ''timed out'' s"

lemma example_status [simp]: "durable_status example_failure = Failed" "durable_status (example_stop s) = s"
  by (simp_all add: example_failure_def failure_def example_stop_def budget_stop_def durable_status_def)

lemma example_claims_ok: "claim_ok example_failure" "s \<in> set TERMINAL_STATES \<Longrightarrow> claim_ok (example_stop s)"
  using authority_of_terminal [of s]
  by (simp_all add: example_failure_def failure_def example_stop_def budget_stop_def claim_ok_def)

lemma example_lease_held: "holds_lease 0 example_lease (example_row s)"
  by (simp add: holds_lease_def example_lease_def example_row_def unexpired_def new_row_def)

lemma example_faultless [simp]: "faultless (example_surroundings act)" "others (example_surroundings act) = act"
  "now_at (example_surroundings act) n = 0" "own_lease (example_surroundings act) = example_lease"
  by (simp_all add: faultless_def example_surroundings_def)

lemma example_row_status [simp]: "row_status (example_row s) = s"
  by (simp add: example_row_def)

lemma example_repo_simps [simp]: "stored (example_repo s) = example_row s" "calls (example_repo s) = 0"
  by (simp_all add: example_repo_def)

section \<open>What holds of every finalization\<close>

text \<open>Undisturbed, finalizing writes the strongest claim known, reconciled with an accepted cancellation: its status, its
  output unless it has none, its error, and the one event it owes, whenever the transition table allows its status.\<close>

theorem undisturbed_finalize_writes_the_winner:
  assumes "decided f = None" "\<forall>x\<in>set (c # known_claims f). claim_ok x" "faultless e" "\<forall>n. others e n = id"
    "\<forall>n. holds_lease (now_at e n) (own_lease e) (stored r)" "row_status (stored r) \<in> set RUN_STATES"
    "d = legalize (winner c f) (Some (row_status (stored r)))"
    "durable_status d \<in> set (VALID_TRANSITIONS (row_status (stored r)))"
  shows "\<exists>res f' r'. finalize e c f r = (Inr res, f', r') \<and> wrote res \<and> final_claim res = Some d \<and>
    final_status res = durable_status d \<and> stored r' = final_row e d (stored r)"
proof -
  have nt: "row_status (stored r) \<notin> set TERMINAL_STATES" using assms(8) terminal_no_successor by fastforce
  have ok: "claim_ok d" unfolding assms(7) by (rule legalize_ok [OF winner_ok [OF assms(2)]])
  let ?r1 = "\<lparr>stored = stored r, calls = calls r + 1\<rparr>"
  obtain res f' r' where "commit 1 e d (Some (row_status (stored r))) f ?r1 = (Inr res, f', r')" "wrote res"
    "final_claim res = Some d" "final_status res = durable_status d" "stored r' = final_row e d (stored r)"
    by (rule commit_writes [of e ?r1 "stored r" d 1 f]) (use assms ok in simp_all)
  moreover have "finalize e c f r = commit 1 e d (Some (row_status (stored r))) f ?r1"
    using assms(1,4,7) nt faultless_read [OF assms(3), of r "stored r"]
    by (simp add: finalize_def Let_def adopt_def)
  ultimately show ?thesis by auto
qed

definition example_noted :: "run_status \<Rightarrow> finalizer" where
  "example_noted s = note_claim (example_stop s) new_finalizer"

lemma example_noted_facts:
  "decided (example_noted s) = None" "known_claims (example_noted s) = [example_stop s]"
  by (simp_all add: example_noted_def known_claims_def note_claim_def new_finalizer_def List.map_filter_def)

lemma example_known_ok: "s \<in> set TERMINAL_STATES \<Longrightarrow> \<forall>x\<in>set (example_failure # known_claims (example_noted s)). claim_ok x"
  using example_claims_ok by (simp add: example_noted_facts)

lemma undisturbed_finalize_writes_the_winner_witness:
  "\<exists>res f' r'. finalize (example_surroundings (\<lambda>n. id)) example_failure (example_noted Timed_out) (example_repo Running) =
     (Inr res, f', r') \<and> final_status res = Timed_out"
proof -
  have ended: "Timed_out \<in> set TERMINAL_STATES" by (simp add: TERMINAL_STATES_def)
  have d: "example_stop Timed_out = legalize (winner example_failure (example_noted Timed_out)) (Some Running)"
    by (simp add: winner_def example_noted_facts legalize_def authority_def)
  have "\<exists>res f' r'. finalize (example_surroundings (\<lambda>n. id)) example_failure (example_noted Timed_out) (example_repo Running) =
      (Inr res, f', r') \<and> wrote res \<and> final_claim res = Some (example_stop Timed_out) \<and>
      final_status res = durable_status (example_stop Timed_out) \<and>
      stored r' = final_row (example_surroundings (\<lambda>n. id)) (example_stop Timed_out) (stored (example_repo Running))"
    by (rule undisturbed_finalize_writes_the_winner [OF example_noted_facts(1) example_known_ok [OF ended]])
       (use example_lease_held in \<open>simp_all add: RUN_STATES_def d [symmetric]\<close>)
  then show ?thesis by auto
qed

text \<open>C8. What a finalizer reports is what is durable, whatever other processes do and whichever read or write fails: the
  row has the reported terminal status, and if this call wrote it, no claim known about the run has more authority.\<close>

theorem reported_status_is_durable:
  assumes "finalize e c f r = (Inr res, f', r')" "decided f = None" "\<forall>x\<in>set (c # known_claims f). claim_ok x"
  shows "row_status (stored r') = final_status res \<and> final_status res \<in> set TERMINAL_STATES \<and>
    (wrote res \<longrightarrow> (\<exists>d. final_claim res = Some d \<and> final_status res = durable_status d \<and>
       (\<forall>x\<in>set (c # known_claims f). authority x \<le> authority d)))"
proof -
  from finalize_reports [OF assms] obtain d where d: "reported d res f' r'"
    "\<forall>x\<in>set (c # known_claims f). authority x \<le> authority d" by blast
  then show ?thesis unfolding reported_def by (metis order_trans)
qed

lemma reported_status_is_durable_witness:
  "\<exists>res f' r'. finalize (example_surroundings (\<lambda>n. id)) example_failure (example_noted Timed_out) (example_repo Running) =
     (Inr res, f', r') \<and> row_status (stored r') = Timed_out"
proof -
  have ended: "Timed_out \<in> set TERMINAL_STATES" by (simp add: TERMINAL_STATES_def)
  from undisturbed_finalize_writes_the_winner_witness obtain res f' r' where
    fin: "finalize (example_surroundings (\<lambda>n. id)) example_failure (example_noted Timed_out) (example_repo Running) =
      (Inr res, f', r')" "final_status res = Timed_out" by blast
  from reported_status_is_durable [OF fin(1) example_noted_facts(1) example_known_ok [OF ended]] fin show ?thesis by auto
qed

text \<open>The terminal event is recorded exactly with the decision that became durable: a finalization adds the event of the
  claim it wrote, and one that raised, adopted another's ending or repeated its own adds none.\<close>

theorem event_exactly_with_the_write:
  assumes "quiet e" "finalize e c f r = (out, f', r')"
  shows "row_events (stored r') = row_events (stored r) @ recorded e out"
  using assms(2)
proof (cases rule: finalize_cases)
  case (repeated res)
  then show ?thesis by (simp add: recorded_def repeat_result_def Let_def)
next
  case (adopted s res)
  with read_events [OF assms(1) adopted(2)] adopt_result(3) [OF adopted(3)] show ?thesis by (simp add: recorded_def)
next
  case (commits s r1)
  with commit_events [OF assms(1) commits(4)] read_events [OF assms(1) commits(2)] show ?thesis by simp
qed

lemma event_exactly_with_the_write_witness:
  "row_events (stored (snd (snd (finalize (example_surroundings (\<lambda>n. id)) example_failure new_finalizer (example_repo Completed))))) =
   row_events (example_row Completed) @
   recorded (example_surroundings (\<lambda>n. id)) (fst (finalize (example_surroundings (\<lambda>n. id)) example_failure new_finalizer (example_repo Completed)))"
proof -
  have "quiet (example_surroundings (\<lambda>n. id))" by (simp add: quiet_def example_surroundings_def)
  from event_exactly_with_the_write [OF this, of example_failure new_finalizer "example_repo Completed"] show ?thesis
    by (metis example_repo_simps(1) prod.collapse)
qed

text \<open>A run another path already ended is adopted, never rewritten: a finalizer leaves a terminal row exactly as it is.\<close>

theorem terminal_rows_are_left_alone:
  assumes "terminal_final e" "row_status (stored r) \<in> set TERMINAL_STATES" "finalize e c f r = (out, f', r')"
  shows "stored r' = stored r"
  using assms(3)
proof (cases rule: finalize_cases)
  case (adopted s res)
  with read_terminal [OF assms(1,2)] show ?thesis by simp
next
  case (commits s r1)
  have r1: "stored r1 = stored r" by (rule read_terminal [OF assms(1,2) commits(2)])
  with commit_terminal [OF assms(1) _ commits(4)] assms(2) show ?thesis by simp
qed simp

lemma terminal_rows_are_left_alone_witness:
  "stored (snd (snd (finalize (example_surroundings (\<lambda>n. id)) example_failure new_finalizer (example_repo Cancelled)))) = example_row Cancelled"
proof -
  have "terminal_final (example_surroundings (\<lambda>n. id))" "row_status (stored (example_repo Cancelled)) \<in> set TERMINAL_STATES"
    by (simp_all add: terminal_final_def TERMINAL_STATES_def)
  from terminal_rows_are_left_alone [OF this, of example_failure new_finalizer] show ?thesis by (metis example_repo_simps(1) prod.collapse)
qed

text \<open>C9. A cancellation that is accepted between the finalizer's read and its write is honoured, not lost and not an error:
  the run ends cancelled (or failed, if that was the decision), with the output that was produced.\<close>

theorem cancellation_race_is_absorbed:
  assumes "decided f = None" "\<forall>x\<in>set (c # known_claims f). claim_ok x" "faultless e"
    "\<forall>n x. others e n x = (if n = calls r + 1 then x\<lparr>row_status := Cancellation_requested\<rparr> else x)"
    "\<forall>n. holds_lease (now_at e n) (own_lease e) (stored r)" "row_status (stored r) \<in> set CLAIMED_RUN_STATES"
  shows "\<exists>res f' r'. finalize e c f r = (Inr res, f', r') \<and> wrote res \<and> final_status res \<in> {Cancelled, Failed} \<and>
    row_status (stored r') = final_status res \<and>
    row_output (stored r') = (if claim_output (winner c f) = PyNone then row_output (stored r) else output_text e (winner c f))"
proof -
  let ?s = "row_status (stored r)" and ?w = "winner c f"
  let ?y = "(stored r)\<lparr>row_status := Cancellation_requested\<rparr>" and ?d = "legalize ?w (Some Cancellation_requested)"
  let ?r1 = "\<lparr>stored = stored r, calls = calls r + 1\<rparr>" and ?r2 = "\<lparr>stored = ?y, calls = calls r + 2\<rparr>"
  let ?r3 = "\<lparr>stored = ?y, calls = calls r + 3\<rparr>"
  have s: "?s \<notin> set TERMINAL_STATES" "?s \<noteq> Cancellation_requested" "?s \<in> set RUN_STATES"
    using assms(6) by (auto simp: state_lists)
  have ok: "claim_ok ?w" by (rule winner_ok [OF assms(2)])
  have first: "finalize e c f r = commit 1 e ?w (Some ?s) f ?r1"
    using assms(1,4) s faultless_read [OF assms(3), of r "stored r"]
    by (simp add: finalize_def Let_def adopt_def legalize_def)
  obtain err where stale: "atomic_write e ?w (durable_status ?w) ?s ?r1 = (Inl err, ?r2)" "err \<in> set RACE_CODES"
    by (rule stale_write [OF assms(3) _ _ ok s(3), of ?r1 ?y]) (use assms(4) s in simp_all)
  have read: "observed_status e ?r2 = (Some Cancellation_requested, ?r3)"
    using faultless_read [OF assms(3), of ?r2 ?y] assms(4) by simp
  have second: "commit 1 e ?w (Some ?s) f ?r1 = commit 0 e ?d (Some Cancellation_requested) f ?r3"
    using stale read s
    by (subst commit.simps) (simp add: persist_seen adopt_def TERMINAL_STATES_def)
  have lease: "holds_lease (now_at e n) (own_lease e) ?y" for n
    using assms(5) by (simp add: holds_lease_def unexpired_def)
  obtain res f' r' where out: "commit 0 e ?d (Some (row_status ?y)) f ?r3 = (Inr res, f', r')" "wrote res"
    "final_claim res = Some ?d" "final_status res = durable_status ?d" "stored r' = final_row e ?d ?y"
    by (rule commit_writes [of e ?r3 ?y ?d 0 f])
       (use assms(3,4) lease cancelled_legal [OF ok] legalize_ok [OF ok] in \<open>simp_all add: RUN_STATES_def\<close>)
  have "claim_output ?d = claim_output ?w" by (simp add: legalize_def)
  moreover have "final_status res \<in> {Cancelled, Failed}" using out(4) cancelled_legal [OF ok] by auto
  ultimately show ?thesis
    using first second out by (auto simp: final_row_def output_text_def)
qed

lemma cancellation_race_is_absorbed_witness:
  "\<exists>res f' r'. finalize (example_surroundings (\<lambda>n x. if n = 1 then x\<lparr>row_status := Cancellation_requested\<rparr> else x))
     example_failure (example_noted Timed_out) (example_repo Running) = (Inr res, f', r') \<and> final_status res \<in> {Cancelled, Failed}"
proof -
  let ?e = "example_surroundings (\<lambda>n x. if n = 1 then x\<lparr>row_status := Cancellation_requested\<rparr> else x)"
  have ended: "Timed_out \<in> set TERMINAL_STATES" by (simp add: TERMINAL_STATES_def)
  have "\<exists>res f' r'. finalize ?e example_failure (example_noted Timed_out) (example_repo Running) = (Inr res, f', r') \<and> wrote res \<and>
      final_status res \<in> {Cancelled, Failed} \<and> row_status (stored r') = final_status res \<and>
      row_output (stored r') = (if claim_output (winner example_failure (example_noted Timed_out)) = PyNone
        then row_output (stored (example_repo Running)) else output_text ?e (winner example_failure (example_noted Timed_out)))"
    by (rule cancellation_race_is_absorbed [OF example_noted_facts(1) example_known_ok [OF ended]])
       (use example_lease_held in \<open>simp_all add: CLAIMED_RUN_STATES_def\<close>)
  then show ?thesis by blast
qed

text \<open>Any number of finalize calls of one finalizer.\<close>

fun finalize_all :: "surroundings \<Rightarrow> claim list \<Rightarrow> finalizer \<Rightarrow> repo \<Rightarrow> (fin_error + fin_result) list" where
  "finalize_all e [] f r = []"
| "finalize_all e (c # cs) f r = (case finalize e c f r of (out, f', r') \<Rightarrow> out # finalize_all e cs f' r')"

lemma finalize_decides:
  assumes "finalize e c f r = (Inr res, f', r')"
  shows "\<exists>res'. decided f' = Some res' \<and> final_status res' = final_status res"
  using assms
proof (cases rule: finalize_cases)
  case (repeated res')
  then show ?thesis by (simp add: repeat_result_def Let_def)
next
  case (adopted s res')
  with adopt_result(5) [OF adopted(3)] show ?thesis by auto
next
  case (commits s r1)
  have "\<exists>res'. decided f' = Some res' \<and> final_status res' = final_status res"
    if "commit left e c observed f r = (Inr res, f', r')" for left c observed r
    using that
  proof (induction left arbitrary: c observed r rule: less_induct)
    case (less left)
    from less(2) show ?case
    proof (cases rule: commit_cases)
      case (adopted err r1 current res')
      with adopt_result(5) [OF adopted(3)] show ?thesis by auto
    next
      case (again err r1 current r2 m)
      with less(1) [OF _ again(7)] show ?thesis by simp
    qed auto
  qed
  with commits(4) show ?thesis by blast
qed

text \<open>A run is terminalized once: after the first call that succeeded, every later call of the same finalizer with
  whatever claim succeeds, writes nothing and reports the same status.\<close>

theorem one_decision_per_finalizer:
  assumes "i < j" "j < length (finalize_all e cs f r)" "finalize_all e cs f r ! i = Inr res"
  shows "\<exists>res'. finalize_all e cs f r ! j = Inr res' \<and> final_status res' = final_status res \<and> \<not> wrote res'"
proof -
  have later: "\<exists>res'. finalize_all e cs f r ! j = Inr res' \<and> final_status res' = s \<and> \<not> wrote res'"
    if "decided f = Some res0" "final_status res0 = s" "j < length (finalize_all e cs f r)" for cs f r j res0 s
    using that
  proof (induction cs arbitrary: f r j res0)
    case (Cons c cs)
    have step: "finalize e c f r = (Inr (repeat_result c res0 f), f, r)" using Cons(2) by (simp add: finalize_def)
    show ?case
    proof (cases j)
      case 0
      with step Cons(3) show ?thesis by (simp add: repeat_result_def Let_def)
    next
      case (Suc k)
      with step Cons(1) [OF Cons(2,3), of k r] Cons(4) show ?thesis by simp
    qed
  qed simp
  show ?thesis
    using assms
  proof (induction cs arbitrary: f r i j)
    case (Cons c cs)
    obtain out f' r' where step: "finalize e c f r = (out, f', r')" by (cases "finalize e c f r")
    obtain k where k: "j = Suc k" using Cons(2) by (cases j) auto
    show ?case
    proof (cases i)
      case 0
      with Cons(4) step have "finalize e c f r = (Inr res, f', r')" by simp
      from finalize_decides [OF this] obtain res0 where "decided f' = Some res0" "final_status res0 = final_status res" by blast
      from later [OF this, of k cs r'] Cons(3) k step show ?thesis by simp
    next
      case (Suc m)
      with Cons(1) [of m k f' r'] Cons(2-4) k step show ?thesis by simp
    qed
  qed simp
qed

lemma one_decision_per_finalizer_witness:
  "\<exists>res'. finalize_all (example_surroundings (\<lambda>n. id)) [example_failure, example_stop Timed_out] new_finalizer (example_repo Cancelled) ! 1 =
     Inr res' \<and> final_status res' = Cancelled \<and> \<not> wrote res'"
proof -
  obtain res f' r' where first: "finalize (example_surroundings (\<lambda>n. id)) example_failure new_finalizer (example_repo Cancelled) = (Inr res, f', r')"
    "final_status res = Cancelled"
    using faultless_read [OF example_faultless(1) refl, of "\<lambda>n. id" "example_repo Cancelled"]
    by (simp add: finalize_def new_finalizer_def adopt_def TERMINAL_STATES_def Let_def)
  let ?outs = "finalize_all (example_surroundings (\<lambda>n. id)) [example_failure, example_stop Timed_out] new_finalizer (example_repo Cancelled)"
  have "length (finalize_all e [c1, c2] f r) = 2" for e c1 c2 f r by (simp split: prod.split)
  then have "1 < length ?outs" by simp
  moreover have "?outs ! 0 = Inr res" using first by simp
  ultimately show ?thesis using one_decision_per_finalizer [of 0 1] first(2) by (metis zero_less_one)
qed

section \<open>Where the code and its comments part\<close>

text \<open>"Ties keep the EARLIER claim": of two claims of equal authority the one handed to \<open>finalize\<close> wins over the one noted
  before it.\<close>

lemma tie_keeps_the_later_claim:
  "winner (example_stop Budget_exhausted) (example_noted Timed_out) = example_stop Budget_exhausted"
  by (simp add: winner_def example_noted_facts authority_def)


end
