(* ===== verification/Rate_Limit.thy ===== *)
theory Rate_Limit
  imports Prelude "HOL-Library.AList"
begin

text \<open>
  The API's rate limiter, \<open>backend/rate_limit.py\<close>: limits per category from the environment, the
  in-process and the shared fixed-window counter, and the enforcement in front of a request.  Clock
  readings are exact rationals; \<open>sha\<close> is the hexadecimal SHA-256 digest of a text.
\<close>

section \<open>Categories\<close>

datatype category = Run_creation_user | Run_creation_project | Cancellation | Worker_mutations | Register_actions_user

fun category_name :: "category \<Rightarrow> string" where
  "category_name Run_creation_user = ''run_creation_user''"
| "category_name Run_creation_project = ''run_creation_project''"
| "category_name Cancellation = ''cancellation''"
| "category_name Worker_mutations = ''worker_mutations''"
| "category_name Register_actions_user = ''register_actions_user''"

fun DEFAULT_LIMITS :: "category \<Rightarrow> int \<times> int" where
  "DEFAULT_LIMITS Run_creation_user = (5, 60)"
| "DEFAULT_LIMITS Run_creation_project = (20, 60)"
| "DEFAULT_LIMITS Cancellation = (10, 60)"
| "DEFAULT_LIMITS Worker_mutations = (600, 60)"
| "DEFAULT_LIMITS Register_actions_user = (10, 60)"

fun ENV_KEYS :: "category \<Rightarrow> string" where
  "ENV_KEYS Run_creation_user = ''MILO_RATE_LIMIT_RUN_CREATION_USER''"
| "ENV_KEYS Run_creation_project = ''MILO_RATE_LIMIT_RUN_CREATION_PROJECT''"
| "ENV_KEYS Cancellation = ''MILO_RATE_LIMIT_CANCELLATION''"
| "ENV_KEYS Worker_mutations = ''MILO_RATE_LIMIT_WORKER_MUTATIONS''"
| "ENV_KEYS Register_actions_user = ''MILO_RATE_LIMIT_REGISTER_ACTIONS_USER''"

type_synonym environment = "string \<Rightarrow> string option"

definition getenv :: "environment \<Rightarrow> string \<Rightarrow> string \<Rightarrow> string" where
  "getenv env k d = (case env k of None \<Rightarrow> d | Some v \<Rightarrow> v)"

definition category_limit :: "environment \<Rightarrow> category \<Rightarrow> int \<times> int" where
  "category_limit env c =
     (let (limit, window) = DEFAULT_LIMITS c; raw = py_strip (getenv env (ENV_KEYS c) []) in
      (if raw = [] then limit
       else (case py_int raw of None \<Rightarrow> limit | Some v \<Rightarrow> if 0 < v then v else limit), window))"

section \<open>The in-process limiter\<close>

text \<open>A bucket is its count and the clock reading at which it ends; a full store drops expired buckets first and
  then the oldest, whichever they are.  The store's size is at least one.\<close>

type_synonym buckets = "(string \<times> int \<times> rat) list"

definition make_room :: "nat \<Rightarrow> rat \<Rightarrow> buckets \<Rightarrow> buckets" where
  "make_room max_buckets now d =
     (if length d < max_buckets then d
      else (let live = filter (\<lambda>(k, n, reset_at). now < reset_at) d in drop (length live + 1 - max_buckets) live))"

definition memory_increment :: "nat \<Rightarrow> buckets \<Rightarrow> rat \<Rightarrow> string \<Rightarrow> int \<Rightarrow> int \<times> rat \<times> buckets" where
  "memory_increment max_buckets d now k window =
     (let d1 = make_room max_buckets now d;
          (n0, reset0) = (case map_of d1 k of None \<Rightarrow> (0, 0) | Some b \<Rightarrow> b);
          (n, reset_at) = (if reset0 \<le> now then (0, now + of_int window) else (n0, reset0))
      in (n + 1, reset_at - now, AList.update k (n + 1, reset_at) d1))"

section \<open>The shared limiter\<close>

text \<open>A key of the shared store has a value and an expiry in milliseconds of the store's clock, or none; an expired key
  is gone.  A pipeline runs its commands in order; its answer may be lost after any of them.\<close>

type_synonym redis = "string \<Rightarrow> (int \<times> int option) option"

definition alive :: "redis \<Rightarrow> int \<Rightarrow> string \<Rightarrow> (int \<times> int option) option" where
  "alive db now k = (case db k of
       None \<Rightarrow> None
     | Some (n, None) \<Rightarrow> Some (n, None)
     | Some (n, Some x) \<Rightarrow> if now < x then Some (n, Some x) else None)"

definition redis_incr :: "redis \<Rightarrow> int \<Rightarrow> string \<Rightarrow> int \<times> redis" where
  "redis_incr db now k = (case alive db now k of
       None \<Rightarrow> (1, db(k \<mapsto> (1, None)))
     | Some (n, x) \<Rightarrow> (n + 1, db(k \<mapsto> (n + 1, x))))"

definition redis_pexpire_nx :: "redis \<Rightarrow> int \<Rightarrow> string \<Rightarrow> int \<Rightarrow> redis" where
  "redis_pexpire_nx db now k ms = (case alive db now k of
       Some (n, None) \<Rightarrow> db(k \<mapsto> (n, Some (now + ms)))
     | _ \<Rightarrow> db)"

definition redis_pttl :: "redis \<Rightarrow> int \<Rightarrow> string \<Rightarrow> int" where
  "redis_pttl db now k = (case alive db now k of
       None \<Rightarrow> -2 | Some (n, None) \<Rightarrow> -1 | Some (n, Some x) \<Rightarrow> x - now)"

datatype store_reply = Answered | Lost_after nat

definition upstash_increment ::
  "redis \<Rightarrow> int \<Rightarrow> string \<Rightarrow> int \<Rightarrow> store_reply \<Rightarrow> (int \<times> rat) option \<times> redis" where
  "upstash_increment db now k window reply =
     (let (n, db1) = redis_incr db now k; db2 = redis_pexpire_nx db1 now k (window * 1000);
          ttl_ms = redis_pttl db2 now k
      in case reply of
           Answered \<Rightarrow> (Some (n, if 0 < ttl_ms then of_int ttl_ms / 1000 else of_int window), db2)
         | Lost_after m \<Rightarrow> (None, if m = 0 then db else if m = 1 then db1 else db2))"

section \<open>Enforcement\<close>

datatype limit_error = Rate_limit_exceeded int | Rate_limiter_unavailable

definition is_production :: "environment \<Rightarrow> bool" where
  "is_production env = (py_lower (py_strip (getenv env ''ENVIRONMENT'' ''local'')) = ''production'')"

text \<open>Whether the shared store is configured; it is resolved once per process.\<close>

definition shared_configured :: "environment \<Rightarrow> bool" where
  "shared_configured env = (py_strip (getenv env ''UPSTASH_REDIS_REST_URL'' []) \<noteq> [] \<and>
     py_strip (getenv env ''UPSTASH_REDIS_REST_TOKEN'' []) \<noteq> [])"

definition limiter_key :: "(string \<Rightarrow> string) \<Rightarrow> category \<Rightarrow> string \<Rightarrow> string" where
  "limiter_key sha c identifier = ''rl:'' @ category_name c @ '':'' @ take 32 (sha identifier)"

record limiters =
  memory_buckets :: buckets
  shared_store :: redis

definition retry_after :: "rat \<Rightarrow> int" where
  "retry_after seconds = (if trunc_rat seconds = 0 then 1 else trunc_rat seconds)"

definition retry_after_header :: "int \<Rightarrow> int" where
  "retry_after_header seconds = max 1 seconds"

definition enforce_rate_limit ::
  "environment \<Rightarrow> (string \<Rightarrow> string) \<Rightarrow> nat \<Rightarrow> rat \<Rightarrow> int \<Rightarrow> store_reply \<Rightarrow> category \<Rightarrow> string \<Rightarrow> limiters \<Rightarrow>
     limit_error option \<times> limiters" where
  "enforce_rate_limit env sha max_buckets clock store_clock reply c identifier l =
     (let (limit, window) = category_limit env c; k = limiter_key sha c identifier;
          verdict = (\<lambda>n ttl. if limit < n then Some (Rate_limit_exceeded (retry_after ttl)) else None)
      in if shared_configured env
         then (case upstash_increment (shared_store l) store_clock k window reply of
                 (None, db) \<Rightarrow> (Some Rate_limiter_unavailable, l\<lparr>shared_store := db\<rparr>)
               | (Some (n, ttl), db) \<Rightarrow> (verdict n ttl, l\<lparr>shared_store := db\<rparr>))
         else if is_production env then (Some Rate_limiter_unavailable, l)
         else (case memory_increment max_buckets (memory_buckets l) clock k window of
                 (n, ttl, d) \<Rightarrow> (verdict n ttl, l\<lparr>memory_buckets := d\<rparr>)))"

end
