(* ===== verification/Limit_Safety.thy ===== *)
theory Limit_Safety
  imports Rate_Limit
begin

text \<open>
  The rate limiter admits at most its limit in every window of a key, and at most twice the limit in any
  interval as long as a window: proved once of a fixed-window counter, and of both stores as
  interpretations.
\<close>

section \<open>Disciplined observations\<close>

text \<open>An observation is a time, the count returned for it and the end of the window it was counted in.\<close>

type_synonym 't observation = "'t \<times> int \<times> 't"

fun disciplined :: "'t::linordered_idom \<Rightarrow> (int \<times> 't) option \<Rightarrow> ('t observation) list \<Rightarrow> bool" where
  "disciplined w prev [] = True"
| "disciplined w prev ((t, n, r) # obs) =
     (1 \<le> n \<and> t < r \<and> r \<le> t + w \<and>
      (case prev of None \<Rightarrow> True | Some (n0, r0) \<Rightarrow> if r = r0 then n0 < n else r0 + w \<le> r) \<and>
      disciplined w (Some (n, r)) obs)"

definition counted :: "int \<Rightarrow> 't \<Rightarrow> ('t observation) list \<Rightarrow> nat" where
  "counted limit x obs = length (filter (\<lambda>(t, n, r). n \<le> limit \<and> r = x) obs)"

lemma later_windows:
  "disciplined w (Some (n0, r0)) obs \<Longrightarrow> 0 < w \<Longrightarrow> (t, n, r) \<in> set obs \<Longrightarrow> r = r0 \<or> r0 + w \<le> r"
proof (induction obs arbitrary: n0 r0)
  case (Cons p obs)
  obtain t' n' r' where p: "p = (t', n', r')" by (cases p)
  with Cons.prems have first: "r' = r0 \<or> r0 + w \<le> r'" and rest: "disciplined w (Some (n', r')) obs"
    by (auto split: if_splits)
  show ?case
  proof (cases "(t, n, r) = p")
    case False
    with Cons.prems have "(t, n, r) \<in> set obs" by simp
    from Cons.IH [OF rest Cons.prems(2) this] first Cons.prems(2) show ?thesis by (auto intro: order_trans)
  qed (use first p in simp)
qed simp

lemma windows_apart:
  "disciplined w prev obs \<Longrightarrow> 0 < w \<Longrightarrow> (t, n, r) \<in> set obs \<Longrightarrow> (t', n', r') \<in> set obs \<Longrightarrow> r < r' \<Longrightarrow> r + w \<le> r'"
proof (induction obs arbitrary: prev)
  case (Cons p obs)
  obtain u m x where p: "p = (u, m, x)" by (cases p)
  with Cons.prems have rest: "disciplined w (Some (m, x)) obs" by simp
  note later = later_windows [OF rest Cons.prems(2)]
  consider "(t, n, r) = p" "(t', n', r') = p" | "(t, n, r) = p" "(t', n', r') \<in> set obs"
    | "(t, n, r) \<in> set obs" "(t', n', r') = p" | "(t, n, r) \<in> set obs" "(t', n', r') \<in> set obs"
    using Cons.prems(3,4) by auto
  then show ?case
  proof cases
    case 2
    with later [of t' n' r'] p Cons.prems(5) show ?thesis by auto
  next
    case 3
    with later [of t n r] p Cons.prems(2,5) show ?thesis by auto
  next
    case 4
    with Cons.IH [OF rest Cons.prems(2)] Cons.prems(5) show ?thesis by blast
  qed (use Cons.prems(5) in auto)
qed simp

lemma counted_window:
  "disciplined w (Some (n0, r0)) obs \<Longrightarrow> 0 < w \<Longrightarrow> counted limit r0 obs \<le> nat (limit - n0)"
proof (induction obs arbitrary: n0)
  case (Cons p obs)
  obtain t n r where p: "p = (t, n, r)" by (cases p)
  show ?case
  proof (cases "r = r0")
    case True
    with p Cons.prems have "counted limit r0 obs \<le> nat (limit - n)" "n0 < n"
      using Cons.IH [of n] by (auto split: if_splits)
    with True p show ?thesis by (auto simp: counted_def)
  next
    case False
    with p Cons.prems have up: "r0 + w \<le> r" and rest: "disciplined w (Some (n, r)) obs" by auto
    have "x \<noteq> r0" if "(u, m, x) \<in> set obs" for u m x
      using later_windows [OF rest Cons.prems(2) that] up Cons.prems(2) by auto
    then have "counted limit r0 obs = 0" by (auto simp: counted_def filter_empty_conv)
    with False p show ?thesis by (simp add: counted_def)
  qed
qed (simp add: counted_def)

lemma counted_limit: "disciplined w prev obs \<Longrightarrow> 0 < w \<Longrightarrow> counted limit x obs \<le> nat limit"
proof (induction obs arbitrary: prev)
  case (Cons p obs)
  obtain t n r where p: "p = (t, n, r)" by (cases p)
  with Cons.prems have n: "1 \<le> n" and rest: "disciplined w (Some (n, r)) obs" by simp_all
  show ?case
  proof (cases "r = x")
    case True
    with counted_window [OF rest Cons.prems(2), of limit] p n show ?thesis by (auto simp: counted_def)
  next
    case False
    with Cons.IH [OF rest Cons.prems(2)] p show ?thesis by (simp add: counted_def)
  qed
qed (simp add: counted_def)

definition admitted_in :: "int \<Rightarrow> 't::linordered_idom \<Rightarrow> 't \<Rightarrow> ('t observation) list \<Rightarrow> nat" where
  "admitted_in limit a b obs = length (filter (\<lambda>(t, n, r). n \<le> limit \<and> a \<le> t \<and> t < b) obs)"

lemma disciplined_times: "disciplined w prev obs \<Longrightarrow> (t, n, r) \<in> set obs \<Longrightarrow> t < r \<and> r \<le> t + w"
  by (induction obs arbitrary: prev) auto

lemma two_windows:
  assumes "disciplined w None obs" "0 < w"
  shows "admitted_in limit a (a + w) obs \<le> 2 * nat limit"
proof -
  define F where "F = filter (\<lambda>(t, n, r). n \<le> limit \<and> a \<le> t \<and> t < a + w) obs"
  have range: "a < r \<and> r < a + w + w" if "(t, n, r) \<in> set F" for t n r
    using that disciplined_times [OF assms(1), of t n r] by (auto simp: F_def)
  have part: "length (filter (\<lambda>(t, n, r). r = x) F) \<le> nat limit" for x
  proof -
    have "length (filter (\<lambda>(t, n, r). r = x) F) \<le> counted limit x obs"
      unfolding F_def counted_def filter_filter
      by (induction obs) auto
    with counted_limit [OF assms, of limit x] show ?thesis by simp
  qed
  have "length F \<le> 2 * nat limit"
  proof (cases "F = []")
    case False
    define X where "X = (\<lambda>(t, n, r). r) ` set F"
    define x where "x = Min X"
    have X: "finite X" "X \<noteq> {}" using False by (auto simp: X_def)
    then have x: "x \<in> X" "\<And>y. y \<in> X \<Longrightarrow> x \<le> y" by (simp_all add: x_def)
    have apart: "y + w \<le> z" if "y \<in> X" "z \<in> X" "y < z" for y z
      using that windows_apart [OF assms(1,2)] by (auto simp: X_def F_def)
    have low: "a < x" using x(1) range by (auto simp: X_def)
    have same: "y = z" if "y \<in> X" "z \<in> X" "y \<noteq> x" "z \<noteq> x" for y z
    proof (rule ccontr)
      assume "y \<noteq> z"
      define u v where "u = min y z" and "v = max y z"
      then have uv: "u \<in> X" "v \<in> X" "u < v" "u \<noteq> x" using that \<open>y \<noteq> z\<close> by (auto simp: min_def max_def)
      then have "x + w \<le> u" "u + w \<le> v" using x apart by (metis antisym_conv2, blast)
      moreover have "v < a + w + w" using uv(2) range by (auto simp: X_def)
      ultimately show False using low by simp
    qed
    show ?thesis
    proof (cases "X = {x}")
      case True
      have "r = x" if "(t, n, r) \<in> set F" for t n r
      proof -
        have "r \<in> X" unfolding X_def using that by (force intro: rev_image_eqI)
        with True show ?thesis by simp
      qed
      then have "filter (\<lambda>(t, n, r). r = x) F = F" by (auto simp: filter_id_conv)
      with part [of x] show ?thesis by simp
    next
      case no: False
      then obtain z where z: "z \<in> X" "z \<noteq> x" using x(1) by blast
      have "filter (\<lambda>p. \<not> (case p of (t, n, r) \<Rightarrow> r = x)) F = filter (\<lambda>(t, n, r). r = z) F"
      proof (rule filter_cong)
      fix p assume "p \<in> set F"
      moreover obtain t n r where p: "p = (t, n, r)" by (cases p)
      ultimately have "r \<in> X" unfolding X_def by (force intro: rev_image_eqI)
      with same [OF _ z(1) _ z(2)] z(2) p show "(\<not> (case p of (t, n, r) \<Rightarrow> r = x)) = (case p of (t, n, r) \<Rightarrow> r = z)" by auto
    qed simp
      with part [of x] part [of z] sum_length_filter_compl [of "\<lambda>(t, n, r). r = x" F] show ?thesis by simp
    qed
  qed simp
  then show ?thesis by (simp add: F_def admitted_in_def)
qed

section \<open>A fixed-window counter\<close>

text \<open>\<open>counter\<close> is the live count of a key and the end of its window; \<open>bump\<close> counts a request and answers with both,
  or fails.  \<open>room\<close> is what the store needs, \<open>known\<close> the keys it has room for.\<close>

locale fixed_window =
  fixes bump :: "'s \<Rightarrow> 't::linordered_idom \<Rightarrow> 'k \<Rightarrow> 'r \<Rightarrow> (int \<times> 't) option \<times> 's"
    and counter :: "'s \<Rightarrow> 't \<Rightarrow> 'k \<Rightarrow> (int \<times> 't) option"
    and width :: 't
    and room :: "'s \<Rightarrow> bool"
    and known :: "'k set"
  assumes width: "0 < width"
    and later: "t \<le> t' \<Longrightarrow> counter s t' k = (case counter s t k of
        None \<Rightarrow> None | Some (n, r) \<Rightarrow> if t' < r then Some (n, r) else None)"
    and live: "counter s t k = Some (n, r) \<Longrightarrow> t < r"
    and own: "room s \<Longrightarrow> k \<in> known \<Longrightarrow> 0 \<le> t \<Longrightarrow> bump s t k q = (out, s') \<Longrightarrow> room s' \<and>
        (case counter s t k of
           None \<Rightarrow> counter s' t k = None \<and> out = None \<or>
             (\<exists>n\<ge>1. counter s' t k = Some (n, t + width) \<and> (out = None \<or> out = Some (n, t + width)))
         | Some (n0, r0) \<Rightarrow> (\<exists>n\<ge>n0. counter s' t k = Some (n, r0) \<and> (out = None \<or> out = Some (n, r0) \<and> n0 < n)))"
    and others: "room s \<Longrightarrow> k \<in> known \<Longrightarrow> 0 \<le> t \<Longrightarrow> bump s t k q = (out, s') \<Longrightarrow> k' \<noteq> k \<Longrightarrow> counter s' t k' = counter s t k'"
begin

fun observe :: "'k \<Rightarrow> 's \<Rightarrow> ('t \<times> 'k \<times> 'r) list \<Rightarrow> ('t \<times> int \<times> 't) list" where
  "observe key s [] = []"
| "observe key s ((t, k, q) # reqs) =
     (case bump s t k q of (out, s') \<Rightarrow>
        (case out of Some (n, r) \<Rightarrow> if k = key then [(t, n, r)] else [] | None \<Rightarrow> []) @ observe key s' reqs)"

text \<open>What the last observation of a key says about its counter at a time.\<close>

definition tracked :: "(int \<times> 't) option \<Rightarrow> 't \<Rightarrow> (int \<times> 't) option \<Rightarrow> bool" where
  "tracked prev t cnt =
     ((case cnt of None \<Rightarrow> True | Some (n, r) \<Rightarrow> 1 \<le> n \<and> t < r \<and> r \<le> t + width) \<and>
      (case prev of
         None \<Rightarrow> True
       | Some (n0, r0) \<Rightarrow>
           if t < r0 then (\<exists>n\<ge>n0. cnt = Some (n, r0)) else (case cnt of None \<Rightarrow> True | Some (n, r) \<Rightarrow> r0 + width \<le> r)))"

lemma tracked_later:
  assumes "tracked prev t (counter s t k)" "t \<le> t'"
  shows "tracked prev t' (counter s t' k)"
  using assms later [OF assms(2), of s k]
  by (auto simp: tracked_def split: option.splits prod.splits if_splits intro: order_trans add_right_mono)

lemma observe_disciplined:
  assumes "room s" "sorted (map fst reqs)" "\<forall>(t, k, q)\<in>set reqs. k \<in> known \<and> t0 \<le> t" "0 \<le> t0" "tracked prev t0 (counter s t0 key)"
  shows "disciplined width prev (observe key s reqs)"
  using assms
proof (induction reqs arbitrary: s t0 prev)
  case (Cons p reqs)
  obtain t k q where p: "p = (t, k, q)" by (cases p)
  obtain out s' where b: "bump s t k q = (out, s')" by force
  have k: "k \<in> known" "t0 \<le> t" using Cons.prems(3) p by auto
  have nonneg: "0 \<le> t" using Cons.prems(4) k(2) by simp
  have tr: "tracked prev t (counter s t key)" using tracked_later [OF Cons.prems(5) k(2)] .
  have room: "room s'" using own [OF Cons.prems(1) k(1) nonneg b] by simp
  have rest: "sorted (map fst reqs)" "\<forall>(u, k, q)\<in>set reqs. k \<in> known \<and> t \<le> u"
    using Cons.prems(2,3) p by auto
  note IH = Cons.IH [OF room rest nonneg]
  show ?case
  proof (cases "k = key")
    case False
    with others [OF Cons.prems(1) k(1) nonneg b, of key] tr have "tracked prev t (counter s' t key)" by simp
    with IH [OF this] b p False show ?thesis by (auto split: option.split)
  next
    case True
    note o = own [OF Cons.prems(1) k(1) nonneg b]
    show ?thesis
    proof (cases out)
      case None
      have "tracked prev t (counter s' t key)"
        using o tr None True width live [of s t key]
        by (auto simp: tracked_def split: option.splits prod.splits if_splits intro: order_trans)
      with IH [OF this] b p None show ?thesis by simp
    next
      case (Some nr)
      obtain n r where nr: "nr = (n, r)" by force
      have c: "counter s' t key = Some (n, r)" "1 \<le> n" "t < r" "r \<le> t + width"
        "case prev of None \<Rightarrow> True | Some (n0, r0) \<Rightarrow> if r = r0 then n0 < n else r0 + width \<le> r"
        using o tr Some nr True width live [of s t key]
        by (auto simp: tracked_def split: option.splits prod.splits if_splits)
      then have "tracked (Some (n, r)) t (counter s' t key)" by (simp add: tracked_def)
      with IH [OF this] b p Some nr True c show ?thesis by simp
    qed
  qed
qed simp

lemma observe_bound:
  assumes "room s" "sorted (map fst reqs)" "\<forall>(t, k, q)\<in>set reqs. k \<in> known \<and> 0 \<le> t" "\<forall>t. counter s t key = None"
  shows "admitted_in limit a (a + width) (observe key s reqs) \<le> 2 * nat limit"
proof (cases reqs)
  case (Cons p ps)
  have "\<forall>(t, k, q)\<in>set reqs. k \<in> known \<and> fst p \<le> t" using assms(2,3) Cons by fastforce
  moreover have "0 \<le> fst p" using assms(3) Cons by auto
  moreover have "tracked None (fst p) (counter s (fst p) key)" using assms(4) by (simp add: tracked_def)
  ultimately show ?thesis using two_windows [OF observe_disciplined [OF assms(1,2)] width] by blast
qed (simp add: admitted_in_def)

end

section \<open>The in-process limiter\<close>

definition memory_counter :: "buckets \<Rightarrow> rat \<Rightarrow> string \<Rightarrow> (int \<times> rat) option" where
  "memory_counter d t k = (case map_of d k of None \<Rightarrow> None | Some (n, r) \<Rightarrow> if t < r \<and> 1 \<le> n then Some (n, r) else None)"

definition memory_bump :: "nat \<Rightarrow> int \<Rightarrow> buckets \<Rightarrow> rat \<Rightarrow> string \<Rightarrow> unit \<Rightarrow> (int \<times> rat) option \<times> buckets" where
  "memory_bump max_buckets window d t k q = (case memory_increment max_buckets d t k window of (n, ttl, d') \<Rightarrow> (Some (n, t + ttl), d'))"

text \<open>There is room for the known keys when they are fewer than the store may hold.\<close>

definition roomy :: "nat \<Rightarrow> string set \<Rightarrow> buckets \<Rightarrow> bool" where
  "roomy max_buckets known d = (distinct (map fst d) \<and> keys d \<subseteq> known \<and> finite known \<and> card known < max_buckets \<and>
     (\<forall>(k, n, r)\<in>set d. 1 \<le> n))"

lemma roomy_length: "roomy max_buckets known d \<Longrightarrow> length d < max_buckets"
proof -
  assume r: "roomy max_buckets known d"
  then have "length d = card (keys d)" by (metis distinct_card length_map list.set_map roomy_def)
  also have "\<dots> \<le> card known" using r by (intro card_mono) (auto simp: roomy_def)
  finally show ?thesis using r by (simp add: roomy_def)
qed

lemma memory_bump_room:
  assumes "roomy max_buckets known d" "0 < window" "0 \<le> t"
  shows "memory_bump max_buckets window d t k q =
    (case memory_counter d t k of
       None \<Rightarrow> (Some (1, t + of_int window), AList.update k (1, t + of_int window) d)
     | Some (n, r) \<Rightarrow> (Some (n + 1, r), AList.update k (n + 1, r) d))"
proof -
  have "make_room max_buckets t d = d" using roomy_length [OF assms(1)] by (simp add: make_room_def)
  moreover have "1 \<le> n" if "map_of d k = Some (n, r)" for n r
    using that assms(1) by (auto simp: roomy_def dest!: map_of_SomeD)
  ultimately show ?thesis
    using assms(3) by (auto simp: memory_bump_def memory_increment_def memory_counter_def Let_def split: option.split prod.split)
qed

lemma roomy_update:
  assumes "roomy max_buckets known d" "k \<in> known" "1 \<le> n"
  shows "roomy max_buckets known (AList.update k (n, r) d)"
proof -
  have "set (AList.update k (n, r) d) \<subseteq> insert (k, n, r) (set d)" by (induction d) auto
  moreover have "keys (AList.update k (n, r) d) \<subseteq> insert k (keys d)" by (induction d) auto
  ultimately show ?thesis using assms by (auto simp: roomy_def distinct_update)
qed

lemma memory_counter_update:
  "memory_counter (AList.update k (n, r) d) t k' = (if k' = k then (if t < r \<and> 1 \<le> n then Some (n, r) else None) else memory_counter d t k')"
  by (simp add: memory_counter_def update_conv')

text \<open>A window of the configured width, for any keys the store has room for.\<close>

lemma memory_window:
  assumes "0 < window"
  shows "fixed_window (memory_bump max_buckets window) memory_counter (of_int window) (roomy max_buckets known) known"
proof
  show "(0::rat) < of_int window" using assms by simp
next
  fix t t' :: rat and s :: buckets and k :: string
  assume "t \<le> t'"
  then show "memory_counter s t' k = (case memory_counter s t k of
      None \<Rightarrow> None | Some (n, r) \<Rightarrow> if t' < r then Some (n, r) else None)"
    by (auto simp: memory_counter_def split: option.split)
next
  fix s :: buckets and t :: rat and k n r
  assume "memory_counter s t k = Some (n, r)"
  then show "t < r" by (auto simp: memory_counter_def split: option.splits if_splits)
next
  fix s t k q out s'
  assume a: "roomy max_buckets known s" "k \<in> known" "0 \<le> t" "memory_bump max_buckets window s t k q = (out, s')"
  have n: "1 \<le> n" "t < r" if "memory_counter s t k = Some (n, r)" for n r
    using that by (auto simp: memory_counter_def split: option.splits if_splits)
  show "roomy max_buckets known s' \<and>
    (case memory_counter s t k of
       None \<Rightarrow> memory_counter s' t k = None \<and> out = None \<or>
         (\<exists>n\<ge>1. memory_counter s' t k = Some (n, t + of_int window) \<and> (out = None \<or> out = Some (n, t + of_int window)))
     | Some (n0, r0) \<Rightarrow> \<exists>n\<ge>n0. memory_counter s' t k = Some (n, r0) \<and> (out = None \<or> out = Some (n, r0) \<and> n0 < n))"
  proof (cases "memory_counter s t k")
    case None
    with a(4) memory_bump_room [OF a(1) assms a(3)] have "s' = AList.update k (1, t + of_int window) s" "out = Some (1, t + of_int window)"
      by simp_all
    with None roomy_update [OF a(1,2)] assms show ?thesis by (simp add: memory_counter_update)
  next
    case (Some nr)
    obtain n r where nr: "nr = (n, r)" by force
    with Some a(4) memory_bump_room [OF a(1) assms a(3)] have "s' = AList.update k (n + 1, r) s" "out = Some (n + 1, r)"
      by simp_all
    with Some nr n roomy_update [OF a(1,2), of "n + 1" r] show ?thesis by (auto simp: memory_counter_update)
  qed
next
  fix s t k q out s' k'
  assume a: "roomy max_buckets known s" "k \<in> known" "0 \<le> t" "memory_bump max_buckets window s t k q = (out, s')" "k' \<noteq> k"
  then show "memory_counter s' t k' = memory_counter s t k'"
    using memory_bump_room [OF a(1) assms a(3), of k q] by (auto simp: memory_counter_update split: option.splits)
qed

interpretation minute: fixed_window "memory_bump max_buckets 60" memory_counter 60 "roomy max_buckets known" known
  for max_buckets known
  using memory_window [of 60] by simp

section \<open>The shared limiter\<close>

definition shared_counter :: "redis \<Rightarrow> int \<Rightarrow> string \<Rightarrow> (int \<times> int) option" where
  "shared_counter db t k = (case alive db t k of Some (n, Some x) \<Rightarrow> Some (n, x) | _ \<Rightarrow> None)"

definition shared_bump :: "int \<Rightarrow> redis \<Rightarrow> int \<Rightarrow> string \<Rightarrow> store_reply \<Rightarrow> (int \<times> int) option \<times> redis" where
  "shared_bump window db t k reply = (case upstash_increment db t k window reply of
       (None, db') \<Rightarrow> (None, db')
     | (Some (n, ttl), db') \<Rightarrow> (Some (n, t + \<lfloor>ttl * 1000\<rfloor>), db'))"

definition positive_counts :: "redis \<Rightarrow> bool" where
  "positive_counts db = (\<forall>k n x. db k = Some (n, x) \<longrightarrow> 1 \<le> n)"

lemma alive_stored: "alive db t k = Some (n, x) \<Longrightarrow> db k = Some (n, x)"
  by (auto simp: alive_def split: option.splits if_splits)

lemma alive_update: "alive (db(k \<mapsto> (n, x))) t k' = (if k' = k then (case x of None \<Rightarrow> Some (n, None) | Some y \<Rightarrow>
    if t < y then Some (n, Some y) else None) else alive db t k')"
  by (auto simp: alive_def split: option.split)

lemma alive_expiry: "alive db t k = Some (n, Some x) \<Longrightarrow> t < x"
  by (auto simp: alive_def split: option.splits if_splits)

text \<open>One call: what it answers and what it leaves.\<close>

lemma shared_bump_cases:
  assumes "0 < window" "shared_bump window db t k reply = (out, db')"
  shows "(case alive db t k of
       None \<Rightarrow> (out, db') \<in> {(Some (1, t + window * 1000), db(k \<mapsto> (1, Some (t + window * 1000)))),
         (None, db), (None, db(k \<mapsto> (1, None))), (None, db(k \<mapsto> (1, Some (t + window * 1000))))}
     | Some (n, None) \<Rightarrow> (out, db') \<in> {(Some (n + 1, t + window * 1000), db(k \<mapsto> (n + 1, Some (t + window * 1000)))),
         (None, db), (None, db(k \<mapsto> (n + 1, None))), (None, db(k \<mapsto> (n + 1, Some (t + window * 1000))))}
     | Some (n, Some x) \<Rightarrow> (out, db') \<in> {(Some (n + 1, x), db(k \<mapsto> (n + 1, Some x))), (None, db), (None, db(k \<mapsto> (n + 1, Some x)))})"
proof -
  have "\<lfloor>rat_of_int m / 1000 * 1000\<rfloor> = m" for m by simp
  moreover have "\<lfloor>rat_of_int m * 1000\<rfloor> = m * 1000" for m by (metis floor_of_int of_int_mult of_int_numeral)
  moreover have "\<lfloor>(rat_of_int y * 1000 - rat_of_int x * 1000) / 1000\<rfloor> = y - x" for x y
  proof -
    have "(rat_of_int y * 1000 - rat_of_int x * 1000) / 1000 = rat_of_int (y - x)" by simp
    then show ?thesis by (metis floor_of_int)
  qed
  ultimately have ms: "\<lfloor>rat_of_int m / 1000 * 1000\<rfloor> = m" "\<lfloor>rat_of_int m * 1000\<rfloor> = m * 1000"
    "\<lfloor>(rat_of_int y * 1000 - rat_of_int x * 1000) / 1000\<rfloor> = y - x" for m x y by blast+
  show ?thesis
  proof (cases "alive db t k")
    case None
    then have db2: "redis_pexpire_nx (db(k \<mapsto> (1, None))) t k (window * 1000) = db(k \<mapsto> (1, Some (t + window * 1000)))"
      by (simp add: redis_pexpire_nx_def alive_update)
    with None assms show ?thesis
      by (cases reply)
          (auto simp: shared_bump_def upstash_increment_def redis_incr_def redis_pttl_def alive_update ms Let_def split: if_splits)
  next
    case (Some nx)
    obtain n x where nx: "nx = (n, x)" by force
    show ?thesis
    proof (cases x)
      case None
      have db2: "redis_pexpire_nx (db(k \<mapsto> (n + 1, None))) t k (window * 1000) = db(k \<mapsto> (n + 1, Some (t + window * 1000)))"
        by (simp add: redis_pexpire_nx_def alive_update)
      with Some nx None assms show ?thesis
        by (cases reply)
          (auto simp: shared_bump_def upstash_increment_def redis_incr_def redis_pttl_def alive_update ms Let_def split: if_splits)
    next
      case e: (Some y)
      have y: "t < y" using Some nx e alive_expiry by blast
      then have db2: "redis_pexpire_nx (db(k \<mapsto> (n + 1, Some y))) t k (window * 1000) = db(k \<mapsto> (n + 1, Some y))"
        by (simp add: redis_pexpire_nx_def alive_update)
      with Some nx e y assms show ?thesis
        by (cases reply)
          (auto simp: shared_bump_def upstash_increment_def redis_incr_def redis_pttl_def alive_update ms Let_def split: if_splits)
    qed
  qed
qed

lemma shared_window:
  assumes "0 < window"
  shows "fixed_window (shared_bump window) shared_counter (window * 1000) positive_counts UNIV"
proof
  show "0 < window * 1000" using assms by simp
next
  fix t t' :: int and s :: redis and k :: string
  assume "t \<le> t'"
  then show "shared_counter s t' k = (case shared_counter s t k of
      None \<Rightarrow> None | Some (n, r) \<Rightarrow> if t' < r then Some (n, r) else None)"
    by (auto simp: shared_counter_def alive_def split: option.split)
next
  fix s :: redis and t :: int and k n r
  assume "shared_counter s t k = Some (n, r)"
  then show "t < r" by (auto simp: shared_counter_def split: option.splits dest: alive_expiry)
next
  fix s t k q out s'
  assume room: "positive_counts s" and b: "shared_bump window s t k q = (out, s')"
  note c = shared_bump_cases [OF assms b]
  have pos: "1 \<le> n" if "alive s t k = Some (n, x)" for n x
    using alive_stored [OF that] room by (auto simp: positive_counts_def)
  have up: "positive_counts (s(k \<mapsto> (m, x)))" if "1 \<le> m" for m x
    using that room by (auto simp: positive_counts_def)
  show "positive_counts s' \<and>
    (case shared_counter s t k of
       None \<Rightarrow> shared_counter s' t k = None \<and> out = None \<or>
         (\<exists>n\<ge>1. shared_counter s' t k = Some (n, t + window * 1000) \<and> (out = None \<or> out = Some (n, t + window * 1000)))
     | Some (n0, r0) \<Rightarrow> \<exists>n\<ge>n0. shared_counter s' t k = Some (n, r0) \<and> (out = None \<or> out = Some (n, r0) \<and> n0 < n))"
  proof (cases "alive s t k")
    case None
    with c assms room up show ?thesis by (auto simp: shared_counter_def alive_update)
  next
    case (Some nx)
    obtain n x where nx: "nx = (n, x)" by force
    show ?thesis
    proof (cases x)
      case None
      with Some nx c assms room up pos show ?thesis by (auto simp: shared_counter_def alive_update)
    next
      case e: (Some y)
      with Some nx c assms room up pos alive_expiry show ?thesis by (auto simp: shared_counter_def alive_update)
    qed
  qed
next
  fix s t k q out s' k'
  assume "shared_bump window s t k q = (out, s')" and k': "(k'::string) \<noteq> k"
  note c = shared_bump_cases [OF assms this(1)]
  have "s' k' = s k'" using c k' by (auto split: option.splits)
  then show "shared_counter s' t k' = shared_counter s t k'" by (simp add: shared_counter_def alive_def)
qed

interpretation shared: fixed_window "shared_bump 60" shared_counter 60000 positive_counts UNIV
  using shared_window [of 60] by simp

section \<open>Requests through the limiter\<close>

text \<open>A request: the process clock, the store's clock, what becomes of the store's answer, category and identifier.\<close>

type_synonym api_request = "rat \<times> int \<times> store_reply \<times> category \<times> string"

fun admitted_requests ::
  "environment \<Rightarrow> (string \<Rightarrow> string) \<Rightarrow> nat \<Rightarrow> limiters \<Rightarrow> api_request list \<Rightarrow> (rat \<times> int \<times> string) list" where
  "admitted_requests env sha m l [] = []"
| "admitted_requests env sha m l ((t, ms, reply, c, i) # reqs) =
     (case enforce_rate_limit env sha m t ms reply c i l of
        (None, l') \<Rightarrow> (t, ms, limiter_key sha c i) # admitted_requests env sha m l' reqs
      | (Some e, l') \<Rightarrow> admitted_requests env sha m l' reqs)"

lemma window_60: "snd (category_limit env c) = 60"
  by (cases c) (simp_all add: category_limit_def Let_def)

lemma key_category:
  assumes "limiter_key sha c i = limiter_key sha c' i'"
  shows "c = c'"
  using assms by (cases c; cases c') (simp_all add: limiter_key_def)

lemma shared_observed:
  assumes "shared_configured env" "key = limiter_key sha c i"
  shows "length (filter (\<lambda>(t, ms, k). k = key \<and> a \<le> ms \<and> ms < b) (admitted_requests env sha m l reqs)) =
    admitted_in (fst (category_limit env c)) a b
      (shared.observe key (shared_store l) (map (\<lambda>(t, ms, reply, c, i). (ms, limiter_key sha c i, reply)) reqs))"
proof (induction reqs arbitrary: l)
  case (Cons q reqs)
  obtain t ms reply c' i' where q: "q = (t, ms, reply, c', i')" by (cases q)
  obtain limit window where lw: "category_limit env c' = (limit, window)" by force
  have window: "window = 60" using window_60 [of env c'] lw by simp
  obtain out db where u: "upstash_increment (shared_store l) ms (limiter_key sha c' i') 60 reply = (out, db)" by force
  have bump: "shared_bump 60 (shared_store l) ms (limiter_key sha c' i') reply = (map_option (\<lambda>(n, ttl). (n, ms + \<lfloor>ttl * 1000\<rfloor>)) out, db)"
    by (cases out) (auto simp: shared_bump_def u)
  show ?case
  proof (cases out)
    case None
    with Cons [of "l\<lparr>shared_store := db\<rparr>"] q lw window u assms(1) show ?thesis
      by (simp add: enforce_rate_limit_def bump)
  next
    case (Some nt)
    obtain n ttl where nt: "nt = (n, ttl)" by force
    have same: "limiter_key sha c' i' = key \<Longrightarrow> limit = fst (category_limit env c)"
      using key_category [of sha c' i' c i] assms(2) lw by simp
    show ?thesis
    proof (cases "n \<le> limit")
      case True
      with Some nt Cons [of "l\<lparr>shared_store := db\<rparr>"] q lw window u assms(1) same show ?thesis
        by (auto simp: enforce_rate_limit_def bump admitted_in_def)
    next
      case False
      with Some nt Cons [of "l\<lparr>shared_store := db\<rparr>"] q lw window u assms(1) same show ?thesis
        by (auto simp: enforce_rate_limit_def bump admitted_in_def)
    qed
  qed
qed (simp add: admitted_in_def)

lemma memory_observed:
  assumes "\<not> shared_configured env" "\<not> is_production env" "key = limiter_key sha c i"
  shows "length (filter (\<lambda>(t, ms, k). k = key \<and> a \<le> t \<and> t < b) (admitted_requests env sha m l reqs)) =
    admitted_in (fst (category_limit env c)) a b
      (minute.observe m key (memory_buckets l) (map (\<lambda>(t, ms, reply, c, i). (t, limiter_key sha c i, ())) reqs))"
proof (induction reqs arbitrary: l)
  case (Cons q reqs)
  obtain t ms reply c' i' where q: "q = (t, ms, reply, c', i')" by (cases q)
  obtain limit window where lw: "category_limit env c' = (limit, window)" by force
  have window: "window = 60" using window_60 [of env c'] lw by simp
  obtain n ttl d where u: "memory_increment m (memory_buckets l) t (limiter_key sha c' i') 60 = (n, ttl, d)"
    by (metis prod_cases3)
  have bump: "memory_bump m 60 (memory_buckets l) t (limiter_key sha c' i') () = (Some (n, t + ttl), d)"
    by (simp add: memory_bump_def u)
  have same: "limiter_key sha c' i' = key \<Longrightarrow> limit = fst (category_limit env c)"
    using key_category [of sha c' i' c i] assms(3) lw by simp
  show ?case
    using Cons [of "l\<lparr>memory_buckets := d\<rparr>"] q lw window u assms(1,2) same
    by (cases "n \<le> limit") (auto simp: enforce_rate_limit_def bump admitted_in_def)
qed (simp add: admitted_in_def)

definition empty_limiters :: limiters where
  "empty_limiters = \<lparr>memory_buckets = [], shared_store = (\<lambda>_. None)\<rparr>"

definition cloud_env :: environment where
  "cloud_env k = (if k = ''UPSTASH_REDIS_REST_URL'' then Some ''u'' else if k = ''UPSTASH_REDIS_REST_TOKEN'' then Some ''t''
     else if k = ''ENVIRONMENT'' then Some ''production'' else None)"

definition local_env :: environment where
  "local_env k = None"

lemma example_envs: "shared_configured cloud_env" "is_production cloud_env" "\<not> shared_configured local_env" "\<not> is_production local_env"
  by (simp_all add: shared_configured_def is_production_def cloud_env_def local_env_def getenv_def py_strip_def is_space_def
      py_lower_def lower_char_def)

section \<open>What the limiter promises\<close>

text \<open>C33. The shared limiter, whatever processes send and whichever answers are lost after however many of the three
  commands: of one category and identifier at most twice the limit is admitted in any 60 seconds of the
  store's clock.\<close>

theorem shared_limiter_bound:
  assumes "shared_configured env" "sorted (map (\<lambda>(t, ms, q). ms) reqs)" "\<forall>(t, ms, q)\<in>set reqs. 0 \<le> ms"
  shows "length (filter (\<lambda>(t, ms, k). k = limiter_key sha c i \<and> a \<le> ms \<and> ms < a + 60000)
      (admitted_requests env sha m empty_limiters reqs)) \<le> 2 * nat (fst (category_limit env c))"
proof -
  let ?obs = "map (\<lambda>(t, ms, reply, c, i). (ms, limiter_key sha c i, reply)) reqs"
  have times: "map fst ?obs = map (\<lambda>(t, ms, q). ms) reqs" by (auto simp: comp_def case_prod_unfold)
  have srt: "sorted (map fst ?obs)" unfolding times by (rule assms(2))
  have all: "\<forall>(t, k, q)\<in>set ?obs. k \<in> UNIV \<and> 0 \<le> t" using assms(3) by auto
  have start: "positive_counts (shared_store empty_limiters)"
    "\<forall>t. shared_counter (shared_store empty_limiters) t (limiter_key sha c i) = None"
    by (simp_all add: positive_counts_def empty_limiters_def shared_counter_def alive_def)
  show ?thesis
    unfolding shared_observed [OF assms(1) refl] by (rule shared.observe_bound [OF start(1) srt all start(2)])
qed

lemma shared_limiter_bound_witness:
  "length (filter (\<lambda>(t, ms, k). k = limiter_key id Cancellation ''u'' \<and> 0 \<le> ms \<and> ms < 0 + 60000)
     (admitted_requests cloud_env id 10000 empty_limiters
        [(0, 0, Answered, Cancellation, ''u''), (1, 1000, Lost_after 1, Cancellation, ''u'')])) \<le> 2 * nat (fst (category_limit cloud_env Cancellation))"
  by (rule shared_limiter_bound) (use example_envs in simp_all)

text \<open>The in-process limiter keeps the same bound as long as fewer keys are in use than it may hold.\<close>

theorem memory_limiter_bound:
  assumes "\<not> shared_configured env" "\<not> is_production env" "sorted (map fst reqs)" "\<forall>(t, q)\<in>set reqs. 0 \<le> t"
    "card ((\<lambda>(t, ms, reply, c, i). limiter_key sha c i) ` set reqs) < m"
  shows "length (filter (\<lambda>(t, ms, k). k = limiter_key sha c i \<and> a \<le> t \<and> t < a + 60)
      (admitted_requests env sha m empty_limiters reqs)) \<le> 2 * nat (fst (category_limit env c))"
proof -
  let ?obs = "map (\<lambda>(t, ms, reply, c, i). (t, limiter_key sha c i, ())) reqs"
  let ?known = "(\<lambda>(t, ms, reply, c, i). limiter_key sha c i) ` set reqs"
  have times: "map fst ?obs = map fst reqs" by (auto simp: comp_def case_prod_unfold)
  have srt: "sorted (map fst ?obs)" unfolding times by (rule assms(3))
  have room: "roomy m ?known (memory_buckets empty_limiters)" using assms(5) by (simp add: roomy_def empty_limiters_def)
  have all: "\<forall>(t, k, q)\<in>set ?obs. k \<in> ?known \<and> 0 \<le> t" using assms(4) by (auto intro: rev_image_eqI)
  have start: "\<forall>t. memory_counter (memory_buckets empty_limiters) t (limiter_key sha c i) = None"
    by (simp add: memory_counter_def empty_limiters_def)
  show ?thesis
    unfolding memory_observed [OF assms(1,2) refl] by (rule minute.observe_bound [OF room srt all start])
qed

lemma memory_limiter_bound_witness:
  "length (filter (\<lambda>(t, ms, k). k = limiter_key id Cancellation ''u'' \<and> 0 \<le> t \<and> t < 0 + 60)
     (admitted_requests local_env id 10000 empty_limiters
        [(0, 0, Answered, Cancellation, ''u''), (1, 0, Answered, Cancellation, ''u'')])) \<le> 2 * nat (fst (category_limit local_env Cancellation))"
  by (rule memory_limiter_bound) (use example_envs in simp_all)

text \<open>C34. In production nothing is admitted unmetered: an admitted request was counted by the shared store, within the
  limit, and answered.\<close>

theorem production_is_never_unmetered:
  assumes "is_production env" "enforce_rate_limit env sha m t ms reply c i l = (None, l')"
  shows "shared_configured env \<and> reply = Answered \<and>
    (\<exists>n ttl. upstash_increment (shared_store l) ms (limiter_key sha c i) (snd (category_limit env c)) Answered = (Some (n, ttl), shared_store l') \<and>
       n \<le> fst (category_limit env c))"
proof -
  obtain limit window where lw: "category_limit env c = (limit, window)" by force
  have shared: "shared_configured env" using assms by (auto simp: enforce_rate_limit_def lw Let_def split: if_splits)
  obtain out db where u: "upstash_increment (shared_store l) ms (limiter_key sha c i) window reply = (out, db)" by force
  have lost: "out = None" if "reply \<noteq> Answered"
    using u that by (cases reply) (auto simp: upstash_increment_def Let_def split: prod.splits)
  obtain n ttl where out: "out = Some (n, ttl)" and l': "l' = l\<lparr>shared_store := db\<rparr>" and n: "n \<le> limit"
    using assms(2) shared u by (cases out) (auto simp: enforce_rate_limit_def lw Let_def split: if_splits)
  from out lost have "reply = Answered" by blast
  with shared u out l' n lw show ?thesis by simp
qed

lemma production_is_never_unmetered_witness:
  "\<exists>l'. enforce_rate_limit cloud_env id 10000 0 0 Answered Cancellation ''u'' empty_limiters = (None, l') \<and>
     (\<exists>n ttl. upstash_increment (shared_store empty_limiters) 0 (limiter_key id Cancellation ''u'') 60 Answered = (Some (n, ttl), shared_store l') \<and> n \<le> 10)"
proof -
  have lim: "category_limit cloud_env Cancellation = (10, 60)"
    by (simp add: category_limit_def getenv_def cloud_env_def py_strip_def Let_def)
  obtain l' where l': "enforce_rate_limit cloud_env id 10000 0 0 Answered Cancellation ''u'' empty_limiters = (None, l')"
    using example_envs(1)
    by (simp add: enforce_rate_limit_def lim upstash_increment_def redis_incr_def redis_pexpire_nx_def redis_pttl_def alive_def
        empty_limiters_def Let_def)
  with production_is_never_unmetered [OF example_envs(2) l'] lim show ?thesis by simp
qed

text \<open>With its store full, the in-process limiter drops live buckets: a key at its limit starts again at one.\<close>

theorem eviction_forgets_the_count:
  "memory_increment 1 [(''rl:cancellation:x'', 10, 60)] 5 ''rl:cancellation:x'' 60 = (1, 60, [(''rl:cancellation:x'', 1, 65)])"
  by (simp add: memory_increment_def make_room_def)

end
