(* ===== verification/Runtime_Policy.thy ===== *)
theory Runtime_Policy
  imports Quota_Config Swarm_Plan Provider_Scheduler Budget_Tracker Python_Documents
begin

text \<open>
  The runtime policy of a deployment, \<open>backend/runtime_policy.py\<close>: the registry of reviewed limits, its
  resolution against the environment, the cross-dimension rules, and what the enforcing surfaces build
  from it (\<open>BudgetConfig\<close>, \<open>PlanLimits\<close>, \<open>ProviderLimitsConfig\<close>).  Values are exact rationals; \<open>sha\<close> is the
  hexadecimal SHA-256 digest.
\<close>

section \<open>The registry\<close>

datatype direction = Lower_is_tighter | Higher_is_tighter | Declared_not_bounded

datatype number_kind = Int_kind | Float_kind

datatype wire_format = Fmt_int | Fmt_money | Fmt_unit_price

datatype surface = Budget | Plan | Provider | Engine_parallelism | Search | Posture

record policy_dimension =
  d_name :: string
  d_reviewed :: rat
  d_kind :: number_kind
  d_direction :: direction
  d_format :: wire_format
  d_env_key :: "string option"
  d_runtime_default :: "rat option"
  d_enforced_by :: surface

definition dimension ::
  "string \<Rightarrow> rat \<Rightarrow> number_kind \<Rightarrow> direction \<Rightarrow> wire_format \<Rightarrow> string option \<Rightarrow> rat option \<Rightarrow> surface \<Rightarrow> policy_dimension" where
  "dimension n r k d f e rd s = \<lparr>d_name = n, d_reviewed = r, d_kind = k, d_direction = d, d_format = f, d_env_key = e,
     d_runtime_default = rd, d_enforced_by = s\<rparr>"

definition is_wider :: "policy_dimension \<Rightarrow> rat \<Rightarrow> bool" where
  "is_wider d v = (case d_direction d of
       Declared_not_bounded \<Rightarrow> False
     | Lower_is_tighter \<Rightarrow> d_reviewed d < v
     | Higher_is_tighter \<Rightarrow> v < d_reviewed d)"

definition mandatory_for_paid :: "policy_dimension \<Rightarrow> bool" where
  "mandatory_for_paid d = (if d_env_key d = None then False
     else (case d_runtime_default d of None \<Rightarrow> True | Some v \<Rightarrow> is_wider d v))"

text \<open>A number with a fixed count of decimals, and the wire form of a value; an integral format refuses a fraction.\<close>

definition padded :: "nat \<Rightarrow> nat \<Rightarrow> string" where
  "padded n k = replicate (n - length (decimal k)) (CHR ''0'') @ decimal k"

definition fixed_text :: "nat \<Rightarrow> rat \<Rightarrow> string" where
  "fixed_text n r = (let k = round_half_even (r * 10 ^ n); a = nat \<bar>k\<bar> in
     (if k < 0 then ''-'' else []) @ decimal (a div 10 ^ n) @ ''.'' @ padded n (a mod 10 ^ n))"

definition format_value :: "policy_dimension \<Rightarrow> rat option \<Rightarrow> string option" where
  "format_value d v = (case v of
       None \<Rightarrow> Some ''unbounded''
     | Some r \<Rightarrow> (case d_format d of
           Fmt_money \<Rightarrow> Some (fixed_text 2 r)
         | Fmt_unit_price \<Rightarrow> Some (fixed_text 4 r)
         | Fmt_int \<Rightarrow> if r = of_int (trunc_rat r) then Some (signed_decimal (trunc_rat r)) else None))"

definition POLICY_DIMENSIONS :: "policy_dimension list" where
  "POLICY_DIMENSIONS = [
     dimension ''max_model_calls_per_run'' 150 Int_kind Lower_is_tighter Fmt_int (Some ''MILO_MAX_MODEL_CALLS_PER_RUN'') (None) Budget,
     dimension ''max_input_tokens_per_run'' 500000 Int_kind Lower_is_tighter Fmt_int (Some ''MILO_MAX_INPUT_TOKENS_PER_RUN'') (None) Budget,
     dimension ''max_output_tokens_per_run'' 400000 Int_kind Lower_is_tighter Fmt_int (Some ''MILO_MAX_OUTPUT_TOKENS_PER_RUN'') (None) Budget,
     dimension ''max_total_tokens_per_run'' 900000 Int_kind Lower_is_tighter Fmt_int (Some ''MILO_MAX_TOTAL_TOKENS_PER_RUN'') (None) Budget,
     dimension ''max_estimated_cost_per_run'' 3 Float_kind Lower_is_tighter Fmt_money (Some ''MILO_MAX_ESTIMATED_COST_PER_RUN'') (None) Budget,
     dimension ''max_cost_per_run'' 3 Float_kind Lower_is_tighter Fmt_money (Some ''MILO_MAX_COST_PER_RUN'') (None) Budget,
     dimension ''max_run_duration_seconds'' 1800 Int_kind Lower_is_tighter Fmt_int (Some ''MILO_MAX_RUN_DURATION_SECONDS'') (None) Budget,
     dimension ''max_agent_steps'' 56 Int_kind Lower_is_tighter Fmt_int (Some ''MILO_MAX_AGENT_STEPS'') (None) Budget,
     dimension ''max_retries'' 15 Int_kind Lower_is_tighter Fmt_int (Some ''MILO_MAX_RETRIES'') (None) Budget,
     dimension ''max_concurrent_runs_per_user'' 1 Int_kind Lower_is_tighter Fmt_int (Some ''MILO_MAX_CONCURRENT_RUNS_PER_USER'') (None) Budget,
     dimension ''max_concurrent_runs_per_project'' 1 Int_kind Lower_is_tighter Fmt_int (Some ''MILO_MAX_CONCURRENT_RUNS_PER_PROJECT'') (None) Budget,
     dimension ''daily_user_budget'' 10 Float_kind Lower_is_tighter Fmt_money (Some ''MILO_DAILY_USER_BUDGET'') (None) Budget,
     dimension ''daily_project_budget'' 10 Float_kind Lower_is_tighter Fmt_money (Some ''MILO_DAILY_PROJECT_BUDGET'') (None) Budget,
     dimension ''estimated_cost_per_call'' (1 / 50) Float_kind Higher_is_tighter Fmt_money (Some ''MILO_ESTIMATED_COST_PER_CALL'') (Some (1 / 20)) Budget,
     dimension ''max_tasks'' 23 Int_kind Lower_is_tighter Fmt_int (Some ''MILO_MAX_TASKS_PER_RUN'') (Some 64) Plan,
     dimension ''max_tool_calls'' 24 Int_kind Lower_is_tighter Fmt_int (Some ''MILO_MAX_TOOL_CALLS_PER_RUN'') (Some 100) Plan,
     dimension ''max_replans'' 1 Int_kind Lower_is_tighter Fmt_int (Some ''MILO_MAX_REPLANS_PER_RUN'') (Some 3) Plan,
     dimension ''max_tool_calls_per_task'' 4 Int_kind Lower_is_tighter Fmt_int (None) (Some 4) Plan,
     dimension ''max_graph_depth'' 12 Int_kind Lower_is_tighter Fmt_int (None) (Some 12) Plan,
     dimension ''max_recursion_depth'' 4 Int_kind Lower_is_tighter Fmt_int (None) (Some 4) Plan,
     dimension ''max_cost_units'' 100000 Int_kind Lower_is_tighter Fmt_int (None) (Some 100000) Plan,
     dimension ''provider_max_concurrency'' 2 Int_kind Lower_is_tighter Fmt_int (Some ''MILO_PROVIDER_MAX_CONCURRENCY'') (Some 2) Provider,
     dimension ''provider_rpm_limit'' 40 Int_kind Lower_is_tighter Fmt_int (Some ''MILO_PROVIDER_RPM_LIMIT'') (Some 3) Provider,
     dimension ''provider_tpm_limit'' 1200000 Int_kind Lower_is_tighter Fmt_int (Some ''MILO_PROVIDER_TPM_LIMIT'') (None) Provider,
     dimension ''provider_max_rate_limit_retries'' 5 Int_kind Lower_is_tighter Fmt_int (Some ''MILO_PROVIDER_MAX_RATE_LIMIT_RETRIES'') (Some 5) Provider,
     dimension ''provider_max_backpressure_wait_seconds'' 240 Float_kind Lower_is_tighter Fmt_int (Some ''MILO_PROVIDER_MAX_BACKPRESSURE_WAIT_SECONDS'') (Some 240) Provider,
     dimension ''provider_backoff_base_seconds'' 2 Float_kind Declared_not_bounded Fmt_int (Some ''MILO_PROVIDER_BACKOFF_BASE_SECONDS'') (Some 2) Provider,
     dimension ''provider_backoff_max_seconds'' 30 Float_kind Declared_not_bounded Fmt_int (Some ''MILO_PROVIDER_BACKOFF_MAX_SECONDS'') (Some 30) Provider,
     dimension ''v1_technical_parallelism'' 4 Int_kind Lower_is_tighter Fmt_int (Some ''MILO_V1_TECHNICAL_PARALLELISM'') (Some 1) Engine_parallelism,
     dimension ''v2_max_active_workers'' 2 Int_kind Lower_is_tighter Fmt_int (Some ''MILO_SWARM_MAX_ACTIVE_WORKERS'') (Some 4) Engine_parallelism,
     dimension ''search_basic_qps'' 1 Int_kind Lower_is_tighter Fmt_int (None) (Some 1) Search,
     dimension ''search_pro_qps'' 1 Int_kind Lower_is_tighter Fmt_int (None) (Some 1) Search,
     dimension ''max_search_invocations_per_run'' 60 Int_kind Lower_is_tighter Fmt_int (None) (Some 60) Budget,
     dimension ''max_builtin_searches_per_request'' 4 Int_kind Lower_is_tighter Fmt_int (None) (Some 4) Budget,
     dimension ''search_cost_per_invocation'' (3 / 1000) Float_kind Higher_is_tighter Fmt_unit_price (None) (Some (3 / 1000)) Budget,
     dimension ''hard_monetary_cap_usd'' 3 Float_kind Lower_is_tighter Fmt_money (None) (Some 3) Posture,
     dimension ''first_paid_run_execution_cap'' 1 Int_kind Lower_is_tighter Fmt_int (None) (Some 1) Posture]"

definition dimensions_for :: "surface \<Rightarrow> policy_dimension list" where
  "dimensions_for s = filter (\<lambda>d. d_enforced_by d = s) POLICY_DIMENSIONS"

section \<open>Catalog posture\<close>

datatype violation_code =
    Value_invalid | Wider_than_reviewed | Dimension_absent | Invariant_violated | Reviewed_inconsistent
  | Catalog_posture_contradictory

type_synonym violation = "violation_code \<times> string"

definition env_flag :: "(string \<Rightarrow> string option) \<Rightarrow> string \<Rightarrow> bool" where
  "env_flag env k = (py_lower (env_raw env k) \<in> {''1'', ''true'', ''yes'', ''on''})"

definition paid_posture :: "(string \<Rightarrow> string option) \<Rightarrow> bool" where
  "paid_posture env = env_flag env ''MILO_ENABLE_PAID_EXECUTION''"

definition catalog_posture_violations :: "(string \<Rightarrow> string option) \<Rightarrow> violation list" where
  "catalog_posture_violations env =
     (if env_flag env ''MILO_ENABLE_CATALOG_PROMOTION'' \<and> \<not> env_flag env ''MILO_ENABLE_GOVERNMENT_CATALOG_READ''
      then [(Catalog_posture_contradictory, ''catalog_posture'')] else [])"

section \<open>Resolution\<close>

definition parse_value :: "policy_dimension \<Rightarrow> string \<Rightarrow> rat option" where
  "parse_value d raw =
     (case (case d_kind d of
              Int_kind \<Rightarrow> map_option of_int (py_int raw)
            | Float_kind \<Rightarrow> (case py_float raw of Some (Finite r) \<Rightarrow> Some r | _ \<Rightarrow> None)) of
        None \<Rightarrow> None
      | Some v \<Rightarrow> if v \<le> 0 then None else Some v)"

datatype value_source = From_deployment | From_runtime_default | Unbounded | From_review | Refused

text \<open>What one turn of the loop over the dimensions adds.\<close>

record resolved_dimension =
  r_name :: string
  r_value :: "rat option"
  r_source :: value_source
  r_violations :: "violation list"
  r_tightened :: bool
  r_relaxed :: bool

definition dimension_raw :: "(string \<Rightarrow> string option) \<Rightarrow> policy_dimension \<Rightarrow> string" where
  "dimension_raw env d = (case d_env_key d of None \<Rightarrow> [] | Some k \<Rightarrow> env_raw env k)"

definition resolve_dimension :: "(string \<Rightarrow> string option) \<Rightarrow> bool \<Rightarrow> policy_dimension \<Rightarrow> resolved_dimension" where
  "resolve_dimension env paid d =
     (let raw = dimension_raw env d;
          answer = (\<lambda>v s e t x. \<lparr>r_name = d_name d, r_value = v, r_source = s, r_violations = e, r_tightened = t, r_relaxed = x\<rparr>)
      in if raw \<noteq> [] then
           (case parse_value d raw of
              None \<Rightarrow> answer (Some (d_reviewed d)) Refused [(Value_invalid, d_name d)] False False
            | Some v \<Rightarrow>
                if is_wider d v then
                  (if paid then answer (Some (d_reviewed d)) Refused [(Wider_than_reviewed, d_name d)] False False
                   else answer (Some v) From_deployment [] False True)
                else answer (Some v) From_deployment [] (v \<noteq> d_reviewed d) False)
         else if mandatory_for_paid d \<and> paid
         then answer (Some (d_reviewed d)) Refused [(Dimension_absent, d_name d)] False False
         else (case d_runtime_default d of
                 None \<Rightarrow> answer None Unbounded [] False False
               | Some v \<Rightarrow> answer (Some v) From_runtime_default [] (v \<noteq> d_reviewed d) False))"

type_synonym policy_values = "(string \<times> rat option) list"

record runtime_policy =
  p_paid :: bool
  p_values :: policy_values
  p_sources :: "(string \<times> value_source) list"
  p_tightened :: "string list"
  p_relaxed :: "string list"

definition value_of :: "policy_values \<Rightarrow> string \<Rightarrow> rat option" where
  "value_of vs n = (case map_of vs n of None \<Rightarrow> None | Some v \<Rightarrow> v)"

section \<open>Rules across dimensions\<close>

definition WORKER_JOB_TIMEOUT_SECONDS :: rat where "WORKER_JOB_TIMEOUT_SECONDS = 3600"

text \<open>The deadlines of the Swarm V2 roles and the inactivity window of a stream.\<close>

definition ROLE_DEADLINES :: "((string \<times> string) \<times> rat) list" where
  "ROLE_DEADLINES = [((''commander'', ''planning''), 600), ((''commander'', ''replanning''), 300), ((''worker'', ''execute''), 300),
     ((''verifier'', ''verification''), 480), ((''normaliser'', ''manufacturers''), 300)]"

definition MAX_ROLE_TOTAL_DEADLINE_SECONDS :: rat where
  "MAX_ROLE_TOTAL_DEADLINE_SECONDS = fold max (map snd ROLE_DEADLINES) 0"

definition STREAM_INACTIVITY_SECONDS :: rat where "STREAM_INACTIVITY_SECONDS = 60"

definition longest_provider_call_seconds :: rat where
  "longest_provider_call_seconds = MAX_ROLE_TOTAL_DEADLINE_SECONDS + STREAM_INACTIVITY_SECONDS"

definition invariant_violations :: "policy_values \<Rightarrow> violation list" where
  "invariant_violations vs =
     (case value_of vs ''hard_monetary_cap_usd'' of
        None \<Rightarrow> []
      | Some cap \<Rightarrow> concat (map (\<lambda>n. case value_of vs n of
            None \<Rightarrow> [] | Some v \<Rightarrow> if cap < v then [(Invariant_violated, n)] else [])
          [''max_estimated_cost_per_run'', ''max_cost_per_run'']))
     @ (case value_of vs ''max_run_duration_seconds'' of
          None \<Rightarrow> []
        | Some t \<Rightarrow>
            if WORKER_JOB_TIMEOUT_SECONDS \<le> of_int (trunc_rat t) then [(Invariant_violated, ''max_run_duration_seconds'')]
            else if WORKER_JOB_TIMEOUT_SECONDS \<le> of_int (trunc_rat t) + longest_provider_call_seconds
            then [(Invariant_violated, ''max_run_duration_seconds'')] else [])"

definition reviewed_values :: policy_values where
  "reviewed_values = map (\<lambda>d. (d_name d, Some (d_reviewed d))) POLICY_DIMENSIONS"

definition reviewed_int :: "string \<Rightarrow> int" where
  "reviewed_int n = (case value_of reviewed_values n of None \<Rightarrow> 0 | Some v \<Rightarrow> trunc_rat v)"

definition reviewed_policy_violations :: "violation list" where
  "reviewed_policy_violations =
     (let fail = (\<lambda>b n. if b then [(Reviewed_inconsistent, n)] else []);
          worst = plan_worst_case (reviewed_int ''max_tasks'') (reviewed_int ''max_replans'') 0 MIN_VERIFIER_BATCHES
      in invariant_violations reviewed_values
         @ fail (reviewed_int ''max_input_tokens_per_run'' + reviewed_int ''max_output_tokens_per_run'' < reviewed_int ''max_total_tokens_per_run'')
             ''max_total_tokens_per_run''
         @ fail (reviewed_int ''max_agent_steps'' < agent_steps worst) ''max_tasks''
         @ fail (reviewed_int ''max_model_calls_per_run'' < model_calls worst) ''max_tasks''
         @ fail (\<not> (assert_request_deadline_safe MAX_ROLE_TOTAL_DEADLINE_SECONDS REVIEWED_LEASE_TTL_SECONDS = None \<and>
               MAX_ROLE_TOTAL_DEADLINE_SECONDS \<le> request_deadline_seconds default_config)) ''max_run_duration_seconds''
         @ fail (MAX_INFERENCE_CONCURRENCY < reviewed_int ''provider_max_concurrency'') ''provider_max_concurrency''
         @ fail (MAX_RPM < reviewed_int ''provider_rpm_limit'') ''provider_rpm_limit''
         @ fail (MAX_TPM < reviewed_int ''provider_tpm_limit'') ''provider_tpm_limit'')"

section \<open>The whole policy\<close>

definition resolve_policy :: "(string \<Rightarrow> string option) \<Rightarrow> bool option \<Rightarrow> runtime_policy \<times> violation list" where
  "resolve_policy env armed =
     (let paid = (case armed of None \<Rightarrow> paid_posture env | Some b \<Rightarrow> b);
          rs = map (resolve_dimension env paid) POLICY_DIMENSIONS;
          vs = map (\<lambda>r. (r_name r, r_value r)) rs
      in (\<lparr>p_paid = paid, p_values = vs, p_sources = map (\<lambda>r. (r_name r, r_source r)) rs,
           p_tightened = sort (map r_name (filter r_tightened rs)), p_relaxed = sort (map r_name (filter r_relaxed rs))\<rparr>,
          concat (map r_violations rs) @ catalog_posture_violations env
            @ (if paid then invariant_violations vs @ reviewed_policy_violations else [])))"

definition policy_violations :: "(string \<Rightarrow> string option) \<Rightarrow> bool option \<Rightarrow> violation list" where
  "policy_violations env armed = snd (resolve_policy env armed)"

definition resolve_runtime_policy :: "(string \<Rightarrow> string option) \<Rightarrow> bool option \<Rightarrow> violation list + runtime_policy" where
  "resolve_runtime_policy env armed =
     (case resolve_policy env armed of (p, es) \<Rightarrow> if es \<noteq> [] then Inl es else Inr p)"

definition reviewed_first_run_policy :: runtime_policy where
  "reviewed_first_run_policy = \<lparr>p_paid = True, p_values = reviewed_values,
     p_sources = map (\<lambda>d. (d_name d, From_review)) POLICY_DIMENSIONS, p_tightened = [], p_relaxed = []\<rparr>"

definition policy_failure_code :: "violation list \<Rightarrow> string" where
  "policy_failure_code es =
     (let surfaces = concat (map (\<lambda>(c, n). case find (\<lambda>d. d_name d = n) POLICY_DIMENSIONS of
            None \<Rightarrow> [] | Some d \<Rightarrow> [d_enforced_by d]) es)
      in if set surfaces = {Provider} then ''PROVIDER_LIMITS_CONFIG_INVALID''
         else if set surfaces = {Budget} then ''BUDGET_CONFIG_INVALID'' else ''RUNTIME_POLICY_INVALID'')"

section \<open>What the surfaces enforce\<close>

text \<open>The budget of a paid deployment; \<open>BudgetConfig\<close> has two fields no run's tracker reads.\<close>

record deployment_budget = budget_config +
  max_concurrent_runs_per_user :: "int option"
  max_concurrent_runs_per_project :: "int option"

definition int_value :: "policy_values \<Rightarrow> string \<Rightarrow> int option" where
  "int_value vs n = map_option trunc_rat (value_of vs n)"

definition float_value :: "policy_values \<Rightarrow> string \<Rightarrow> pyfloat option" where
  "float_value vs n = map_option Finite (value_of vs n)"

definition or_rate :: "rat option \<Rightarrow> rat \<Rightarrow> rat" where
  "or_rate v d = (case v of None \<Rightarrow> d | Some r \<Rightarrow> r)"

definition paid_budget_config :: "runtime_policy \<Rightarrow> deployment_budget" where
  "paid_budget_config p = (let vs = p_values p in
     \<lparr>max_model_calls_per_run = int_value vs ''max_model_calls_per_run'', max_input_tokens_per_run = int_value vs ''max_input_tokens_per_run'',
      max_output_tokens_per_run = int_value vs ''max_output_tokens_per_run'', max_total_tokens_per_run = int_value vs ''max_total_tokens_per_run'',
      max_estimated_cost_per_run = float_value vs ''max_estimated_cost_per_run'', max_cost_per_run = float_value vs ''max_cost_per_run'',
      max_run_duration_seconds = int_value vs ''max_run_duration_seconds'', max_agent_steps = int_value vs ''max_agent_steps'',
      max_retries = int_value vs ''max_retries'', daily_user_budget = float_value vs ''daily_user_budget'',
      daily_project_budget = float_value vs ''daily_project_budget'',
      estimated_cost_per_call = or_rate (value_of vs ''estimated_cost_per_call'') (5 / 100),
      max_search_invocations_per_run = int_value vs ''max_search_invocations_per_run'',
      max_builtin_searches_per_request = (case int_value vs ''max_builtin_searches_per_request'' of None \<Rightarrow> 0 | Some n \<Rightarrow> n),
      search_cost_per_invocation = or_rate (value_of vs ''search_cost_per_invocation'') 0,
      max_concurrent_runs_per_user = int_value vs ''max_concurrent_runs_per_user'',
      max_concurrent_runs_per_project = int_value vs ''max_concurrent_runs_per_project''\<rparr>)"

definition paid_plan_limits :: "runtime_policy \<Rightarrow> plan_limits option" where
  "paid_plan_limits p = (let vs = p_values p; b = paid_budget_config p in
     from_envelope \<lparr>e_agent_steps = max_agent_steps b, e_model_calls = max_model_calls_per_run b,
       e_tool_calls = int_value vs ''max_tool_calls'', e_tasks = int_value vs ''max_tasks'', e_replans = int_value vs ''max_replans'',
       e_tool_calls_per_task = int_value vs ''max_tool_calls_per_task'', e_graph_depth = int_value vs ''max_graph_depth'',
       e_recursion_depth = int_value vs ''max_recursion_depth'', e_cost_units = int_value vs ''max_cost_units''\<rparr> default_plan_limits)"

definition or_default :: "'a option \<Rightarrow> 'a \<Rightarrow> 'a" where
  "or_default v d = (case v of None \<Rightarrow> d | Some x \<Rightarrow> x)"

definition paid_provider_limits :: "runtime_policy \<Rightarrow> limits_error + provider_limits" where
  "paid_provider_limits p =
     (let vs = p_values p; d = default_limits; conc = or_default (int_value vs ''provider_max_concurrency'') 0;
          c = \<lparr>max_concurrent = (if conc = 0 then max_concurrent d else conc), rpm_limit = int_value vs ''provider_rpm_limit'',
               tpm_limit = int_value vs ''provider_tpm_limit'',
               max_rate_limit_retries = or_default (int_value vs ''provider_max_rate_limit_retries'') (max_rate_limit_retries d),
               max_backpressure_wait = or_default (float_value vs ''provider_max_backpressure_wait_seconds'') (max_backpressure_wait d),
               backoff_base = or_default (float_value vs ''provider_backoff_base_seconds'') (backoff_base d),
               backoff_max = or_default (float_value vs ''provider_backoff_max_seconds'') (backoff_max d)\<rparr>
      in case assert_within_organization_ceiling c of None \<Rightarrow> Inr c | Some e \<Rightarrow> Inl e)"

definition nonzero_or_reviewed :: "runtime_policy \<Rightarrow> string \<Rightarrow> int" where
  "nonzero_or_reviewed p n = (case value_of (p_values p) n of
       None \<Rightarrow> reviewed_int n | Some v \<Rightarrow> if v = 0 then reviewed_int n else trunc_rat v)"

definition swarm_max_active_workers :: "runtime_policy \<Rightarrow> int" where
  "swarm_max_active_workers p = nonzero_or_reviewed p ''v2_max_active_workers''"

definition v1_technical_parallelism :: "runtime_policy \<Rightarrow> int" where
  "v1_technical_parallelism p = nonzero_or_reviewed p ''v1_technical_parallelism''"

definition max_provider_attempts_per_call :: "runtime_policy \<Rightarrow> int" where
  "max_provider_attempts_per_call p = 1 + nonzero_or_reviewed p ''provider_max_rate_limit_retries''"

section \<open>Serialization\<close>

fun source_text :: "value_source \<Rightarrow> string" where
  "source_text From_deployment = ''deployment''"
| "source_text From_runtime_default = ''runtime_default''"
| "source_text Unbounded = ''unbounded''"
| "source_text From_review = ''reviewed''"
| "source_text Refused = ''refused''"

fun direction_text :: "direction \<Rightarrow> string" where
  "direction_text Lower_is_tighter = ''lower_is_tighter''"
| "direction_text Higher_is_tighter = ''higher_is_tighter''"
| "direction_text Declared_not_bounded = ''declared_not_bounded''"

fun surface_text :: "surface \<Rightarrow> string" where
  "surface_text Budget = ''budget''"
| "surface_text Plan = ''plan_limits''"
| "surface_text Provider = ''provider_limits''"
| "surface_text Engine_parallelism = ''engine''"
| "surface_text Search = ''search''"
| "surface_text Posture = ''posture''"

text \<open>A dimension's entry; none when a value has no wire form.\<close>

definition dimension_entry :: "runtime_policy \<Rightarrow> policy_dimension \<Rightarrow> (string \<times> pydoc) option" where
  "dimension_entry p d =
     (case (format_value d (value_of (p_values p) (d_name d)), format_value d (Some (d_reviewed d))) of
        (Some v, Some r) \<Rightarrow> Some (d_name d, PyDict [
            (''value'', PyStr v), (''reviewed'', PyStr r),
            (''env_key'', case d_env_key d of None \<Rightarrow> PyNone | Some k \<Rightarrow> PyStr k),
            (''source'', PyStr (case map_of (p_sources p) (d_name d) of None \<Rightarrow> [] | Some s \<Rightarrow> source_text s)),
            (''direction'', PyStr (direction_text (d_direction d))), (''mandatory_for_paid'', PyBool (mandatory_for_paid d)),
            (''enforced_by'', PyStr (surface_text (d_enforced_by d)))])
      | _ \<Rightarrow> None)"

definition policy_document :: "runtime_policy \<Rightarrow> pydoc option" where
  "policy_document p =
     (let es = map (dimension_entry p) POLICY_DIMENSIONS in
      if None \<in> set es then None
      else Some (PyDict [
        (''schema_version'', PyStr ''milo-runtime-policy/1''), (''scope'', PyStr ''deployment''), (''paid'', PyBool (p_paid p)),
        (''reviewed_catalog_posture'', PyDict [(''government_read'', PyBool False), (''master'', PyBool False), (''promotion'', PyBool False)]),
        (''dimensions'', PyDict (map the es)),
        (''tightened_by_deployment'', PyList (map PyStr (p_tightened p))),
        (''relaxed_by_unpaid_deployment'', PyList (map PyStr (p_relaxed p)))]))"

definition policy_fingerprint_of :: "(string \<Rightarrow> string) \<Rightarrow> runtime_policy \<Rightarrow> string option" where
  "policy_fingerprint_of sha p = map_option (\<lambda>doc. sha (compact_dumps (\<lambda>x. []) doc)) (policy_document p)"

definition env_expectations :: "runtime_policy \<Rightarrow> (string \<times> string) list option" where
  "env_expectations p =
     (let ds = filter (\<lambda>d. d_env_key d \<noteq> None) POLICY_DIMENSIONS;
          ts = map (\<lambda>d. format_value d (value_of (p_values p) (d_name d))) ds
      in if None \<in> set ts then None else Some (zip (map (\<lambda>d. the (d_env_key d)) ds) (map the ts)))"

end
