(* ===== verification/Execution_Guard.thy ===== *)
theory Execution_Guard
  imports Rate_Limit
begin

text \<open>
  The kill switch in front of the API, \<open>backend/execution_guard.py\<close>, and the mutating routes of
  \<open>backend/main.py\<close> it stands before.  A path pattern is the list of its pieces; matching computes every
  rest a piece can leave, as the regular expressions of the code allow.  A route's path, whose
  parameters match one segment, is a pattern too.
\<close>

section \<open>Path patterns\<close>

datatype piece = Lit string | Segment | One_of "string list" | Optional "string list"

fun after_segment :: "string \<Rightarrow> string list" where
  "after_segment [] = []"
| "after_segment (c # s) = (if c = CHR ''/'' then [] else s # after_segment s)"

definition after_text :: "string \<Rightarrow> string \<Rightarrow> string list" where
  "after_text t s = (if take (length t) s = t then [drop (length t) s] else [])"

fun after_piece :: "piece \<Rightarrow> string \<Rightarrow> string list" where
  "after_piece (Lit t) s = after_text t s"
| "after_piece Segment s = after_segment s"
| "after_piece (One_of ts) s = concat (map (\<lambda>t. after_text t s) ts)"
| "after_piece (Optional ts) s = concat (map (\<lambda>t. after_text t s) ts) @ [s]"

fun after_pieces :: "piece list \<Rightarrow> string \<Rightarrow> string list" where
  "after_pieces [] s = [s]"
| "after_pieces (p # ps) s = concat (map (after_pieces ps) (after_piece p s))"

text \<open>\<open>$\<close> matches at the end and before a final newline.\<close>

definition at_end :: "string \<Rightarrow> bool" where
  "at_end s = (s = [] \<or> s = [CHR 0x0A])"

definition pattern_matches :: "piece list \<Rightarrow> string \<Rightarrow> bool" where
  "pattern_matches ps s = list_ex at_end (after_pieces ps s)"

section \<open>The rules\<close>

record surface_rule =
  rule_method :: string
  rule_flag :: string
  rule_pattern :: "piece list"
  rule_surface :: string

abbreviation slash :: piece where
  "slash \<equiv> Optional [''/'']"

definition SURFACE_RULES :: "surface_rule list" where
  "SURFACE_RULES = map (\<lambda>(m, f, p, s). \<lparr>rule_method = m, rule_flag = f, rule_pattern = p, rule_surface = s\<rparr>) [
     (''POST'', ''MILO_ENABLE_RUN_CREATION'', [Lit ''/conversations/'', Segment, Lit ''/runs'', slash],
       ''conversation run creation''),
     (''POST'', ''MILO_ENABLE_RUN_CREATION'', [Lit ''/workflow-proposals/'', Segment, Lit ''/runs'', slash],
       ''workflow proposal run creation''),
     (''POST'', ''MILO_ENABLE_PROPOSAL_MUTATIONS'', [Lit ''/workflow-proposals'', slash],
       ''workflow proposal creation''),
     (''POST'', ''MILO_ENABLE_PROPOSAL_MUTATIONS'', [Lit ''/workflow-proposals/'', Segment, Lit ''/'', One_of [''approve'', ''reject'', ''revise'', ''project''], slash],
       ''workflow proposal mutation''),
     (''POST'', ''MILO_ENABLE_RUN_CANCELLATION'', [Lit ''/runs/'', Segment, Lit ''/cancel'', slash],
       ''run cancellation''),
     (''POST'', ''MILO_ENABLE_EXECUTION_CONTROL'', [Lit ''/runs/'', Segment, Lit ''/'', One_of [''tool-access-requests'', ''tool-grants'', ''tool-usage'', ''sources'', ''claims'', ''conflicts''], slash],
       ''run execution control''),
     (''POST'', ''MILO_ENABLE_EXECUTION_CONTROL'', [Lit ''/internal/runs/'', Segment, Lit ''/'', One_of [''events'', ''complete'', ''fail''], slash],
       ''worker run mutation''),
     (''GET'', ''MILO_ENABLE_PROPOSAL_READS'', [Lit ''/workflow-proposals/'', Segment, slash],
       ''workflow proposal read''),
     (''POST'', ''MILO_ENABLE_WORK_SCOPE_MUTATIONS'', [Lit ''/conversations/'', Segment, Lit ''/work-scopes'', slash],
       ''work scope creation''),
     (''POST'', ''MILO_ENABLE_WORK_SCOPE_MUTATIONS'', [Lit ''/work-scopes/'', Segment, Lit ''/revisions'', slash],
       ''work scope revision''),
     (''POST'', ''MILO_ENABLE_RUN_CREATION'', [Lit ''/work-scopes/'', Segment, Lit ''/runs'', slash],
       ''work scope batch run creation''),
     (''POST'', ''MILO_ENABLE_WORK_SCOPE_BATCHES'', [Lit ''/work-scopes/'', Segment, Lit ''/runs'', slash],
       ''work scope batch run creation''),
     (''POST'', ''MILO_ENABLE_WORK_SCOPE_BATCHES'', [Lit ''/work-scopes/'', Segment, Lit ''/'', One_of [''pause'', ''resume''], slash],
       ''work scope pause and resume''),
     (''POST'', ''MILO_ENABLE_WORK_SCOPE_PREPARATION_REQUESTS'', [Lit ''/work-scopes/'', Segment, Lit ''/preparations'', slash],
       ''work scope preparation''),
     (''POST'', ''MILO_ENABLE_REGISTER_CAPTURE'', [Lit ''/projects/'', Segment, Lit ''/register/'', One_of [''captures'', ''directory''], slash],
       ''register capture''),
     (''POST'', ''MILO_ENABLE_REGISTER_CAPTURE'', [Lit ''/projects/'', Segment, Lit ''/register/normalisation'', Optional [''/approvals'', ''/rejections''], slash],
       ''manufacturer normalisation''),
     (''POST'', ''MILO_ENABLE_MANUFACTURER_NORMALISATION'', [Lit ''/projects/'', Segment, Lit ''/register/normalisation'', slash],
       ''manufacturer normalisation'')]"

definition is_stage_enabled :: "environment \<Rightarrow> string \<Rightarrow> bool" where
  "is_stage_enabled env flag = (py_lower (py_strip (getenv env flag [])) \<in> {''1'', ''true'', ''yes'', ''on''})"

text \<open>\<open>str.upper\<close> of an ASCII text, as the method of a request is.\<close>

definition ascii_upper :: "string \<Rightarrow> string" where
  "ascii_upper s = map (\<lambda>c. let n = (of_char c :: nat) in if 97 \<le> n \<and> n \<le> 122 then char_of (n - 32) else c) s"

definition find_disabled_surface :: "environment \<Rightarrow> string \<Rightarrow> string \<Rightarrow> (string \<times> string) option" where
  "find_disabled_surface env m path = map_option (\<lambda>r. (rule_flag r, rule_surface r))
     (find (\<lambda>r. ascii_upper m = rule_method r \<and> pattern_matches (rule_pattern r) path \<and> \<not> is_stage_enabled env (rule_flag r))
       SURFACE_RULES)"

text \<open>The middleware: a scope is its type, method and path, each as the server gave it; \<open>app\<close> is everything behind.\<close>

record scope =
  scope_type :: string
  scope_method :: "string option"
  scope_path :: "string option"

datatype 'r guarded_response = Surface_disabled string string | From_app 'r

definition guard_middleware :: "environment \<Rightarrow> (scope \<Rightarrow> 's \<Rightarrow> 'r \<times> 's) \<Rightarrow> scope \<Rightarrow> 's \<Rightarrow> 'r guarded_response \<times> 's" where
  "guard_middleware env app sc s =
     (let disabled = (if scope_type sc = ''http''
            then find_disabled_surface env (case scope_method sc of None \<Rightarrow> [] | Some m \<Rightarrow> m) (case scope_path sc of None \<Rightarrow> [] | Some p \<Rightarrow> p)
            else None)
      in case disabled of
           Some (flag, surface) \<Rightarrow> (Surface_disabled flag surface, s)
         | None \<Rightarrow> (case app sc s of (r, s') \<Rightarrow> (From_app r, s')))"

section \<open>The mutating routes\<close>

datatype caller = Browser_caller | Worker_caller | Scheduler_caller

record route =
  route_method :: string
  route_path :: "piece list"
  route_caller :: caller
  route_flags :: "string list"

text \<open>\<open>require_stage_enabled\<close>, for each flag a handler names.\<close>

definition require_stages :: "environment \<Rightarrow> string list \<Rightarrow> string option" where
  "require_stages env flags = find (\<lambda>f. \<not> is_stage_enabled env f) flags"

definition create_work_scope_route :: route where
  "create_work_scope_route = \<lparr>route_method = ''POST'', route_path = [Lit ''/conversations/'', Segment, Lit ''/work-scopes''],
     route_caller = Browser_caller, route_flags = [''MILO_ENABLE_WORK_SCOPE_MUTATIONS'']\<rparr>"

definition revise_work_scope_route :: route where
  "revise_work_scope_route = \<lparr>route_method = ''POST'', route_path = [Lit ''/work-scopes/'', Segment, Lit ''/revisions''],
     route_caller = Browser_caller, route_flags = [''MILO_ENABLE_WORK_SCOPE_MUTATIONS'']\<rparr>"

definition start_work_scope_batch_route :: route where
  "start_work_scope_batch_route = \<lparr>route_method = ''POST'', route_path = [Lit ''/work-scopes/'', Segment, Lit ''/runs''],
     route_caller = Browser_caller, route_flags = [''MILO_ENABLE_RUN_CREATION'', ''MILO_ENABLE_WORK_SCOPE_BATCHES'']\<rparr>"

definition request_work_scope_preparation_route :: route where
  "request_work_scope_preparation_route = \<lparr>route_method = ''POST'', route_path = [Lit ''/work-scopes/'', Segment, Lit ''/preparations''],
     route_caller = Browser_caller, route_flags = [''MILO_ENABLE_WORK_SCOPE_PREPARATION_REQUESTS'']\<rparr>"

definition request_register_capture_route :: route where
  "request_register_capture_route = \<lparr>route_method = ''POST'', route_path = [Lit ''/projects/'', Segment, Lit ''/register/captures''],
     route_caller = Browser_caller, route_flags = [''MILO_ENABLE_REGISTER_CAPTURE'']\<rparr>"

definition request_register_directory_route :: route where
  "request_register_directory_route = \<lparr>route_method = ''POST'', route_path = [Lit ''/projects/'', Segment, Lit ''/register/directory''],
     route_caller = Browser_caller, route_flags = [''MILO_ENABLE_REGISTER_CAPTURE'']\<rparr>"

definition request_register_sync_route :: route where
  "request_register_sync_route = \<lparr>route_method = ''POST'', route_path = [Lit ''/projects/'', Segment, Lit ''/register/sync''],
     route_caller = Browser_caller, route_flags = [''MILO_ENABLE_REGISTER_CAPTURE'']\<rparr>"

definition set_register_auto_sync_route :: route where
  "set_register_auto_sync_route = \<lparr>route_method = ''POST'', route_path = [Lit ''/projects/'', Segment, Lit ''/register/auto-sync''],
     route_caller = Browser_caller, route_flags = [''MILO_ENABLE_REGISTER_CAPTURE'']\<rparr>"

definition register_sync_tick_route :: route where
  "register_sync_tick_route = \<lparr>route_method = ''POST'', route_path = [Lit ''/internal/register/sync-tick''],
     route_caller = Scheduler_caller, route_flags = []\<rparr>"

definition request_normalisation_route :: route where
  "request_normalisation_route = \<lparr>route_method = ''POST'', route_path = [Lit ''/projects/'', Segment, Lit ''/register/normalisation''],
     route_caller = Browser_caller, route_flags = [''MILO_ENABLE_REGISTER_CAPTURE'', ''MILO_ENABLE_MANUFACTURER_NORMALISATION'']\<rparr>"

definition approve_normalisation_route :: route where
  "approve_normalisation_route = \<lparr>route_method = ''POST'', route_path = [Lit ''/projects/'', Segment, Lit ''/register/normalisation/approvals''],
     route_caller = Browser_caller, route_flags = [''MILO_ENABLE_REGISTER_CAPTURE'']\<rparr>"

definition reject_normalisation_route :: route where
  "reject_normalisation_route = \<lparr>route_method = ''POST'', route_path = [Lit ''/projects/'', Segment, Lit ''/register/normalisation/rejections''],
     route_caller = Browser_caller, route_flags = [''MILO_ENABLE_REGISTER_CAPTURE'']\<rparr>"

definition pause_work_scope_route :: route where
  "pause_work_scope_route = \<lparr>route_method = ''POST'', route_path = [Lit ''/work-scopes/'', Segment, Lit ''/pause''],
     route_caller = Browser_caller, route_flags = [''MILO_ENABLE_WORK_SCOPE_BATCHES'']\<rparr>"

definition resume_work_scope_route :: route where
  "resume_work_scope_route = \<lparr>route_method = ''POST'', route_path = [Lit ''/work-scopes/'', Segment, Lit ''/resume''],
     route_caller = Browser_caller, route_flags = [''MILO_ENABLE_WORK_SCOPE_BATCHES'']\<rparr>"

definition create_conversation_route :: route where
  "create_conversation_route = \<lparr>route_method = ''POST'', route_path = [Lit ''/projects/'', Segment, Lit ''/conversations''],
     route_caller = Browser_caller, route_flags = []\<rparr>"

definition create_run_route :: route where
  "create_run_route = \<lparr>route_method = ''POST'', route_path = [Lit ''/conversations/'', Segment, Lit ''/runs''],
     route_caller = Browser_caller, route_flags = [''MILO_ENABLE_RUN_CREATION'']\<rparr>"

definition cancel_run_route :: route where
  "cancel_run_route = \<lparr>route_method = ''POST'', route_path = [Lit ''/runs/'', Segment, Lit ''/cancel''],
     route_caller = Browser_caller, route_flags = [''MILO_ENABLE_RUN_CANCELLATION'']\<rparr>"

definition create_workflow_proposal_route :: route where
  "create_workflow_proposal_route = \<lparr>route_method = ''POST'', route_path = [Lit ''/workflow-proposals''],
     route_caller = Browser_caller, route_flags = [''MILO_ENABLE_PROPOSAL_MUTATIONS'']\<rparr>"

definition get_workflow_proposal_route :: route where
  "get_workflow_proposal_route = \<lparr>route_method = ''GET'', route_path = [Lit ''/workflow-proposals/'', Segment],
     route_caller = Browser_caller, route_flags = [''MILO_ENABLE_PROPOSAL_READS'']\<rparr>"

definition approve_workflow_proposal_route :: route where
  "approve_workflow_proposal_route = \<lparr>route_method = ''POST'', route_path = [Lit ''/workflow-proposals/'', Segment, Lit ''/approve''],
     route_caller = Browser_caller, route_flags = [''MILO_ENABLE_PROPOSAL_MUTATIONS'']\<rparr>"

definition reject_workflow_proposal_route :: route where
  "reject_workflow_proposal_route = \<lparr>route_method = ''POST'', route_path = [Lit ''/workflow-proposals/'', Segment, Lit ''/reject''],
     route_caller = Browser_caller, route_flags = [''MILO_ENABLE_PROPOSAL_MUTATIONS'']\<rparr>"

definition revise_workflow_proposal_route :: route where
  "revise_workflow_proposal_route = \<lparr>route_method = ''POST'', route_path = [Lit ''/workflow-proposals/'', Segment, Lit ''/revise''],
     route_caller = Browser_caller, route_flags = [''MILO_ENABLE_PROPOSAL_MUTATIONS'']\<rparr>"

definition create_project_from_proposal_route :: route where
  "create_project_from_proposal_route = \<lparr>route_method = ''POST'', route_path = [Lit ''/workflow-proposals/'', Segment, Lit ''/project''],
     route_caller = Browser_caller, route_flags = [''MILO_ENABLE_PROPOSAL_MUTATIONS'']\<rparr>"

definition start_approved_proposal_run_route :: route where
  "start_approved_proposal_run_route = \<lparr>route_method = ''POST'', route_path = [Lit ''/workflow-proposals/'', Segment, Lit ''/runs''],
     route_caller = Browser_caller, route_flags = [''MILO_ENABLE_RUN_CREATION'']\<rparr>"

definition create_tool_access_request_route :: route where
  "create_tool_access_request_route = \<lparr>route_method = ''POST'', route_path = [Lit ''/runs/'', Segment, Lit ''/tool-access-requests''],
     route_caller = Worker_caller, route_flags = [''MILO_ENABLE_EXECUTION_CONTROL'']\<rparr>"

definition create_tool_grant_route :: route where
  "create_tool_grant_route = \<lparr>route_method = ''POST'', route_path = [Lit ''/runs/'', Segment, Lit ''/tool-grants''],
     route_caller = Worker_caller, route_flags = [''MILO_ENABLE_EXECUTION_CONTROL'']\<rparr>"

definition create_tool_usage_route :: route where
  "create_tool_usage_route = \<lparr>route_method = ''POST'', route_path = [Lit ''/runs/'', Segment, Lit ''/tool-usage''],
     route_caller = Worker_caller, route_flags = [''MILO_ENABLE_EXECUTION_CONTROL'']\<rparr>"

definition create_source_route :: route where
  "create_source_route = \<lparr>route_method = ''POST'', route_path = [Lit ''/runs/'', Segment, Lit ''/sources''],
     route_caller = Worker_caller, route_flags = [''MILO_ENABLE_EXECUTION_CONTROL'']\<rparr>"

definition create_claim_route :: route where
  "create_claim_route = \<lparr>route_method = ''POST'', route_path = [Lit ''/runs/'', Segment, Lit ''/claims''],
     route_caller = Worker_caller, route_flags = [''MILO_ENABLE_EXECUTION_CONTROL'']\<rparr>"

definition create_conflict_route :: route where
  "create_conflict_route = \<lparr>route_method = ''POST'', route_path = [Lit ''/runs/'', Segment, Lit ''/conflicts''],
     route_caller = Worker_caller, route_flags = [''MILO_ENABLE_EXECUTION_CONTROL'']\<rparr>"

definition create_worker_run_event_route :: route where
  "create_worker_run_event_route = \<lparr>route_method = ''POST'', route_path = [Lit ''/internal/runs/'', Segment, Lit ''/events''],
     route_caller = Worker_caller, route_flags = [''MILO_ENABLE_EXECUTION_CONTROL'']\<rparr>"

definition complete_run_from_worker_route :: route where
  "complete_run_from_worker_route = \<lparr>route_method = ''POST'', route_path = [Lit ''/internal/runs/'', Segment, Lit ''/complete''],
     route_caller = Worker_caller, route_flags = [''MILO_ENABLE_EXECUTION_CONTROL'']\<rparr>"

definition fail_run_from_worker_route :: route where
  "fail_run_from_worker_route = \<lparr>route_method = ''POST'', route_path = [Lit ''/internal/runs/'', Segment, Lit ''/fail''],
     route_caller = Worker_caller, route_flags = [''MILO_ENABLE_EXECUTION_CONTROL'']\<rparr>"

definition MUTATING_ROUTES :: "route list" where
  "MUTATING_ROUTES = [
     create_work_scope_route, revise_work_scope_route, start_work_scope_batch_route, request_work_scope_preparation_route,
     request_register_capture_route, request_register_directory_route, request_register_sync_route, set_register_auto_sync_route,
     register_sync_tick_route, request_normalisation_route, approve_normalisation_route, reject_normalisation_route,
     pause_work_scope_route, resume_work_scope_route, create_conversation_route, create_run_route,
     cancel_run_route, create_workflow_proposal_route, get_workflow_proposal_route, approve_workflow_proposal_route,
     reject_workflow_proposal_route, revise_workflow_proposal_route, create_project_from_proposal_route, start_approved_proposal_run_route,
     create_tool_access_request_route, create_tool_grant_route, create_tool_usage_route, create_source_route,
     create_claim_route, create_conflict_route, create_worker_run_event_route, complete_run_from_worker_route,
     fail_run_from_worker_route]"

end
