(* ===== verification/Api_Access.thy ===== *)
theory Api_Access
  imports Execution_Guard Python_Documents
begin

text \<open>
  Who may call the API: the verification of worker, gateway and scheduler tokens
  (\<open>backend/worker_auth.py\<close>, \<open>backend/gateway_auth.py\<close>, \<open>backend/scheduler_auth.py\<close>), the browser identity
  behind the gateway (\<open>backend/auth.py\<close>), and a request on its way to a handler of \<open>backend/main.py\<close>.
  Google's verifier is a parameter: the claims of a token for an audience, or nothing when it raises.
\<close>

section \<open>Claims and allowlists\<close>

datatype api_error =
    Worker_auth_not_configured | Worker_auth_required | Worker_auth_invalid | Worker_identity_not_approved
  | Gateway_auth_not_configured | Gateway_auth_required | Gateway_auth_invalid | Gateway_identity_not_approved
  | Insecure_dev_identity_forbidden | Scheduler_auth_not_configured | Scheduler_auth_invalid
  | Authentication_required | Execution_surface_disabled string | Limited limit_error | Request_invalid | No_route

fun status_code :: "api_error \<Rightarrow> int" where
  "status_code (Execution_surface_disabled f) = 403"
| "status_code Worker_identity_not_approved = 403"
| "status_code Gateway_identity_not_approved = 403"
| "status_code Worker_auth_not_configured = 503"
| "status_code Gateway_auth_not_configured = 503"
| "status_code Scheduler_auth_not_configured = 503"
| "status_code Insecure_dev_identity_forbidden = 503"
| "status_code (Limited Rate_limiter_unavailable) = 503"
| "status_code (Limited (Rate_limit_exceeded n)) = 429"
| "status_code Request_invalid = 422"
| "status_code No_route = 404"
| "status_code e = 401"

type_synonym verifier = "string \<Rightarrow> string \<Rightarrow> pydict option"

definition GOOGLE_ISSUERS :: "string list" where
  "GOOGLE_ISSUERS = [''accounts.google.com'', ''https://accounts.google.com'']"

text \<open>\<open>str(v)\<close>; of a float or a container it is \<open>show\<close>.\<close>

definition doc_text :: "(pydoc \<Rightarrow> string) \<Rightarrow> pydoc \<Rightarrow> string" where
  "doc_text show v = (case v of
       PyStr s \<Rightarrow> s | PyNone \<Rightarrow> ''None'' | PyBool b \<Rightarrow> if b then ''True'' else ''False'' | PyInt n \<Rightarrow> signed_decimal n | _ \<Rightarrow> show v)"

definition claim_text :: "(pydoc \<Rightarrow> string) \<Rightarrow> pydict \<Rightarrow> string \<Rightarrow> string" where
  "claim_text show claims k = (case map_of claims k of None \<Rightarrow> [] | Some v \<Rightarrow> doc_text show v)"

definition env_stripped :: "environment \<Rightarrow> string \<Rightarrow> string" where
  "env_stripped env k = py_strip (getenv env k [])"

definition allowlist :: "string \<Rightarrow> string list" where
  "allowlist raw = map (\<lambda>i. py_lower (py_strip i)) (filter (\<lambda>i. py_strip i \<noteq> []) (py_split (CHR '','') raw))"

definition approved_identities :: "environment \<Rightarrow> string list" where
  "approved_identities env = allowlist (getenv env ''MILO_APPROVED_WORKER_IDENTITIES'' [])"

definition approved_gateway_identities :: "environment \<Rightarrow> string list" where
  "approved_gateway_identities env = allowlist (getenv env ''MILO_APPROVED_GATEWAY_IDENTITIES'' [])"

record service_identity =
  service_account_email :: string
  identity_audience :: string
  identity_issuer :: string

section \<open>The three verifications\<close>

definition claims_email :: "(pydoc \<Rightarrow> string) \<Rightarrow> pydict \<Rightarrow> string" where
  "claims_email show claims = py_lower (py_strip (claim_text show claims ''email''))"

definition email_verified :: "pydict \<Rightarrow> bool" where
  "email_verified claims = (dict_get claims ''email_verified'' = PyBool True)"

definition verify_worker_token ::
  "environment \<Rightarrow> (pydoc \<Rightarrow> string) \<Rightarrow> verifier \<Rightarrow> string option \<Rightarrow> api_error + service_identity" where
  "verify_worker_token env show verify token =
     (let aud = env_stripped env ''MILO_WORKER_AUDIENCE''; approved = approved_identities env
      in if aud = [] \<or> approved = [] then Inl Worker_auth_not_configured
         else (case token of
           None \<Rightarrow> Inl Worker_auth_required
         | Some tok \<Rightarrow>
             if tok = [] then Inl Worker_auth_required
             else (case verify tok aud of
               None \<Rightarrow> Inl Worker_auth_invalid
             | Some claims \<Rightarrow>
                 let iss = claim_text show claims ''iss''; email = claims_email show claims
                 in if iss \<notin> set GOOGLE_ISSUERS then Inl Worker_auth_invalid
                    else if claim_text show claims ''aud'' \<noteq> aud then Inl Worker_auth_invalid
                    else if email = [] \<or> \<not> email_verified claims then Inl Worker_auth_invalid
                    else if email \<notin> set approved then Inl Worker_identity_not_approved
                    else Inr \<lparr>service_account_email = email, identity_audience = aud, identity_issuer = iss\<rparr>)))"

definition insecure_dev_identity_allowed :: "environment \<Rightarrow> bool" where
  "insecure_dev_identity_allowed env =
     (py_lower (env_stripped env ''MILO_ALLOW_INSECURE_DEV_IDENTITY'') \<in> {''1'', ''true'', ''yes'', ''on''})"

definition verify_gateway_token ::
  "environment \<Rightarrow> (pydoc \<Rightarrow> string) \<Rightarrow> verifier \<Rightarrow> string option \<Rightarrow> api_error + service_identity option" where
  "verify_gateway_token env show verify token =
     (let aud = env_stripped env ''MILO_GATEWAY_AUDIENCE''; approved = approved_gateway_identities env
      in if aud = [] \<and> approved = [] then
           (if insecure_dev_identity_allowed env
            then (if is_production env then Inl Insecure_dev_identity_forbidden else Inr None)
            else Inl Gateway_auth_not_configured)
         else if aud = [] \<or> approved = [] then Inl Gateway_auth_not_configured
         else (case token of
           None \<Rightarrow> Inl Gateway_auth_required
         | Some tok \<Rightarrow>
             if tok = [] then Inl Gateway_auth_required
             else (case verify tok aud of
               None \<Rightarrow> Inl Gateway_auth_invalid
             | Some claims \<Rightarrow>
                 let iss = claim_text show claims ''iss''; email = claims_email show claims
                 in if iss \<notin> set GOOGLE_ISSUERS then Inl Gateway_auth_invalid
                    else if claim_text show claims ''aud'' \<noteq> aud then Inl Gateway_auth_invalid
                    else if email = [] \<or> \<not> email_verified claims then Inl Gateway_auth_invalid
                    else if email \<notin> set approved then Inl Gateway_identity_not_approved
                    else Inr (Some \<lparr>service_account_email = email, identity_audience = aud, identity_issuer = iss\<rparr>))))"

text \<open>\<open>partition\<close> at the first blank.\<close>

definition partition_space :: "string \<Rightarrow> string \<times> string" where
  "partition_space s = (takeWhile (\<lambda>c. c \<noteq> CHR '' '') s, tl (dropWhile (\<lambda>c. c \<noteq> CHR '' '') s))"

definition verify_scheduler_token ::
  "environment \<Rightarrow> (pydoc \<Rightarrow> string) \<Rightarrow> verifier \<Rightarrow> string option \<Rightarrow> api_error + string" where
  "verify_scheduler_token env show verify authorization =
     (let aud = env_stripped env ''MILO_GATEWAY_AUDIENCE'';
          identity = py_lower (env_stripped env ''MILO_REGISTER_SCHEDULER_IDENTITY'')
      in if aud = [] \<or> identity = [] \<or> identity \<in> set (approved_gateway_identities env) \<or> identity \<in> set (approved_identities env)
         then Inl Scheduler_auth_not_configured
         else (let (scheme, token) = partition_space (case authorization of None \<Rightarrow> [] | Some a \<Rightarrow> a) in
           if py_lower scheme \<noteq> ''bearer'' \<or> py_strip token = [] then Inl Scheduler_auth_invalid
           else (case verify (py_strip token) aud of
             None \<Rightarrow> Inl Scheduler_auth_invalid
           | Some claims \<Rightarrow>
               if claim_text show claims ''iss'' \<notin> set GOOGLE_ISSUERS \<or> claim_text show claims ''aud'' \<noteq> aud
               then Inl Scheduler_auth_invalid
               else if \<not> email_verified claims \<or> claims_email show claims \<noteq> identity then Inl Scheduler_auth_invalid
               else Inr (claims_email show claims))))"

section \<open>The browser's identity\<close>

text \<open>\<open>UUID(text)\<close>: the prefixes, braces and dashes go, and 32 characters must read as a hexadecimal number, which may
  have a prefix of its own, a sign, blanks around it and single underscores between its digits.\<close>

fun remove_text :: "string \<Rightarrow> string \<Rightarrow> nat \<Rightarrow> string" where
  "remove_text t [] k = []"
| "remove_text t (c # s) (Suc k) = remove_text t s k"
| "remove_text t (c # s) 0 = (if t \<noteq> [] \<and> take (length t) (c # s) = t then remove_text t s (length t - 1) else c # remove_text t s 0)"

definition strip_braces :: "string \<Rightarrow> string" where
  "strip_braces s = (let brace = (\<lambda>c. c = CHR ''{'' \<or> c = CHR ''}'') in rev (dropWhile brace (rev (dropWhile brace s))))"

definition hex_digit_value :: "char \<Rightarrow> nat option" where
  "hex_digit_value c = (let n = (of_char c :: nat) in
     if 48 \<le> n \<and> n \<le> 57 then Some (n - 48) else if 97 \<le> n \<and> n \<le> 102 then Some (n - 87)
     else if 65 \<le> n \<and> n \<le> 70 then Some (n - 55) else None)"

fun hex_digits :: "bool \<Rightarrow> nat \<Rightarrow> string \<Rightarrow> nat option" where
  "hex_digits after_digit acc [] = (if after_digit then Some acc else None)"
| "hex_digits after_digit acc (c # cs) =
     (if c = CHR ''_'' then (if after_digit \<and> cs \<noteq> [] then hex_digits False acc cs else None)
      else (case hex_digit_value c of None \<Rightarrow> None | Some d \<Rightarrow> hex_digits True (16 * acc + d) cs))"

definition hex_magnitude :: "string \<Rightarrow> nat option" where
  "hex_magnitude s =
     (if take 2 s \<in> {''0x'', ''0X''}
      then hex_digits False 0 (if take 1 (drop 2 s) = ''_'' then drop 3 s else drop 2 s)
      else hex_digits False 0 s)"

definition hex_int :: "string \<Rightarrow> int option" where
  "hex_int s = (case py_strip s of
       [] \<Rightarrow> None
     | c # cs \<Rightarrow>
         if c = CHR ''-'' then map_option (\<lambda>n. - int n) (hex_magnitude cs)
         else if c = CHR ''+'' then map_option int (hex_magnitude cs)
         else map_option int (hex_magnitude (c # cs)))"

definition parse_uuid :: "string \<Rightarrow> int option" where
  "parse_uuid s =
     (let h = filter (\<lambda>c. c \<noteq> CHR ''-'') (strip_braces (remove_text ''uuid:'' (remove_text ''urn:'' s 0) 0))
      in if length h \<noteq> 32 then None
         else (case hex_int h of None \<Rightarrow> None | Some n \<Rightarrow> if 0 \<le> n then Some n else None))"

record authenticated_user =
  user_id :: int
  user_email :: "string option"
  user_gateway :: "service_identity option"

definition authenticated_user_of ::
  "string option \<Rightarrow> string option \<Rightarrow> service_identity option \<Rightarrow> api_error + authenticated_user" where
  "authenticated_user_of id_header email_header gateway =
     (case id_header of
        None \<Rightarrow> Inl Authentication_required
      | Some h \<Rightarrow>
          if h = [] then Inl Authentication_required
          else (case parse_uuid h of
            None \<Rightarrow> Inl Authentication_required
          | Some u \<Rightarrow> Inr \<lparr>user_id = u, user_email = email_header, user_gateway = gateway\<rparr>))"

section \<open>A request on its way to a handler\<close>

datatype body = Unreadable | Wrong_shape | Accepted

record request =
  gateway_header :: "string option"
  worker_header :: "string option"
  authorization_header :: "string option"
  user_id_header :: "string option"
  user_email_header :: "string option"
  request_body :: body

datatype principal = Browser_user authenticated_user | Worker_service service_identity | Scheduler_service string

text \<open>What surrounds a request: the environment, the two verifiers, the digest, the size of the in-process limiter, both
  clocks and the reply of the shared store.\<close>

record surroundings =
  s_env :: environment
  s_show :: "pydoc \<Rightarrow> string"
  s_worker_verifier :: verifier
  s_gateway_verifier :: verifier
  s_sha :: "string \<Rightarrow> string"
  s_buckets :: nat
  s_clock :: rat
  s_store_clock :: int
  s_reply :: store_reply

definition get_verified_worker :: "surroundings \<Rightarrow> string option \<Rightarrow> limiters \<Rightarrow> (api_error + service_identity) \<times> limiters" where
  "get_verified_worker w token l =
     (case verify_worker_token (s_env w) (s_show w) (s_worker_verifier w) token of
        Inl e \<Rightarrow> (Inl e, l)
      | Inr identity \<Rightarrow>
          (case enforce_rate_limit (s_env w) (s_sha w) (s_buckets w) (s_clock w) (s_store_clock w) (s_reply w)
                  Worker_mutations (service_account_email identity) l of
             (Some e, l') \<Rightarrow> (Inl (Limited e), l')
           | (None, l') \<Rightarrow> (Inr identity, l')))"

definition get_authenticated_user :: "surroundings \<Rightarrow> request \<Rightarrow> api_error + authenticated_user" where
  "get_authenticated_user w q =
     res_bind (verify_gateway_token (s_env w) (s_show w) (s_gateway_verifier w) (gateway_header q))
       (authenticated_user_of (user_id_header q) (user_email_header q))"

definition authenticate :: "surroundings \<Rightarrow> caller \<Rightarrow> request \<Rightarrow> limiters \<Rightarrow> (api_error + principal) \<times> limiters" where
  "authenticate w c q l = (case c of
       Browser_caller \<Rightarrow> (map_sum id Browser_user (get_authenticated_user w q), l)
     | Worker_caller \<Rightarrow> (case get_verified_worker w (worker_header q) l of (r, l') \<Rightarrow> (map_sum id Worker_service r, l'))
     | Scheduler_caller \<Rightarrow>
         (map_sum id Scheduler_service
           (verify_scheduler_token (s_env w) (s_show w) (s_gateway_verifier w) (authorization_header q)), l))"

text \<open>A body that cannot be read is refused before the caller is known, one of the wrong shape after; the flags are the
  handler's own check.\<close>

definition admit :: "surroundings \<Rightarrow> route \<Rightarrow> request \<Rightarrow> limiters \<Rightarrow> (api_error + principal) \<times> limiters" where
  "admit w rt q l =
     (if request_body q = Unreadable then (Inl Request_invalid, l)
      else (case authenticate w (route_caller rt) q l of
        (Inl e, l') \<Rightarrow> (Inl e, l')
      | (Inr who, l') \<Rightarrow>
          if request_body q = Wrong_shape then (Inl Request_invalid, l')
          else (case require_stages (s_env w) (route_flags rt) of
                  Some f \<Rightarrow> (Inl (Execution_surface_disabled f), l')
                | None \<Rightarrow> (Inr who, l'))))"

definition api_app :: "surroundings \<Rightarrow> request \<Rightarrow> scope \<Rightarrow> limiters \<Rightarrow> (api_error + (route \<times> principal)) \<times> limiters" where
  "api_app w q sc l =
     (case find (\<lambda>rt. scope_method sc = Some (route_method rt) \<and>
          (case scope_path sc of None \<Rightarrow> False | Some p \<Rightarrow> pattern_matches (route_path rt) p)) MUTATING_ROUTES of
        None \<Rightarrow> (Inl No_route, l)
      | Some rt \<Rightarrow> (case admit w rt q l of (r, l') \<Rightarrow> (map_sum id (Pair rt) r, l')))"

definition serve :: "surroundings \<Rightarrow> scope \<Rightarrow> request \<Rightarrow> limiters \<Rightarrow>
    (api_error + (route \<times> principal)) guarded_response \<times> limiters" where
  "serve w sc q l = guard_middleware (s_env w) (api_app w q) sc l"

end
