(* ===== verification/Run_Identity.thy ===== *)
theory Run_Identity
  imports Runtime_Policy Api_Access
begin

text \<open>
  The event vocabulary (\<open>backend/event_registry.py\<close>) and the immutable identity of a run
  (\<open>backend/run_identity.py\<close>): binding, the fail-closed reader of a durable record, the execution gate and
  the refusal of a rewrite.  \<open>sha\<close> is the hexadecimal SHA-256 digest; \<open>show\<close> is \<open>str\<close> of a float or a container.
\<close>

section \<open>The event vocabulary\<close>

definition REGISTRY_VERSION :: string where "REGISTRY_VERSION = ''milo-event-registry/1''"

definition V1_EVENT_TYPES :: "string list" where
  "V1_EVENT_TYPES = [
     ''run_created'', ''run_started'', ''run_resumed'', ''phase_started'', ''phase_completed'', ''agent_created'',
     ''agent_started'', ''agent_progress'', ''agent_completed'', ''agent_failed'', ''chunk_started'', ''chunk_completed'',
     ''chunk_failed'', ''fallback_started'', ''fallback_completed'', ''checkpoint_saved'', ''cancellation_requested'',
     ''run_completed'', ''run_partial_success'', ''run_failed'', ''run_cancelled'', ''tool_access_requested'',
     ''tool_access_granted'', ''tool_access_denied'', ''tool_used'', ''source_recorded'', ''claim_recorded'',
     ''conflict_detected'', ''launch_requested'', ''launch_failed'', ''run_requeued'', ''budget_warning'',
     ''budget_exhausted'', ''token_limit_reached'', ''run_timed_out'', ''retry_limit_reached'', ''kill_switch_activated'',
     ''supervisor_shadow_failed'']"

definition RUN_LEVEL_EVENT_TYPES :: "string list" where
  "RUN_LEVEL_EVENT_TYPES = [
     ''run_created'', ''run_started'', ''run_resumed'', ''run_completed'', ''run_partial_success'', ''run_failed'',
     ''run_cancelled'', ''run_requeued'', ''run_timed_out'', ''cancellation_requested'', ''launch_requested'',
     ''launch_failed'', ''budget_warning'', ''budget_exhausted'', ''token_limit_reached'', ''kill_switch_activated'',
     ''supervisor_shadow_failed'', ''checkpoint_saved'']"

definition SWARM_V2_EVENT_TYPES :: "string list" where
  "SWARM_V2_EVENT_TYPES = [
     ''run_created'', ''run_started'', ''run_resumed'', ''run_completed'', ''run_partial_success'', ''run_failed'',
     ''run_cancelled'', ''run_timed_out'', ''cancellation_requested'', ''budget_warning'', ''budget_exhausted'',
     ''token_limit_reached'', ''checkpoint_saved'', ''commander_plan_created'', ''commander_replanned'', ''task_ready'',
     ''task_started'', ''task_completed'', ''task_failed'', ''tool_called'', ''worker_output_repair_started'',
     ''evidence_added'', ''conflict_found'', ''grounding_context_resolved'', ''verification_batch_completed'',
     ''verification_completed'', ''conflict_resolution_recorded'', ''correction_round_started'',
     ''correction_round_blocked'', ''correction_round_declined'', ''correction_round_finalizing'']"

definition CATALOG_EVENT_TYPES :: "string list" where
  "CATALOG_EVENT_TYPES = [
     ''catalog_variant_promoted'', ''catalog_promotion_refused'']"

definition OPERATIONAL_EVENT_TYPES :: "string list" where
  "OPERATIONAL_EVENT_TYPES = [
     ''retry_limit_checked'', ''provider_backpressure_wait'', ''provider_rate_limited'', ''provider_limiter_drift'',
     ''provider_quota_paused'', ''provider_lease_quarantined'', ''provider_lease_operator_reclaimed'',
     ''provider_lease_ownership_lost'', ''model_output_cap_missing'', ''model_usage_diagnostic'',
     ''catalog_snapshot_adopted'']"

definition CAPTURE_PROGRESS_EVENT_TYPES :: "string list" where
  "CAPTURE_PROGRESS_EVENT_TYPES = [
     ''catalog_refresh_unchanged'', ''catalog_refresh_completed'', ''catalog_snapshot_replayed'',
     ''catalog_records_written'', ''catalog_candidates_skipped'', ''catalog_candidates_written'',
     ''catalog_snapshot_activated'']"

definition EVENT_TYPES :: "string list" where
  "EVENT_TYPES = remdups (V1_EVENT_TYPES @ SWARM_V2_EVENT_TYPES @ CATALOG_EVENT_TYPES @ OPERATIONAL_EVENT_TYPES)"

definition is_known_event_type :: "pydoc \<Rightarrow> bool" where
  "is_known_event_type v = text_in v EVENT_TYPES"

definition require_known_event_type :: "pydoc \<Rightarrow> string option" where
  "require_known_event_type v = (case v of PyStr s \<Rightarrow> if is_known_event_type v then Some s else None | _ \<Rightarrow> None)"

definition owns_v1_projection :: "string \<Rightarrow> bool" where
  "owns_v1_projection e = (e \<in> set V1_EVENT_TYPES)"

definition owns_agent_projection :: "string \<Rightarrow> bool" where
  "owns_agent_projection e = (e \<in> set V1_EVENT_TYPES \<and> e \<notin> set RUN_LEVEL_EVENT_TYPES)"

definition owns_catalog_projection :: "string \<Rightarrow> bool" where
  "owns_catalog_projection e = (e \<in> set CATALOG_EVENT_TYPES)"

definition owns_swarm_projection :: "string \<Rightarrow> bool" where
  "owns_swarm_projection e = (e \<in> set SWARM_V2_EVENT_TYPES)"

definition event_groups :: "(string \<times> string list) list" where
  "event_groups = [(''v1'', V1_EVENT_TYPES), (''swarm_v2'', SWARM_V2_EVENT_TYPES), (''catalog'', CATALOG_EVENT_TYPES),
     (''operational'', OPERATIONAL_EVENT_TYPES), (''run_level'', RUN_LEVEL_EVENT_TYPES), (''capture_progress'', CAPTURE_PROGRESS_EVENT_TYPES)]"

definition manifest_core :: pydoc where
  "manifest_core = PyDict [(''registry_version'', PyStr REGISTRY_VERSION),
     (''groups'', PyDict (map (\<lambda>(n, es). (n, PyList (map PyStr (sort es)))) event_groups)),
     (''accepted'', PyList (map PyStr (sort EVENT_TYPES)))]"

definition event_registry_fingerprint :: "(string \<Rightarrow> string) \<Rightarrow> string" where
  "event_registry_fingerprint sha = sha (compact_dumps (\<lambda>x. []) manifest_core)"

section \<open>The identity\<close>

definition IDENTITY_VERSION :: string where "IDENTITY_VERSION = ''milo-run-identity/1''"

definition POLICY_SCHEMA_VERSION :: string where "POLICY_SCHEMA_VERSION = ''milo-runtime-policy/1''"

definition ENGINE_VERSIONS :: "(string \<times> string) list" where
  "ENGINE_VERSIONS = [(''vehicle_catalog_v1'', ''vehicle_catalog_v1.stage3''), (''swarm_v2'', ''swarm_v2.1''),
     (''operator_capture'', ''operator_capture.1'')]"

definition PRODUCT_WORKFLOW_KEYS :: "string list" where
  "PRODUCT_WORKFLOW_KEYS = [''vehicle_catalog_v1'', ''swarm_v2'']"

definition SUPPORTED_ENGINE_VERSIONS :: "(string \<times> string list) list" where
  "SUPPORTED_ENGINE_VERSIONS = [(''vehicle_catalog_v1'', [''vehicle_catalog_v1.stage3'']), (''swarm_v2'', [''swarm_v2.1'']),
     (''operator_capture'', [''operator_capture.1''])]"

datatype identity_error =
    Identity_workflow_missing | Identity_workflow_unknown | Identity_run_invalid | Identity_absent | Identity_malformed
  | Identity_version_unknown | Identity_incomplete | Identity_policy_fingerprint_invalid | Identity_registry_fingerprint_invalid
  | Identity_release_invalid | Identity_engine_unknown | Identity_run_mismatch

record run_identity =
  identity_run_id :: string
  workflow_key :: string
  engine_version :: string
  policy_version :: string
  policy_fingerprint :: string
  release :: string
  registry_version :: string
  registry_fingerprint :: string
  identity_version :: string

definition reviewed_policy_fingerprint :: "(string \<Rightarrow> string) \<Rightarrow> string" where
  "reviewed_policy_fingerprint sha =
     (case policy_fingerprint_of sha reviewed_first_run_policy of None \<Rightarrow> [] | Some f \<Rightarrow> f)"

definition hex_text :: "string \<Rightarrow> bool" where
  "hex_text s = list_all (\<lambda>c. c \<in> set ''0123456789abcdef'') s"

definition release_sha :: "(string \<Rightarrow> string option) \<Rightarrow> string" where
  "release_sha env = (let v = py_lower (env_raw env ''MILO_RELEASE_SHA'') in if length v \<noteq> 40 \<or> \<not> hex_text v then [] else v)"

definition engine_version_for :: "string \<Rightarrow> identity_error + string" where
  "engine_version_for k = (case map_of ENGINE_VERSIONS k of None \<Rightarrow> Inl Identity_workflow_unknown | Some v \<Rightarrow> Inr v)"

text \<open>\<open>str\<close> of a UUID: 32 digits in groups of 8, 4, 4, 4 and 12.\<close>

definition hex_char :: "nat \<Rightarrow> char" where
  "hex_char d = char_of (if d < 10 then 48 + d else 87 + d)"

fun hex_fixed :: "nat \<Rightarrow> nat \<Rightarrow> string" where
  "hex_fixed 0 m = []"
| "hex_fixed (Suc n) m = hex_fixed n (m div 16) @ [hex_char (m mod 16)]"

definition uuid_text :: "int \<Rightarrow> string" where
  "uuid_text n = (let h = hex_fixed 32 (nat n) in
     take 8 h @ ''-'' @ take 4 (drop 8 h) @ ''-'' @ take 4 (drop 12 h) @ ''-'' @ take 4 (drop 16 h) @ ''-'' @ drop 20 h)"

definition run_id_text :: "string \<Rightarrow> identity_error + string" where
  "run_id_text s = (case parse_uuid s of None \<Rightarrow> Inl Identity_run_invalid | Some n \<Rightarrow> Inr (uuid_text n))"

text \<open>\<open>RunIdentity.bind\<close>, for the text of the run's id.\<close>

definition bind_identity :: "(string \<Rightarrow> string) \<Rightarrow> (string \<Rightarrow> string option) \<Rightarrow> string \<Rightarrow> string \<Rightarrow> identity_error + run_identity" where
  "bind_identity sha env run_id workflow =
     (let key = py_strip workflow in
      if key = [] then Inl Identity_workflow_missing
      else res_bind (run_id_text run_id) (\<lambda>rid.
           res_bind (engine_version_for key) (\<lambda>v.
             Inr \<lparr>identity_run_id = rid, workflow_key = key, engine_version = v, policy_version = POLICY_SCHEMA_VERSION,
                  policy_fingerprint = reviewed_policy_fingerprint sha, release = release_sha env,
                  registry_version = REGISTRY_VERSION, registry_fingerprint = event_registry_fingerprint sha,
                  identity_version = IDENTITY_VERSION\<rparr>)))"

section \<open>The durable record\<close>

definition as_identity_record :: "run_identity \<Rightarrow> pydict" where
  "as_identity_record i = [(''identity_version'', PyStr (identity_version i)), (''run_id'', PyStr (identity_run_id i)),
     (''workflow_key'', PyStr (workflow_key i)), (''engine_version'', PyStr (engine_version i)),
     (''policy_version'', PyStr (policy_version i)), (''policy_fingerprint'', PyStr (policy_fingerprint i)),
     (''release_sha'', PyStr (release i)), (''event_registry_version'', PyStr (registry_version i)),
     (''event_registry_fingerprint'', PyStr (registry_fingerprint i))]"

definition required_text :: "pydict \<Rightarrow> string \<Rightarrow> string option" where
  "required_text r k = (case dict_get r k of PyStr s \<Rightarrow> if py_strip s = [] then None else Some (py_strip s) | _ \<Rightarrow> None)"

definition release_text :: "(pydoc \<Rightarrow> string) \<Rightarrow> pydict \<Rightarrow> string" where
  "release_text show r = (if truth (dict_get r ''release_sha'') then doc_text show (dict_get r ''release_sha'') else [])"

definition read_fields :: "(pydoc \<Rightarrow> string) \<Rightarrow> pydict \<Rightarrow> run_identity option" where
  "read_fields show r =
     (case (required_text r ''identity_version'', required_text r ''run_id'', required_text r ''workflow_key'',
            required_text r ''engine_version'', required_text r ''policy_version'', required_text r ''policy_fingerprint'',
            required_text r ''event_registry_version'', required_text r ''event_registry_fingerprint'') of
        (Some a, Some b, Some c, Some d, Some e, Some f, Some g, Some h) \<Rightarrow>
          Some \<lparr>identity_run_id = b, workflow_key = c, engine_version = d, policy_version = e, policy_fingerprint = f,
                release = release_text show r, registry_version = g, registry_fingerprint = h, identity_version = a\<rparr>
      | _ \<Rightarrow> None)"

definition identity_from_record :: "(pydoc \<Rightarrow> string) \<Rightarrow> pydoc \<Rightarrow> pydoc \<Rightarrow> identity_error + run_identity" where
  "identity_from_record show rec run_id =
     (case rec of
        PyNone \<Rightarrow> Inl Identity_absent
      | PyDict r \<Rightarrow>
          if dict_get r ''identity_version'' \<noteq> PyStr IDENTITY_VERSION then Inl Identity_version_unknown
          else (case read_fields show r of
            None \<Rightarrow> Inl Identity_incomplete
          | Some i \<Rightarrow>
              if length (policy_fingerprint i) \<noteq> 64 \<or> \<not> hex_text (py_lower (policy_fingerprint i)) then Inl Identity_policy_fingerprint_invalid
              else if length (registry_fingerprint i) \<noteq> 64 \<or> \<not> hex_text (py_lower (registry_fingerprint i)) then Inl Identity_registry_fingerprint_invalid
              else if release i \<noteq> [] \<and> (length (release i) \<noteq> 40 \<or> \<not> hex_text (py_lower (release i))) then Inl Identity_release_invalid
              else (case map_of SUPPORTED_ENGINE_VERSIONS (workflow_key i) of
                None \<Rightarrow> Inl Identity_workflow_unknown
              | Some vs \<Rightarrow>
                  if engine_version i \<notin> set vs then Inl Identity_engine_unknown
                  else if run_id = PyNone then Inr i
                  else (case run_id_text (doc_text show run_id) of
                    Inl e \<Rightarrow> Inl e
                  | Inr rid \<Rightarrow> if identity_run_id i \<noteq> rid then Inl Identity_run_mismatch else Inr i)))
      | _ \<Rightarrow> Inl Identity_malformed)"

definition identity_differences :: "run_identity \<Rightarrow> run_identity \<Rightarrow> string list" where
  "identity_differences i j = map fst (filter (\<lambda>(k, v). dict_get (as_identity_record j) k \<noteq> v) (as_identity_record i))"

section \<open>Reading a run, executing it, rewriting it\<close>

definition persisted_identity :: "(pydoc \<Rightarrow> string) \<Rightarrow> pydoc \<Rightarrow> identity_error + run_identity option" where
  "persisted_identity show run =
     (case run of
        PyDict r \<Rightarrow>
          if dict_get r ''run_identity'' = PyNone then Inr None
          else (case identity_from_record show (dict_get r ''run_identity'') (dict_get r ''id'') of
                  Inl e \<Rightarrow> Inl e | Inr i \<Rightarrow> Inr (Some i))
      | _ \<Rightarrow> Inl Identity_malformed)"

definition require_identity :: "(pydoc \<Rightarrow> string) \<Rightarrow> pydoc \<Rightarrow> identity_error + run_identity" where
  "require_identity show run =
     (case persisted_identity show run of Inl e \<Rightarrow> Inl e | Inr None \<Rightarrow> Inl Identity_absent | Inr (Some i) \<Rightarrow> Inr i)"

definition execution_identity_problems :: "(string \<Rightarrow> string) \<Rightarrow> (string \<Rightarrow> string option) \<Rightarrow> run_identity \<Rightarrow> string list" where
  "execution_identity_problems sha env i =
     (let problem = (\<lambda>b n. if b then [n] else []); current = release_sha env in
        problem (map_of ENGINE_VERSIONS (workflow_key i) \<noteq> Some (engine_version i)) ''engine_version''
      @ problem (policy_version i \<noteq> POLICY_SCHEMA_VERSION) ''policy_version''
      @ problem (policy_fingerprint i \<noteq> reviewed_policy_fingerprint sha) ''policy_fingerprint''
      @ problem (registry_version i \<noteq> REGISTRY_VERSION) ''event_registry_version''
      @ problem (registry_fingerprint i \<noteq> event_registry_fingerprint sha) ''event_registry_fingerprint''
      @ problem (release i = [] \<or> current = [] \<or> release i \<noteq> current) ''release_sha'')"

datatype mutation_problem = Held_unreadable | Proposed_invalid identity_error | Would_change "string list"

definition identity_mutation_problems :: "(pydoc \<Rightarrow> string) \<Rightarrow> pydoc \<Rightarrow> pydoc \<Rightarrow> mutation_problem list" where
  "identity_mutation_problems show current proposed =
     (if current = PyNone then []
      else (case identity_from_record show current PyNone of
          Inl e \<Rightarrow> [Held_unreadable]
        | Inr held \<Rightarrow> (case identity_from_record show proposed PyNone of
              Inl e \<Rightarrow> [Proposed_invalid e]
            | Inr wanted \<Rightarrow>
                (case identity_differences held wanted of [] \<Rightarrow> [] | ks \<Rightarrow> [Would_change ks]))))"

end
