(* ===== verification/Production_Config.thy ===== *)
theory Production_Config
  imports Run_Identity
begin

text \<open>
  The startup validation of a deployment's configuration, \<open>backend/production_config.py\<close>, with the
  environment reader of the budget (\<open>BudgetConfig.from_env\<close>, \<open>backend/budget.py\<close>) and the standard
  library's URL parser as far as the validation reads it.  The environment is the list of its variables
  with their values; messages are left out, codes are kept.  \<open>netloc_ok\<close> is the library's check of a
  bracketed or non-ASCII authority, which raises \<open>ValueError\<close> when it fails.
\<close>

section \<open>The budget a deployment's environment states\<close>

definition budget_env_key :: "string \<Rightarrow> string" where
  "budget_env_key n = (case map_of (map (\<lambda>d. (d_name d, d_env_key d)) (dimensions_for Budget)) n of
     Some (Some k) \<Rightarrow> k | _ \<Rightarrow> [])"

definition BUDGET_INTS :: "string list" where
  "BUDGET_INTS = [''max_model_calls_per_run'', ''max_input_tokens_per_run'', ''max_output_tokens_per_run'',
     ''max_total_tokens_per_run'', ''max_run_duration_seconds'', ''max_agent_steps'',
     ''max_retries'', ''max_concurrent_runs_per_user'', ''max_concurrent_runs_per_project'']"

definition BUDGET_FLOATS :: "string list" where
  "BUDGET_FLOATS = [''max_estimated_cost_per_run'', ''max_cost_per_run'', ''daily_user_budget'', ''daily_project_budget'']"

fun read_each :: "(string \<Rightarrow> env_error + 'v option) \<Rightarrow> string list \<Rightarrow> env_error + (string \<times> 'v option) list" where
  "read_each f [] = Inr []"
| "read_each f (n # ns) = res_bind (f n) (\<lambda>v. res_bind (read_each f ns) (\<lambda>r. Inr ((n, v) # r)))"

text \<open>The attributes \<open>from_env\<close> sets; the others keep their defaults, which are never \<open>None\<close>.\<close>

record env_budget =
  b_ints :: "(string \<times> int option) list"
  b_floats :: "(string \<times> pyfloat option) list"
  b_estimated :: pyfloat

definition budget_from_env :: "environment \<Rightarrow> env_error + env_budget" where
  "budget_from_env env =
     res_bind (read_each (\<lambda>n. Python_Floats.env_int env (budget_env_key n)) BUDGET_INTS) (\<lambda>ints.
     res_bind (read_each (\<lambda>n. env_float env (budget_env_key n)) BUDGET_FLOATS) (\<lambda>floats.
     res_bind (env_float env ''MILO_ESTIMATED_COST_PER_CALL'') (\<lambda>est.
       Inr \<lparr>b_ints = ints, b_floats = floats,
            b_estimated = (case est of None \<Rightarrow> Finite (5 / 100) | Some v \<Rightarrow> v)\<rparr>)))"

definition attribute_absent :: "env_budget \<Rightarrow> string \<Rightarrow> bool" where
  "attribute_absent b n = (map_of (b_ints b) n = Some None \<or> map_of (b_floats b) n = Some None)"

definition MANDATORY_FOR_PAID_EXECUTION :: "string list" where
  "MANDATORY_FOR_PAID_EXECUTION = map d_name (filter mandatory_for_paid (dimensions_for Budget))"

definition MANDATORY_FOR_RUN_CREATION :: "string list" where
  "MANDATORY_FOR_RUN_CREATION = [''max_model_calls_per_run'', ''max_total_tokens_per_run'', ''max_estimated_cost_per_run'',
     ''max_run_duration_seconds'', ''max_retries'']"

definition missing_mandatory :: "env_budget \<Rightarrow> string list" where
  "missing_mandatory b = map budget_env_key (filter (attribute_absent b) MANDATORY_FOR_PAID_EXECUTION)"

definition missing_for_run_creation :: "env_budget \<Rightarrow> string list" where
  "missing_for_run_creation b = map budget_env_key (filter (attribute_absent b) MANDATORY_FOR_RUN_CREATION)"

section \<open>URLs\<close>

record parsed_url =
  url_scheme :: string
  url_netloc :: string
  url_path :: string
  url_params :: string
  url_query :: string
  url_fragment :: string

definition ascii_letter :: "char \<Rightarrow> bool" where
  "ascii_letter c = (let n = (of_char c :: nat) in (65 \<le> n \<and> n \<le> 90) \<or> (97 \<le> n \<and> n \<le> 122))"

definition scheme_char :: "char \<Rightarrow> bool" where
  "scheme_char c = (ascii_letter c \<or> c \<in> set ''0123456789+-.'')"

definition is_ascii :: "char \<Rightarrow> bool" where
  "is_ascii c = ((of_char c :: nat) < 128)"

text \<open>Leading control characters and blanks go, and so do tabs and line breaks anywhere.\<close>

definition url_text :: "string \<Rightarrow> string" where
  "url_text raw = filter (\<lambda>c. (of_char c :: nat) \<notin> {9, 10, 13}) (dropWhile (\<lambda>c. (of_char c :: nat) \<le> 32) raw)"

definition split_scheme :: "string \<Rightarrow> string \<times> string" where
  "split_scheme addr = (let s = takeWhile (\<lambda>c. c \<noteq> CHR '':'') addr in
     if s \<noteq> addr \<and> s \<noteq> [] \<and> ascii_letter (hd s) \<and> list_all scheme_char s
     then (py_lower s, drop (length s + 1) addr) else ([], addr))"

definition split_netloc :: "string \<Rightarrow> string \<times> string" where
  "split_netloc addr =
     (if take 2 addr = ''//''
      then (takeWhile (\<lambda>c. c \<notin> set ''/?#'') (drop 2 addr), dropWhile (\<lambda>c. c \<notin> set ''/?#'') (drop 2 addr))
      else ([], addr))"

definition split_once :: "char \<Rightarrow> string \<Rightarrow> string \<times> string" where
  "split_once c s = (takeWhile (\<lambda>x. x \<noteq> c) s, drop 1 (dropWhile (\<lambda>x. x \<noteq> c) s))"

text \<open>Parameters follow the first semicolon of the last segment.\<close>

definition split_params :: "string \<Rightarrow> string \<times> string" where
  "split_params addr =
     (let seg = rev (takeWhile (\<lambda>c. c \<noteq> CHR ''/'') (rev addr)); stem = take (length addr - length seg) addr
      in if CHR '';'' \<in> set seg then (stem @ fst (split_once (CHR '';'') seg), snd (split_once (CHR '';'') seg)) else (addr, []))"

definition USES_PARAMS :: "string list" where
  "USES_PARAMS = [[], ''ftp'', ''hdl'', ''prospero'', ''http'', ''imap'', ''https'', ''shttp'', ''rtsp'', ''rtsps'', ''rtspu'',
     ''sip'', ''sips'', ''mms'', ''sftp'', ''tel'']"

definition urlparse :: "(string \<Rightarrow> bool) \<Rightarrow> string \<Rightarrow> parsed_url option" where
  "urlparse netloc_ok raw =
     (let (scheme, rest) = split_scheme (url_text raw);
          (netloc, rest) = split_netloc rest;
          (rest, fragment) = split_once (CHR ''#'') rest;
          (rest, query) = split_once (CHR ''?'') rest;
          (path, params) = (if scheme \<in> set USES_PARAMS \<and> CHR '';'' \<in> set rest then split_params rest else (rest, []))
      in if (CHR ''['' \<in> set netloc) \<noteq> (CHR '']'' \<in> set netloc) then None
         else if (CHR ''['' \<in> set netloc \<or> \<not> list_all is_ascii netloc) \<and> \<not> netloc_ok netloc then None
         else Some \<lparr>url_scheme = scheme, url_netloc = netloc, url_path = path, url_params = params,
                    url_query = query, url_fragment = fragment\<rparr>)"

text \<open>\<open>(parsed.hostname or "").lower()\<close>.\<close>

definition lowered_hostname :: "parsed_url \<Rightarrow> string" where
  "lowered_hostname u =
     (let host = rev (takeWhile (\<lambda>c. c \<noteq> CHR ''@'') (rev (url_netloc u)))
      in py_lower (if CHR ''['' \<in> set host then takeWhile (\<lambda>c. c \<noteq> CHR '']'') (drop 1 (dropWhile (\<lambda>c. c \<noteq> CHR ''['') host))
                   else takeWhile (\<lambda>c. c \<noteq> CHR '':'') host))"

definition SUPABASE_HOSTED_URL_SUFFIX :: string where "SUPABASE_HOSTED_URL_SUFFIX = ''.supabase.co''"

definition SUPABASE_ROOT_PATHS :: "string list" where "SUPABASE_ROOT_PATHS = [[], ''/'']"

definition project_ref_ok :: "string \<Rightarrow> bool" where
  "project_ref_ok r = (length r = 20 \<and> list_all (\<lambda>c. c \<in> set ''abcdefghijklmnopqrstuvwxyz0123456789'') r)"

definition supabase_url_matches_project_ref :: "(string \<Rightarrow> bool) \<Rightarrow> string \<Rightarrow> string \<Rightarrow> bool" where
  "supabase_url_matches_project_ref netloc_ok addr expected =
     (let ref = py_lower (py_strip expected); raw = py_strip addr in
      if ref = [] then False
      else if CHR ''?'' \<in> set raw \<or> CHR ''#'' \<in> set raw then False
      else (case urlparse netloc_ok raw of
          None \<Rightarrow> False
        | Some u \<Rightarrow>
            if py_lower (url_scheme u) \<noteq> ''https'' then False
            else if py_lower (url_netloc u) \<noteq> ref @ SUPABASE_HOSTED_URL_SUFFIX then False
            else if url_path u \<notin> set SUPABASE_ROOT_PATHS then False
            else url_query u = [] \<and> url_fragment u = [] \<and> url_params u = []))"

section \<open>The report\<close>

datatype issue_level = Error_level | Warning_level

type_synonym config_issue = "issue_level \<times> string"

definition EXECUTION_FLAGS :: "string list" where
  "EXECUTION_FLAGS = [''MILO_ENABLE_RUN_CREATION'', ''MILO_ENABLE_PROPOSAL_MUTATIONS'', ''MILO_ENABLE_PROPOSAL_READS'',
     ''MILO_ENABLE_RUN_CANCELLATION'', ''MILO_ENABLE_EXECUTION_CONTROL'', ''MILO_ENABLE_PAID_EXECUTION'',
     ''MILO_ENABLE_CATALOG_EXECUTION'', ''MILO_ENABLE_GOVERNMENT_CATALOG_READ'', ''MILO_ENABLE_CATALOG_PROMOTION'',
     ''MILO_ENABLE_WORK_SCOPE_MUTATIONS'', ''MILO_ENABLE_WORK_SCOPE_BATCHES'', ''MILO_ENABLE_WORK_SCOPE_PREPARATION'',
     ''MILO_ENABLE_WORK_SCOPE_PREPARATION_REQUESTS'', ''MILO_ENABLE_REGISTER_CAPTURE'', ''MILO_ENABLE_REGISTER_CAPTURE_JOB'',
     ''MILO_ENABLE_CATALOG_BROWSER'', ''MILO_ENABLE_MANUFACTURER_NORMALISATION'']"

definition FORBIDDEN_PUBLIC_SUBSTRINGS :: "string list" where
  "FORBIDDEN_PUBLIC_SUBSTRINGS = [''service_role'', ''service-role'', ''sb_secret'', ''secret_key'', ''secretkey'', ''private_key'']"

definition production_env :: "environment \<Rightarrow> bool" where
  "production_env env = (let v = getenv env ''ENVIRONMENT'' [] in py_lower (py_strip (if v = [] then ''local'' else v)) = ''production'')"

definition err :: "bool \<Rightarrow> string \<Rightarrow> config_issue list" where
  "err b tag = (if b then [(Error_level, tag)] else [])"

definition graded :: "environment \<Rightarrow> bool \<Rightarrow> string \<Rightarrow> config_issue list" where
  "graded env b tag = (if b then [(if production_env env then Error_level else Warning_level, tag)] else [])"

text \<open>1 and 2: public variables and origins.\<close>

definition public_issues :: "(string \<times> string) list \<Rightarrow> config_issue list" where
  "public_issues vars = concat (map (\<lambda>(k, v). err (take 12 k = ''NEXT_PUBLIC_'' \<and> v \<noteq> [] \<and>
     list_ex (\<lambda>t. contains_text t (py_lower v)) FORBIDDEN_PUBLIC_SUBSTRINGS) ''PUBLIC_CONTAINS_SECRET'') vars)"

definition cors_origins :: "environment \<Rightarrow> string list" where
  "cors_origins env = filter (\<lambda>w. w \<noteq> []) (map py_strip (py_split (CHR '','') (env_raw env ''ALLOWED_CORS_ORIGINS'')))"

definition cors_issues :: "environment \<Rightarrow> config_issue list" where
  "cors_issues env = err (''*'' \<in> set (cors_origins env) \<or> env_raw env ''ALLOWED_CORS_ORIGINS'' = ''*'') ''CORS_WILDCARD''
     @ err (production_env env \<and> cors_origins env = []) ''CORS_MISSING''"

text \<open>3 and 4: budget, provider key, policy and models.\<close>

fun violation_code_text :: "violation_code \<Rightarrow> string" where
  "violation_code_text Value_invalid = ''POLICY_VALUE_INVALID''"
| "violation_code_text Wider_than_reviewed = ''POLICY_WIDER_THAN_REVIEWED''"
| "violation_code_text Dimension_absent = ''POLICY_DIMENSION_ABSENT''"
| "violation_code_text Invariant_violated = ''POLICY_INVARIANT_VIOLATED''"
| "violation_code_text Reviewed_inconsistent = ''POLICY_REVIEWED_INCONSISTENT''"
| "violation_code_text Catalog_posture_contradictory = ''POLICY_CATALOG_POSTURE_CONTRADICTORY''"

fun model_code_text :: "model_config_error \<Rightarrow> string" where
  "model_code_text MODEL_PROFILE_UNKNOWN = ''MODEL_PROFILE_UNKNOWN''"
| "model_code_text MODEL_NOT_ALLOWLISTED = ''MODEL_NOT_ALLOWLISTED''"
| "model_code_text SWARM_MODEL_CONFIG_INVALID = ''SWARM_MODEL_CONFIG_INVALID''"

definition policy_issues :: "violation list \<Rightarrow> config_issue list" where
  "policy_issues vs = map (\<lambda>(c, d). (Error_level, violation_code_text c)) vs"

definition model_issues :: "environment \<Rightarrow> config_issue list" where
  "model_issues env =
     (case validate_swarm_model_contract \<lparr>commander_model_allowlist = env ''MILO_COMMANDER_MODEL_ALLOWLIST'',
          commander_model = env ''MILO_COMMANDER_MODEL'', swarm_worker_model = env ''MILO_SWARM_WORKER_MODEL''\<rparr> False of
        Inl e \<Rightarrow> [(Error_level, model_code_text e)] | Inr r \<Rightarrow> [])"

definition run_creation_issues :: "environment \<Rightarrow> env_budget \<Rightarrow> config_issue list" where
  "run_creation_issues env b = graded env (env_flag env ''MILO_ENABLE_RUN_CREATION'' \<and> missing_for_run_creation b \<noteq> []) ''EXECUTION_WITHOUT_BUDGET''"

definition paid_issues :: "environment \<Rightarrow> env_budget \<Rightarrow> config_issue list" where
  "paid_issues env b =
     (if env_flag env ''MILO_ENABLE_PAID_EXECUTION''
      then graded env (getenv env ''KIMI_API_KEY'' [] = [] \<and> getenv env ''MOONSHOT_API_KEY'' [] = []) ''PAID_WITHOUT_PROVIDER_KEY''
         @ err (missing_mandatory b \<noteq> []) ''PAID_WITHOUT_BUDGET''
         @ policy_issues (policy_violations env (Some True))
         @ model_issues env
      else [])"

text \<open>5, 5b, 5c: the identities of workers and gateways.\<close>

definition worker_auth_issues :: "environment \<Rightarrow> config_issue list" where
  "worker_auth_issues env =
     (if env_flag env ''MILO_ENABLE_EXECUTION_CONTROL''
      then graded env (env_raw env ''MILO_WORKER_AUDIENCE'' = []) ''WORKER_AUTH_AUDIENCE_MISSING''
         @ graded env (env_raw env ''MILO_APPROVED_WORKER_IDENTITIES'' = []) ''WORKER_ALLOWLIST_EMPTY''
      else [])"

definition identity_issues :: "environment \<Rightarrow> config_issue list" where
  "identity_issues env =
     (let gateways = approved_gateway_identities env; workers = approved_identities env
      in err (production_env env \<and> (env_raw env ''MILO_GATEWAY_AUDIENCE'' = [] \<or> gateways = [])) ''GATEWAY_AUTH_MISSING''
       @ err (production_env env \<and> env_flag env ''MILO_ALLOW_INSECURE_DEV_IDENTITY'') ''INSECURE_DEV_IDENTITY_IN_PRODUCTION''
       @ err (list_ex (\<lambda>i. i \<in> set workers) gateways) ''SHARED_GATEWAY_WORKER_IDENTITY'')"

text \<open>5d: adapters and the reclaim of leases.\<close>

definition adapter_issues :: "environment \<Rightarrow> config_issue list" where
  "adapter_issues env =
     (if production_env env
      then err (py_lower (env_raw env ''CLOUD_RUN_AUTH_MODE'') = ''e2e-test'') ''TEST_ADAPTER_IN_PRODUCTION''
         @ err (env_flag env ''MILO_E2E_INPROCESS_WORKER'') ''TEST_ADAPTER_IN_PRODUCTION''
         @ err (env_raw env ''MILO_WORKER_ENGINE'' \<noteq> []) ''TEST_ADAPTER_IN_PRODUCTION''
         @ err (env_raw env ''MILO_PROVIDER_ABANDONED_LEASE_RECLAIM_SECONDS'' \<noteq> []) ''TIMED_LEASE_RECLAIM_IN_PRODUCTION''
      else [])"

text \<open>5e and 5f: the pins of staging and of production.\<close>

definition staging_env :: "environment \<Rightarrow> bool" where
  "staging_env env = (py_lower (env_raw env ''ENVIRONMENT'') = ''staging'')"

definition staging_issues :: "(string \<Rightarrow> bool) \<Rightarrow> environment \<Rightarrow> config_issue list" where
  "staging_issues netloc_ok env =
     (if staging_env env
      then (let ref = env_raw env ''MILO_EXPECTED_SUPABASE_PROJECT_REF''; addr = env_raw env ''SUPABASE_URL'';
                host = py_lower (env_raw env ''MILO_EXPECTED_REDIS_HOST''); redis = env_raw env ''UPSTASH_REDIS_REST_URL''
            in (if ref = [] then err True ''STAGING_DEPENDENCY_UNPINNED''
                else err (addr \<noteq> [] \<and> \<not> supabase_url_matches_project_ref netloc_ok addr ref) ''STAGING_DEPENDENCY_MISMATCH'')
             @ (if host = [] then err True ''STAGING_DEPENDENCY_UNPINNED''
                else err (redis \<noteq> [] \<and> (case urlparse netloc_ok redis of None \<Rightarrow> [] | Some u \<Rightarrow> lowered_hostname u) \<noteq> host)
                  ''STAGING_DEPENDENCY_MISMATCH''))
      else [])"

definition production_pin_issues :: "(string \<Rightarrow> bool) \<Rightarrow> environment \<Rightarrow> config_issue list" where
  "production_pin_issues netloc_ok env =
     (if production_env env
      then (let ref = env_raw env ''MILO_EXPECTED_SUPABASE_PROJECT_REF''; addr = env_raw env ''SUPABASE_URL''
            in if ref = [] then err True ''PRODUCTION_DEPENDENCY_UNPINNED''
               else if \<not> project_ref_ok ref then err True ''PRODUCTION_DEPENDENCY_MALFORMED''
               else if addr = [] then err True ''PRODUCTION_DEPENDENCY_UNPINNED''
               else err (\<not> supabase_url_matches_project_ref netloc_ok addr ref) ''PRODUCTION_DEPENDENCY_MISMATCH'')
      else [])"

text \<open>6 to 9: the user interface, the rate limiter, the gateway's routes and the settings of the backend.\<close>

definition ui_issues :: "environment \<Rightarrow> config_issue list" where
  "ui_issues env = (if env_flag env ''NEXT_PUBLIC_MILO_ENABLE_EXECUTION_UI'' \<and> \<not> env_flag env ''MILO_ENABLE_RUN_CREATION''
     then [(Warning_level, ''UI_WITHOUT_BACKEND_EXECUTION'')] else [])"

definition limiter_issues :: "environment \<Rightarrow> config_issue list" where
  "limiter_issues env = err (production_env env \<and>
     (getenv env ''UPSTASH_REDIS_REST_URL'' [] = [] \<or> getenv env ''UPSTASH_REDIS_REST_TOKEN'' [] = [])) ''PROD_MEMORY_RATE_LIMITER''"

definition gateway_route_issues :: "environment \<Rightarrow> config_issue list" where
  "gateway_route_issues env = (if env_flag env ''GATEWAY_ALLOW_EXECUTION_ROUTES'' \<and> \<not> env_flag env ''MILO_ENABLE_RUN_CREATION''
     then [(Warning_level, ''GATEWAY_EXECUTION_OPEN_BACKEND_DISABLED'')] else [])"

definition backend_setting_issues :: "environment \<Rightarrow> config_issue list" where
  "backend_setting_issues env = (if production_env env
     then concat (map (\<lambda>k. err (env_raw env k = []) ''MISSING_BACKEND_SETTING'') [''SUPABASE_URL'', ''SUPABASE_SERVICE_ROLE_KEY'']) else [])"

text \<open>\<open>validate\<close>; the budget reader may raise.\<close>

definition validate :: "(string \<Rightarrow> bool) \<Rightarrow> (string \<times> string) list \<Rightarrow> env_error + config_issue list" where
  "validate netloc_ok vars =
     (let env = map_of vars in
      res_bind (budget_from_env env) (\<lambda>b. Inr (
        public_issues vars @ cors_issues env @ run_creation_issues env b @ paid_issues env b
        @ policy_issues (catalog_posture_violations env) @ worker_auth_issues env @ identity_issues env @ adapter_issues env
        @ staging_issues netloc_ok env @ production_pin_issues netloc_ok env @ ui_issues env @ limiter_issues env
        @ gateway_route_issues env @ backend_setting_issues env)))"

definition report_errors :: "config_issue list \<Rightarrow> config_issue list" where
  "report_errors r = filter (\<lambda>i. fst i = Error_level) r"

text \<open>What importing the application comes to: it starts, it is refused with the sorted codes, or \<open>ValueError\<close> escapes.\<close>

datatype startup = Started "config_issue list" | Config_refused "string list" | Value_error env_error

definition validate_production_config :: "(string \<Rightarrow> bool) \<Rightarrow> (string \<times> string) list \<Rightarrow> startup" where
  "validate_production_config netloc_ok vars =
     (case validate netloc_ok vars of
        Inl e \<Rightarrow> Value_error e
      | Inr r \<Rightarrow>
          if report_errors r \<noteq> [] \<and> (production_env (map_of vars) \<or> staging_env (map_of vars))
          then Config_refused (sort (remdups (map snd (report_errors r)))) else Started r)"

end
