(* ===== verification/Access_Safety.thy ===== *)
theory Access_Safety
  imports Api_Access
begin

text \<open>
  What stands before a handler: every mutating route but a few is refused by the kill switch while a flag
  it needs is off, whatever its path parameters; a handler sees a worker only with a verified approved
  identity, and in production a browser user only behind the verified gateway; the three roles never share
  an identity.
\<close>

section \<open>Patterns as sets of token lists\<close>

datatype token = Character char | Any_segment

fun after_token :: "token \<Rightarrow> string \<Rightarrow> string list" where
  "after_token (Character c) [] = []"
| "after_token (Character c) (d # s) = (if c = d then [s] else [])"
| "after_token Any_segment s = after_segment s"

fun after_tokens :: "token list \<Rightarrow> string \<Rightarrow> string list" where
  "after_tokens [] s = [s]"
| "after_tokens (t # ts) s = concat (map (after_tokens ts) (after_token t s))"

fun piece_tokens :: "piece \<Rightarrow> token list list" where
  "piece_tokens (Lit t) = [map Character t]"
| "piece_tokens Segment = [[Any_segment]]"
| "piece_tokens (One_of ts) = map (map Character) ts"
| "piece_tokens (Optional ts) = map (map Character) ts @ [[]]"

fun tokens_of :: "piece list \<Rightarrow> token list list" where
  "tokens_of [] = [[]]"
| "tokens_of (p # ps) = [e @ f. e \<leftarrow> piece_tokens p, f \<leftarrow> tokens_of ps]"

lemma after_tokens_append: "set (after_tokens (e @ f) s) = (\<Union>r\<in>set (after_tokens e s). set (after_tokens f r))"
  by (induction e arbitrary: s) auto

lemma after_text_tokens: "set (after_text t s) = set (after_tokens (map Character t) s)"
proof (induction t arbitrary: s)
  case (Cons c t)
  show ?case
  proof (cases s)
    case s: (Cons d s')
    with Cons [of s'] show ?thesis by (auto simp: after_text_def split: if_splits)
  qed (simp add: after_text_def)
qed (simp add: after_text_def)

lemma after_piece_tokens: "set (after_piece p s) = (\<Union>e\<in>set (piece_tokens p). set (after_tokens e s))"
  by (cases p) (auto simp: after_text_tokens)

lemma after_pieces_tokens: "set (after_pieces ps s) = (\<Union>e\<in>set (tokens_of ps). set (after_tokens e s))"
proof (induction ps arbitrary: s)
  case (Cons p ps)
  show ?case by (auto simp: Cons after_piece_tokens after_tokens_append)
qed simp

text \<open>A pattern whose token lists are all token lists of another matches fewer paths.\<close>

lemma pattern_subset:
  assumes "list_all (\<lambda>e. e \<in> set (tokens_of qs)) (tokens_of ps)" "pattern_matches ps path"
  shows "pattern_matches qs path"
  using assms by (fastforce simp: pattern_matches_def list_ex_iff list_all_iff after_pieces_tokens)

section \<open>Every flag of a guarded route has a rule\<close>

definition unruled_routes :: "route list" where
  "unruled_routes = [request_register_sync_route, set_register_auto_sync_route, register_sync_tick_route, create_conversation_route]"

definition has_rule :: "route \<Rightarrow> string \<Rightarrow> bool" where
  "has_rule rt f = list_ex (\<lambda>r. rule_method r = route_method rt \<and> rule_flag r = f \<and>
     list_all (\<lambda>e. e \<in> set (tokens_of (rule_pattern r))) (tokens_of (route_path rt))) SURFACE_RULES"

definition ruled :: "route \<Rightarrow> bool" where
  "ruled rt = (route_flags rt \<noteq> [] \<and> list_all (has_rule rt) (route_flags rt) \<and> ascii_upper (route_method rt) = route_method rt)"

lemma guarded_routes_are_ruled: "list_all (\<lambda>rt. rt \<in> set unruled_routes \<or> ruled rt) MUTATING_ROUTES"
  by code_simp


lemma find_disabled_some:
  assumes "r \<in> set SURFACE_RULES" "ascii_upper m = rule_method r" "pattern_matches (rule_pattern r) path" "\<not> is_stage_enabled env (rule_flag r)"
  shows "find_disabled_surface env m path \<noteq> None"
  using assms by (auto simp: find_disabled_surface_def find_None_iff)

lemma ruled_route_refused:
  assumes "ruled rt" "f \<in> set (route_flags rt)" "\<not> is_stage_enabled env f" "pattern_matches (route_path rt) path"
  shows "find_disabled_surface env (route_method rt) path \<noteq> None"
proof -
  from assms(1,2) have "has_rule rt f" by (simp add: ruled_def list_all_iff)
  then obtain r where r: "r \<in> set SURFACE_RULES" "rule_method r = route_method rt" "rule_flag r = f"
    "list_all (\<lambda>e. e \<in> set (tokens_of (rule_pattern r))) (tokens_of (route_path rt))"
    by (auto simp: has_rule_def list_ex_iff)
  from assms(1) r(2) have "ascii_upper (route_method rt) = rule_method r" by (simp add: ruled_def)
  from find_disabled_some [OF r(1) this pattern_subset [OF r(4) assms(4)]] assms(3) r(3) show ?thesis by simp
qed

section \<open>What the middleware and the verifiers decide\<close>

lemma find_disabled_flag: "find_disabled_surface env m path = Some (flag, surface) \<Longrightarrow> \<not> is_stage_enabled env flag"
  by (auto simp: find_disabled_surface_def find_Some_iff)

lemma guard_refuses:
  assumes "scope_type sc = ''http''" "scope_method sc = Some m" "scope_path sc = Some path" "find_disabled_surface env m path \<noteq> None"
  shows "\<exists>flag surface. guard_middleware env app sc s = (Surface_disabled flag surface, s) \<and> \<not> is_stage_enabled env flag"
proof -
  from assms(4) obtain flag surface where d: "find_disabled_surface env m path = Some (flag, surface)" by auto
  with assms(1-3) have "guard_middleware env app sc s = (Surface_disabled flag surface, s)" by (simp add: guard_middleware_def)
  with find_disabled_flag [OF d] show ?thesis by blast
qed

lemma worker_token_verified:
  assumes "verify_worker_token env render verify token = Inr w"
  shows "\<exists>tok claims. token = Some tok \<and> tok \<noteq> [] \<and> verify tok (identity_audience w) = Some claims \<and>
    identity_audience w = env_stripped env ''MILO_WORKER_AUDIENCE'' \<and> identity_audience w \<noteq> [] \<and>
    claim_text render claims ''iss'' \<in> set GOOGLE_ISSUERS \<and> claim_text render claims ''aud'' = identity_audience w \<and>
    email_verified claims \<and> service_account_email w = claims_email render claims \<and>
    service_account_email w \<in> set (approved_identities env)"
  using assms by (auto simp: verify_worker_token_def Let_def split: if_splits option.splits)

lemma gateway_token_verified:
  assumes "verify_gateway_token env render verify token = Inr (Some w)"
  shows "\<exists>tok claims. token = Some tok \<and> tok \<noteq> [] \<and> verify tok (identity_audience w) = Some claims \<and>
    identity_audience w = env_stripped env ''MILO_GATEWAY_AUDIENCE'' \<and> identity_audience w \<noteq> [] \<and>
    claim_text render claims ''iss'' \<in> set GOOGLE_ISSUERS \<and> claim_text render claims ''aud'' = identity_audience w \<and>
    email_verified claims \<and> service_account_email w = claims_email render claims \<and>
    service_account_email w \<in> set (approved_gateway_identities env)"
  using assms by (auto simp: verify_gateway_token_def Let_def split: if_splits option.splits)

lemma no_gateway_only_in_development:
  assumes "verify_gateway_token env render verify token = Inr None"
  shows "insecure_dev_identity_allowed env \<and> \<not> is_production env \<and> env_stripped env ''MILO_GATEWAY_AUDIENCE'' = [] \<and>
    approved_gateway_identities env = []"
  using assms by (auto simp: verify_gateway_token_def Let_def split: if_splits option.splits)

lemma scheduler_token_verified:
  assumes "verify_scheduler_token env render verify authorization = Inr email"
  shows "email = py_lower (env_stripped env ''MILO_REGISTER_SCHEDULER_IDENTITY'') \<and> email \<noteq> [] \<and>
    email \<notin> set (approved_gateway_identities env) \<and> email \<notin> set (approved_identities env)"
  using assms by (auto simp: verify_scheduler_token_def Let_def split: if_splits option.splits prod.splits)

lemma map_sum_Inr: "map_sum id f x = Inr y \<longleftrightarrow> (\<exists>z. x = Inr z \<and> y = f z)"
  by (cases x) auto

lemma authenticated:
  assumes "authenticate w c q l = (Inr who, l')"
  shows "case who of
      Browser_user u \<Rightarrow> c = Browser_caller \<and> get_authenticated_user w q = Inr u
    | Worker_service i \<Rightarrow> c = Worker_caller \<and> get_verified_worker w (worker_header q) l = (Inr i, l')
    | Scheduler_service e \<Rightarrow> c = Scheduler_caller"
  using assms by (cases c) (auto simp: authenticate_def map_sum_Inr split: prod.splits)

lemma admitted:
  assumes "admit w rt q l = (Inr who, l')"
  shows "request_body q = Accepted \<and> authenticate w (route_caller rt) q l = (Inr who, l') \<and>
    list_all (is_stage_enabled (s_env w)) (route_flags rt)"
  using assms by (cases "request_body q") (auto simp: admit_def require_stages_def find_None_iff list_all_iff split: prod.splits sum.splits option.splits if_splits)

lemma served:
  assumes "serve w sc q l = (From_app (Inr (rt, who)), l')"
  shows "rt \<in> set MUTATING_ROUTES \<and> scope_method sc = Some (route_method rt) \<and>
    (\<exists>path. scope_path sc = Some path \<and> pattern_matches (route_path rt) path) \<and> admit w rt q l = (Inr who, l')"
proof -
  have app: "api_app w q sc l = (Inr (rt, who), l')"
    using assms by (auto simp: serve_def guard_middleware_def Let_def split: option.splits prod.splits)
  then obtain rt' where f: "find (\<lambda>rt. scope_method sc = Some (route_method rt) \<and>
      (case scope_path sc of None \<Rightarrow> False | Some p \<Rightarrow> pattern_matches (route_path rt) p)) MUTATING_ROUTES = Some rt'"
    by (auto simp: api_app_def split: option.splits)
  obtain r l'' where ad: "admit w rt' q l = (r, l'')" by force
  from app f ad have "rt' = rt" "r = Inr who" "l'' = l'"
    by (cases r; auto simp: api_app_def)+
  with f ad show ?thesis by (auto simp: find_Some_iff split: option.splits)
qed

lemma worker_routes: "list_all (\<lambda>rt. route_caller rt = Worker_caller \<longrightarrow> route_flags rt = [''MILO_ENABLE_EXECUTION_CONTROL'']) MUTATING_ROUTES"
  by code_simp

section \<open>Concrete requests\<close>

definition no_flags :: environment where
  "no_flags k = None"

definition open_env :: environment where
  "open_env k = (if k = ''MILO_ENABLE_EXECUTION_CONTROL'' then Some ''on'' else if k = ''MILO_WORKER_AUDIENCE'' then Some ''api''
     else if k = ''MILO_APPROVED_WORKER_IDENTITIES'' then Some ''Worker@milo, other@milo'' else if k = ''MILO_GATEWAY_AUDIENCE'' then Some ''gate''
     else if k = ''MILO_APPROVED_GATEWAY_IDENTITIES'' then Some ''gateway@milo'' else if k = ''MILO_ENABLE_RUN_CANCELLATION'' then Some ''1''
     else if k = ''ENVIRONMENT'' then Some ''production'' else if k = ''UPSTASH_REDIS_REST_URL'' then Some ''u''
     else if k = ''UPSTASH_REDIS_REST_TOKEN'' then Some ''t'' else None)"

definition example_verifier :: "string \<Rightarrow> verifier" where
  "example_verifier email tok aud = Some [(''iss'', PyStr ''accounts.google.com''), (''aud'', PyStr aud), (''email'', PyStr email),
     (''email_verified'', PyBool True)]"

definition example_access :: surroundings where
  "example_access = \<lparr>s_env = open_env, s_show = (\<lambda>v. []), s_worker_verifier = example_verifier ''worker@milo'',
     s_gateway_verifier = example_verifier ''gateway@milo'', s_sha = id, s_buckets = 10000, s_clock = 0, s_store_clock = 0, s_reply = Answered\<rparr>"

definition example_api_request :: request where
  "example_api_request = \<lparr>gateway_header = Some ''t'', worker_header = Some ''t'', authorization_header = None,
     user_id_header = Some ''00000000-0000-0000-0000-0000000000ff'', user_email_header = None, request_body = Accepted\<rparr>"

lemma served_worker:
  assumes "serve w sc q l = (From_app (Inr (rt, Worker_service identity)), l')"
  shows "rt \<in> set MUTATING_ROUTES" "route_caller rt = Worker_caller" "list_all (is_stage_enabled (s_env w)) (route_flags rt)"
    "verify_worker_token (s_env w) (s_show w) (s_worker_verifier w) (worker_header q) = Inr identity"
    "enforce_rate_limit (s_env w) (s_sha w) (s_buckets w) (s_clock w) (s_store_clock w) (s_reply w)
      Worker_mutations (service_account_email identity) l = (None, l')"
proof -
  note s = served [OF assms]
  from s admitted have a: "authenticate w (route_caller rt) q l = (Inr (Worker_service identity), l')"
    and "list_all (is_stage_enabled (s_env w)) (route_flags rt)" by blast+
  with s show "rt \<in> set MUTATING_ROUTES" "list_all (is_stage_enabled (s_env w)) (route_flags rt)" by blast+
  from authenticated [OF a] show "route_caller rt = Worker_caller" by simp
  from authenticated [OF a] have "get_verified_worker w (worker_header q) l = (Inr identity, l')" by simp
  then show "verify_worker_token (s_env w) (s_show w) (s_worker_verifier w) (worker_header q) = Inr identity"
    "enforce_rate_limit (s_env w) (s_sha w) (s_buckets w) (s_clock w) (s_store_clock w) (s_reply w)
      Worker_mutations (service_account_email identity) l = (None, l')"
    by (auto simp: get_verified_worker_def split: sum.splits prod.splits option.splits)
qed

lemma served_browser:
  assumes "serve w sc q l = (From_app (Inr (rt, Browser_user u)), l')"
  shows "verify_gateway_token (s_env w) (s_show w) (s_gateway_verifier w) (gateway_header q) = Inr (user_gateway u)"
proof -
  have a: "authenticate w (route_caller rt) q l = (Inr (Browser_user u), l')" using served [OF assms] admitted by blast
  from authenticated [OF this] have "get_authenticated_user w q = Inr u" by simp
  then obtain g where g: "verify_gateway_token (s_env w) (s_show w) (s_gateway_verifier w) (gateway_header q) = Inr g"
    and u: "authenticated_user_of (user_id_header q) (user_email_header q) g = Inr u"
    by (auto simp: get_authenticated_user_def res_bind_def split: sum.splits)
  from u have "user_gateway u = g" by (auto simp: authenticated_user_of_def split: option.splits if_splits)
  with g show ?thesis by simp
qed

definition example_limiters :: limiters where
  "example_limiters = \<lparr>memory_buckets = [], shared_store = (\<lambda>_. None)\<rparr>"

definition post :: "string \<Rightarrow> scope" where
  "post path = \<lparr>scope_type = ''http'', scope_method = Some ''POST'', scope_path = Some path\<rparr>"

text \<open>A worker's claim, and a browser's cancellation, let through.\<close>

definition example_worker :: service_identity where
  "example_worker = \<lparr>service_account_email = ''worker@milo'', identity_audience = ''api'', identity_issuer = ''accounts.google.com''\<rparr>"

definition example_user :: authenticated_user where
  "example_user = \<lparr>user_id = 255, user_email = None, user_gateway =
     Some \<lparr>service_account_email = ''gateway@milo'', identity_audience = ''gate'', identity_issuer = ''accounts.google.com''\<rparr>\<rparr>"

lemma example_worker_served:
  "fst (serve example_access (post ''/runs/r/claims'') example_api_request example_limiters) =
     From_app (Inr (create_claim_route, Worker_service example_worker))"
  unfolding example_worker_def by code_simp

lemma example_user_served:
  "fst (serve example_access (post ''/runs/r/cancel'') example_api_request example_limiters) =
     From_app (Inr (cancel_run_route, Browser_user example_user))"
  unfolding example_user_def by code_simp

section \<open>What the access path promises\<close>

text \<open>C35. Every mutating route except the register's sync, its switch and tick, and the creation of a conversation: while a
  flag its handler needs is off, the kill switch answers 403 before the application runs, for every path the
  route matches and whatever the body, and nothing changes.\<close>

theorem disabled_surface_never_reaches_the_app:
  assumes "rt \<in> set MUTATING_ROUTES" "rt \<notin> set unruled_routes" "f \<in> set (route_flags rt)" "\<not> is_stage_enabled env f"
    "scope_type sc = ''http''" "scope_method sc = Some (route_method rt)" "scope_path sc = Some path" "pattern_matches (route_path rt) path"
  shows "\<exists>flag surface. guard_middleware env app sc s = (Surface_disabled flag surface, s) \<and> \<not> is_stage_enabled env flag"
proof -
  from guarded_routes_are_ruled assms(1,2) have "ruled rt" by (auto simp: list_all_iff)
  from guard_refuses [OF assms(5-7) ruled_route_refused [OF this assms(3,4,8)]] show ?thesis .
qed

lemma disabled_surface_never_reaches_the_app_witness:
  "\<exists>flag surface. guard_middleware no_flags (\<lambda>sc s. (True, s + 1)) (post ''/conversations/c/runs'') (0::nat) = (Surface_disabled flag surface, 0) \<and>
     \<not> is_stage_enabled no_flags flag"
proof (rule disabled_surface_never_reaches_the_app)
  show "create_run_route \<in> set MUTATING_ROUTES" by (simp add: MUTATING_ROUTES_def)
  show "create_run_route \<notin> set unruled_routes" by code_simp
  show "''MILO_ENABLE_RUN_CREATION'' \<in> set (route_flags create_run_route)" by code_simp
  show "\<not> is_stage_enabled no_flags ''MILO_ENABLE_RUN_CREATION''" by code_simp
  show "pattern_matches (route_path create_run_route) ''/conversations/c/runs''" by code_simp
qed (simp_all add: post_def create_run_route_def)

text \<open>C36. A worker reaches a handler only while execution control is on and with a token that the verifier accepts for the
  configured audience, from Google, for a verified and approved service account within its rate limit: the
  flag alone never authorizes.\<close>

theorem worker_needs_flag_and_identity:
  assumes "serve w sc q l = (From_app (Inr (rt, Worker_service identity)), l')"
  shows "is_stage_enabled (s_env w) ''MILO_ENABLE_EXECUTION_CONTROL'' \<and>
    service_account_email identity \<in> set (approved_identities (s_env w)) \<and>
    (\<exists>tok claims. worker_header q = Some tok \<and> s_worker_verifier w tok (env_stripped (s_env w) ''MILO_WORKER_AUDIENCE'') = Some claims \<and>
      claim_text (s_show w) claims ''iss'' \<in> set GOOGLE_ISSUERS \<and> email_verified claims \<and>
      service_account_email identity = claims_email (s_show w) claims) \<and>
    enforce_rate_limit (s_env w) (s_sha w) (s_buckets w) (s_clock w) (s_store_clock w) (s_reply w)
      Worker_mutations (service_account_email identity) l = (None, l')"
proof -
  note s = served_worker [OF assms]
  from worker_routes s(1-3) have on: "is_stage_enabled (s_env w) ''MILO_ENABLE_EXECUTION_CONTROL''" by (auto simp: list_all_iff)
  from worker_token_verified [OF s(4)] on s(5) show ?thesis by fastforce
qed

lemma worker_needs_flag_and_identity_witness:
  "\<exists>l'. serve example_access (post ''/runs/r/claims'') example_api_request example_limiters =
      (From_app (Inr (create_claim_route, Worker_service example_worker)), l') \<and>
    is_stage_enabled open_env ''MILO_ENABLE_EXECUTION_CONTROL'' \<and> ''worker@milo'' \<in> set (approved_identities open_env)"
proof -
  obtain l' where l': "serve example_access (post ''/runs/r/claims'') example_api_request example_limiters =
      (From_app (Inr (create_claim_route, Worker_service example_worker)), l')"
    using example_worker_served by (metis prod.collapse)
  from worker_needs_flag_and_identity [OF this] l' show ?thesis by (simp add: example_access_def example_worker_def)
qed

text \<open>In production a browser user reaches a handler only behind a gateway whose own token was verified for an approved
  service account.\<close>

theorem production_browser_needs_gateway:
  assumes "serve w sc q l = (From_app (Inr (rt, Browser_user u)), l')" "is_production (s_env w)"
  shows "\<exists>g tok claims. user_gateway u = Some g \<and> gateway_header q = Some tok \<and>
    s_gateway_verifier w tok (env_stripped (s_env w) ''MILO_GATEWAY_AUDIENCE'') = Some claims \<and>
    service_account_email g = claims_email (s_show w) claims \<and> email_verified claims \<and>
    service_account_email g \<in> set (approved_gateway_identities (s_env w))"
proof -
  note g = served_browser [OF assms(1)]
  show ?thesis
  proof (cases "user_gateway u")
    case None
    with no_gateway_only_in_development g assms(2) show ?thesis by fastforce
  next
    case (Some i)
    with g have "verify_gateway_token (s_env w) (s_show w) (s_gateway_verifier w) (gateway_header q) = Inr (Some i)" by simp
    from gateway_token_verified [OF this] Some show ?thesis by auto
  qed
qed

lemma production_browser_needs_gateway_witness:
  "\<exists>g. user_gateway example_user = Some g \<and> service_account_email g \<in> set (approved_gateway_identities open_env)"
proof -
  obtain l' where l': "serve example_access (post ''/runs/r/cancel'') example_api_request example_limiters =
      (From_app (Inr (cancel_run_route, Browser_user example_user)), l')"
    using example_user_served by (metis prod.collapse)
  have "is_production (s_env example_access)" unfolding example_access_def by code_simp
  from production_browser_needs_gateway [OF l' this] show ?thesis by (auto simp: example_access_def)
qed

text \<open>With disjoint allowlists no identity is accepted in two roles, whatever the tokens; the scheduler's never is.\<close>

theorem roles_never_share_an_identity:
  assumes "set (approved_gateway_identities env) \<inter> set (approved_identities env) = {}"
  shows "(verify_worker_token env render v1 t1 = Inr a \<longrightarrow> verify_gateway_token env render v2 t2 = Inr (Some b) \<longrightarrow>
      service_account_email a \<noteq> service_account_email b) \<and>
    (verify_scheduler_token env render v3 t3 = Inr email \<longrightarrow>
      (verify_worker_token env render v1 t1 = Inr a \<longrightarrow> service_account_email a \<noteq> email) \<and>
      (verify_gateway_token env render v2 t2 = Inr (Some b) \<longrightarrow> service_account_email b \<noteq> email))"
proof -
  have "verify_worker_token env render v1 t1 = Inr a \<Longrightarrow> service_account_email a \<in> set (approved_identities env)"
    using worker_token_verified by blast
  moreover have "verify_gateway_token env render v2 t2 = Inr (Some b) \<Longrightarrow> service_account_email b \<in> set (approved_gateway_identities env)"
    using gateway_token_verified by blast
  moreover note scheduler_token_verified [of env render v3 t3 email]
  ultimately show ?thesis using assms by (auto simp: disjoint_iff)
qed

lemma roles_never_share_an_identity_witness:
  "verify_worker_token open_env (\<lambda>v. []) (example_verifier ''worker@milo'') (Some ''t'') = Inr example_worker \<and>
   verify_gateway_token open_env (\<lambda>v. []) (example_verifier ''gateway@milo'') (Some ''t'') = Inr (user_gateway example_user) \<and>
   service_account_email example_worker \<noteq> service_account_email (the (user_gateway example_user))"
proof -
  have "set (approved_gateway_identities open_env) \<inter> set (approved_identities open_env) = {}" by code_simp
  note apart = roles_never_share_an_identity [OF this, of "\<lambda>v. []" "example_verifier ''worker@milo''" "Some ''t''" example_worker
      "example_verifier ''gateway@milo''" "Some ''t''" "the (user_gateway example_user)"]
  have v: "verify_worker_token open_env (\<lambda>v. []) (example_verifier ''worker@milo'') (Some ''t'') = Inr example_worker"
    unfolding example_worker_def by code_simp
  have g: "verify_gateway_token open_env (\<lambda>v. []) (example_verifier ''gateway@milo'') (Some ''t'') = Inr (user_gateway example_user)"
    unfolding example_user_def by code_simp
  moreover have "user_gateway example_user = Some (the (user_gateway example_user))" by (simp add: example_user_def)
  ultimately have "verify_gateway_token open_env (\<lambda>v. []) (example_verifier ''gateway@milo'') (Some ''t'') = Inr (Some (the (user_gateway example_user)))"
    by simp
  with apart v g show ?thesis by blast
qed

text \<open>The routes without a rule pass the kill switch: while register capture is off a sync is refused by its handler only, so a
  malformed body is answered 422 and not 403.\<close>

theorem sync_is_not_ruled:
  "find_disabled_surface no_flags ''POST'' ''/projects/p/register/sync'' = None \<and>
   find_disabled_surface no_flags ''POST'' ''/projects/p/register/auto-sync'' = None \<and>
   pattern_matches (route_path request_register_sync_route) ''/projects/p/register/sync'' \<and>
   pattern_matches (route_path set_register_auto_sync_route) ''/projects/p/register/auto-sync'' \<and>
   admit w request_register_sync_route (q\<lparr>request_body := Unreadable\<rparr>) l = (Inl Request_invalid, l)"
proof -
  have "find_disabled_surface no_flags ''POST'' ''/projects/p/register/sync'' = None" by code_simp
  moreover have "find_disabled_surface no_flags ''POST'' ''/projects/p/register/auto-sync'' = None" by code_simp
  moreover have "pattern_matches (route_path request_register_sync_route) ''/projects/p/register/sync''" by code_simp
  moreover have "pattern_matches (route_path set_register_auto_sync_route) ''/projects/p/register/auto-sync''" by code_simp
  ultimately show ?thesis by (simp add: admit_def)
qed

end
