(* ===== verification/Policy_Safety.thy ===== *)
theory Policy_Safety
  imports Runtime_Policy Plan_Safety
begin

text \<open>
  A resolved paid policy is never wider than the reviewed one, a tighter one is never refused, and the
  budget, the plan limits and the provider limits built from it stay within the review.
\<close>

section \<open>The registry\<close>

definition well_declared :: "policy_dimension \<Rightarrow> bool" where
  "well_declared d = (0 < d_reviewed d \<and> \<not> is_wider d (d_reviewed d) \<and>
     (case d_runtime_default d of None \<Rightarrow> d_env_key d \<noteq> None | Some v \<Rightarrow> 0 < v \<and> (d_env_key d = None \<longrightarrow> \<not> is_wider d v)) \<and>
     (d_kind d = Int_kind \<longrightarrow> d_reviewed d = of_int (trunc_rat (d_reviewed d)) \<and>
        (case d_runtime_default d of None \<Rightarrow> True | Some v \<Rightarrow> v = of_int (trunc_rat v))))"

lemma dimensions_declared: "list_all well_declared POLICY_DIMENSIONS"
  by code_simp

lemma dimension_names: "distinct (map d_name POLICY_DIMENSIONS)"
  by code_simp

lemma reviewed_policy_consistent: "reviewed_policy_violations = []"
  by code_simp

lemma longest_call: "longest_provider_call_seconds = 660"
  by code_simp


lemma value_of_map: "distinct (map d_name ds) \<Longrightarrow> d \<in> set ds \<Longrightarrow> value_of (map (\<lambda>d. (d_name d, f d)) ds) (d_name d) = f d"
  by (induction ds) (auto simp: value_of_def, metis imageI)

definition named :: "string \<Rightarrow> direction \<Rightarrow> number_kind \<Rightarrow> rat \<Rightarrow> bool" where
  "named n dir k r = list_ex (\<lambda>d. d_name d = n \<and> d_direction d = dir \<and> d_kind d = k \<and> d_reviewed d = r) POLICY_DIMENSIONS"

section \<open>One dimension\<close>

definition dimension_ok :: "(string \<Rightarrow> string option) \<Rightarrow> policy_dimension \<Rightarrow> bool" where
  "dimension_ok env d =
     (if dimension_raw env d \<noteq> [] then (case parse_value d (dimension_raw env d) of None \<Rightarrow> False | Some v \<Rightarrow> \<not> is_wider d v)
      else \<not> mandatory_for_paid d)"

lemma parse_value_ok: "parse_value d raw = Some v \<Longrightarrow> 0 < v \<and> (d_kind d = Int_kind \<longrightarrow> v = of_int (trunc_rat v))"
  by (auto simp: parse_value_def trunc_rat_def split: option.splits number_kind.splits if_splits)

lemma violations_iff: "r_violations (resolve_dimension env True d) = [] \<longleftrightarrow> dimension_ok env d"
  by (auto simp: resolve_dimension_def dimension_ok_def Let_def split: option.split)

lemma resolved_dimension:
  assumes "well_declared d" "dimension_ok env d"
  shows "\<exists>v. r_value (resolve_dimension env True d) = Some v \<and> 0 < v \<and> \<not> is_wider d v \<and> (d_kind d = Int_kind \<longrightarrow> v = of_int (trunc_rat v))"
proof (cases "dimension_raw env d = []")
  case True
  with assms obtain v where v: "d_runtime_default d = Some v" "0 < v" "\<not> is_wider d v" "d_kind d = Int_kind \<longrightarrow> v = of_int (trunc_rat v)"
    by (auto simp: dimension_ok_def well_declared_def mandatory_for_paid_def split: option.splits if_splits)
  with True assms(2) show ?thesis by (auto simp: resolve_dimension_def dimension_ok_def Let_def)
next
  case False
  with assms(2) obtain v where v: "parse_value d (dimension_raw env d) = Some v" "\<not> is_wider d v"
    by (auto simp: dimension_ok_def split: option.splits)
  with False parse_value_ok [OF v(1)] show ?thesis by (auto simp: resolve_dimension_def Let_def)
qed

section \<open>The whole policy\<close>

definition paid_values :: "(string \<Rightarrow> string option) \<Rightarrow> policy_values" where
  "paid_values env = map (\<lambda>d. (d_name d, r_value (resolve_dimension env True d))) POLICY_DIMENSIONS"

lemma resolve_name: "r_name (resolve_dimension env paid d) = d_name d"
  by (simp add: resolve_dimension_def Let_def split: option.split)

lemma paid_violations:
  "policy_violations env (Some True) =
     concat (map (\<lambda>d. r_violations (resolve_dimension env True d)) POLICY_DIMENSIONS) @ catalog_posture_violations env
       @ invariant_violations (paid_values env)"
  by (simp add: policy_violations_def resolve_policy_def Let_def comp_def resolve_name paid_values_def reviewed_policy_consistent)

lemma paid_policy_values: "p_values (fst (resolve_policy env (Some True))) = paid_values env"
  by (simp add: resolve_policy_def Let_def comp_def resolve_name paid_values_def)

lemma paid_value:
  assumes "\<forall>d\<in>set POLICY_DIMENSIONS. dimension_ok env d" "named n Lower_is_tighter k r"
  shows "\<exists>v. value_of (paid_values env) n = Some v \<and> 0 < v \<and> v \<le> r \<and> (k = Int_kind \<longrightarrow> v = of_int (trunc_rat v))"
proof -
  from assms(2) obtain d where d: "d \<in> set POLICY_DIMENSIONS" "d_name d = n" "d_direction d = Lower_is_tighter" "d_kind d = k" "d_reviewed d = r"
    by (auto simp: named_def list_ex_iff)
  have "well_declared d" using dimensions_declared d(1) by (simp add: list_all_iff)
  from resolved_dimension [OF this] assms(1) d(1) obtain v where v: "r_value (resolve_dimension env True d) = Some v" "0 < v" "\<not> is_wider d v"
    "d_kind d = Int_kind \<longrightarrow> v = of_int (trunc_rat v)" by blast
  moreover have "value_of (paid_values env) n = r_value (resolve_dimension env True d)"
    unfolding paid_values_def using value_of_map [OF dimension_names d(1)] d(2) by simp
  ultimately show ?thesis using d by (auto simp: is_wider_def)
qed

lemma paid_value_above:
  assumes "\<forall>d\<in>set POLICY_DIMENSIONS. dimension_ok env d" "named n Higher_is_tighter k r"
  shows "\<exists>v. value_of (paid_values env) n = Some v \<and> r \<le> v"
proof -
  from assms(2) obtain d where d: "d \<in> set POLICY_DIMENSIONS" "d_name d = n" "d_direction d = Higher_is_tighter" "d_reviewed d = r"
    by (auto simp: named_def list_ex_iff)
  have "well_declared d" using dimensions_declared d(1) by (simp add: list_all_iff)
  from resolved_dimension [OF this] assms(1) d(1) obtain v where v: "r_value (resolve_dimension env True d) = Some v" "\<not> is_wider d v" by blast
  moreover have "value_of (paid_values env) n = r_value (resolve_dimension env True d)"
    unfolding paid_values_def using value_of_map [OF dimension_names d(1)] d(2) by simp
  ultimately show ?thesis using d by (auto simp: is_wider_def)
qed

lemma reviewed_names:
  "named ''hard_monetary_cap_usd'' Lower_is_tighter Float_kind 3" "named ''max_estimated_cost_per_run'' Lower_is_tighter Float_kind 3"
  "named ''max_cost_per_run'' Lower_is_tighter Float_kind 3" "named ''max_run_duration_seconds'' Lower_is_tighter Int_kind 1800"
  "named ''max_model_calls_per_run'' Lower_is_tighter Int_kind 150" "named ''max_agent_steps'' Lower_is_tighter Int_kind 56"
  "named ''max_output_tokens_per_run'' Lower_is_tighter Int_kind 400000" "named ''max_total_tokens_per_run'' Lower_is_tighter Int_kind 900000"
  "named ''max_input_tokens_per_run'' Lower_is_tighter Int_kind 500000" "named ''max_retries'' Lower_is_tighter Int_kind 15"
  "named ''max_tasks'' Lower_is_tighter Int_kind 23" "named ''max_tool_calls'' Lower_is_tighter Int_kind 24" "named ''max_replans'' Lower_is_tighter Int_kind 1"
  "named ''max_tool_calls_per_task'' Lower_is_tighter Int_kind 4" "named ''max_graph_depth'' Lower_is_tighter Int_kind 12"
  "named ''max_recursion_depth'' Lower_is_tighter Int_kind 4" "named ''max_cost_units'' Lower_is_tighter Int_kind 100000"
  "named ''provider_max_concurrency'' Lower_is_tighter Int_kind 2" "named ''provider_rpm_limit'' Lower_is_tighter Int_kind 40"
  "named ''provider_tpm_limit'' Lower_is_tighter Int_kind 1200000" "named ''provider_max_rate_limit_retries'' Lower_is_tighter Int_kind 5"
  "named ''provider_max_backpressure_wait_seconds'' Lower_is_tighter Float_kind 240"
  "named ''max_search_invocations_per_run'' Lower_is_tighter Int_kind 60" "named ''daily_user_budget'' Lower_is_tighter Float_kind 10"
  "named ''daily_project_budget'' Lower_is_tighter Float_kind 10"
  "named ''estimated_cost_per_call'' Higher_is_tighter Float_kind (1/50)" "named ''search_cost_per_invocation'' Higher_is_tighter Float_kind (3/1000)"
  by code_simp+

lemma no_invariant_violations:
  assumes "\<forall>d\<in>set POLICY_DIMENSIONS. dimension_ok env d"
  shows "invariant_violations (paid_values env) = []"
proof -
  note v = paid_value [OF assms]
  obtain t where t: "value_of (paid_values env) ''max_run_duration_seconds'' = Some t" "t \<le> 1800" "t = of_int (trunc_rat t)"
    using v [OF reviewed_names(4)] by auto
  have cap: "value_of (paid_values env) ''hard_monetary_cap_usd'' = Some 3"
  proof -
    have "list_ex (\<lambda>d. d_name d = ''hard_monetary_cap_usd'' \<and> d_env_key d = None \<and> d_runtime_default d = Some 3) POLICY_DIMENSIONS" by code_simp
    then obtain d where d: "d \<in> set POLICY_DIMENSIONS" "d_name d = ''hard_monetary_cap_usd''" "d_env_key d = None" "d_runtime_default d = Some 3"
      by (auto simp: list_ex_iff)
    then have "r_value (resolve_dimension env True d) = Some 3" by (simp add: resolve_dimension_def dimension_raw_def mandatory_for_paid_def Let_def)
    then show ?thesis unfolding paid_values_def using value_of_map [OF dimension_names d(1)] d(2) by simp
  qed
  obtain a b where ab: "value_of (paid_values env) ''max_estimated_cost_per_run'' = Some a" "a \<le> 3"
    "value_of (paid_values env) ''max_cost_per_run'' = Some b" "b \<le> 3"
    using v [OF reviewed_names(2)] v [OF reviewed_names(3)] by auto
  have "\<not> 3600 \<le> rat_of_int (trunc_rat t)" "\<not> 3600 \<le> rat_of_int (trunc_rat t) + 660" using t(2,3) by linarith+
  with t(1) cap ab show ?thesis by (simp add: invariant_violations_def WORKER_JOB_TIMEOUT_SECONDS_def longest_call)
qed

lemma accepted_dimensions:
  assumes "policy_violations env (Some True) = []"
  shows "\<forall>d\<in>set POLICY_DIMENSIONS. dimension_ok env d"
  using assms by (simp add: paid_violations violations_iff)

lemma resolved_paid:
  assumes "resolve_runtime_policy env (Some True) = Inr p"
  shows "policy_violations env (Some True) = []" "p_values p = paid_values env"
  using assms paid_policy_values [of env] by (auto simp: resolve_runtime_policy_def policy_violations_def split: prod.splits if_splits)


lemma trunc_le: "0 < v \<Longrightarrow> v \<le> of_int n \<Longrightarrow> trunc_rat v \<le> n"
  by (simp add: trunc_rat_def) linarith

lemma trunc_pos: "0 < v \<Longrightarrow> v = of_int (trunc_rat v) \<Longrightarrow> 0 < trunc_rat v"
  by (metis of_int_0_less_iff)

lemma paid_int:
  assumes "\<forall>d\<in>set POLICY_DIMENSIONS. dimension_ok env d" "named n Lower_is_tighter Int_kind (of_int r)"
  shows "\<exists>k. int_value (paid_values env) n = Some k \<and> 0 < k \<and> k \<le> r"
proof -
  from paid_value [OF assms] obtain v where v: "value_of (paid_values env) n = Some v" "0 < v" "v \<le> of_int r" "v = of_int (trunc_rat v)" by auto
  then show ?thesis using trunc_le [of v r] trunc_pos [of v] by (simp add: int_value_def)
qed

text \<open>The dimensions of a surface, for a policy whose dimensions are all in order.\<close>

lemma paid_ints:
  assumes ok: "\<forall>d\<in>set POLICY_DIMENSIONS. dimension_ok env d"
  shows "\<exists>k. int_value (paid_values env) ''max_model_calls_per_run'' = Some k \<and> 0 < k \<and> k \<le> 150"
    "\<exists>k. int_value (paid_values env) ''max_agent_steps'' = Some k \<and> 0 < k \<and> k \<le> 56"
    "\<exists>k. int_value (paid_values env) ''max_output_tokens_per_run'' = Some k \<and> 0 < k \<and> k \<le> 400000"
    "\<exists>k. int_value (paid_values env) ''max_total_tokens_per_run'' = Some k \<and> 0 < k \<and> k \<le> 900000"
    "\<exists>k. int_value (paid_values env) ''max_retries'' = Some k \<and> 0 < k \<and> k \<le> 15"
    "\<exists>k. int_value (paid_values env) ''max_run_duration_seconds'' = Some k \<and> 0 < k \<and> k \<le> 1800"
    "\<exists>k. int_value (paid_values env) ''max_search_invocations_per_run'' = Some k \<and> 0 < k \<and> k \<le> 60"
    "\<exists>k. int_value (paid_values env) ''max_tasks'' = Some k \<and> 0 < k \<and> k \<le> 23"
    "\<exists>k. int_value (paid_values env) ''max_tool_calls'' = Some k \<and> 0 < k \<and> k \<le> 24"
    "\<exists>k. int_value (paid_values env) ''max_replans'' = Some k \<and> 0 < k \<and> k \<le> 1"
    "\<exists>k. int_value (paid_values env) ''max_tool_calls_per_task'' = Some k \<and> 0 < k \<and> k \<le> 4"
    "\<exists>k. int_value (paid_values env) ''max_graph_depth'' = Some k \<and> 0 < k \<and> k \<le> 12"
    "\<exists>k. int_value (paid_values env) ''max_recursion_depth'' = Some k \<and> 0 < k \<and> k \<le> 4"
    "\<exists>k. int_value (paid_values env) ''max_cost_units'' = Some k \<and> 0 < k \<and> k \<le> 100000"
    "\<exists>k. int_value (paid_values env) ''provider_max_concurrency'' = Some k \<and> 0 < k \<and> k \<le> 2"
    "\<exists>k. int_value (paid_values env) ''provider_rpm_limit'' = Some k \<and> 0 < k \<and> k \<le> 40"
    "\<exists>k. int_value (paid_values env) ''provider_tpm_limit'' = Some k \<and> 0 < k \<and> k \<le> 1200000"
    "\<exists>k. int_value (paid_values env) ''provider_max_rate_limit_retries'' = Some k \<and> 0 < k \<and> k \<le> 5"
  using reviewed_names by (auto intro!: paid_int [OF ok])

lemma paid_budget:
  assumes ok: "\<forall>d\<in>set POLICY_DIMENSIONS. dimension_ok env d" and p: "p_values p = paid_values env"
  shows "\<exists>k. max_model_calls_per_run (paid_budget_config p) = Some k \<and> 0 < k \<and> k \<le> 150"
    "\<exists>k. max_agent_steps (paid_budget_config p) = Some k \<and> 0 < k \<and> k \<le> 56"
    "\<exists>k. max_output_tokens_per_run (paid_budget_config p) = Some k \<and> 0 < k \<and> k \<le> 400000"
    "\<exists>k. max_search_invocations_per_run (paid_budget_config p) = Some k \<and> 0 < k \<and> k \<le> 60"
    "\<exists>x. max_cost_per_run (paid_budget_config p) = Some (Finite x) \<and> 0 < x \<and> x \<le> 3"
    "1 / 50 \<le> estimated_cost_per_call (paid_budget_config p) \<and> 3 / 1000 \<le> search_cost_per_invocation (paid_budget_config p)"
proof -
  note c = paid_budget_config_def Let_def p
  note i = paid_ints [OF ok]
  show "\<exists>k. max_model_calls_per_run (paid_budget_config p) = Some k \<and> 0 < k \<and> k \<le> 150" using i(1) by (simp add: c)
  show "\<exists>k. max_agent_steps (paid_budget_config p) = Some k \<and> 0 < k \<and> k \<le> 56" using i(2) by (simp add: c)
  show "\<exists>k. max_output_tokens_per_run (paid_budget_config p) = Some k \<and> 0 < k \<and> k \<le> 400000" using i(3) by (simp add: c)
  show "\<exists>k. max_search_invocations_per_run (paid_budget_config p) = Some k \<and> 0 < k \<and> k \<le> 60" using i(7) by (simp add: c)
  show "\<exists>x. max_cost_per_run (paid_budget_config p) = Some (Finite x) \<and> 0 < x \<and> x \<le> 3"
    using paid_value [OF ok reviewed_names(3)] by (auto simp: c float_value_def)
  show "1 / 50 \<le> estimated_cost_per_call (paid_budget_config p) \<and> 3 / 1000 \<le> search_cost_per_invocation (paid_budget_config p)"
    using paid_value_above [OF ok reviewed_names(26)] paid_value_above [OF ok reviewed_names(27)] by (auto simp: c or_rate_def)
qed

lemma shrink_for_ge: "1 \<le> n \<Longrightarrow> 1 \<le> shrink_for b r n"
proof -
  have "1 \<le> m \<Longrightarrow> 1 \<le> shrink_tasks b r m" for b m
  proof (induction b r m rule: shrink_tasks.induct)
    case (1 b r m)
    then show ?case by (subst shrink_tasks.simps) (auto simp: Let_def)
  qed
  then show "1 \<le> n \<Longrightarrow> 1 \<le> shrink_for b r n" by (simp add: shrink_for_def split: option.split)
qed

lemma paid_limits:
  assumes ok: "\<forall>d\<in>set POLICY_DIMENSIONS. dimension_ok env d" and p: "p_values p = paid_values env"
  shows "\<exists>l. paid_plan_limits p = Some l \<and> 1 \<le> max_tasks l \<and> max_tasks l \<le> 23 \<and> max_tool_calls l \<le> 24 \<and> max_replans l \<le> 1 \<and>
    max_tool_calls_per_task l \<le> 4 \<and> max_graph_depth l \<le> 12 \<and> max_recursion_depth l \<le> 4 \<and> max_cost_units l \<le> 100000"
proof -
  note i = paid_ints [OF ok]
  obtain tasks calls replans per depth rec cost where k:
    "int_value (paid_values env) ''max_tasks'' = Some tasks" "0 < tasks" "tasks \<le> 23"
    "int_value (paid_values env) ''max_tool_calls'' = Some calls" "0 < calls" "calls \<le> 24"
    "int_value (paid_values env) ''max_replans'' = Some replans" "0 < replans" "replans \<le> 1"
    "int_value (paid_values env) ''max_tool_calls_per_task'' = Some per" "0 < per" "per \<le> 4"
    "int_value (paid_values env) ''max_graph_depth'' = Some depth" "0 < depth" "depth \<le> 12"
    "int_value (paid_values env) ''max_recursion_depth'' = Some rec" "0 < rec" "rec \<le> 4"
    "int_value (paid_values env) ''max_cost_units'' = Some cost" "0 < cost" "cost \<le> 100000"
    using i(8-14) by blast
  obtain l where l: "paid_plan_limits p = Some l"
  proof -
    have "1 \<le> shrink_for a r (shrink_for b r (min 64 tasks))" for a b r using k(2) by (intro shrink_for_ge) simp
    then have "\<not> shrink_for a r (shrink_for b r (min 64 tasks)) < 0" for a b r by (metis dual_order.strict_trans1 less_irrefl zero_less_one order_less_le_trans linorder_not_less order.strict_trans)
    with k show thesis using that
      by (auto simp: paid_plan_limits_def Let_def p from_envelope_def narrow_def default_plan_limits_def MAX_TOOL_CALLS_PER_TASK_def split: if_splits)
  qed
  note f = from_envelope_fields [OF l [unfolded paid_plan_limits_def Let_def p]]
  have "narrow (max_tasks default_plan_limits) (Some tasks) \<le> tasks" by (rule narrow_le) simp
  from order_trans [OF shrink_for_le order_trans [OF shrink_for_le this]] have "max_tasks l \<le> tasks" unfolding f(2) by (simp add: k)
  moreover have "1 \<le> narrow (max_tasks default_plan_limits) (Some tasks)" using k(2) by (simp add: narrow_def default_plan_limits_def)
  from shrink_for_ge [OF shrink_for_ge [OF this]] have "1 \<le> max_tasks l" unfolding f(2) by (simp add: k)
  moreover have "max_tool_calls l \<le> 24" "max_replans l \<le> 1" "max_tool_calls_per_task l \<le> 4" "max_graph_depth l \<le> 12"
    "max_recursion_depth l \<le> 4" "max_cost_units l \<le> 100000"
    unfolding f(1,3-7) using k by (simp_all add: narrow_def default_plan_limits_def MAX_TOOL_CALLS_PER_TASK_def)
  ultimately show ?thesis using l k(3) by (intro exI [of _ l]) simp
qed


lemma paid_provider:
  assumes ok: "\<forall>d\<in>set POLICY_DIMENSIONS. dimension_ok env d" and p: "p_values p = paid_values env"
  shows "\<exists>c n m. paid_provider_limits p = Inr c \<and> 0 < max_concurrent c \<and> max_concurrent c \<le> 2 \<and> rpm_limit c = Some n \<and> n \<le> 40 \<and>
    tpm_limit c = Some m \<and> m \<le> 1200000 \<and> max_rate_limit_retries c \<le> 5 \<and>
    (\<exists>x. max_backpressure_wait c = Finite x \<and> 0 < x \<and> x \<le> 240)"
proof -
  obtain conc rpm tpm tries where k:
    "int_value (paid_values env) ''provider_max_concurrency'' = Some conc" "0 < conc" "conc \<le> 2"
    "int_value (paid_values env) ''provider_rpm_limit'' = Some rpm" "rpm \<le> 40"
    "int_value (paid_values env) ''provider_tpm_limit'' = Some tpm" "tpm \<le> 1200000"
    "int_value (paid_values env) ''provider_max_rate_limit_retries'' = Some tries" "tries \<le> 5"
    using paid_ints(15-18) [OF ok] by blast
  obtain x where x: "value_of (paid_values env) ''provider_max_backpressure_wait_seconds'' = Some x" "0 < x" "x \<le> 240"
    using paid_value [OF ok reviewed_names(22)] by blast
  have "assert_within_organization_ceiling \<lparr>max_concurrent = conc, rpm_limit = Some rpm, tpm_limit = Some tpm, max_rate_limit_retries = t,
      max_backpressure_wait = w, backoff_base = a, backoff_max = b\<rparr> = None" for t w a b
    using k by (simp add: assert_within_organization_ceiling_def over_def org_ceilings)
  with k x show ?thesis by (simp add: paid_provider_limits_def Let_def p or_default_def float_value_def)
qed

section \<open>Environments\<close>

definition env_of :: "(string \<times> string) list \<Rightarrow> string \<Rightarrow> string option" where
  "env_of kvs = map_of kvs"

definition reviewed_env_list :: "(string \<times> string) list" where
  "reviewed_env_list = [
     (''MILO_MAX_MODEL_CALLS_PER_RUN'', ''150''), (''MILO_MAX_INPUT_TOKENS_PER_RUN'', ''500000''),
     (''MILO_MAX_OUTPUT_TOKENS_PER_RUN'', ''400000''), (''MILO_MAX_TOTAL_TOKENS_PER_RUN'', ''900000''),
     (''MILO_MAX_ESTIMATED_COST_PER_RUN'', ''3.00''), (''MILO_MAX_COST_PER_RUN'', ''3.00''),
     (''MILO_MAX_RUN_DURATION_SECONDS'', ''1800''), (''MILO_MAX_AGENT_STEPS'', ''56''),
     (''MILO_MAX_RETRIES'', ''15''), (''MILO_MAX_CONCURRENT_RUNS_PER_USER'', ''1''),
     (''MILO_MAX_CONCURRENT_RUNS_PER_PROJECT'', ''1''), (''MILO_DAILY_USER_BUDGET'', ''10.00''),
     (''MILO_DAILY_PROJECT_BUDGET'', ''10.00''), (''MILO_ESTIMATED_COST_PER_CALL'', ''0.02''),
     (''MILO_MAX_TASKS_PER_RUN'', ''23''), (''MILO_MAX_TOOL_CALLS_PER_RUN'', ''24''),
     (''MILO_MAX_REPLANS_PER_RUN'', ''1''), (''MILO_PROVIDER_MAX_CONCURRENCY'', ''2''),
     (''MILO_PROVIDER_RPM_LIMIT'', ''40''), (''MILO_PROVIDER_TPM_LIMIT'', ''1200000''),
     (''MILO_PROVIDER_MAX_RATE_LIMIT_RETRIES'', ''5''), (''MILO_PROVIDER_MAX_BACKPRESSURE_WAIT_SECONDS'', ''240''),
     (''MILO_PROVIDER_BACKOFF_BASE_SECONDS'', ''2''), (''MILO_PROVIDER_BACKOFF_MAX_SECONDS'', ''30''),
     (''MILO_V1_TECHNICAL_PARALLELISM'', ''4''), (''MILO_SWARM_MAX_ACTIVE_WORKERS'', ''2'')]"

definition reviewed_env :: "string \<Rightarrow> string option" where
  "reviewed_env = env_of reviewed_env_list"

lemma reviewed_env_accepted: "policy_violations reviewed_env (Some True) = []"
  by code_simp

lemma reviewed_env_values:
  "list_all (\<lambda>d. d_env_key d \<noteq> None \<longrightarrow> value_of (paid_values reviewed_env) (d_name d) = Some (d_reviewed d)) POLICY_DIMENSIONS"
  by code_simp

lemma reviewed_value: "d \<in> set POLICY_DIMENSIONS \<Longrightarrow> value_of reviewed_values (d_name d) = Some (d_reviewed d)"
  unfolding reviewed_values_def by (rule value_of_map [OF dimension_names])

definition expected_text :: "policy_dimension \<Rightarrow> string option" where
  "expected_text d = (if d_env_key d = None then Some [] else format_value d (Some (d_reviewed d)))"

lemma digit_chars:
  "char_of (48 :: nat) = CHR ''0''" "char_of (49 :: nat) = CHR ''1''" "char_of (50 :: nat) = CHR ''2''" "char_of (51 :: nat) = CHR ''3''" "char_of (52 :: nat) = CHR ''4''" "char_of (53 :: nat) = CHR ''5''" "char_of (54 :: nat) = CHR ''6''" "char_of (55 :: nat) = CHR ''7''" "char_of (56 :: nat) = CHR ''8''" "char_of (57 :: nat) = CHR ''9''"
  by code_simp+

lemma formats: "map expected_text POLICY_DIMENSIONS = map (\<lambda>d. Some (case d_env_key d of None \<Rightarrow> [] | Some k \<Rightarrow> the (map_of reviewed_env_list k))) POLICY_DIMENSIONS"
proof -
  have "map (\<lambda>d. Some (case d_env_key d of None \<Rightarrow> [] | Some k \<Rightarrow> the (map_of reviewed_env_list k))) POLICY_DIMENSIONS = map Some [''150'', ''500000'', ''400000'', ''900000'', ''3.00'', ''3.00'', ''1800'', ''56'', ''15'', ''1'', ''1'', ''10.00'', ''10.00'', ''0.02'', ''23'', ''24'', ''1'', [], [], [], [], ''2'', ''40'', ''1200000'', ''5'', ''240'', ''2'', ''30'', ''4'', ''2'', [], [], [], [], [], [], []]"
    by code_simp
  moreover have "map expected_text POLICY_DIMENSIONS = map Some [''150'', ''500000'', ''400000'', ''900000'', ''3.00'', ''3.00'', ''1800'', ''56'', ''15'', ''1'', ''1'', ''10.00'', ''10.00'', ''0.02'', ''23'', ''24'', ''1'', [], [], [], [], ''2'', ''40'', ''1200000'', ''5'', ''240'', ''2'', ''30'', ''4'', ''2'', [], [], [], [], [], [], []]"
    by (simp add: POLICY_DIMENSIONS_def dimension_def expected_text_def
      format_value_def fixed_text_def padded_def Let_def signed_decimal_def trunc_rat_def round_half_even_def digit_chars)
  ultimately show ?thesis by simp
qed

lemma reviewed_expectations: "env_expectations reviewed_first_run_policy = Some reviewed_env_list"
proof -
  have each: "format_value d (value_of (p_values reviewed_first_run_policy) (d_name d)) = Some (the (map_of reviewed_env_list (the (d_env_key d))))"
    if "d \<in> set POLICY_DIMENSIONS" "d_env_key d \<noteq> None" for d
    using that formats reviewed_value [OF that(1)] by (auto simp: reviewed_first_run_policy_def expected_text_def dest!: map_eq_conv [THEN iffD1])
  let ?ds = "filter (\<lambda>d. d_env_key d \<noteq> None) POLICY_DIMENSIONS"
  let ?keys = "map (\<lambda>d. the (d_env_key d)) ?ds"
  have ts: "map (\<lambda>d. format_value d (value_of (p_values reviewed_first_run_policy) (d_name d))) ?ds =
      map (\<lambda>k. Some (the (map_of reviewed_env_list k))) ?keys"
    using each by simp
  have keys: "?keys = map fst reviewed_env_list" by code_simp
  have texts: "map (\<lambda>k. the (map_of reviewed_env_list k)) (map fst reviewed_env_list) = map snd reviewed_env_list" by code_simp
  have "env_expectations reviewed_first_run_policy = Some (zip (map fst reviewed_env_list) (map (\<lambda>k. the (map_of reviewed_env_list k)) (map fst reviewed_env_list)))"
    unfolding env_expectations_def Let_def ts keys by (simp add: comp_def image_iff)
  then show ?thesis unfolding texts by (simp add: zip_map_fst_snd)
qed

section \<open>What the policy promises\<close>

text \<open>C11. A paid policy that resolves is never wider than the review: every dimension has a positive value, and no
  value is wider than the reviewed one.\<close>

theorem paid_policy_never_wider:
  assumes "resolve_runtime_policy env (Some True) = Inr p" "d \<in> set POLICY_DIMENSIONS"
  shows "\<exists>v. value_of (p_values p) (d_name d) = Some v \<and> 0 < v \<and> \<not> is_wider d v"
proof -
  note r = resolved_paid [OF assms(1)]
  have "well_declared d" using dimensions_declared assms(2) by (simp add: list_all_iff)
  from resolved_dimension [OF this, of env] accepted_dimensions [OF r(1)] assms(2)
  show ?thesis unfolding r(2) paid_values_def value_of_map [OF dimension_names assms(2)] by blast
qed

text \<open>C12. Tightening is never refused: a paid environment has no violation exactly when its catalog flags are coherent, every
  dimension it sets is a positive number no wider than reviewed, and it sets every dimension whose default is
  wider.\<close>

theorem tightening_is_never_refused:
  "policy_violations env (Some True) = [] \<longleftrightarrow>
     catalog_posture_violations env = [] \<and> list_all (dimension_ok env) POLICY_DIMENSIONS"
  using accepted_dimensions [of env] no_invariant_violations [of env]
  by (auto simp: paid_violations violations_iff list_all_iff)


text \<open>The environment the reviewed policy publishes resolves, in the paid posture, to the reviewed values.\<close>

theorem reviewed_expectations_resolve:
  "\<exists>kvs p. env_expectations reviewed_first_run_policy = Some kvs \<and> resolve_runtime_policy (map_of kvs) (Some True) = Inr p \<and>
     list_all (\<lambda>d. value_of (p_values p) (d_name d) = Some (d_reviewed d)) (filter (\<lambda>d. d_env_key d \<noteq> None) POLICY_DIMENSIONS)"
proof -
  obtain p where p: "resolve_runtime_policy reviewed_env (Some True) = Inr p"
    using reviewed_env_accepted by (cases "resolve_policy reviewed_env (Some True)") (auto simp: resolve_runtime_policy_def policy_violations_def)
  from resolved_paid(2) [OF this] reviewed_env_values reviewed_expectations p show ?thesis
    by (intro exI [of _ reviewed_env_list] exI [of _ p]) (auto simp: reviewed_env_def env_of_def list_all_iff)
qed

lemma paid_policy_never_wider_witness:
  "\<exists>p v. resolve_runtime_policy reviewed_env (Some True) = Inr p \<and> value_of (p_values p) (d_name (POLICY_DIMENSIONS ! 5)) = Some v \<and>
     0 < v \<and> \<not> is_wider (POLICY_DIMENSIONS ! 5) v"
proof -
  obtain p where p: "resolve_runtime_policy reviewed_env (Some True) = Inr p"
    using reviewed_env_accepted by (cases "resolve_policy reviewed_env (Some True)") (auto simp: resolve_runtime_policy_def policy_violations_def)
  have "5 < length POLICY_DIMENSIONS" by code_simp
  from paid_policy_never_wider [OF p nth_mem [OF this]] p show ?thesis by blast
qed


section \<open>Where the wire form fails\<close>

definition wait_env :: "string \<Rightarrow> string option" where
  "wait_env = reviewed_env(''MILO_PROVIDER_MAX_BACKPRESSURE_WAIT_SECONDS'' \<mapsto> ''200.5'')"

text \<open>A tighter wait of 200.5 seconds is accepted and enforced, and the accepted policy cannot be written down: its
  document, and with it the fingerprint, raises.\<close>

theorem accepted_policy_without_document:
  "policy_violations wait_env (Some True) = [] \<and> policy_document (fst (resolve_policy wait_env (Some True))) = None"
proof -
  have ok: "policy_violations wait_env (Some True) = []" by code_simp
  have v: "value_of (paid_values wait_env) ''provider_max_backpressure_wait_seconds'' = Some (401 / 2)" by code_simp
  have "list_ex (\<lambda>d. d_name d = ''provider_max_backpressure_wait_seconds'' \<and> d_format d = Fmt_int) POLICY_DIMENSIONS" by code_simp
  then obtain d where d: "d \<in> set POLICY_DIMENSIONS" "d_name d = ''provider_max_backpressure_wait_seconds''" "d_format d = Fmt_int"
    by (auto simp: list_ex_iff)
  have "trunc_rat (401 / 2) = 200" by code_simp
  with d v have "dimension_entry (fst (resolve_policy wait_env (Some True))) d = None"
    by (simp add: dimension_entry_def paid_policy_values format_value_def)
  with d(1) have "None \<in> set (map (dimension_entry (fst (resolve_policy wait_env (Some True)))) POLICY_DIMENSIONS)" by force
  with ok show ?thesis by (simp add: policy_document_def Let_def)
qed

text \<open>Two different reservation rates have one wire form, so two policies share a fingerprint.\<close>

theorem different_rates_same_text:
  "list_all (\<lambda>d. format_value d (Some (21 / 1000)) = format_value d (Some (24 / 1000)))
     (filter (\<lambda>d. d_name d = ''estimated_cost_per_call'') POLICY_DIMENSIONS)"
  by code_simp

end
