(* ===== verification/Identity_Safety.thy ===== *)
theory Identity_Safety
  imports Run_Identity Policy_Safety
begin

text \<open>
  A bound identity is read back exactly, reading is canonical, an identity in force is never rewritten,
  and two identities that may execute in one deployment differ at most in the run they name.
\<close>

section \<open>Texts\<close>

lemma strip_no_space: "list_all (\<lambda>c. \<not> is_space c) s \<Longrightarrow> py_strip s = s"
proof -
  assume a: "list_all (\<lambda>c. \<not> is_space c) s"
  then have "dropWhile is_space s = s" by (cases s) auto
  moreover have "dropWhile is_space (rev s) = rev s" using a by (cases "rev s") (auto simp: list_all_iff dest: arg_cong [where f = set])
  ultimately show ?thesis by (simp add: py_strip_def)
qed

lemma dropWhile_last: "dropWhile P s \<noteq> [] \<Longrightarrow> last (dropWhile P s) = last s"
  by (induction s) auto

lemma strip_idem [simp]: "py_strip (py_strip s) = py_strip s"
proof (cases "py_strip s")
  case (Cons c cs)
  define a where "a = dropWhile is_space s"
  define b where "b = dropWhile is_space (rev a)"
  have strip: "py_strip s = rev b" by (simp add: py_strip_def a_def b_def)
  then have b: "b \<noteq> []" using Cons by auto
  then have a: "a \<noteq> []" by (auto simp: b_def)
  have "last b = last (rev a)" using b dropWhile_last unfolding b_def by blast
  then have "hd (rev b) = hd a" using a b by (simp add: hd_rev last_rev)
  moreover have "\<not> is_space (hd a)" using a hd_dropWhile unfolding a_def by blast
  ultimately have first: "dropWhile is_space (rev b) = rev b" using b by (cases "rev b") auto
  have "\<not> is_space (hd b)" using b hd_dropWhile unfolding b_def by blast
  then have "dropWhile is_space b = b" using b by (cases b) auto
  with first show ?thesis unfolding strip by (simp add: py_strip_def)
next
  case Nil
  show ?thesis unfolding Nil by (simp add: py_strip_def)
qed

definition is_hex :: "char \<Rightarrow> bool" where
  "is_hex c = (c \<in> set ''0123456789abcdef'')"

lemma hex_text_iff: "hex_text s = list_all is_hex s"
  by (simp only: hex_text_def is_hex_def [abs_def])

lemma hex_chars: "is_hex c \<Longrightarrow>
  \<not> is_space c \<and> lower_char c = c \<and> c \<notin> set ''-+xX_{}u'' \<and> hex_digit_value c \<noteq> None"
proof -
  have "list_all (\<lambda>c. \<not> is_space c \<and> lower_char c = c \<and> c \<notin> set ''-+xX_{}u'' \<and> hex_digit_value c \<noteq> None) ''0123456789abcdef''"
    by code_simp
  then show "is_hex c \<Longrightarrow> \<not> is_space c \<and> lower_char c = c \<and> c \<notin> set ''-+xX_{}u'' \<and> hex_digit_value c \<noteq> None"
    unfolding list_all_iff is_hex_def by blast
qed

lemma hex_char_ok: "d < 16 \<Longrightarrow> is_hex (hex_char d) \<and> hex_digit_value (hex_char d) = Some d"
proof -
  have "list_all (\<lambda>d. is_hex (hex_char d) \<and> hex_digit_value (hex_char d) = Some d) [0..<16]" by code_simp
  then show "d < 16 \<Longrightarrow> is_hex (hex_char d) \<and> hex_digit_value (hex_char d) = Some d"
    by (simp add: list_all_iff)
qed

lemma hex_text_strip: "hex_text s \<Longrightarrow> py_strip s = s"
  using hex_chars by (intro strip_no_space) (auto simp: hex_text_iff list_all_iff)

lemma hex_text_lower: "hex_text s \<Longrightarrow> py_lower s = s"
  using hex_chars by (auto simp: hex_text_iff py_lower_def list_all_iff intro: map_idI)

section \<open>The text of a UUID\<close>

lemma hex_fixed_props: "length (hex_fixed n m) = n \<and> hex_text (hex_fixed n m)"
  by (induction n arbitrary: m) (auto simp: hex_text_iff hex_char_ok)

lemma hex_digits_append:
  "list_all (\<lambda>c. c \<noteq> CHR ''_'' \<and> hex_digit_value c \<noteq> None) xs \<Longrightarrow>
     hex_digits b acc (xs @ ys) = hex_digits (b \<or> xs \<noteq> []) (foldl (\<lambda>a c. 16 * a + the (hex_digit_value c)) acc xs) ys"
  by (induction xs arbitrary: b acc) auto

lemma hex_fixed_digits: "list_all (\<lambda>c. c \<noteq> CHR ''_'' \<and> hex_digit_value c \<noteq> None) (hex_fixed n m)"
proof -
  have "list_all is_hex (hex_fixed n m)" using hex_fixed_props by (simp add: hex_text_iff)
  moreover have "is_hex c \<Longrightarrow> c \<noteq> CHR ''_'' \<and> hex_digit_value c \<noteq> None" for c using hex_chars [of c] by auto
  ultimately show ?thesis unfolding list_all_iff by blast
qed

lemma hex_fixed_value: "foldl (\<lambda>a c. 16 * a + the (hex_digit_value c)) acc (hex_fixed n m) = acc * 16 ^ n + m mod 16 ^ n"
proof (induction n arbitrary: m acc)
  case (Suc n)
  have "16 * (m div 16 mod 16 ^ n) + m mod 16 = m mod 16 ^ Suc n"
    by (simp add: mod_mult2_eq)
  moreover have "foldl (\<lambda>a c. 16 * a + the (hex_digit_value c)) acc (hex_fixed (Suc n) m)
      = 16 * (acc * 16 ^ n + m div 16 mod 16 ^ n) + m mod 16"
    by (simp add: Suc hex_char_ok)
  ultimately show ?case by (simp add: distrib_left)
qed simp

lemma hex_fixed_reads: "0 < n \<Longrightarrow> hex_digits False 0 (hex_fixed n m) = Some (m mod 16 ^ n)"
  using hex_digits_append [OF hex_fixed_digits, of False 0 n m "[]"] hex_fixed_value [of 0 n m] hex_fixed_props [of n m] by auto

lemma remove_text_absent: "t \<noteq> [] \<Longrightarrow> hd t \<notin> set s \<Longrightarrow> remove_text t s 0 = s"
proof (induction s)
  case (Cons c s)
  have "take (length t) (c # s) \<noteq> t" using Cons.prems by (cases t) auto
  with Cons show ?case by simp
qed simp

lemma strip_braces_absent: "CHR ''{'' \<notin> set s \<Longrightarrow> CHR ''}'' \<notin> set s \<Longrightarrow> strip_braces s = s"
proof -
  assume a: "CHR ''{'' \<notin> set s" "CHR ''}'' \<notin> set s"
  have "dropWhile (\<lambda>c. c = CHR ''{'' \<or> c = CHR ''}'') s = s" using a by (cases s) auto
  moreover have "dropWhile (\<lambda>c. c = CHR ''{'' \<or> c = CHR ''}'') (rev s) = rev s" using a
    by (cases "rev s") (auto dest: arg_cong [where f = set])
  ultimately show ?thesis by (simp add: strip_braces_def Let_def)
qed

lemma split_32: "length h = 32 \<Longrightarrow> take 8 h @ take 4 (drop 8 h) @ take 4 (drop 12 h) @ take 4 (drop 16 h) @ drop 20 h = h"
proof -
  assume "length h = 32"
  have "take 4 (drop k h) @ drop (4 + k) h = drop k h" for k
    by (metis append_take_drop_id drop_drop)
  from this [of 8] this [of 12] this [of 16] have "drop 8 h = take 4 (drop 8 h) @ take 4 (drop 12 h) @ take 4 (drop 16 h) @ drop 20 h"
    by simp
  then show "take 8 h @ take 4 (drop 8 h) @ take 4 (drop 12 h) @ take 4 (drop 16 h) @ drop 20 h = h"
    by (metis append_take_drop_id)
qed

lemma uuid_text_digits:
  assumes "length h = 32" "hex_text h"
  defines "t \<equiv> take 8 h @ ''-'' @ take 4 (drop 8 h) @ ''-'' @ take 4 (drop 12 h) @ ''-'' @ take 4 (drop 16 h) @ ''-'' @ drop 20 h"
  shows "filter (\<lambda>c. c \<noteq> CHR ''-'') t = h" "set t \<subseteq> insert (CHR ''-'') (set h)"
proof -
  have nodash: "filter (\<lambda>c. c \<noteq> CHR ''-'') s = s" if "set s \<subseteq> set h" for s
  proof -
    have "is_hex c" if "c \<in> set s" for c using that \<open>set s \<subseteq> set h\<close> assms(2) by (auto simp: hex_text_iff list_all_iff)
    then show ?thesis using hex_chars by (intro filter_True) fastforce
  qed
  have sub: "set (take a (drop b h)) \<subseteq> set h" "set (drop b h) \<subseteq> set h" "set (take a h) \<subseteq> set h" for a b
    by (meson set_drop_subset set_take_subset subset_trans)+
  show "filter (\<lambda>c. c \<noteq> CHR ''-'') t = h"
    using split_32 [OF assms(1)] by (simp add: t_def nodash sub)
  show "set t \<subseteq> insert (CHR ''-'') (set h)"
  proof -
    have dash: "set ''-'' = {CHR ''-''}" by simp
    show ?thesis unfolding t_def set_append dash
      using sub(1) [of 4 8] sub(1) [of 4 12] sub(1) [of 4 16] sub(2) [of 20] sub(3) [of 8] by blast
  qed
qed

lemma parse_uuid_text:
  assumes "0 \<le> n" "n < 2 ^ 128"
  shows "parse_uuid (uuid_text n) = Some n"
proof -
  define h where "h = hex_fixed 32 (nat n)"
  have h: "length h = 32" "hex_text h" using hex_fixed_props [of 32 "nat n"] by (simp_all add: h_def)
  have hx: "is_hex c" if "c \<in> set h" for c using that h(2) by (auto simp: hex_text_iff list_all_iff)
  have t: "filter (\<lambda>c. c \<noteq> CHR ''-'') (uuid_text n) = h" "set (uuid_text n) \<subseteq> insert (CHR ''-'') (set h)"
    using uuid_text_digits [OF h] by (simp_all add: uuid_text_def Let_def h_def)
  have no: "c \<notin> set (uuid_text n)" if "c \<in> set ''{}u''" for c
    using t(2) hx hex_chars that by fastforce
  have strip: "strip_braces (remove_text ''uuid:'' (remove_text ''urn:'' (uuid_text n) 0) 0) = uuid_text n"
    using no by (simp add: remove_text_absent strip_braces_absent)
  obtain c cs where cs: "h = c # cs" using h(1) by (cases h) auto
  have "c \<noteq> CHR ''-''" "c \<noteq> CHR ''+''" using hx [of c] hex_chars [of c] cs by auto
  moreover have "take 2 h \<notin> {''0x'', ''0X''}"
  proof
    assume "take 2 h \<in> {''0x'', ''0X''}"
    then have "CHR ''x'' \<in> set (take 2 h) \<or> CHR ''X'' \<in> set (take 2 h)" by auto
    then have "CHR ''x'' \<in> set h \<or> CHR ''X'' \<in> set h" by (auto dest: in_set_takeD)
    with hx hex_chars show False by fastforce
  qed
  moreover have "hex_digits False 0 h = Some (nat n)"
  proof -
    have "nat n < 16 ^ 32" using assms by (simp add: nat_less_iff)
    then show ?thesis using hex_fixed_reads [of 32 "nat n"] by (simp add: h_def)
  qed
  ultimately have hm: "hex_magnitude h = Some (nat n)" and sign: "c \<noteq> CHR ''-''" "c \<noteq> CHR ''+''"
    by (simp_all add: hex_magnitude_def)
  have "hex_int h = Some n"
    unfolding hex_int_def hex_text_strip [OF h(2)] unfolding cs using hm [unfolded cs] sign assms(1) by simp
  with strip t(1) h(1) assms(1) show ?thesis by (simp add: parse_uuid_def Let_def)
qed

lemma hex_digit_bound: "hex_digit_value c = Some d \<Longrightarrow> d < 16"
  by (auto simp: hex_digit_value_def Let_def split: if_splits)

lemma hex_digits_bound: "hex_digits b acc s = Some m \<Longrightarrow> m < (acc + 1) * 16 ^ length s"
proof (induction b acc s rule: hex_digits.induct)
  case (2 b acc c cs)
  show ?case
  proof (cases "c = CHR ''_''")
    case True
    with 2 have "m < (acc + 1) * 16 ^ length cs" by (auto split: if_splits)
    also have "\<dots> \<le> (acc + 1) * 16 ^ length (c # cs)" by simp
    finally show ?thesis .
  next
    case False
    with 2 obtain d where d: "hex_digit_value c = Some d" "m < (16 * acc + d + 1) * 16 ^ length cs"
      by (auto split: option.splits)
    have "16 * acc + d + 1 \<le> 16 * (acc + 1)" using hex_digit_bound [OF d(1)] by simp
    then have "(16 * acc + d + 1) * 16 ^ length cs \<le> 16 * (acc + 1) * 16 ^ length cs" by (rule mult_right_mono) simp
    with d(2) have "m < 16 * (acc + 1) * 16 ^ length cs" by (rule order.strict_trans2)
    also have "16 * (acc + 1) * 16 ^ length cs = (acc + 1) * 16 ^ length (c # cs)" by (simp add: algebra_simps)
    finally show ?thesis .
  qed
qed (auto split: if_splits)

lemma hex_digits_fits: "hex_digits False 0 s = Some m \<Longrightarrow> length s \<le> n \<Longrightarrow> m < 16 ^ n"
  using hex_digits_bound [of False 0 s m] power_increasing [of "length s" n "16 :: nat"]
  by (auto intro: order.strict_trans2)

lemma hex_magnitude_bound: "hex_magnitude s = Some m \<Longrightarrow> length s \<le> n \<Longrightarrow> m < 16 ^ n"
  by (auto simp: hex_magnitude_def split: if_splits intro: hex_digits_fits)

lemma strip_length: "length (py_strip s) \<le> length s"
proof -
  have "length (py_strip s) \<le> length (dropWhile is_space s)" unfolding py_strip_def by (metis length_dropWhile_le length_rev)
  also have "\<dots> \<le> length s" by (rule length_dropWhile_le)
  finally show ?thesis .
qed

lemma hex_int_bound:
  assumes "hex_int h = Some n" "length h = 32"
  shows "n < 2 ^ 128"
proof -
  obtain c cs where c: "py_strip h = c # cs" using assms(1) by (cases "py_strip h") (auto simp: hex_int_def)
  have len: "length (c # cs) \<le> 32" using strip_length [of h] c assms(2) by simp
  then have small: "length cs \<le> 32" by simp
  consider m where "n = - int m" | m where "n = int m" "m < 16 ^ 32"
    using assms(1) c hex_magnitude_bound [OF _ len] hex_magnitude_bound [OF _ small]
    by (auto simp: hex_int_def split: if_splits)
  then show ?thesis
  proof cases
    case 1
    then have "n \<le> 0" by simp
    also have "0 < (2 :: int) ^ 128" by simp
    finally show ?thesis .
  next
    case 2
    have "int m < int (16 ^ 32)" using 2(2) by (rule iffD2 [OF of_nat_less_iff])
    with 2(1) show ?thesis by simp
  qed
qed

lemma parse_uuid_range: "parse_uuid s = Some n \<Longrightarrow> 0 \<le> n \<and> n < 2 ^ 128"
  using hex_int_bound by (auto simp: parse_uuid_def Let_def split: if_splits option.splits)


section \<open>Reading a record\<close>

definition identity_ok :: "run_identity \<Rightarrow> bool" where
  "identity_ok i =
     (identity_version i = IDENTITY_VERSION \<and>
      list_all (\<lambda>s. s \<noteq> [] \<and> py_strip s = s) [identity_run_id i, workflow_key i, engine_version i, policy_version i,
        policy_fingerprint i, registry_version i, registry_fingerprint i] \<and>
      length (policy_fingerprint i) = 64 \<and> hex_text (py_lower (policy_fingerprint i)) \<and>
      length (registry_fingerprint i) = 64 \<and> hex_text (py_lower (registry_fingerprint i)) \<and>
      (release i = [] \<or> length (release i) = 40 \<and> hex_text (py_lower (release i))) \<and>
      (case map_of SUPPORTED_ENGINE_VERSIONS (workflow_key i) of None \<Rightarrow> False | Some vs \<Rightarrow> engine_version i \<in> set vs))"

lemma required_text_ok: "required_text r k = Some s \<Longrightarrow> s \<noteq> [] \<and> py_strip s = s"
  by (auto simp: required_text_def split: pydoc.splits if_splits)

lemma required_text_get: "dict_get r k = PyStr s \<Longrightarrow> s \<noteq> [] \<Longrightarrow> py_strip s = s \<Longrightarrow> required_text r k = Some s"
  by (simp add: required_text_def)

lemma identity_version_text: "IDENTITY_VERSION \<noteq> [] \<and> py_strip IDENTITY_VERSION = IDENTITY_VERSION"
  by code_simp

lemma read_fields_ok:
  assumes "read_fields render r = Some i" "dict_get r ''identity_version'' = PyStr IDENTITY_VERSION"
  shows "identity_version i = IDENTITY_VERSION \<and> list_all (\<lambda>s. s \<noteq> [] \<and> py_strip s = s) [identity_run_id i, workflow_key i, engine_version i,
    policy_version i, policy_fingerprint i, registry_version i, registry_fingerprint i]"
proof -
  have "required_text r ''identity_version'' = Some IDENTITY_VERSION"
    using required_text_get [OF assms(2)] identity_version_text by blast
  with assms(1) show ?thesis
    by (auto simp: read_fields_def split: option.splits dest: required_text_ok)
qed

lemma from_record_ok:
  assumes "identity_from_record render rec rid = Inr i"
  shows "identity_ok i" "rid \<noteq> PyNone \<Longrightarrow> run_id_text (doc_text render rid) = Inr (identity_run_id i)"
proof -
  obtain r where r: "rec = PyDict r" "dict_get r ''identity_version'' = PyStr IDENTITY_VERSION" "read_fields render r = Some i"
    using assms by (auto simp: identity_from_record_def split: pydoc.splits if_splits option.splits sum.splits)
  from assms r show "identity_ok i"
    using read_fields_ok [OF r(3,2)]
    by (auto simp: identity_from_record_def identity_ok_def split: if_splits option.splits sum.splits)
  from assms r show "rid \<noteq> PyNone \<Longrightarrow> run_id_text (doc_text render rid) = Inr (identity_run_id i)"
    by (auto simp: identity_from_record_def split: if_splits option.splits sum.splits)
qed

lemma from_record_no_id:
  assumes "identity_from_record render rec rid = Inr i"
  shows "identity_from_record render rec PyNone = Inr i"
proof -
  obtain r where r: "rec = PyDict r" "dict_get r ''identity_version'' = PyStr IDENTITY_VERSION" "read_fields render r = Some i"
    using assms by (auto simp: identity_from_record_def split: pydoc.splits if_splits option.splits sum.splits)
  with assms show ?thesis
    by (simp add: identity_from_record_def split: if_splits option.splits sum.splits)
qed

lemma from_own_record:
  assumes "identity_ok i" "rid = PyNone \<or> run_id_text (doc_text render rid) = Inr (identity_run_id i)"
  shows "identity_from_record render (PyDict (as_identity_record i)) rid = Inr i"
proof -
  let ?r = "as_identity_record i"
  have get: "dict_get ?r ''identity_version'' = PyStr (identity_version i)" "dict_get ?r ''run_id'' = PyStr (identity_run_id i)"
    "dict_get ?r ''workflow_key'' = PyStr (workflow_key i)" "dict_get ?r ''engine_version'' = PyStr (engine_version i)"
    "dict_get ?r ''policy_version'' = PyStr (policy_version i)" "dict_get ?r ''policy_fingerprint'' = PyStr (policy_fingerprint i)"
    "dict_get ?r ''release_sha'' = PyStr (release i)" "dict_get ?r ''event_registry_version'' = PyStr (registry_version i)"
    "dict_get ?r ''event_registry_fingerprint'' = PyStr (registry_fingerprint i)"
    by (simp_all add: as_identity_record_def)
  have texts: "s \<in> {identity_version i, identity_run_id i, workflow_key i, engine_version i, policy_version i, policy_fingerprint i,
      registry_version i, registry_fingerprint i} \<Longrightarrow> s \<noteq> [] \<and> py_strip s = s" for s
    using assms(1) identity_version_text by (auto simp: identity_ok_def)
  have "release_text render ?r = release i" by (simp add: release_text_def get truth_def doc_text_def)
  then have "read_fields render ?r = Some i"
    using texts by (simp add: read_fields_def required_text_get get)
  with assms get(1) show ?thesis
    by (auto simp: identity_from_record_def identity_ok_def split: option.splits)
qed

lemma record_determines: "as_identity_record i = as_identity_record j \<Longrightarrow> i = j"
  by (simp add: as_identity_record_def)

lemma differences_self: "identity_differences i i = []"
  by (simp add: identity_differences_def as_identity_record_def)

lemma no_differences:
  assumes "identity_differences i j = []"
  shows "i = j"
proof -
  have "\<forall>(k, v)\<in>set (as_identity_record i). dict_get (as_identity_record j) k = v"
    using assms by (auto simp: identity_differences_def filter_empty_conv)
  then have "as_identity_record i = as_identity_record j" by (simp add: as_identity_record_def)
  then show ?thesis by (rule record_determines)
qed

section \<open>Binding\<close>

text \<open>What is known of SHA-256's hexadecimal digest.\<close>

definition digest_ok :: "(string \<Rightarrow> string) \<Rightarrow> bool" where
  "digest_ok sha = (\<forall>x. length (sha x) = 64 \<and> hex_text (sha x))"

lemma reviewed_policy_has_document: "policy_document reviewed_first_run_policy \<noteq> None"
proof -
  have "format_value d (Some (d_reviewed d)) \<noteq> None" if "d \<in> set POLICY_DIMENSIONS" for d
  proof -
    have "list_all (\<lambda>d. d_format d \<noteq> Fmt_int \<or> d_reviewed d = of_int (trunc_rat (d_reviewed d))) POLICY_DIMENSIONS" by code_simp
    with that show ?thesis by (auto simp: list_all_iff format_value_def split: wire_format.split)
  qed
  moreover have "value_of (p_values reviewed_first_run_policy) (d_name d) = Some (d_reviewed d)" if "d \<in> set POLICY_DIMENSIONS" for d
    using reviewed_value [OF that] by (simp add: reviewed_first_run_policy_def)
  ultimately have "dimension_entry reviewed_first_run_policy d \<noteq> None" if "d \<in> set POLICY_DIMENSIONS" for d
    using that by (fastforce simp: dimension_entry_def)
  then have "None \<notin> set (map (dimension_entry reviewed_first_run_policy) POLICY_DIMENSIONS)" by force
  then show ?thesis by (simp add: policy_document_def Let_def)
qed

lemma fingerprints:
  assumes "digest_ok sha"
  shows "length (reviewed_policy_fingerprint sha) = 64" "hex_text (reviewed_policy_fingerprint sha)"
    "length (event_registry_fingerprint sha) = 64" "hex_text (event_registry_fingerprint sha)"
  using assms reviewed_policy_has_document
  by (auto simp: digest_ok_def reviewed_policy_fingerprint_def policy_fingerprint_of_def event_registry_fingerprint_def)

lemma engine_versions_supported:
  "map_of ENGINE_VERSIONS k = Some v \<Longrightarrow> (case map_of SUPPORTED_ENGINE_VERSIONS k of None \<Rightarrow> False | Some vs \<Rightarrow> v \<in> set vs) \<and> v \<noteq> [] \<and> py_strip v = v"
proof -
  have "list_all (\<lambda>(k, v). (case map_of SUPPORTED_ENGINE_VERSIONS k of None \<Rightarrow> False | Some vs \<Rightarrow> v \<in> set vs) \<and> v \<noteq> [] \<and> py_strip v = v) ENGINE_VERSIONS"
    by code_simp
  then show "map_of ENGINE_VERSIONS k = Some v \<Longrightarrow> (case map_of SUPPORTED_ENGINE_VERSIONS k of None \<Rightarrow> False | Some vs \<Rightarrow> v \<in> set vs) \<and> v \<noteq> [] \<and> py_strip v = v"
    by (auto simp: list_all_iff dest: map_of_SomeD)
qed

lemma uuid_text_strip: "py_strip (uuid_text n) = uuid_text n \<and> uuid_text n \<noteq> []"
proof -
  have h: "length (hex_fixed 32 (nat n)) = 32" "hex_text (hex_fixed 32 (nat n))" using hex_fixed_props by simp_all
  have t: "filter (\<lambda>c. c \<noteq> CHR ''-'') (uuid_text n) = hex_fixed 32 (nat n)" "set (uuid_text n) \<subseteq> insert (CHR ''-'') (set (hex_fixed 32 (nat n)))"
    using uuid_text_digits [OF h] by (simp_all add: uuid_text_def Let_def)
  have "\<not> is_space (CHR ''-'')" by code_simp
  moreover have "\<not> is_space c" if "c \<in> set (hex_fixed 32 (nat n))" for c
    using that h(2) hex_chars [of c] by (auto simp: hex_text_iff list_all_iff)
  ultimately have "list_all (\<lambda>c. \<not> is_space c) (uuid_text n)" using t(2) by (auto simp: list_all_iff)
  moreover have "uuid_text n \<noteq> []" using t(1) h(1) by auto
  ultimately show ?thesis by (simp add: strip_no_space)
qed

lemma release_ok: "release_sha env = [] \<or> length (release_sha env) = 40 \<and> hex_text (release_sha env)"
  by (simp add: release_sha_def Let_def)

lemma versions_text: "POLICY_SCHEMA_VERSION \<noteq> [] \<and> py_strip POLICY_SCHEMA_VERSION = POLICY_SCHEMA_VERSION \<and> REGISTRY_VERSION \<noteq> [] \<and>
   py_strip REGISTRY_VERSION = REGISTRY_VERSION"
  by code_simp

lemma bound:
  assumes "bind_identity sha env rid workflow = Inr i"
  shows "run_id_text rid = Inr (identity_run_id i)" "workflow_key i = py_strip workflow" "map_of ENGINE_VERSIONS (workflow_key i) = Some (engine_version i)"
    "policy_version i = POLICY_SCHEMA_VERSION" "policy_fingerprint i = reviewed_policy_fingerprint sha" "release i = release_sha env"
    "registry_version i = REGISTRY_VERSION" "registry_fingerprint i = event_registry_fingerprint sha" "identity_version i = IDENTITY_VERSION"
    "workflow_key i \<noteq> []"
  using assms by (auto simp: bind_identity_def res_bind_def engine_version_for_def Let_def split: if_splits sum.splits option.splits)

lemma bound_ok:
  assumes "digest_ok sha" "bind_identity sha env rid workflow = Inr i"
  shows "identity_ok i"
proof -
  note b = bound [OF assms(2)]
  note f = fingerprints [OF assms(1)]
  obtain n where "uuid_text n = identity_run_id i" using b(1) by (auto simp: run_id_text_def split: option.splits)
  from this [symmetric] have "identity_run_id i \<noteq> [] \<and> py_strip (identity_run_id i) = identity_run_id i" using uuid_text_strip by simp
  moreover have "policy_fingerprint i \<noteq> []" "registry_fingerprint i \<noteq> []" using f b by auto
  moreover have "release i = [] \<or> length (release i) = 40 \<and> hex_text (py_lower (release i))"
    using release_ok [of env] b(6) by (auto simp: hex_text_lower)
  ultimately show ?thesis
    using b f engine_versions_supported [OF b(3)] versions_text
    by (simp add: identity_ok_def hex_text_strip hex_text_lower)
qed


section \<open>Identities for the examples\<close>

definition demo_digest :: "string \<Rightarrow> string" where
  "demo_digest x = replicate 64 CHR ''0''"

definition demo_env :: "string \<Rightarrow> string option" where
  "demo_env k = (if k = ''MILO_RELEASE_SHA'' then Some (replicate 40 CHR ''a'') else None)"

definition demo_render :: "pydoc \<Rightarrow> string" where
  "demo_render d = ''?''"

definition demo_identity :: "int \<Rightarrow> run_identity" where
  "demo_identity n = \<lparr>identity_run_id = uuid_text n, workflow_key = ''swarm_v2'', engine_version = ''swarm_v2.1'',
     policy_version = POLICY_SCHEMA_VERSION, policy_fingerprint = reviewed_policy_fingerprint demo_digest,
     release = replicate 40 CHR ''a'', registry_version = REGISTRY_VERSION,
     registry_fingerprint = event_registry_fingerprint demo_digest, identity_version = IDENTITY_VERSION\<rparr>"

lemma demo_digest_ok: "digest_ok demo_digest"
proof -
  have "hex_text (replicate 64 CHR ''0'')" by code_simp
  then show ?thesis by (simp add: digest_ok_def demo_digest_def)
qed

lemma demo_release: "release_sha demo_env = replicate 40 CHR ''a''"
  by code_simp

lemma demo_bound:
  assumes "0 \<le> n" "n < 2 ^ 128"
  shows "bind_identity demo_digest demo_env (uuid_text n) ''swarm_v2'' = Inr (demo_identity n)"
proof -
  have key: "py_strip ''swarm_v2'' = ''swarm_v2''" "engine_version_for ''swarm_v2'' = Inr ''swarm_v2.1''" by code_simp+
  show ?thesis
    by (simp add: bind_identity_def key parse_uuid_text [OF assms] run_id_text_def demo_release demo_identity_def res_bind_def)
qed

lemma demo_reads:
  assumes "0 \<le> n" "n < 2 ^ 128"
  shows "identity_from_record demo_render (PyDict (as_identity_record (demo_identity n))) PyNone = Inr (demo_identity n)"
  using from_own_record [OF bound_ok [OF demo_digest_ok demo_bound [OF assms]]] by blast

section \<open>What the identity promises\<close>

text \<open>C14. A bound identity is read back exactly from its record, for the id the run was created under in any spelling, and
  in its canonical one.\<close>

theorem bound_identity_reads_back:
  assumes "digest_ok sha" "bind_identity sha env rid workflow = Inr i"
  shows "identity_from_record render (PyDict (as_identity_record i)) (PyStr rid) = Inr i \<and>
    (\<exists>n. parse_uuid rid = Some n \<and> identity_run_id i = uuid_text n \<and>
       identity_from_record render (PyDict (as_identity_record i)) (PyStr (uuid_text n)) = Inr i)"
proof -
  note ok = bound_ok [OF assms]
  have rid: "run_id_text rid = Inr (identity_run_id i)" by (rule bound(1) [OF assms(2)])
  then obtain n where n: "parse_uuid rid = Some n" "identity_run_id i = uuid_text n" by (auto simp: run_id_text_def split: option.splits)
  have "parse_uuid (uuid_text n) = Some n" using parse_uuid_range [OF n(1)] by (intro parse_uuid_text) simp_all
  then have "run_id_text (uuid_text n) = Inr (identity_run_id i)" using n(2) by (simp add: run_id_text_def)
  then have "identity_from_record render (PyDict (as_identity_record i)) (PyStr (uuid_text n)) = Inr i"
    using from_own_record [OF ok, of "PyStr (uuid_text n)"] by (simp add: doc_text_def)
  moreover have "identity_from_record render (PyDict (as_identity_record i)) (PyStr rid) = Inr i"
    using from_own_record [OF ok, of "PyStr rid"] rid by (simp add: doc_text_def)
  ultimately show ?thesis using n by blast
qed

theorem bound_identity_reads_back_witness:
  "identity_from_record demo_render (PyDict (as_identity_record (demo_identity 7))) (PyStr (uuid_text 7)) = Inr (demo_identity 7)"
  using bound_identity_reads_back [OF demo_digest_ok demo_bound [of 7], of demo_render] by simp

text \<open>C15. An identity in force is immutable: no problem is found with a proposed record only if it reads as the very identity
  already held, and a record that does not read is never replaced.\<close>

theorem identity_is_never_rewritten:
  assumes "identity_mutation_problems render current proposed = []" "current \<noteq> PyNone"
  shows "\<exists>i. identity_from_record render current PyNone = Inr i \<and> identity_from_record render proposed PyNone = Inr i"
  using assms no_differences
  by (auto simp: identity_mutation_problems_def split: if_splits sum.splits list.splits)

theorem identity_is_never_rewritten_witness:
  "\<exists>i. identity_from_record demo_render (PyDict (as_identity_record (demo_identity 7))) PyNone = Inr i"
proof -
  have "identity_mutation_problems demo_render (PyDict (as_identity_record (demo_identity 7))) (PyDict (as_identity_record (demo_identity 7))) = []"
    by (simp add: identity_mutation_problems_def demo_reads differences_self)
  from identity_is_never_rewritten [OF this] show ?thesis by auto
qed

text \<open>Reading is canonical: the record of an identity that was read reads as the same identity, and rebinding it is no
  mutation.\<close>

theorem reading_is_canonical:
  assumes "identity_from_record render rec rid = Inr i"
  shows "identity_from_record render (PyDict (as_identity_record i)) rid = Inr i \<and>
    identity_mutation_problems render rec (PyDict (as_identity_record i)) = []"
proof -
  note ok = from_record_ok [OF assms]
  have own: "identity_from_record render (PyDict (as_identity_record i)) rid = Inr i"
    using from_own_record [OF ok(1)] ok(2) by blast
  have plain: "identity_from_record render (PyDict (as_identity_record i)) PyNone = Inr i"
    using from_own_record [OF ok(1)] by blast
  have "identity_from_record render rec PyNone = Inr i" by (rule from_record_no_id [OF assms])
  moreover have "identity_differences i i = []" by (rule differences_self)
  moreover have "rec \<noteq> PyNone" using assms by (auto simp: identity_from_record_def)
  ultimately show ?thesis using own plain by (simp add: identity_mutation_problems_def)
qed

theorem reading_is_canonical_witness:
  "identity_mutation_problems demo_render (PyDict (as_identity_record (demo_identity 7))) (PyDict (as_identity_record (demo_identity 7))) = []"
  using reading_is_canonical [OF demo_reads [of 7]] by simp

text \<open>Two identities of one workflow that a deployment may execute differ at most in the run they name, and a fresh
  binding may be executed exactly when the deployment states its release.\<close>

theorem executable_identities_agree:
  assumes "identity_from_record render r1 d1 = Inr i" "identity_from_record render r2 d2 = Inr j" "workflow_key i = workflow_key j"
    "execution_identity_problems sha env i = []" "execution_identity_problems sha env j = []"
  shows "j = i\<lparr>identity_run_id := identity_run_id j\<rparr> \<and> release i = release_sha env \<and> release i \<noteq> [] \<and>
    map_of ENGINE_VERSIONS (workflow_key i) = Some (engine_version i)"
proof -
  have e: "map_of ENGINE_VERSIONS (workflow_key k) = Some (engine_version k) \<and> policy_version k = POLICY_SCHEMA_VERSION \<and>
      policy_fingerprint k = reviewed_policy_fingerprint sha \<and> registry_version k = REGISTRY_VERSION \<and>
      registry_fingerprint k = event_registry_fingerprint sha \<and> release k = release_sha env \<and> release k \<noteq> []"
    if "execution_identity_problems sha env k = []" for k
    using that by (auto simp: execution_identity_problems_def Let_def split: if_splits)
  have "identity_version i = IDENTITY_VERSION" "identity_version j = IDENTITY_VERSION"
    using from_record_ok(1) [OF assms(1)] from_record_ok(1) [OF assms(2)] by (simp_all add: identity_ok_def)
  with e [OF assms(4)] e [OF assms(5)] assms(3) show ?thesis by auto
qed

theorem executable_identities_agree_witness:
  "demo_identity 9 = (demo_identity 7)\<lparr>identity_run_id := uuid_text 9\<rparr> \<and> release (demo_identity 7) = release_sha demo_env"
proof -
  have "map_of ENGINE_VERSIONS ''swarm_v2'' = Some ''swarm_v2.1''" by code_simp
  then have ok: "execution_identity_problems demo_digest demo_env (demo_identity n) = []" for n
    by (simp add: execution_identity_problems_def demo_release demo_identity_def)
  have id: "identity_run_id (demo_identity n) = uuid_text n" "workflow_key (demo_identity n) = ''swarm_v2''" for n
    by (simp_all add: demo_identity_def)
  show ?thesis
    using executable_identities_agree [OF demo_reads [of 7] demo_reads [of 9] _ ok ok] by (simp add: id)
qed

lemma fresh_binding_is_executable:
  assumes "bind_identity sha env rid workflow = Inr i"
  shows "execution_identity_problems sha env i = [] \<longleftrightarrow> release_sha env \<noteq> []"
  using bound [OF assms] by (auto simp: execution_identity_problems_def Let_def)

text \<open>An event may write an agent row only if it is about no run; diagnostics and capture progress own nothing, and capture
  progress is not even accepted.\<close>

theorem projections_are_separate:
  "list_all (\<lambda>e. \<not> owns_v1_projection e \<and> \<not> owns_swarm_projection e \<and> \<not> owns_catalog_projection e) OPERATIONAL_EVENT_TYPES \<and>
   list_all (\<lambda>e. \<not> owns_v1_projection e \<and> \<not> owns_swarm_projection e) CATALOG_EVENT_TYPES \<and>
   list_all (\<lambda>e. \<not> is_known_event_type (PyStr e)) CAPTURE_PROGRESS_EVENT_TYPES \<and>
   list_all (\<lambda>e. owns_v1_projection e \<and> \<not> owns_agent_projection e) RUN_LEVEL_EVENT_TYPES"
  by code_simp

end
