(* ===== verification/Config_Safety.thy ===== *)
theory Config_Safety
  imports Production_Config Access_Safety Identity_Safety
begin

text \<open>
  What an accepted configuration guarantees to the components that read the same variables later: the
  separation of identities, the paid policy, the quota coordinator, the pinned Supabase project.
\<close>

section \<open>Characters\<close>

lemma lower_char_cases: "lower_char c = d \<Longrightarrow> c = d \<or> c = char_of ((of_char d :: nat) - 32)"
proof -
  have "(of_char c :: nat) < 256" using of_char_of [of "of_char c :: nat"] by (metis mod_less_divisor of_char_mod_256 zero_less_numeral)
  then show "lower_char c = d \<Longrightarrow> c = d \<or> c = char_of ((of_char d :: nat) - 32)"
    by (auto simp: lower_char_def Let_def split: if_splits)
qed

lemma lowered_chars:
  assumes "list_all (\<lambda>d. Q d \<and> Q (char_of ((of_char d :: nat) - 32))) ds" "lower_char c \<in> set ds"
  shows "Q c"
  using lower_char_cases [OF refl, of c] assms by (auto simp: list_all_iff)

definition host_chars :: string where
  "host_chars = ''abcdefghijklmnopqrstuvwxyz0123456789.''"

lemma lowered_host_char: "lower_char c \<in> set host_chars \<Longrightarrow> is_ascii c \<and> c \<notin> set ''/?#[]:;@''"
  by (rule lowered_chars [of _ host_chars], code_simp, assumption)

lemma lowered_letter: "lower_char c \<in> set ''https'' \<Longrightarrow> ascii_letter c \<and> scheme_char c \<and> c \<noteq> CHR '':'' \<and> c \<noteq> CHR ''?'' \<and> c \<noteq> CHR ''#''"
  by (rule lowered_chars [of _ "''https''"], code_simp, assumption)

lemma lower_char_idem [simp]: "lower_char (lower_char c) = lower_char c"
proof -
  have "(of_char c :: nat) < 256" by (metis mod_less_divisor of_char_mod_256 zero_less_numeral)
  then show ?thesis by (auto simp: lower_char_def Let_def)
qed

lemma lower_idem [simp]: "py_lower (py_lower s) = py_lower s"
  by (simp add: py_lower_def)

lemma lower_append [simp]: "py_lower (a @ b) = py_lower a @ py_lower b"
  by (simp add: py_lower_def)

lemma takeWhile_append_stop: "list_all P a \<Longrightarrow> r = [] \<or> \<not> P (hd r) \<Longrightarrow> takeWhile P (a @ r) = a \<and> dropWhile P (a @ r) = r"
  by (cases r) (auto simp: list_all_iff takeWhile_append dropWhile_append)

section \<open>The pinned address\<close>

lemma ref_chars:
  "c \<in> set ''abcdefghijklmnopqrstuvwxyz0123456789'' \<Longrightarrow> lower_char c = c \<and> c \<in> set host_chars \<and> \<not> is_space c"
proof -
  have "list_all (\<lambda>c. lower_char c = c \<and> c \<in> set host_chars \<and> \<not> is_space c) ''abcdefghijklmnopqrstuvwxyz0123456789''"
    by code_simp
  then show "c \<in> set ''abcdefghijklmnopqrstuvwxyz0123456789'' \<Longrightarrow> lower_char c = c \<and> c \<in> set host_chars \<and> \<not> is_space c"
    unfolding list_all_iff by blast
qed

lemma project_ref_char: "project_ref_ok r \<Longrightarrow> c \<in> set r \<Longrightarrow> lower_char c = c \<and> c \<in> set host_chars \<and> \<not> is_space c"
  using ref_chars unfolding project_ref_ok_def list_all_iff by blast

lemma project_ref_lower:
  assumes "project_ref_ok r"
  shows "py_lower r = r" "set r \<subseteq> set host_chars"
  using project_ref_char [OF assms] by (auto simp: py_lower_def intro!: map_idI)

lemma project_ref_strip: "project_ref_ok r \<Longrightarrow> py_strip r = r"
  using project_ref_char by (intro strip_no_space) (auto simp: list_all_iff)

definition authority_of :: "string \<Rightarrow> string" where
  "authority_of r = r @ SUPABASE_HOSTED_URL_SUFFIX"

lemma authority_chars: "project_ref_ok r \<Longrightarrow> set (authority_of r) \<subseteq> set host_chars"
proof -
  have "list_all (\<lambda>c. c \<in> set host_chars) SUPABASE_HOSTED_URL_SUFFIX" by code_simp
  then show "project_ref_ok r \<Longrightarrow> set (authority_of r) \<subseteq> set host_chars"
    using project_ref_lower(2) by (auto simp: authority_of_def list_all_iff)
qed

text \<open>An address of the project: any case, the root, and a bare semicolon after it.\<close>

definition base_address :: "string \<Rightarrow> string \<Rightarrow> bool" where
  "base_address r text =
     (let t = py_lower text; base = ''https://'' @ authority_of r in t = base \<or> t = base @ ''/'' \<or> t = base @ ''/;'')"

lemma lower_in: "py_lower s = t \<Longrightarrow> c \<in> set s \<Longrightarrow> lower_char c \<in> set t"
  by (auto simp: py_lower_def)

lemma scheme_of_https:
  assumes "py_lower s = ''https''"
  shows "split_scheme (s @ CHR '':'' # rest) = (''https'', rest)"
proof -
  have c: "ascii_letter c \<and> scheme_char c \<and> c \<noteq> CHR '':''" if "c \<in> set s" for c
    using lowered_letter lower_in [OF assms that] by blast
  have tw: "takeWhile (\<lambda>c. c \<noteq> CHR '':'') (s @ CHR '':'' # rest) = s"
    using takeWhile_append_stop [of "\<lambda>c. c \<noteq> CHR '':''" s "CHR '':'' # rest"] c by (simp add: list_all_iff)
  obtain x xs where "s = x # xs" using assms by (cases s) (auto simp: py_lower_def)
  then have "s \<noteq> []" "ascii_letter (hd s)" using c by auto
  then show ?thesis unfolding split_scheme_def Let_def tw using c assms by (simp add: list_all_iff)
qed

lemma https_only_by_scheme:
  assumes "split_scheme u = (sch, rest)" "py_lower sch = ''https''"
  shows "\<exists>s. u = s @ CHR '':'' # rest \<and> py_lower s = ''https''"
proof -
  let ?s = "takeWhile (\<lambda>c. c \<noteq> CHR '':'') u"
  have c: "?s \<noteq> u" "sch = py_lower ?s" "rest = drop (length ?s + 1) u"
    using assms by (auto simp: split_scheme_def Let_def py_lower_def split: if_splits)
  obtain b bs where b: "dropWhile (\<lambda>c. c \<noteq> CHR '':'') u = b # bs"
    using c(1) takeWhile_dropWhile_id [of "\<lambda>c. c \<noteq> CHR '':''" u] by (cases "dropWhile (\<lambda>c. c \<noteq> CHR '':'') u") auto
  then have "b = CHR '':''" using hd_dropWhile [of "\<lambda>c. c \<noteq> CHR '':''" u] by auto
  then have u: "u = ?s @ CHR '':'' # bs" using b takeWhile_dropWhile_id [of "\<lambda>c. c \<noteq> CHR '':''" u] by simp
  then have "drop (length ?s + 1) (?s @ CHR '':'' # bs) = rest" using c(3) by simp
  then have "rest = bs" by simp
  with u c(2) assms(2) show ?thesis by auto
qed

lemma split_once_absent:
  assumes "c \<notin> set s"
  shows "split_once c s = (s, [])"
proof -
  have t: "takeWhile (\<lambda>x. x \<noteq> c) s = s" "dropWhile (\<lambda>x. x \<noteq> c) s = []"
    using assms by (auto simp: takeWhile_eq_all_conv dropWhile_eq_Nil_conv)
  show ?thesis unfolding split_once_def t drop_Nil by (rule refl)
qed

lemma netloc_split:
  assumes "split_netloc t = (n, rest)" "n \<noteq> []"
  shows "t = ''//'' @ n @ rest \<and> (rest = [] \<or> hd rest \<in> set ''/?#'')"
proof -
  have two: "take 2 t = ''//''" and n: "n = takeWhile (\<lambda>c. c \<notin> set ''/?#'') (drop 2 t)" and r: "rest = dropWhile (\<lambda>c. c \<notin> set ''/?#'') (drop 2 t)"
    using assms by (auto simp: split_netloc_def split: if_splits)
  have "n @ rest = drop 2 t" unfolding n r by (rule takeWhile_dropWhile_id)
  moreover have "t = ''//'' @ drop 2 t" using two append_take_drop_id [of 2 t] by simp
  moreover have "rest = [] \<or> hd rest \<in> set ''/?#''" using hd_dropWhile [of "\<lambda>c. c \<notin> set ''/?#''" "drop 2 t"] unfolding r by blast
  ultimately show ?thesis by simp
qed

lemma root_params:
  assumes "split_params (CHR ''/'' # q) = (p, [])" "p \<in> {[], ''/''}" "CHR '';'' \<in> set q"
  shows "q = '';''"
proof -
  let ?u = "CHR ''/'' # q"
  define seg where "seg = rev (takeWhile (\<lambda>c. c \<noteq> CHR ''/'') (rev ?u))"
  define stem where "stem = take (length ?u - length seg) ?u"
  have split: "split_params ?u = (if CHR '';'' \<in> set seg then (stem @ fst (split_once (CHR '';'') seg), snd (split_once (CHR '';'') seg)) else (?u, []))"
    unfolding split_params_def Let_def seg_def stem_def by (rule refl)
  have u: "?u = rev (dropWhile (\<lambda>c. c \<noteq> CHR ''/'') (rev ?u)) @ seg" unfolding seg_def
    by (metis rev_append rev_rev_ident takeWhile_dropWhile_id)
  have take_left: "w = a @ b \<Longrightarrow> take (length w - length b) w = a" for a b w :: string by simp
  have stem: "stem = rev (dropWhile (\<lambda>c. c \<noteq> CHR ''/'') (rev ?u))" unfolding stem_def by (rule take_left [OF u])
  have "dropWhile (\<lambda>c. c \<noteq> CHR ''/'') (rev ?u) \<noteq> []" by (simp add: dropWhile_eq_Nil_conv)
  then have "stem \<noteq> []" unfolding stem by simp
  have us: "?u = stem @ seg" using u unfolding stem .
  have semi: "CHR '';'' \<in> set seg"
  proof (rule ccontr)
    assume "CHR '';'' \<notin> set seg"
    with split assms(1) have "p = ?u" by simp
    with assms(2,3) show False by auto
  qed
  with split assms(1) have parts: "stem @ fst (split_once (CHR '';'') seg) = p" "snd (split_once (CHR '';'') seg) = []" by simp_all
  with \<open>stem \<noteq> []\<close> assms(2) have one: "stem = ''/''" "fst (split_once (CHR '';'') seg) = []" by (auto simp: append_eq_Cons_conv)
  with us have "q = seg" by simp
  obtain c cs where cs: "seg = c # cs" using semi by (cases seg) auto
  with one(2) have "c = CHR '';''" by (auto simp: split_once_def split: if_splits)
  with parts(2) cs \<open>q = seg\<close> show ?thesis by (simp add: split_once_def)
qed

lemma url_text_subset: "CHR ''?'' \<in> set raw \<Longrightarrow> CHR ''?'' \<in> set (url_text raw)" "CHR ''#'' \<in> set raw \<Longrightarrow> CHR ''#'' \<in> set (url_text raw)"
proof -
  have "c \<in> set (url_text raw)" if "c \<in> set raw" "32 < (of_char c :: nat)" for c
  proof -
    have "c \<in> set (dropWhile (\<lambda>c. (of_char c :: nat) \<le> 32) raw)" using that by (induction raw) auto
    with that(2) show ?thesis by (auto simp: url_text_def)
  qed
  moreover have "32 < (of_char (CHR ''?'') :: nat)" "32 < (of_char (CHR ''#'') :: nat)" by simp_all
  ultimately show "CHR ''?'' \<in> set raw \<Longrightarrow> CHR ''?'' \<in> set (url_text raw)" "CHR ''#'' \<in> set raw \<Longrightarrow> CHR ''#'' \<in> set (url_text raw)"
    by blast+
qed

lemma url_text_set: "set (url_text raw) \<subseteq> set raw"
  by (auto simp: url_text_def dest: set_dropWhileD)

lemma same_char:
  assumes "lower_char c = d" "(of_char d :: nat) < 97"
  shows "c = d"
proof -
  have "(of_char c :: nat) < 256" by (metis mod_less_divisor of_char_mod_256 zero_less_numeral)
  with assms show ?thesis by (auto simp: lower_char_def Let_def split: if_splits)
qed

lemma same_text: "py_lower s = t \<Longrightarrow> list_all (\<lambda>d. (of_char d :: nat) < 97) t \<Longrightarrow> s = t"
proof (induction s arbitrary: t)
  case (Cons c s)
  then obtain d ds where d: "t = d # ds" "lower_char c = d" "py_lower s = ds" by (cases t) (simp_all add: py_lower_def)
  then have "c = d" "s = ds" using Cons.IH [of ds] Cons.prems(2) same_char [of c d] by simp_all
  with d(1) show ?case by simp
qed (simp add: py_lower_def)

lemma authority_netloc:
  assumes "project_ref_ok r" "py_lower n = authority_of r"
  shows "list_all is_ascii n" "c \<in> set n \<Longrightarrow> c \<notin> set ''/?#[]:;@''" "n \<noteq> []"
proof -
  have c: "is_ascii c \<and> c \<notin> set ''/?#[]:;@''" if "c \<in> set n" for c
    using lowered_host_char lower_in [OF assms(2) that] authority_chars [OF assms(1)] by blast
  then show "list_all is_ascii n" unfolding list_all_iff by blast
  from c show "c \<in> set n \<Longrightarrow> c \<notin> set ''/?#[]:;@''" by blast
  have "length n = length (authority_of r)" using arg_cong [OF assms(2), of length] by (simp add: py_lower_def)
  then show "n \<noteq> []" using assms(1) by (auto simp: authority_of_def project_ref_ok_def)
qed

lemma lower_split: "py_lower t = a @ b \<Longrightarrow> \<exists>s r. t = s @ r \<and> py_lower s = a \<and> py_lower r = b"
  by (auto simp: py_lower_def map_eq_append_conv)

lemma https_parses: "''https'' \<in> set USES_PARAMS"
  by code_simp

lemma base_addresses:
  "base_address r text \<longleftrightarrow> (\<exists>s n q. text = s @ '':'' @ ''//'' @ n @ q \<and> py_lower s = ''https'' \<and> py_lower n = authority_of r \<and>
     q \<in> {[], ''/'', ''/;''})"
proof
  assume "base_address r text"
  then obtain q where q: "py_lower text = ''https'' @ '':'' @ ''//'' @ authority_of r @ q" "q \<in> {[], ''/'', ''/;''}"
    by (auto simp: base_address_def Let_def)
  obtain s t1 where s: "text = s @ t1" "py_lower s = ''https''" "py_lower t1 = '':'' @ ''//'' @ authority_of r @ q"
    using lower_split [OF q(1)] by blast
  obtain a t2 where a: "t1 = a @ t2" "py_lower a = '':''" "py_lower t2 = ''//'' @ authority_of r @ q"
    using lower_split [OF s(3)] by blast
  obtain b t3 where b: "t2 = b @ t3" "py_lower b = ''//''" "py_lower t3 = authority_of r @ q"
    using lower_split [OF a(3)] by blast
  obtain n c where n: "t3 = n @ c" "py_lower n = authority_of r" "py_lower c = q"
    using lower_split [OF b(3)] by blast
  have "list_all (\<lambda>d. (of_char d :: nat) < 97) q" using q(2) by auto
  moreover have "a = '':''" by (rule same_text [OF a(2)]) simp
  moreover have "b = ''//''" by (rule same_text [OF b(2)]) simp
  ultimately have "a = '':''" "b = ''//''" "c = q" using same_text [OF n(3)] by blast+
  with s a b n q(2) show "\<exists>s n q. text = s @ '':'' @ ''//'' @ n @ q \<and> py_lower s = ''https'' \<and> py_lower n = authority_of r \<and>
     q \<in> {[], ''/'', ''/;''}" by blast
next
  have low: "py_lower '':'' = '':''" "py_lower ''//'' = ''//''" "py_lower ''/'' = ''/''" "py_lower ''/;'' = ''/;''" "py_lower [] = []" by code_simp+
  assume "\<exists>s n q. text = s @ '':'' @ ''//'' @ n @ q \<and> py_lower s = ''https'' \<and> py_lower n = authority_of r \<and> q \<in> {[], ''/'', ''/;''}"
  then show "base_address r text" using low by (auto simp: base_address_def Let_def simp del: append.simps)
qed

lemma parsed_base:
  assumes "project_ref_ok r" "url_text raw = s @ '':'' @ ''//'' @ n @ q" "py_lower s = ''https''" "py_lower n = authority_of r" "q \<in> {[], ''/'', ''/;''}"
  shows "\<exists>path. urlparse netloc_ok raw = Some \<lparr>url_scheme = ''https'', url_netloc = n, url_path = path, url_params = [], url_query = [], url_fragment = []\<rparr> \<and>
    path \<in> {[], ''/''}"
proof -
  note chars = authority_netloc [OF assms(1,4)]
  have scheme: "split_scheme (url_text raw) = (''https'', ''//'' @ n @ q)" using scheme_of_https [OF assms(3)] assms(2) by simp
  have "list_all (\<lambda>c. c \<notin> set ''/?#'') n" using chars(2) by (auto simp: list_all_iff)
  then have net: "split_netloc (''//'' @ n @ q) = (n, q)"
    using takeWhile_append_stop [of "\<lambda>c. c \<notin> set ''/?#''" n q] assms(5) by (auto simp: split_netloc_def)
  have q: "CHR ''#'' \<notin> set q" "CHR ''?'' \<notin> set q" using assms(5) by auto
  have brackets: "CHR ''['' \<notin> set n" "CHR '']'' \<notin> set n" using chars(2) by auto
  have params: "(if ''https'' \<in> set USES_PARAMS \<and> CHR '';'' \<in> set q then split_params q else (q, [])) = (if q = ''/;'' then ''/'' else q, [])"
  proof (cases "q = ''/;''")
    case True
    have "split_params ''/;'' = (''/'', [])" by code_simp
    with True https_parses show ?thesis by simp
  next
    case False
    then have "CHR '';'' \<notin> set q" using assms(5) by auto
    with False show ?thesis by simp
  qed
  show ?thesis
    unfolding urlparse_def scheme Let_def prod.case net split_once_absent [OF q(1)] split_once_absent [OF q(2)] params
    using brackets chars(1) assms(5) by auto
qed

lemma matched_parts:
  assumes "project_ref_ok r" "supabase_url_matches_project_ref netloc_ok addr r"
  shows "\<exists>s n q. url_text (py_strip addr) = s @ '':'' @ ''//'' @ n @ q \<and> py_lower s = ''https'' \<and> py_lower n = authority_of r \<and> q \<in> {[], ''/'', ''/;''}"
proof -
  let ?raw = "py_strip addr"
  note ref = project_ref_strip [OF assms(1)] project_ref_lower(1) [OF assms(1)]
  obtain u where u: "urlparse netloc_ok ?raw = Some u" "py_lower (url_scheme u) = ''https''" "py_lower (url_netloc u) = authority_of r"
      "url_path u \<in> {[], ''/''}" "url_params u = []"
    and no: "CHR ''?'' \<notin> set ?raw" "CHR ''#'' \<notin> set ?raw"
    using assms(2) by (auto simp: supabase_url_matches_project_ref_def Let_def ref authority_of_def SUPABASE_ROOT_PATHS_def split: if_splits option.splits)
  obtain sch t1 where s: "split_scheme (url_text ?raw) = (sch, t1)" by (cases "split_scheme (url_text ?raw)")
  obtain n t2 where n: "split_netloc t1 = (n, t2)" by (cases "split_netloc t1")
  have fields: "url_scheme u = sch" "url_netloc u = n"
    using u(1) by (auto simp: urlparse_def s n Let_def split: prod.splits if_splits)
  obtain x where x: "url_text ?raw = x @ CHR '':'' # t1" "py_lower x = ''https''" using https_only_by_scheme [OF s] u(2) fields by blast
  have "n \<noteq> []" using authority_netloc(3) [OF assms(1)] u(3) fields by blast
  from netloc_split [OF n this] have t1: "t1 = ''//'' @ n @ t2" and hd: "t2 = [] \<or> hd t2 \<in> set ''/?#''" by blast+
  have clean: "CHR ''#'' \<notin> set t2" "CHR ''?'' \<notin> set t2"
    using url_text_set [of ?raw] x(1) t1 no by auto
  have sch: "sch = ''https''"
    using s x https_only_by_scheme scheme_of_https [OF x(2), of t1] by simp
  have path: "(url_path u, url_params u) = (if CHR '';'' \<in> set t2 then split_params t2 else (t2, []))"
    using u(1) unfolding urlparse_def s Let_def prod.case n split_once_absent [OF clean(1)] split_once_absent [OF clean(2)] sch
    using https_parses by (auto split: prod.splits if_splits)
  have "t2 \<in> {[], ''/'', ''/;''}"
  proof (cases "CHR '';'' \<in> set t2")
    case True
    then obtain q where q: "t2 = CHR ''/'' # q" using hd clean by (cases t2) auto
    from True path u(5) have "split_params (CHR ''/'' # q) = (url_path u, [])" unfolding q by simp
    from root_params [OF this u(4)] True q show ?thesis by auto
  next
    case False
    with path u(4) show ?thesis by auto
  qed
  with x t1 u(3) fields show ?thesis by auto
qed

text \<open>C40. The production pin is exact: for a well-formed project reference an address is accepted, whatever the library says of
  odd authorities, exactly when what the parser reads of it is the project's base address, in any case, alone,
  with the root path, or with a bare semicolon after the root path.\<close>

theorem pin_is_exact:
  assumes "project_ref_ok r"
  shows "supabase_url_matches_project_ref netloc_ok addr r \<longleftrightarrow> base_address r (url_text (py_strip addr))"
proof
  assume "supabase_url_matches_project_ref netloc_ok addr r"
  from matched_parts [OF assms this] show "base_address r (url_text (py_strip addr))" unfolding base_addresses .
next
  let ?raw = "py_strip addr"
  assume "base_address r (url_text ?raw)"
  then obtain s n q where p: "url_text ?raw = s @ '':'' @ ''//'' @ n @ q" "py_lower s = ''https''" "py_lower n = authority_of r" "q \<in> {[], ''/'', ''/;''}"
    unfolding base_addresses by blast
  note ref = project_ref_strip [OF assms] project_ref_lower(1) [OF assms]
  obtain path where u: "urlparse netloc_ok ?raw = Some \<lparr>url_scheme = ''https'', url_netloc = n, url_path = path, url_params = [], url_query = [], url_fragment = []\<rparr>"
    "path \<in> {[], ''/''}"
    using parsed_base [OF assms p] by blast
  have "CHR ''?'' \<notin> set s" "CHR ''#'' \<notin> set s"
    using lowered_letter lower_in [OF p(2)] by blast+
  moreover have "CHR ''?'' \<notin> set n" "CHR ''#'' \<notin> set n" using authority_netloc(2) [OF assms p(3)] by auto
  ultimately have "CHR ''?'' \<notin> set (url_text ?raw)" "CHR ''#'' \<notin> set (url_text ?raw)" using p(1,4) by auto
  then have "CHR ''?'' \<notin> set ?raw" "CHR ''#'' \<notin> set ?raw" using url_text_subset by blast+
  moreover have "r \<noteq> []" using assms by (auto simp: project_ref_ok_def)
  moreover have "py_lower ''https'' = ''https''" by code_simp
  ultimately show "supabase_url_matches_project_ref netloc_ok addr r"
    using u p(3) by (simp add: supabase_url_matches_project_ref_def ref authority_of_def SUPABASE_ROOT_PATHS_def)
qed

section \<open>What an accepted configuration guarantees\<close>

lemma report_append [simp]: "report_errors (a @ b) = report_errors a @ report_errors b"
  by (simp add: report_errors_def)

lemma report_err [simp]: "report_errors (err b t) = [] \<longleftrightarrow> \<not> b"
  by (simp add: report_errors_def err_def)

lemma report_graded: "production_env env \<Longrightarrow> report_errors (graded env b t) = [] \<longleftrightarrow> \<not> b"
  by (simp add: report_errors_def graded_def)

lemma report_policy [simp]: "report_errors (policy_issues vs) = [] \<longleftrightarrow> vs = []"
  by (cases vs) (auto simp: report_errors_def policy_issues_def)

lemma started:
  assumes "validate_production_config netloc_ok vars = Started report" "production_env (map_of vars) \<or> staging_env (map_of vars)"
  obtains b where "budget_from_env (map_of vars) = Inr b" "report_errors (cors_issues (map_of vars)) = []"
    "report_errors (run_creation_issues (map_of vars) b) = []" "report_errors (paid_issues (map_of vars) b) = []"
    "report_errors (identity_issues (map_of vars)) = []" "report_errors (adapter_issues (map_of vars)) = []"
    "report_errors (staging_issues netloc_ok (map_of vars)) = []" "report_errors (production_pin_issues netloc_ok (map_of vars)) = []"
    "report_errors (limiter_issues (map_of vars)) = []"
proof -
  obtain r where r: "validate netloc_ok vars = Inr r" "report_errors r = []"
    using assms by (auto simp: validate_production_config_def split: sum.splits if_splits)
  then obtain b where b: "budget_from_env (map_of vars) = Inr b"
    by (auto simp: validate_def Let_def res_bind_def split: sum.splits)
  show thesis by (rule that [OF b]) (insert r b, auto simp: validate_def Let_def res_bind_def)
qed

lemma production_same: "production_env env \<longleftrightarrow> Rate_Limit.is_production env"
proof -
  have "py_lower (py_strip ''local'') = ''local''" "py_lower (py_strip []) = []" by code_simp+
  then show ?thesis by (auto simp: production_env_def Rate_Limit.is_production_def getenv_def split: option.split)
qed

lemma env_raw_same: "env_raw env k = Api_Access.env_stripped env k"
  by (simp add: env_raw_def Api_Access.env_stripped_def getenv_def)

lemma production_started:
  assumes "validate_production_config netloc_ok vars = Started report" "production_env (map_of vars)"
  defines "env \<equiv> map_of vars"
  shows "set (approved_gateway_identities env) \<inter> set (approved_identities env) = {}" "approved_gateway_identities env \<noteq> []"
    "Api_Access.env_stripped env ''MILO_GATEWAY_AUDIENCE'' \<noteq> []" "\<not> insecure_dev_identity_allowed env"
    "''*'' \<notin> set (cors_origins env)" "cors_origins env \<noteq> []" "env_abandoned_reclaim env = Inr None"
    "project_ref_ok (env_raw env ''MILO_EXPECTED_SUPABASE_PROJECT_REF'')"
    "supabase_url_matches_project_ref netloc_ok (env_raw env ''SUPABASE_URL'') (env_raw env ''MILO_EXPECTED_SUPABASE_PROJECT_REF'')"
proof -
  obtain b where b: "report_errors (cors_issues env) = []" "report_errors (identity_issues env) = []"
      "report_errors (adapter_issues env) = []" "report_errors (production_pin_issues netloc_ok env) = []"
    using started [OF assms(1)] assms(2) unfolding env_def by blast
  have p: "production_env env" using assms(2) by (simp add: env_def)
  show "''*'' \<notin> set (cors_origins env)" "cors_origins env \<noteq> []" using b(1) p by (simp_all add: cors_issues_def)
  show "set (approved_gateway_identities env) \<inter> set (approved_identities env) = {}" "approved_gateway_identities env \<noteq> []"
    "Api_Access.env_stripped env ''MILO_GATEWAY_AUDIENCE'' \<noteq> []" "\<not> insecure_dev_identity_allowed env"
    using b(2) p by (auto simp: identity_issues_def Let_def list_ex_iff env_raw_same env_flag_def insecure_dev_identity_allowed_def)
  have "env_raw env ''MILO_PROVIDER_ABANDONED_LEASE_RECLAIM_SECONDS'' = []" using b(3) p by (simp add: adapter_issues_def)
  then show "env_abandoned_reclaim env = Inr None" by (simp add: env_abandoned_reclaim_def Quota_Config.env_stripped_def env_raw_def)
  show "project_ref_ok (env_raw env ''MILO_EXPECTED_SUPABASE_PROJECT_REF'')"
    "supabase_url_matches_project_ref netloc_ok (env_raw env ''SUPABASE_URL'') (env_raw env ''MILO_EXPECTED_SUPABASE_PROJECT_REF'')"
    using b(4) p by (auto simp: production_pin_issues_def Let_def split: if_splits)
qed

section \<open>A production configuration\<close>

text \<open>It is accepted for a blank token of the shared store too; both audiences are one, and a semicolon follows the address.\<close>

definition example_vars :: "string \<Rightarrow> (string \<times> string) list" where
  "example_vars redis_token = [(''ENVIRONMENT'', ''production''), (''ALLOWED_CORS_ORIGINS'', ''https://milo.app''),
     (''MILO_GATEWAY_AUDIENCE'', ''api''), (''MILO_WORKER_AUDIENCE'', ''api''),
     (''MILO_APPROVED_GATEWAY_IDENTITIES'', ''gateway@milo''), (''MILO_APPROVED_WORKER_IDENTITIES'', ''worker@milo''),
     (''MILO_ENABLE_EXECUTION_CONTROL'', ''true''), (''MILO_ENABLE_RUN_CANCELLATION'', ''true''),
     (''MILO_EXPECTED_SUPABASE_PROJECT_REF'', ''abcdefghijklmnopqrst''), (''SUPABASE_URL'', ''https://abcdefghijklmnopqrst.supabase.co/;''),
     (''SUPABASE_SERVICE_ROLE_KEY'', ''k''), (''UPSTASH_REDIS_REST_URL'', ''https://redis''), (''UPSTASH_REDIS_REST_TOKEN'', redis_token)]"

lemma example_accepted: "validate_production_config (\<lambda>n. False) (example_vars ''t'') = Started []"
  by code_simp

lemma blank_accepted: "validate_production_config (\<lambda>n. False) (example_vars '' '') = Started []"
  by code_simp

lemma example_production: "production_env (map_of (example_vars ''t''))"
  by code_simp

definition example_served :: surroundings where
  "example_served = example_access\<lparr>s_env := map_of (example_vars ''t'')\<rparr>"

definition shared_worker :: service_identity where
  "shared_worker = \<lparr>service_account_email = ''worker@milo'', identity_audience = ''api'', identity_issuer = ''accounts.google.com''\<rparr>"

definition shared_user :: authenticated_user where
  "shared_user = \<lparr>user_id = 255, user_email = None, user_gateway =
     Some \<lparr>service_account_email = ''gateway@milo'', identity_audience = ''api'', identity_issuer = ''accounts.google.com''\<rparr>\<rparr>"

lemma shared_worker_served:
  "fst (serve example_served (post ''/runs/r/claims'') example_api_request example_limiters) = From_app (Inr (create_claim_route, Worker_service shared_worker))"
  unfolding shared_worker_def by code_simp

lemma shared_user_served:
  "fst (serve example_served (post ''/runs/r/cancel'') example_api_request example_limiters) = From_app (Inr (cancel_run_route, Browser_user shared_user))"
  unfolding shared_user_def by code_simp

text \<open>With every variable of the reviewed policy, paid.\<close>

definition paid_vars :: "(string \<times> string) list" where
  "paid_vars = (''MILO_ENABLE_PAID_EXECUTION'', ''true'') # (''KIMI_API_KEY'', ''k'') # example_vars ''t'' @ reviewed_env_list"

lemma paid_accepted: "validate_production_config (\<lambda>n. False) paid_vars = Started []"
  by code_simp



lemma pin_is_exact_witness:
  "supabase_url_matches_project_ref (\<lambda>n. False) ''HTTPS://ABCDEFGHIJKLMNOPQRST.supabase.co'' ''abcdefghijklmnopqrst'' \<and>
   \<not> supabase_url_matches_project_ref (\<lambda>n. False) ''https://abcdefghijklmnopqrst.supabase.co:443'' ''abcdefghijklmnopqrst''"
proof -
  have "project_ref_ok ''abcdefghijklmnopqrst''" by code_simp
  note pin = pin_is_exact [OF this, of "\<lambda>n. False"]
  have "base_address ''abcdefghijklmnopqrst'' (url_text (py_strip ''HTTPS://ABCDEFGHIJKLMNOPQRST.supabase.co''))"
    "\<not> base_address ''abcdefghijklmnopqrst'' (url_text (py_strip ''https://abcdefghijklmnopqrst.supabase.co:443''))" by code_simp+
  with pin show ?thesis by simp
qed

text \<open>C38. In a production deployment that starts, a worker and a browser's gateway that reach handlers never act under one
  service account, whatever tokens they show and whenever they are served.\<close>

theorem started_production_separates_roles:
  assumes "validate_production_config netloc_ok vars = Started report" "production_env (map_of vars)"
    "s_env w1 = map_of vars" "s_env w2 = map_of vars"
    "serve w1 sc1 q1 l1 = (From_app (Inr (rt1, Worker_service identity)), l1')"
    "serve w2 sc2 q2 l2 = (From_app (Inr (rt2, Browser_user u)), l2')"
  shows "\<exists>g. user_gateway u = Some g \<and> service_account_email g \<noteq> service_account_email identity"
proof -
  note s = production_started [OF assms(1,2)]
  have worker: "service_account_email identity \<in> set (approved_identities (map_of vars))"
    using worker_token_verified [OF served_worker(4) [OF assms(5)]] assms(3) by auto
  note gate = served_browser [OF assms(6), unfolded assms(4)]
  show ?thesis
  proof (cases "user_gateway u")
    case None
    with gate no_gateway_only_in_development s(4) show ?thesis by fastforce
  next
    case (Some g)
    with gate have "verify_gateway_token (map_of vars) (s_show w2) (s_gateway_verifier w2) (gateway_header q2) = Inr (Some g)" by simp
    from gateway_token_verified [OF this] have "service_account_email g \<in> set (approved_gateway_identities (map_of vars))" by blast
    with worker s(1) Some show ?thesis by auto
  qed
qed

lemma started_production_separates_roles_witness:
  "\<exists>g. user_gateway shared_user = Some g \<and> service_account_email g \<noteq> service_account_email shared_worker"
proof -
  obtain l1 l2 where served:
    "serve example_served (post ''/runs/r/claims'') example_api_request example_limiters = (From_app (Inr (create_claim_route, Worker_service shared_worker)), l1)"
    "serve example_served (post ''/runs/r/cancel'') example_api_request example_limiters = (From_app (Inr (cancel_run_route, Browser_user shared_user)), l2)"
    using shared_worker_served shared_user_served by (metis prod.collapse)
  have env: "s_env example_served = map_of (example_vars ''t'')" by (simp add: example_served_def)
  show ?thesis by (rule started_production_separates_roles [OF example_accepted example_production env env served])
qed



section \<open>Where validation and its promise differ\<close>

text \<open>A malformed budget variable makes the report itself raise, in an unpaid deployment too.\<close>

theorem report_raises:
  "validate netloc_ok [(''MILO_MAX_RETRIES'', ''many'')] = Inl (Not_an_integer ''MILO_MAX_RETRIES'')"
  by code_simp

text \<open>A token that is only a blank counts as a shared store at startup and as none in the limiter, which then refuses every
  request.\<close>

theorem blank_token_starts_and_refuses:
  "validate_production_config (\<lambda>n. False) (example_vars '' '') = Started [] \<and>
   enforce_rate_limit (map_of (example_vars '' '')) sha n t m reply c who l = (Some Rate_limiter_unavailable, l)"
proof -
  have "\<not> shared_configured (map_of (example_vars '' ''))" "Rate_Limit.is_production (map_of (example_vars '' ''))" by code_simp+
  with blank_accepted show ?thesis by (simp add: enforce_rate_limit_def Let_def)
qed

text \<open>One audience for gateway and worker is not refused.\<close>

theorem shared_audience_starts:
  "validate_production_config (\<lambda>n. False) (example_vars ''t'') = Started [] \<and>
   Api_Access.env_stripped (map_of (example_vars ''t'')) ''MILO_WORKER_AUDIENCE'' =
     Api_Access.env_stripped (map_of (example_vars ''t'')) ''MILO_GATEWAY_AUDIENCE''"
  unfolding example_accepted by code_simp

text \<open>A semicolon after the root path is accepted: the parser leaves the root path and empty parameters.\<close>

theorem bare_semicolon_is_accepted:
  "supabase_url_matches_project_ref netloc_ok ''https://abcdefghijklmnopqrst.supabase.co/;'' ''abcdefghijklmnopqrst''"
proof -
  have "project_ref_ok ''abcdefghijklmnopqrst''" by code_simp
  moreover have "url_text (py_strip ''https://abcdefghijklmnopqrst.supabase.co/;'') = ''https'' @ '':'' @ ''//'' @ ''abcdefghijklmnopqrst.supabase.co'' @ ''/;''"
    "py_lower ''https'' = ''https''" "py_lower ''abcdefghijklmnopqrst.supabase.co'' = authority_of ''abcdefghijklmnopqrst''" by code_simp+
  ultimately obtain path where "urlparse netloc_ok (py_strip ''https://abcdefghijklmnopqrst.supabase.co/;'') =
      Some \<lparr>url_scheme = ''https'', url_netloc = ''abcdefghijklmnopqrst.supabase.co'', url_path = path, url_params = [], url_query = [], url_fragment = []\<rparr>"
    "path \<in> {[], ''/''}" using parsed_base [of "''abcdefghijklmnopqrst''" _ "''https''" "''abcdefghijklmnopqrst.supabase.co''" "''/;''" netloc_ok] by blast
  moreover have "py_strip ''https://abcdefghijklmnopqrst.supabase.co/;'' = ''https://abcdefghijklmnopqrst.supabase.co/;''"
    "py_lower (py_strip ''abcdefghijklmnopqrst'') = ''abcdefghijklmnopqrst''" "py_lower ''https'' = ''https''"
    "py_lower ''abcdefghijklmnopqrst.supabase.co'' = ''abcdefghijklmnopqrst'' @ SUPABASE_HOSTED_URL_SUFFIX" by code_simp+
  ultimately show ?thesis by (auto simp: supabase_url_matches_project_ref_def Let_def SUPABASE_ROOT_PATHS_def)
qed

text \<open>Every flag the kill switch rules by is one the deployment contracts pin.\<close>

theorem kill_switch_flags_are_listed:
  "list_all (\<lambda>r. rule_flag r \<in> set EXECUTION_FLAGS) SURFACE_RULES \<and>
   list_all (\<lambda>rt. list_all (\<lambda>f. f \<in> set EXECUTION_FLAGS) (route_flags rt)) MUTATING_ROUTES"
  by code_simp

end
